(* ===== verification/Prelude.thy ===== *)
theory Prelude
  imports Main "HOL-Library.Word"
begin

unbundle bit_operations_syntax

text \<open>
  Shared ground of the development: names for the simulator's integer types
  (simulator/infra/types.h), collections of rewrite rules, and lemmas on words and
  lists used by several components.

  The templates of the code are instantiated with the unsigned built-in types
  \<open>uint32\<close> and \<open>uint64\<close>; a definition on \<open>'a word\<close> is read at these lengths.
  A \<open>size_t\<close> that only counts or indexes is a \<open>nat\<close>, and where a count can wrap the
  definition keeps the word.
\<close>

section \<open>Integer types\<close>

type_synonym uint8 = "8 word"
type_synonym uint16 = "16 word"
type_synonym uint32 = "32 word"
type_synonym uint64 = "64 word"
type_synonym Addr = "64 word"
type_synonym byte = "8 word"

section \<open>Collections of rewrite rules\<close>

text \<open>
  \<open>mask_simps\<close> turns the code's mask arithmetic into the library's \<open>mask\<close> and
  \<open>take_bit\<close>; \<open>frame_simps\<close> says which fields an operation leaves alone.
\<close>

named_theorems mask_simps
named_theorems frame_simps

section \<open>Words\<close>

lemma bit_ucast_lt: "bit (ucast (w :: 'a::len word) :: 'b::len word) n \<longleftrightarrow> n < LENGTH('b) \<and> bit w n"
  by (simp add: bit_ucast_iff)

lemma msb_word_sint: "bit (w :: 'a::len word) (LENGTH('a) - Suc 0) \<longleftrightarrow> sint w < 0"
  by (simp add: bit_last_iff)

lemma word_of_unatI: "unat w = n \<Longrightarrow> w = of_nat n"
  by auto

lemma unat_less: "unat (w :: 'a::len word) < 2 ^ LENGTH('a)"
  by simp

lemma unat_drop_bit: "unat (drop_bit n (w :: 'a::len word)) = unat w div 2 ^ n"
  by (subst unsigned_drop_bit_eq) (simp add: drop_bit_eq_div take_bit_nat_eq_self)

lemma unat_take_bit: "n \<le> LENGTH('a) \<Longrightarrow> unat (take_bit n (w :: 'a::len word)) = unat w mod 2 ^ n"
  by (subst unsigned_take_bit_eq) (simp_all add: take_bit_eq_mod)

lemma unat_ucast_up:
  "LENGTH('a) \<le> LENGTH('b) \<Longrightarrow> unat (ucast (x :: 'a::len word) :: 'b::len word) = unat x"
proof -
  assume "LENGTH('a) \<le> LENGTH('b)"
  then have "unat x < 2 ^ LENGTH('b)"
    by (meson less_le_trans numeral_le_iff one_le_numeral power_increasing unat_less)
  then show ?thesis by (simp add: unsigned_ucast_eq take_bit_nat_eq_self)
qed

lemma unat_pow2:
  assumes "k < LENGTH('a)"
  shows "unat (2 ^ k :: 'a::len word) = 2 ^ k"
proof -
  have "(2 :: nat) ^ k < 2 ^ LENGTH('a)" using assms by (rule power_strict_increasing) simp
  then have "unat (word_of_nat (2 ^ k) :: 'a word) = 2 ^ k" by (simp only: unat_of_nat mod_less)
  then show ?thesis by simp
qed

lemma unat_mask: "k < LENGTH('a) \<Longrightarrow> unat (mask k :: 'a::len word) = 2 ^ k - 1"
proof -
  assume k: "k < LENGTH('a)"
  then have "(2 ^ k :: 'a word) \<noteq> 0" using unat_pow2 [OF k] by auto
  then show ?thesis by (simp add: mask_eq_exp_minus_1 unat_minus_one unat_pow2 k)
qed

section \<open>Lists\<close>

lemma find_SomeD: "find P xs = Some x \<Longrightarrow> x \<in> set xs \<and> P x"
  by (induction xs) (auto split: if_splits)

lemma find_None_all: "find P xs = None \<longleftrightarrow> (\<forall>x \<in> set xs. \<not> P x)"
  by (induction xs) auto

end
