(* ===== verification/Macro.thy ===== *)
theory Macro
  imports Prelude
begin

text \<open>
  Bit masks, sign extension and packing, from simulator/infra/macro.h. Every template
  is a definition on \<open>'a word\<close>, with \<open>LENGTH('a)\<close> for \<open>bitwidth\<close>. The lemmas in
  \<open>mask_simps\<close> identify the code's masks with the library's.
\<close>

section \<open>Bit masks\<close>

definition lsb_set :: "'a::len word" where
  "lsb_set = 1"

definition msb_set :: "'a::len word" where
  "msb_set = push_bit (LENGTH('a) - 1) lsb_set"

definition all_ones :: "'a::len word" where
  "all_ones = (msb_set - 1) OR msb_set"

definition ones_ls :: "'a::len word \<Rightarrow> nat \<Rightarrow> 'a word" where
  "ones_ls v shamt = NOT (push_bit shamt (NOT v))"

definition ones_rs :: "'a::len word \<Rightarrow> nat \<Rightarrow> 'a word" where
  "ones_rs v shamt = NOT (drop_bit shamt (NOT v))"

definition bitmask :: "nat \<Rightarrow> 'a::len word" where
  "bitmask onecount = (if onecount = LENGTH('a) then all_ones else ones_ls 0 onecount)"

definition is_power_of_two :: "'a::len word \<Rightarrow> bool" where
  "is_power_of_two n \<longleftrightarrow> n \<noteq> 0 \<and> n AND (n - 1) = 0"

definition sign_extension :: "'a::len word \<Rightarrow> nat \<Rightarrow> 'a word" where
  "sign_extension v bits =
     (if bits < LENGTH('a)
      then let msb = (if bits = 0 then 0 else push_bit (bits - 1) 1)
           in ((v AND bitmask bits) XOR msb) - msb
      else v)"

definition trap_vector_address :: "'a::len word \<Rightarrow> 'a word" where
  "trap_vector_address v = drop_bit 2 v AND NOT (bitmask 3)"

section \<open>Splitting a word into narrower words\<close>

fun unpack_loop :: "nat \<Rightarrow> nat \<Rightarrow> 'f::len word \<Rightarrow> 't::len word list" where
  "unpack_loop 0 shift src = []"
| "unpack_loop (Suc n) shift src =
     ucast (drop_bit shift src AND bitmask LENGTH('t)) # unpack_loop n (shift + LENGTH('t)) src"

definition unpack_to :: "'f::len word \<Rightarrow> 't::len word list" where
  "unpack_to src = unpack_loop ((LENGTH('f) div 8) div (LENGTH('t) div 8)) 0 src"

fun pack_loop :: "'t::len word \<Rightarrow> nat \<Rightarrow> 'f::len word list \<Rightarrow> 't word" where
  "pack_loop result shift [] = result"
| "pack_loop result shift (v # src) =
     pack_loop (result OR push_bit shift (ucast v)) (shift + LENGTH('f)) src"

definition pack_from :: "'f::len word list \<Rightarrow> 't::len word" where
  "pack_from src = pack_loop 0 0 src"

section \<open>The masks are the library's masks\<close>

lemma msb_set_eq: "(msb_set :: 'a::len word) = 2 ^ (LENGTH('a) - 1)"
  by (simp add: msb_set_def lsb_set_def push_bit_eq_mult)

lemma all_ones_eq [mask_simps]: "(all_ones :: 'a::len word) = - 1"
proof (rule bit_word_eqI)
  fix n assume n: "n < LENGTH('a)"
  have "(msb_set :: 'a word) - 1 = mask (LENGTH('a) - 1)"
    by (simp add: msb_set_eq mask_eq_exp_minus_1)
  with n show "bit (all_ones :: 'a word) n = bit (- 1 :: 'a word) n"
    by (auto simp: all_ones_def bit_simps msb_set_eq)
qed

lemma bitmask_eq_mask [mask_simps]: "(bitmask n :: 'a::len word) = mask n"
  by (auto simp: bitmask_def all_ones_eq ones_ls_def bit_simps intro!: bit_word_eqI)

lemma ones_ls_bit:
  "bit (ones_ls (w :: 'a::len word) k) n \<longleftrightarrow> n < LENGTH('a) \<and> (n < k \<or> bit w (n - k))"
  by (auto simp: ones_ls_def bit_simps)

lemma ones_rs_bit:
  "bit (ones_rs (w :: 'a::len word) k) n \<longleftrightarrow> n < LENGTH('a) \<and> (LENGTH('a) \<le> n + k \<or> bit w (n + k))"
  by (auto simp: ones_rs_def bit_simps add.commute)

section \<open>Sign extension is the library's signed truncation\<close>

lemma xor_flip_set:
  assumes "\<not> bit (x :: 'a::len word) k"
  shows "x XOR 2 ^ k = x + 2 ^ k"
proof -
  have "x AND 2 ^ k = 0"
    using assms by (auto simp: bit_simps intro!: bit_word_eqI)
  then show ?thesis by (simp add: disjunctive_add_eq_xor)
qed

lemma xor_flip_unset:
  assumes "bit (x :: 'a::len word) k"
  shows "x XOR 2 ^ k = x - 2 ^ k"
proof -
  have "\<not> bit (x XOR 2 ^ k) k"
    using assms bit_imp_le_length [OF assms] by (simp add: bit_simps)
  then have "(x XOR 2 ^ k) + 2 ^ k = (x XOR 2 ^ k) XOR 2 ^ k"
    by (simp add: xor_flip_set)
  then show ?thesis by (simp add: xor.assoc eq_diff_eq)
qed

lemma signed_take_bit_word_full: "signed_take_bit (LENGTH('a) - Suc 0) (v :: 'a::len word) = v"
proof (rule bit_word_eqI)
  fix i assume "i < LENGTH('a)"
  then have "min (LENGTH('a) - Suc 0) i = i" by simp
  then show "bit (signed_take_bit (LENGTH('a) - Suc 0) v) i = bit v i"
    using \<open>i < LENGTH('a)\<close> by (simp add: bit_simps)
qed

lemma sign_extension_signed_take_bit:
  assumes "0 < n" "n \<le> LENGTH('a)"
  shows "sign_extension (v :: 'a::len word) n = signed_take_bit (n - Suc 0) v"
proof (cases "n < LENGTH('a)")
  case True
  let ?m = "(2 :: 'a word) ^ (n - Suc 0)"
  have Suc: "Suc (n - Suc 0) = n" using assms by simp
  have ext: "sign_extension v n = (take_bit n v XOR ?m) - ?m"
    using True assms by (simp add: sign_extension_def bitmask_eq_mask push_bit_eq_mult take_bit_eq_mask Let_def)
  have "2 ^ n = ?m + ?m" using Suc by (metis mult_2 power_Suc)
  then show ?thesis using assms
    by (cases "bit v (n - Suc 0)")
      (simp_all add: ext signed_take_bit_eq_take_bit_minus Suc xor_flip_set xor_flip_unset bit_simps
        algebra_simps)
next
  case False
  with assms have "n = LENGTH('a)" by simp
  then have "sign_extension v n = signed_take_bit (LENGTH('a) - Suc 0) v" by (simp add: sign_extension_def signed_take_bit_word_full)
  with \<open>n = LENGTH('a)\<close> show ?thesis by simp
qed

lemma sint_signed_take_bit:
  assumes "0 < n" "n \<le> LENGTH('a)"
  shows "sint (signed_take_bit (n - Suc 0) (v :: 'a::len word)) = signed_take_bit (n - Suc 0) (uint v)"
proof (rule bit_eqI)
  fix i
  show "bit (sint (signed_take_bit (n - Suc 0) v)) i = bit (signed_take_bit (n - Suc 0) (uint v)) i"
    using assms by (auto simp: bit_sint_iff bit_simps min_def bit_uint_iff)
qed
lemma bit_sign_extension:
  assumes "0 < n" "n \<le> LENGTH('a)"
  shows "bit (sign_extension (v :: 'a::len word) n) i \<longleftrightarrow> i < LENGTH('a) \<and> bit v (min i (n - Suc 0))"
  using assms by (auto simp: sign_extension_signed_take_bit bit_simps min.commute)

lemma sint_sign_extension:
  assumes "0 < n" "n \<le> LENGTH('a)"
  shows "sint (sign_extension (v :: 'a::len word) n) = signed_take_bit (n - Suc 0) (uint v)"
  using assms by (simp add: sign_extension_signed_take_bit sint_signed_take_bit)

section \<open>Powers of two\<close>

lemma nat_and_pred_zero:
  fixes n :: nat
  shows "0 < n \<Longrightarrow> n AND (n - 1) = 0 \<Longrightarrow> \<exists>k. n = 2 ^ k"
proof (induction n rule: less_induct)
  case (less n)
  show ?case
  proof (cases "even n")
    case True
    then obtain m where m: "n = 2 * m" by blast
    with less.prems have "0 < m" "m < n" by auto
    from less.prems(2) m \<open>0 < m\<close> have "m AND (m - 1) = 0"
      by (subst (asm) and_rec) (cases m, auto)
    with less.IH \<open>0 < m\<close> \<open>m < n\<close> obtain k where "m = 2 ^ k" by blast
    then have "n = 2 ^ Suc k" using m by simp
    then show ?thesis by blast
  next
    case False
    then obtain m where m: "n = 2 * m + 1" by (blast elim: oddE)
    with less.prems(2) have "m = 0" by (subst (asm) and_rec) simp
    then have "n = 2 ^ 0" using m by simp
    then show ?thesis by blast
  qed
qed

lemma is_power_of_two_iff: "is_power_of_two (w :: 'a::len word) \<longleftrightarrow> (\<exists>k < LENGTH('a). w = 2 ^ k)"
proof
  assume "is_power_of_two w"
  then have w: "w \<noteq> 0" "w AND (w - 1) = 0" by (auto simp: is_power_of_two_def)
  from w(1) have pos: "0 < unat w" by (simp add: word_neq_0_conv unat_gt_0)
  have "unat (w AND (w - 1)) = unat w AND (unat w - 1)"
    using w(1) by (simp add: unsigned_and_eq unat_minus_one)
  with w(2) pos obtain k where k: "unat w = 2 ^ k"
    using nat_and_pred_zero [of "unat w"] by auto
  then have "(2 :: nat) ^ k < 2 ^ LENGTH('a)" by (metis unsigned_less)
  then have "k < LENGTH('a)" by simp
  moreover have "of_nat (unat w) = (2 ^ k :: 'a word)" by (simp add: k)
  then have "w = 2 ^ k" by simp
  ultimately show "\<exists>k < LENGTH('a). w = 2 ^ k" by blast
next
  assume "\<exists>k < LENGTH('a). w = 2 ^ k"
  then obtain k where "k < LENGTH('a)" "w = 2 ^ k" by blast
  then show "is_power_of_two w"
    by (auto simp: is_power_of_two_def mask_eq_exp_minus_1 [symmetric] bit_simps intro!: bit_word_eqI)
qed

end
