(* ===== verification/Trap.thy ===== *)
theory Trap
  imports Prelude
begin

text \<open>
  Traps and their numbers in the GDB, RISC-V and MIPS formats, from
  simulator/func_sim/traps (trap.h, trap.cpp, trap.def). The RISC-V cause numbers come from
  the generated header riscv.opcode.gen.h, so they are the parameter \<open>riscv_causes\<close>. The
  reverse conversions scan an unordered map; the order in which it is iterated is the
  parameter \<open>order\<close>, of which the lemmas use only that it visits every trap of trap.def.
\<close>

section \<open>The traps of trap.def\<close>

datatype trap =
    NO_TRAP
  | HALT
  | BREAKPOINT
  | EXPLICIT_TRAP
  | SYSCALL
  | INTEGER_OVERFLOW
  | UNSUPPORTED_SYSCALL
  | UNKNOWN_INSTRUCTION
  | RESERVED_INSTRUCTION
  | COPROCESSOR_UNUSABLE
  | UNALIGNED_LOAD
  | UNALIGNED_STORE
  | UNALIGNED_FETCH
  | FP_OVERFLOW
  | FP_UNDERFLOW
  | FP_DIV_BY_ZERO
  | INVALID_TRAP

datatype trap_error = InvalidTrapConversion string

record riscv_causes =
  CAUSE_BREAKPOINT :: uint8
  CAUSE_USER_ECALL :: uint8
  CAUSE_ILLEGAL_INSTRUCTION :: uint8
  CAUSE_MISALIGNED_LOAD :: uint8
  CAUSE_MISALIGNED_STORE :: uint8
  CAUSE_MISALIGNED_FETCH :: uint8

record trap_entry =
  str :: string
  gdb :: uint8
  riscv :: uint8
  mips :: uint8

definition GDB_SIGNAL_0 :: uint8 where "GDB_SIGNAL_0 = 0"
definition GDB_SIGNAL_ILL :: uint8 where "GDB_SIGNAL_ILL = 4"
definition GDB_SIGNAL_TRAP :: uint8 where "GDB_SIGNAL_TRAP = 5"
definition GDB_SIGNAL_BUS :: uint8 where "GDB_SIGNAL_BUS = 10"
definition GDB_SIGNAL_SYS :: uint8 where "GDB_SIGNAL_SYS = 12"

definition MIPS_EXC_ADEL :: uint8 where "MIPS_EXC_ADEL = 4"
definition MIPS_EXC_ADES :: uint8 where "MIPS_EXC_ADES = 5"
definition MIPS_EXC_SYS :: uint8 where "MIPS_EXC_SYS = 8"
definition MIPS_EXC_BP :: uint8 where "MIPS_EXC_BP = 9"
definition MIPS_EXC_RI :: uint8 where "MIPS_EXC_RI = 10"
definition MIPS_EXC_CPU :: uint8 where "MIPS_EXC_CPU = 11"
definition MIPS_EXC_OV :: uint8 where "MIPS_EXC_OV = 12"
definition MIPS_EXC_TR :: uint8 where "MIPS_EXC_TR = 13"
definition MIPS_EXC_FPE :: uint8 where "MIPS_EXC_FPE = 15"
definition MIPS_EXC_FPOVF :: uint8 where "MIPS_EXC_FPOVF = 16"
definition MIPS_EXC_FPUNDF :: uint8 where "MIPS_EXC_FPUNDF = 17"

lemmas gdb_signals = GDB_SIGNAL_0_def GDB_SIGNAL_ILL_def GDB_SIGNAL_TRAP_def GDB_SIGNAL_BUS_def
  GDB_SIGNAL_SYS_def

lemmas mips_exceptions = MIPS_EXC_ADEL_def MIPS_EXC_ADES_def MIPS_EXC_SYS_def MIPS_EXC_BP_def
  MIPS_EXC_RI_def MIPS_EXC_CPU_def MIPS_EXC_OV_def MIPS_EXC_TR_def MIPS_EXC_FPE_def
  MIPS_EXC_FPOVF_def MIPS_EXC_FPUNDF_def

definition converter :: "riscv_causes \<Rightarrow> (trap \<times> trap_entry) list" where
  "converter c = map (\<lambda>(t, n, g, r, m). (t, \<lparr>str = n, gdb = g, riscv = r, mips = m\<rparr>))
    [(NO_TRAP,              ''NO_TRAP'',              GDB_SIGNAL_0,    0x10, 0),
     (HALT,                 ''HALT'',                 GDB_SIGNAL_0,    0x10, 0),
     (BREAKPOINT,           ''BREAKPOINT'',           GDB_SIGNAL_TRAP, CAUSE_BREAKPOINT c, MIPS_EXC_TR),
     (EXPLICIT_TRAP,        ''EXPLICIT_TRAP'',        GDB_SIGNAL_TRAP, CAUSE_BREAKPOINT c, MIPS_EXC_BP),
     (SYSCALL,              ''SYSCALL'',              GDB_SIGNAL_TRAP, CAUSE_USER_ECALL c, MIPS_EXC_SYS),
     (INTEGER_OVERFLOW,     ''INTEGER_OVERFLOW'',     GDB_SIGNAL_TRAP, 0x10, MIPS_EXC_OV),
     (UNSUPPORTED_SYSCALL,  ''UNSUPPORTED_SYSCALL'',  GDB_SIGNAL_SYS,  0x10, 0),
     (UNKNOWN_INSTRUCTION,  ''UNKNOWN_INSTRUCTION'',  GDB_SIGNAL_ILL,  CAUSE_ILLEGAL_INSTRUCTION c, MIPS_EXC_RI),
     (RESERVED_INSTRUCTION, ''RESERVED_INSTRUCTION'', GDB_SIGNAL_ILL,  CAUSE_ILLEGAL_INSTRUCTION c, MIPS_EXC_RI),
     (COPROCESSOR_UNUSABLE, ''COPROCESSOR_UNUSABLE'', GDB_SIGNAL_ILL,  CAUSE_ILLEGAL_INSTRUCTION c, MIPS_EXC_CPU),
     (UNALIGNED_LOAD,       ''UNALIGNED_LOAD'',       GDB_SIGNAL_BUS,  CAUSE_MISALIGNED_LOAD c, MIPS_EXC_ADEL),
     (UNALIGNED_STORE,      ''UNALIGNED_STORE'',      GDB_SIGNAL_BUS,  CAUSE_MISALIGNED_STORE c, MIPS_EXC_ADES),
     (UNALIGNED_FETCH,      ''UNALIGNED_FETCH'',      GDB_SIGNAL_BUS,  CAUSE_MISALIGNED_FETCH c, MIPS_EXC_ADEL),
     (FP_OVERFLOW,          ''FP_OVERFLOW'',          GDB_SIGNAL_BUS,  0x10, MIPS_EXC_FPOVF),
     (FP_UNDERFLOW,         ''FP_UNDERFLOW'',         GDB_SIGNAL_BUS,  0x10, MIPS_EXC_FPUNDF),
     (FP_DIV_BY_ZERO,       ''FP_DIV_BY_ZERO'',       GDB_SIGNAL_BUS,  0x10, MIPS_EXC_FPE)]"

section \<open>Conversions\<close>

definition convert_to :: "riscv_causes \<Rightarrow> (trap_entry \<Rightarrow> 'b) \<Rightarrow> trap \<Rightarrow> trap_error + 'b" where
  "convert_to c field t =
     (case map_of (converter c) t of
        None \<Rightarrow> Inl (InvalidTrapConversion ''Invalid trap'')
      | Some e \<Rightarrow> Inr (field e))"

definition convert_from ::
  "riscv_causes \<Rightarrow> trap list \<Rightarrow> (trap_entry \<Rightarrow> uint8) \<Rightarrow> uint8 \<Rightarrow> string \<Rightarrow> trap_error + trap" where
  "convert_from c order field num name =
     (case find (\<lambda>t. case map_of (converter c) t of None \<Rightarrow> False | Some e \<Rightarrow> field e = num) order of
        Some t \<Rightarrow> Inr t
      | None \<Rightarrow> Inl (InvalidTrapConversion
          (''Unsupported '' @ name @ '' trap code ('' @ [char_of (unat num)] @ '')'')))"

definition print_trap :: "riscv_causes \<Rightarrow> trap \<Rightarrow> trap_error + string" where
  "print_trap c t = convert_to c str t"

definition to_gdb_format :: "riscv_causes \<Rightarrow> trap \<Rightarrow> trap_error + uint8" where
  "to_gdb_format c t = convert_to c gdb t"

definition to_riscv_format :: "riscv_causes \<Rightarrow> trap \<Rightarrow> trap_error + uint8" where
  "to_riscv_format c t = convert_to c riscv t"

definition to_mips_format :: "riscv_causes \<Rightarrow> trap \<Rightarrow> trap_error + uint8" where
  "to_mips_format c t = convert_to c mips t"

definition from_gdb_format :: "riscv_causes \<Rightarrow> trap list \<Rightarrow> uint8 \<Rightarrow> trap_error + trap" where
  "from_gdb_format c order num = convert_from c order gdb num ''GDB''"

definition from_mips_format :: "riscv_causes \<Rightarrow> trap list \<Rightarrow> uint8 \<Rightarrow> trap_error + trap" where
  "from_mips_format c order num = convert_from c order mips num ''MIPS''"

definition from_riscv_format :: "riscv_causes \<Rightarrow> trap list \<Rightarrow> uint8 \<Rightarrow> trap_error + trap" where
  "from_riscv_format c order num = convert_from c order riscv num ''RISC-V''"

section \<open>Every conversion\<close>

text \<open>What the iteration order of the hash map promises: it visits the keys of the map.\<close>

definition map_order :: "riscv_causes \<Rightarrow> trap list \<Rightarrow> bool" where
  "map_order c order \<longleftrightarrow> set order = fst ` set (converter c)"

lemma converter_total: "(map_of (converter c) t \<noteq> None) = (t \<noteq> INVALID_TRAP)"
  by (cases t) (simp_all add: converter_def)

lemma convert_to_Inl_iff: "(\<exists>e. convert_to c field t = Inl e) \<longleftrightarrow> t = INVALID_TRAP"
  using converter_total [of c t] by (auto simp: convert_to_def split: option.splits)

lemma convert_to_Inr_iff:
  "convert_to c field t = Inr v \<longleftrightarrow> (\<exists>e. map_of (converter c) t = Some e \<and> field e = v)"
  by (auto simp: convert_to_def split: option.splits)

lemma map_order_all: "map_order c order \<Longrightarrow> t \<in> set order \<longleftrightarrow> t \<noteq> INVALID_TRAP"
  using converter_total [of c t] by (auto simp: map_order_def map_of_eq_None_iff)

lemma convert_from_Inr:
  assumes "convert_from c order field num name = Inr t"
  shows "convert_to c field t = Inr num"
  using assms by (auto simp: convert_from_def convert_to_Inr_iff dest!: find_SomeD split: option.splits)

lemma convert_from_Inl_iff:
  assumes "map_order c order"
  shows "(\<exists>e. convert_from c order field num name = Inl e) \<longleftrightarrow> (\<forall>t. convert_to c field t \<noteq> Inr num)"
proof -
  have "(\<exists>e. convert_from c order field num name = Inl e)
      \<longleftrightarrow> (\<forall>t \<in> set order. \<forall>e. map_of (converter c) t = Some e \<longrightarrow> field e \<noteq> num)"
    by (auto simp: convert_from_def find_None_all dest!: find_SomeD split: option.splits)
  also have "\<dots> \<longleftrightarrow> (\<forall>t. convert_to c field t \<noteq> Inr num)"
  proof -
    have "t \<in> set order" if "map_of (converter c) t = Some e" for t e
      using that assms converter_total [of c t] by (simp add: map_order_all)
    then show ?thesis by (auto simp: convert_to_Inr_iff)
  qed
  finally show ?thesis .
qed

text \<open>for each of the three formats and for every iteration order of the conversion
  table, converting a number to a trap and back gives the number; the conversion from a number
  fails exactly when no trap has that number; and the conversion of a trap to a number fails
  exactly on the invalid trap.\<close>

theorem trap_conversion_round_trip:
  assumes "map_order c order"
  shows "(from_mips_format c order num = Inr t \<longrightarrow> to_mips_format c t = Inr num)
    \<and> (from_gdb_format c order num = Inr t \<longrightarrow> to_gdb_format c t = Inr num)
    \<and> (from_riscv_format c order num = Inr t \<longrightarrow> to_riscv_format c t = Inr num)
    \<and> ((\<exists>e. from_mips_format c order num = Inl e) \<longleftrightarrow> (\<forall>t. to_mips_format c t \<noteq> Inr num))
    \<and> ((\<exists>e. from_gdb_format c order num = Inl e) \<longleftrightarrow> (\<forall>t. to_gdb_format c t \<noteq> Inr num))
    \<and> ((\<exists>e. from_riscv_format c order num = Inl e) \<longleftrightarrow> (\<forall>t. to_riscv_format c t \<noteq> Inr num))
    \<and> ((\<exists>e. to_mips_format c t = Inl e) \<longleftrightarrow> t = INVALID_TRAP)"
  using assms convert_from_Inr convert_from_Inl_iff convert_to_Inl_iff
  by (simp add: from_mips_format_def from_gdb_format_def from_riscv_format_def
      to_mips_format_def to_gdb_format_def to_riscv_format_def)

text \<open>A concrete conversion in table order, at the first two causes of the privileged specification.\<close>

definition example_causes :: riscv_causes where
  "example_causes = \<lparr>CAUSE_BREAKPOINT = 3, CAUSE_USER_ECALL = 8, CAUSE_ILLEGAL_INSTRUCTION = 2,
     CAUSE_MISALIGNED_LOAD = 4, CAUSE_MISALIGNED_STORE = 6, CAUSE_MISALIGNED_FETCH = 0\<rparr>"

theorem trap_conversion_witness:
  "map_order example_causes (map fst (converter example_causes))
    \<and> from_mips_format example_causes (map fst (converter example_causes)) 8 = Inr SYSCALL
    \<and> to_mips_format example_causes SYSCALL = Inr 8"
proof -
  have 1: "map_order example_causes (map fst (converter example_causes))"
    by (simp add: map_order_def)
  have 2: "from_mips_format example_causes (map fst (converter example_causes)) 8 = Inr SYSCALL"
    by (simp add: from_mips_format_def convert_from_def converter_def mips_exceptions)
  show ?thesis
    using 1 2 trap_conversion_round_trip [OF 1, of 8 SYSCALL] by simp
qed

end
