(* ===== verification/Operation.thy ===== *)
theory Operation
  imports Macro Trap
begin

text \<open>
  The instruction in flight, from simulator/func_sim/operation.h: \<open>Operation\<close>,
  \<open>Datapath\<close> and \<open>BaseInstruction\<close> are the records of the same names, each extending the
  one before as the classes do. The two arrays are lists of three and two values,
  \<open>wf_datapath\<close>. The pointer to the executor function is a value of \<open>execute_fn\<close>, whose
  constructors name the functions of alu.h and multiplication.h, with the template
  arguments: a type as its width, a predicate or jump as its name.
\<close>

section \<open>Kinds of operations\<close>

datatype operation_type =
    OUT_ARITHM | OUT_DIVMULT | OUT_R_ACCUM | OUT_R_CONDM | OUT_R_JUMP | OUT_SYSCALL | OUT_BREAK
  | OUT_R_SUBTR | OUT_BRANCH | OUT_BRANCH_LIKELY | OUT_TRAP | OUT_LOAD | OUT_LOADU
  | OUT_PARTIAL_LOAD | OUT_STORE | OUT_J_JUMP | OUT_J_SPECIAL | OUT_FPU | OUT_UNKNOWN

datatype imm =
    Imm_NO | Imm_SHIFT | Imm_LOGIC | Imm_ARITH | Imm_TRAP | Imm_ADDR | Imm_JUMP | Imm_JUMP_REL

text \<open>The predicates of alu.h that parametrise branches, traps and set instructions.\<close>

datatype predicate =
    P_lez | P_gez | P_ltz | P_gtz | P_eq | P_ne | P_geu | P_ltu | P_ge | P_lt
  | P_eqi | P_nei | P_lti | P_gei | P_ltiu | P_geiu

datatype jump_fn = J_j | J_jr | J_riscv_jr

datatype address_fn =
    X_load_addr | X_store_addr | X_load_addr_aligned | X_load_addr_right32 | X_load_addr_left32
  | X_store_addr_aligned | X_store_addr_right32 | X_store_addr_left32 | X_addr

datatype arith_fn =
    X_addition nat | X_subtraction nat | X_riscv_addition nat | X_riscv_subtraction nat
  | X_addition_imm nat | X_riscv_addition_imm nat | X_addition_overflow nat
  | X_addition_overflow_imm nat | X_subtraction_overflow nat | X_upper_immediate nat | X_auipc

datatype shift_fn =
    X_sll nat | X_srl nat | X_sra nat | X_sllv nat | X_srlv nat | X_srav nat
  | X_slo nat | X_sloi nat | X_sro nat | X_sroi | X_rol | X_ror | X_rori
  | X_dsll32 | X_dsrl32 | X_dsra32

datatype logic_fn =
    X_andv | X_orv | X_xorv | X_nor | X_andi | X_ori | X_xori | X_orn | X_xnor
  | X_movn | X_movz | X_move | X_set predicate | X_max | X_maxu | X_min | X_minu

datatype bit_fn =
    X_clo nat | X_clz nat | X_ctz nat | X_pcnt nat
  | X_grev | X_riscv_unshfl | X_riscv_shfl | X_gorc nat | X_gorci
  | X_sbinv nat | X_sbext nat | X_clmul nat | X_pack nat | X_packu nat | X_bit_field_place

datatype control_fn =
    X_branch predicate | X_jump jump_fn | X_jump_and_link jump_fn | X_branch_and_link predicate
  | X_eret | X_breakpoint | X_syscall | X_halt | X_trap predicate | X_unknown_instruction
  | X_csrrw | X_csrrs | X_csrrwi

text \<open>The flag of a multiplication or division says that its type argument is signed.\<close>

datatype mult_fn =
    X_riscv_mult_h_uu nat | X_riscv_mult_h_ss nat | X_riscv_mult_h_su nat | X_riscv_mult_l nat
  | X_riscv_div bool nat | X_riscv_rem bool nat
  | X_mips_multiplication bool nat | X_mips_division bool nat

datatype execute_fn =
    X_do_nothing | Address_fn address_fn | Arith_fn arith_fn | Shift_fn shift_fn
  | Logic_fn logic_fn | Bit_fn bit_fn | Control_fn control_fn | Mult_fn mult_fn

text \<open>The width at which an executor works, 64 for the doubleword shifts.\<close>

fun arith_width :: "arith_fn \<Rightarrow> nat" where
  "arith_width (X_addition w) = w"
| "arith_width (X_subtraction w) = w"
| "arith_width (X_riscv_addition w) = w"
| "arith_width (X_riscv_subtraction w) = w"
| "arith_width (X_addition_imm w) = w"
| "arith_width (X_riscv_addition_imm w) = w"
| "arith_width (X_addition_overflow w) = w"
| "arith_width (X_addition_overflow_imm w) = w"
| "arith_width (X_subtraction_overflow w) = w"
| "arith_width _ = 0"

fun shift_width :: "shift_fn \<Rightarrow> nat" where
  "shift_width (X_sll w) = w"
| "shift_width (X_srl w) = w"
| "shift_width (X_sra w) = w"
| "shift_width (X_sllv w) = w"
| "shift_width (X_srlv w) = w"
| "shift_width (X_srav w) = w"
| "shift_width (X_slo w) = w"
| "shift_width (X_sloi w) = w"
| "shift_width (X_sro w) = w"
| "shift_width X_dsll32 = 64"
| "shift_width X_dsrl32 = 64"
| "shift_width X_dsra32 = 64"
| "shift_width _ = 0"

fun bit_width :: "bit_fn \<Rightarrow> nat" where
  "bit_width (X_clo w) = w"
| "bit_width (X_clz w) = w"
| "bit_width (X_ctz w) = w"
| "bit_width (X_pcnt w) = w"
| "bit_width (X_gorc w) = w"
| "bit_width (X_sbinv w) = w"
| "bit_width (X_sbext w) = w"
| "bit_width (X_clmul w) = w"
| "bit_width (X_pack w) = w"
| "bit_width (X_packu w) = w"
| "bit_width _ = 0"

fun mult_width :: "mult_fn \<Rightarrow> nat" where
  "mult_width (X_riscv_mult_h_uu w) = w"
| "mult_width (X_riscv_mult_h_ss w) = w"
| "mult_width (X_riscv_mult_h_su w) = w"
| "mult_width (X_riscv_mult_l w) = w"
| "mult_width (X_riscv_div s w) = w"
| "mult_width (X_riscv_rem s w) = w"
| "mult_width (X_mips_multiplication s w) = w"
| "mult_width (X_mips_division s w) = w"

fun execute_width :: "execute_fn \<Rightarrow> nat" where
  "execute_width (Arith_fn f) = arith_width f"
| "execute_width (Shift_fn f) = shift_width f"
| "execute_width (Bit_fn f) = bit_width f"
| "execute_width (Mult_fn f) = mult_width f"
| "execute_width _ = 0"

section \<open>Operation\<close>

definition NO_VAL32 :: nat where "NO_VAL32 = 0xdeadbeef"

record operation =
  opname :: string
  trap :: trap
  mem_addr :: Addr
  mem_size :: uint32
  imm_print_type :: imm
  delayed_slots :: uint8
  is_taken_branch :: bool
  print_dst :: "bool list"
  print_src :: "bool list"
  PC :: Addr
  new_PC :: Addr
  target :: Addr
  operation :: operation_type
  sequence_id :: uint64

definition is_direct_jump :: "'m operation_scheme \<Rightarrow> bool" where
  "is_direct_jump i \<longleftrightarrow> operation i = OUT_J_JUMP"

definition is_common_branch :: "'m operation_scheme \<Rightarrow> bool" where
  "is_common_branch i \<longleftrightarrow> operation i = OUT_BRANCH"

definition is_likely_branch :: "'m operation_scheme \<Rightarrow> bool" where
  "is_likely_branch i \<longleftrightarrow> operation i = OUT_BRANCH_LIKELY"

definition is_branch :: "'m operation_scheme \<Rightarrow> bool" where
  "is_branch i \<longleftrightarrow> is_common_branch i \<or> is_likely_branch i"

definition is_indirect_jump :: "'m operation_scheme \<Rightarrow> bool" where
  "is_indirect_jump i \<longleftrightarrow> operation i = OUT_R_JUMP"

definition is_jump :: "'m operation_scheme \<Rightarrow> bool" where
  "is_jump i \<longleftrightarrow> is_direct_jump i \<or> is_branch i \<or> is_indirect_jump i"

definition is_taken :: "'m operation_scheme \<Rightarrow> bool" where
  "is_taken i \<longleftrightarrow> is_direct_jump i \<or> is_indirect_jump i \<or> is_taken_branch i"

definition is_partial_load :: "'m operation_scheme \<Rightarrow> bool" where
  "is_partial_load i \<longleftrightarrow> operation i = OUT_PARTIAL_LOAD"

definition is_unsigned_load :: "'m operation_scheme \<Rightarrow> bool" where
  "is_unsigned_load i \<longleftrightarrow> operation i = OUT_LOADU"

definition is_signed_load :: "'m operation_scheme \<Rightarrow> bool" where
  "is_signed_load i \<longleftrightarrow> operation i = OUT_LOAD"

definition is_load :: "'m operation_scheme \<Rightarrow> bool" where
  "is_load i \<longleftrightarrow> is_unsigned_load i \<or> is_signed_load i \<or> is_partial_load i"

definition is_store :: "'m operation_scheme \<Rightarrow> bool" where
  "is_store i \<longleftrightarrow> operation i = OUT_STORE"

definition get_accumulation_type :: "'m operation_scheme \<Rightarrow> int" where
  "get_accumulation_type i =
     (if operation i = OUT_R_ACCUM then 1 else if operation i = OUT_R_SUBTR then - 1 else 0)"

definition is_halt :: "'m operation_scheme \<Rightarrow> bool" where
  "is_halt i \<longleftrightarrow> trap i = HALT"

definition is_conditional_move :: "'m operation_scheme \<Rightarrow> bool" where
  "is_conditional_move i \<longleftrightarrow> operation i = OUT_R_CONDM"

definition is_divmult :: "'m operation_scheme \<Rightarrow> bool" where
  "is_divmult i \<longleftrightarrow> operation i = OUT_DIVMULT \<or> get_accumulation_type i \<noteq> 0"

definition is_explicit_trap :: "'m operation_scheme \<Rightarrow> bool" where
  "is_explicit_trap i \<longleftrightarrow> operation i = OUT_TRAP"

definition has_trap :: "'m operation_scheme \<Rightarrow> bool" where
  "has_trap i \<longleftrightarrow> trap i \<noteq> NO_TRAP"

lemmas operation_predicates = is_direct_jump_def is_common_branch_def is_likely_branch_def
  is_branch_def is_indirect_jump_def is_jump_def is_taken_def is_partial_load_def
  is_unsigned_load_def is_signed_load_def is_load_def is_store_def get_accumulation_type_def
  is_halt_def is_conditional_move_def is_divmult_def is_explicit_trap_def has_trap_def

section \<open>Datapath and base instruction\<close>

record (overloaded) 'a datapath = operation +
  v_src :: "'a::len word list"
  v_dst :: "'a word list"
  v_imm :: "'a word"
  wmask :: "'a word"
  executor :: execute_fn
  complete :: bool
  memory_complete :: bool

record (overloaded) ('a, 'r) base_instruction = "'a::len datapath" +
  src :: "'r list"
  dst :: "'r list"

text \<open>The member initialisers, in the order of the fields.\<close>

definition new_operation :: "Addr \<Rightarrow> Addr \<Rightarrow> operation" where
  "new_operation pc next = \<lparr>opname = '''', trap = NO_TRAP, mem_addr = of_nat NO_VAL32,
     mem_size = of_nat NO_VAL32, imm_print_type = Imm_NO, delayed_slots = 0, is_taken_branch = False,
     print_dst = [False, False], print_src = [False, False, False], PC = pc, new_PC = next,
     target = of_nat NO_VAL32, operation = OUT_UNKNOWN, sequence_id = 0xdeadbeefdeadbeef\<rparr>"

definition new_base_instruction ::
  "Addr \<Rightarrow> Addr \<Rightarrow> execute_fn \<Rightarrow> 'r \<Rightarrow> ('a::len, 'r) base_instruction" where
  "new_base_instruction pc next x zero = operation.extend (new_operation pc next)
     \<lparr>v_src = [of_nat NO_VAL32, of_nat NO_VAL32, of_nat NO_VAL32],
      v_dst = [of_nat NO_VAL32, of_nat NO_VAL32], v_imm = of_nat NO_VAL32, wmask = all_ones,
      executor = x, complete = False, memory_complete = False,
      src = [zero, zero, zero], dst = [zero, zero]\<rparr>"

definition wf_datapath :: "('a::len, 'm) datapath_scheme \<Rightarrow> bool" where
  "wf_datapath i \<longleftrightarrow> length (v_src i) = 3 \<and> length (v_dst i) = 2"

text \<open>\<open>v_src.at\<close> and \<open>v_dst.at\<close> throw out of range, here \<open>None\<close>.\<close>

definition set_v_src :: "'a::len word \<Rightarrow> nat \<Rightarrow> ('a, 'm) datapath_scheme \<Rightarrow> ('a, 'm) datapath_scheme option" where
  "set_v_src x k i = (if k < length (v_src i) then Some (i\<lparr>v_src := (v_src i)[k := x]\<rparr>) else None)"

definition get_v_src :: "('a::len, 'm) datapath_scheme \<Rightarrow> nat \<Rightarrow> 'a word option" where
  "get_v_src i k = (if k < length (v_src i) then Some (v_src i ! k) else None)"

definition set_v_dst :: "'a::len word \<Rightarrow> nat \<Rightarrow> ('a, 'm) datapath_scheme \<Rightarrow> ('a, 'm) datapath_scheme option" where
  "set_v_dst x k i = (if k < length (v_dst i) then Some (i\<lparr>v_dst := (v_dst i)[k := x]\<rparr>) else None)"

definition get_v_dst :: "('a::len, 'm) datapath_scheme \<Rightarrow> nat \<Rightarrow> 'a word option" where
  "get_v_dst i k = (if k < length (v_dst i) then Some (v_dst i ! k) else None)"

definition sign_extension_for_load :: "('a::len, 'm) datapath_scheme \<Rightarrow> 'a word \<Rightarrow> 'a word" where
  "sign_extension_for_load i x = sign_extension x (unat (8 * mem_size i))"

definition has_memory_address :: "('a::len, 'm) datapath_scheme \<Rightarrow> bool" where
  "has_memory_address i \<longleftrightarrow> (is_load i \<or> is_store i) \<and> complete i"

definition is_dst_complete :: "('a::len, 'm) datapath_scheme \<Rightarrow> bool" where
  "is_dst_complete i \<longleftrightarrow> (if is_load i then memory_complete i else complete i)"

text \<open>The assertion \<open>is_load()\<close> is the \<open>None\<close> branch.\<close>

definition load :: "'a::len word \<Rightarrow> ('a, 'm) datapath_scheme \<Rightarrow> ('a, 'm) datapath_scheme option" where
  "load x i =
     (let i = i\<lparr>memory_complete := True\<rparr>
      in if is_load i
         then set_v_dst (if is_unsigned_load i then x else sign_extension_for_load i x) 0 i
         else None)"

section \<open>Lemmas\<close>

lemma wf_new_base_instruction: "wf_datapath (new_base_instruction pc next x z)"
  by (simp add: wf_datapath_def new_base_instruction_def operation.extend_def)

text \<open>The predicates depend on the kind of operation alone (and \<open>is_taken\<close> on the outcome).\<close>

lemma operation_predicates_frame [frame_simps]:
  assumes "operation i = operation j"
  shows "is_load i = is_load j" "is_store i = is_store j" "is_jump i = is_jump j"
    "is_branch i = is_branch j" "is_divmult i = is_divmult j"
    "get_accumulation_type i = get_accumulation_type j"
  using assms by (simp_all add: operation_predicates)

lemma is_jump_not_memory: "is_jump i \<Longrightarrow> \<not> is_load i \<and> \<not> is_store i"
  by (auto simp: operation_predicates)

lemma load_wf: "load x i = Some j \<Longrightarrow> wf_datapath i \<Longrightarrow> wf_datapath j"
  by (auto simp: load_def Let_def set_v_dst_def wf_datapath_def split: if_splits)

lemma load_Some_iff: "wf_datapath i \<Longrightarrow> (\<exists>j. load x i = Some j) \<longleftrightarrow> is_load i"
  by (auto simp: load_def Let_def set_v_dst_def wf_datapath_def operation_predicates)

end
