(* ===== verification/Alu_Primitives.thy ===== *)
theory Alu_Primitives
  imports Macro
begin

text \<open>
  The bit primitives of simulator/func_sim/alu_primitives.h, and \<open>bit_shuffle\<close> and
  \<open>align_up\<close> of simulator/func_sim/alu.h. A template argument that narrows a register
  (\<open>uint32\<close> on 64-bit registers) is its width \<open>w\<close>; the tables of the instruction sets
  never select a width above the register's. The functions of the C++ header
  \<open>bit\<close> are written out. The lemmas read every permutation off the bit indices.
\<close>

section \<open>Counting and rotating\<close>

definition popcount :: "'a::len word \<Rightarrow> nat" where
  "popcount x = length (filter (bit x) [0..<LENGTH('a)])"

definition count_leading_zeroes :: "nat \<Rightarrow> 'a::len word \<Rightarrow> nat" where
  "count_leading_zeroes w x = length (takeWhile (\<lambda>i. \<not> bit x i) (rev [0..<w]))"

definition count_leading_ones :: "nat \<Rightarrow> 'a::len word \<Rightarrow> nat" where
  "count_leading_ones w x = length (takeWhile (bit x) (rev [0..<w]))"

definition count_trailing_zeroes :: "nat \<Rightarrow> 'a::len word \<Rightarrow> nat" where
  "count_trailing_zeroes w x = length (takeWhile (\<lambda>i. \<not> bit x i) [0..<w])"

definition log_bitwidth :: "nat \<Rightarrow> nat" where
  "log_bitwidth w = length (takeWhile (\<lambda>i. \<not> bit w i) [0..<w])"

definition circ_ls :: "'a::len word \<Rightarrow> nat \<Rightarrow> 'a word" where
  "circ_ls x shamt =
     (let r = shamt mod LENGTH('a)
      in if r = 0 then x else push_bit r x OR drop_bit (LENGTH('a) - r) x)"

definition circ_rs :: "'a::len word \<Rightarrow> nat \<Rightarrow> 'a word" where
  "circ_rs x shamt =
     (let r = shamt mod LENGTH('a)
      in if r = 0 then x else drop_bit r x OR push_bit (LENGTH('a) - r) x)"

section \<open>Arithmetic shift and overflow\<close>

text \<open>
  The code takes the first definition where the compiler's shift of a signed value is
  arithmetic, and the second, portable one elsewhere.
\<close>

definition arithmetic_rs :: "'a::len word \<Rightarrow> nat \<Rightarrow> 'a word" where
  "arithmetic_rs v shamt = signed_drop_bit shamt v"

definition arithmetic_rs_portable :: "'a::len word \<Rightarrow> nat \<Rightarrow> 'a word" where
  "arithmetic_rs_portable v shamt =
     (if v AND msb_set = 0 then drop_bit shamt v else ones_rs v shamt)"

definition is_negative :: "nat \<Rightarrow> 'a::len word \<Rightarrow> bool" where
  "is_negative w v \<longleftrightarrow> v AND push_bit (w - 1) 1 \<noteq> 0"

definition is_positive :: "nat \<Rightarrow> 'a::len word \<Rightarrow> bool" where
  "is_positive w v \<longleftrightarrow> \<not> is_negative w v \<and> v \<noteq> 0"

definition test_addition_overflow :: "nat \<Rightarrow> 'a::len word \<Rightarrow> 'a word \<Rightarrow> 'a word \<times> bool" where
  "test_addition_overflow w val1 val2 =
     (let result = take_bit w (take_bit w val1 + take_bit w val2);
          r = LENGTH('a);
          is_overflow = (is_positive r val1 \<and> is_positive r val2 \<and> is_negative w result
            \<or> is_negative r val1 \<and> is_negative r val2 \<and> is_positive w result)
      in (result, is_overflow))"

definition test_subtraction_overflow :: "nat \<Rightarrow> 'a::len word \<Rightarrow> 'a word \<Rightarrow> 'a word \<times> bool" where
  "test_subtraction_overflow w val1 val2 =
     (let result = take_bit w (take_bit w val1 - take_bit w val2);
          r = LENGTH('a);
          is_overflow = (is_positive r val1 \<and> is_negative r val2 \<and> is_negative w result
            \<or> is_negative r val1 \<and> is_positive r val2 \<and> is_positive w result)
      in (result, is_overflow))"

section \<open>Bit permutations\<close>

definition interleaved_mask :: "nat \<Rightarrow> 'a::len word" where
  "interleaved_mask density =
     fold (\<lambda>i result. if (i div 2 ^ density) mod 2 = 0 then result OR push_bit i lsb_set else result)
       [0..<LENGTH('a)] 0"

definition shuffle_mask :: "nat \<Rightarrow> nat \<Rightarrow> 'a::len word" where
  "shuffle_mask shift density =
     fold (\<lambda>i result. if (i div 2 ^ density) mod 4 = shift then result OR push_bit i lsb_set else result)
       [0..<LENGTH('a)] 0"

definition gen_reverse :: "'a::len word \<Rightarrow> nat \<Rightarrow> 'a word" where
  "gen_reverse v shamt =
     fold (\<lambda>i v. let shift = 2 ^ i in
         if shamt AND shift \<noteq> 0
         then push_bit shift (v AND interleaved_mask i) OR drop_bit shift (v AND NOT (interleaved_mask i))
         else v)
       [0..<log_bitwidth LENGTH('a)] v"

definition gen_or_combine :: "'a::len word \<Rightarrow> nat \<Rightarrow> 'a word" where
  "gen_or_combine v shamt =
     fold (\<lambda>i v. let shift = 2 ^ i in
         if shamt AND shift \<noteq> 0
         then v OR (push_bit shift (v AND interleaved_mask i)
                    OR drop_bit shift (v AND NOT (interleaved_mask i)))
         else v)
       [0..<log_bitwidth LENGTH('a)] v"

definition align_up :: "nat \<Rightarrow> 'a::len word \<Rightarrow> 'a word" where
  "align_up n v = push_bit n (drop_bit n (v + bitmask n))"

definition bit_shuffle :: "'a::len word \<Rightarrow> nat \<Rightarrow> 'a word" where
  "bit_shuffle v level =
     (let maskL = shuffle_mask 2 level;
          maskR = shuffle_mask 1 level;
          shamt = 2 ^ level;
          result = v AND NOT (maskL OR maskR)
      in result OR ((push_bit shamt v AND maskL) OR (drop_bit shamt v AND maskR)))"

section \<open>Masks by index\<close>

lemma fold_mask_bit:
  "bit (fold (\<lambda>i result. if P i then result OR push_bit i lsb_set else result) xs m :: 'a::len word) n
    \<longleftrightarrow> bit m n \<or> n \<in> set xs \<and> n < LENGTH('a) \<and> P n"
  by (induction xs arbitrary: m) (auto simp: lsb_set_def bit_simps)

lemma bit_interleaved_mask:
  "bit (interleaved_mask d :: 'a::len word) n \<longleftrightarrow> n < LENGTH('a) \<and> \<not> bit n d"
proof -
  have "(n div 2 ^ d) mod 2 = 0 \<longleftrightarrow> \<not> bit n d"
    by (metis bit_iff_odd even_iff_mod_2_eq_zero)
  then show ?thesis by (auto simp: interleaved_mask_def fold_mask_bit)
qed

lemma bit_shuffle_mask:
  "bit (shuffle_mask s d :: 'a::len word) n \<longleftrightarrow> n < LENGTH('a) \<and> (n div 2 ^ d) mod 4 = s"
  by (auto simp: shuffle_mask_def fold_mask_bit)

lemma log_bitwidth_exp: "log_bitwidth (2 ^ k) = k"
proof -
  have "k < 2 ^ k" by simp
  have split: "[0..<2 ^ k] = [0..<k] @ k # [Suc k..<2 ^ k]"
    using \<open>k < 2 ^ k\<close> by (metis le_add_diff_inverse less_imp_le upt_add_eq_append upt_conv_Cons zero_le)
  have "takeWhile (\<lambda>i. \<not> bit ((2 :: nat) ^ k) i) ([0..<k] @ k # [Suc k..<2 ^ k]) = [0..<k]"
    by (subst takeWhile_append2) (auto simp: bit_simps)
  with split show ?thesis by (simp add: log_bitwidth_def)
qed

section \<open>Flipping a bit of an index\<close>

lemma nat_xor_exp:
  fixes n :: nat
  shows "n XOR 2 ^ i = (if bit n i then n - 2 ^ i else n + 2 ^ i)"
proof (cases "bit n i")
  case True
  have "\<not> bit (n XOR 2 ^ i) i" using True by (simp add: bit_simps)
  then have "(n XOR 2 ^ i) AND 2 ^ i = 0"
    by (auto simp: bit_simps intro!: bit_eqI)
  then have "(n XOR 2 ^ i) + 2 ^ i = (n XOR 2 ^ i) XOR 2 ^ i"
    by (rule disjunctive_add_eq_xor)
  with True show ?thesis by (simp add: xor.assoc)
next
  case False
  then have "n AND 2 ^ i = 0" by (auto simp: bit_simps intro!: bit_eqI)
  with False show ?thesis by (simp add: disjunctive_add_eq_xor)
qed


lemma bit_add_exp: "bit (n + 2 ^ i) i \<longleftrightarrow> \<not> bit (n :: nat) i"
  by (simp add: bit_iff_odd div_add_self2)

lemma bit_sub_exp: "2 ^ i \<le> n \<Longrightarrow> bit (n - 2 ^ i) i \<longleftrightarrow> \<not> bit (n :: nat) i"
  using bit_add_exp [of "n - 2 ^ i" i] by simp

lemma bit_le_exp: "bit (n :: nat) i \<Longrightarrow> 2 ^ i \<le> n"
  by (metis bit_iff_odd div_less even_zero not_le)

lemma nat_xor_less_exp: "(n :: nat) < 2 ^ k \<Longrightarrow> s < 2 ^ k \<Longrightarrow> n XOR s < 2 ^ k"
  by (metis take_bit_nat_eq_self take_bit_nat_eq_self_iff take_bit_xor)

section \<open>Generalised reverse\<close>

lemma gen_reverse_step:
  assumes len: "LENGTH('a) = 2 ^ k" and "i < k"
  shows "bit (push_bit (2 ^ i) (v AND interleaved_mask i)
      OR drop_bit (2 ^ i) (v AND NOT (interleaved_mask i)) :: 'a::len word) n
    \<longleftrightarrow> n < LENGTH('a) \<and> bit v (n XOR 2 ^ i)"
proof (cases "n < LENGTH('a)")
  case True
  then have lt: "n XOR 2 ^ i < LENGTH('a)"
    using assms by (simp add: nat_xor_less_exp power_strict_increasing)
  show ?thesis
  proof (cases "bit n i")
    case set: True
    then have "2 ^ i \<le> n" by (rule bit_le_exp)
    with set True show ?thesis
      by (auto simp: bit_simps bit_interleaved_mask nat_xor_exp bit_sub_exp bit_add_exp add.commute)
  next
    case unset: False
    with True lt show ?thesis
      by (auto simp: bit_simps bit_interleaved_mask nat_xor_exp bit_sub_exp bit_add_exp add.commute)
  qed
next
  case False
  then show ?thesis by (auto simp: bit_simps dest: bit_imp_le_length)
qed

lemma bit_gen_reverse:
  assumes len: "LENGTH('a) = 2 ^ k"
  shows "bit (gen_reverse (v :: 'a::len word) s) n \<longleftrightarrow> n < LENGTH('a) \<and> bit v (n XOR take_bit k s)"
proof -
  let ?step = "\<lambda>i v. let shift = 2 ^ i in
         if s AND shift \<noteq> 0
         then push_bit shift (v AND interleaved_mask i) OR drop_bit shift (v AND NOT (interleaved_mask i))
         else v :: 'a word"
  have "j \<le> k \<Longrightarrow> bit (fold ?step [0..<j] v) n \<longleftrightarrow> n < LENGTH('a) \<and> bit v (n XOR take_bit j s)" for j n
  proof (induction j arbitrary: n)
    case 0
    then show ?case by (auto dest: bit_imp_le_length)
  next
    case (Suc j)
    have hit: "s AND 2 ^ j \<noteq> 0 \<longleftrightarrow> bit s j"
      by (simp add: and_exp_eq_0_iff_not_bit)
    show ?case
    proof (cases "bit s j")
      case True
      have "take_bit (Suc j) s = take_bit j s XOR 2 ^ j"
        using True by (simp add: take_bit_Suc_from_most nat_xor_exp bit_simps)
      moreover have "n < LENGTH('a) \<Longrightarrow> n XOR 2 ^ j < LENGTH('a)"
        using Suc.prems len by (simp add: nat_xor_less_exp power_strict_increasing)
      ultimately show ?thesis
        using Suc True hit gen_reverse_step [OF len, of j "fold ?step [0..<j] v" n]
        by (simp add: Let_def xor.assoc xor.commute [of "2 ^ j"]) blast
    next
      case False
      then have "take_bit (Suc j) s = take_bit j s"
        by (simp add: take_bit_Suc_from_most)
      with Suc False hit show ?thesis by (simp add: Let_def)
    qed
  qed
  then show ?thesis by (simp add: gen_reverse_def len log_bitwidth_exp)
qed

section \<open>Shuffles swap two adjacent bits of the index\<close>

definition swap_index :: "nat \<Rightarrow> nat \<Rightarrow> nat" where
  "swap_index l n = (if (n div 2 ^ l) mod 4 = 1 then n + 2 ^ l
     else if (n div 2 ^ l) mod 4 = 2 then n - 2 ^ l else n)"

lemma mod4_pred: "(q + 1) mod 4 = 2 \<Longrightarrow> q mod 4 = (1 :: nat)"
  by presburger

lemma mod4_succ: "q mod 4 = 1 \<Longrightarrow> (q + 1) mod 4 = (2 :: nat)"
  by presburger

lemma mod4_bound: "q mod 4 = 1 \<Longrightarrow> q < 4 * m \<Longrightarrow> q + 1 < 4 * (m :: nat)"
  by presburger

lemma swap_index_less:
  assumes "Suc l < k" "n < 2 ^ k"
  shows "swap_index l n < 2 ^ k"
proof (cases "(n div 2 ^ l) mod 4 = 1")
  case True
  obtain j where k: "k = Suc (Suc (l + j))" using assms(1) by (metis add_Suc less_imp_Suc_add)
  have pow: "(2 :: nat) ^ k = 4 * 2 ^ j * 2 ^ l" by (simp add: k power_add)
  have "n div 2 ^ l < 4 * 2 ^ j"
    using assms(2) unfolding pow by (simp add: less_mult_imp_div_less)
  with True have "n div 2 ^ l + 1 < 4 * 2 ^ j" by (blast intro: mod4_bound)
  moreover have "(n + 2 ^ l) div 2 ^ l = n div 2 ^ l + 1" by (simp add: div_add_self2)
  ultimately have "(n + 2 ^ l) div 2 ^ l < 4 * 2 ^ j" by simp
  then have "n + 2 ^ l < 2 ^ k"
    unfolding pow by (simp add: div_less_iff_less_mult)
  with True show ?thesis by (simp add: swap_index_def)
next
  case False
  with assms show ?thesis by (auto simp: swap_index_def)
qed

lemma swap_index_invol [simp]: "swap_index l (swap_index l n) = n"
proof -
  let ?q = "n div 2 ^ l"
  have up: "(n + 2 ^ l) div 2 ^ l = ?q + 1" by (simp add: div_add_self2)
  consider "?q mod 4 = 1" | "?q mod 4 = 2" | "?q mod 4 \<noteq> 1" "?q mod 4 \<noteq> 2" by blast
  then show ?thesis
  proof cases
    case 1
    then have "(?q + 1) mod 4 = 2" by (rule mod4_succ)
    with 1 up show ?thesis by (simp add: swap_index_def)
  next
    case 2
    then have le: "2 ^ l \<le> n"
      by (metis div_less mod_0 not_less zero_neq_numeral)
    with up have "(n - 2 ^ l) div 2 ^ l + 1 = ?q"
      by (metis add.commute div_add_self2 le_add_diff_inverse2 power_not_zero zero_neq_numeral)
    with 2 have "((n - 2 ^ l) div 2 ^ l + 1) mod 4 = 2" by simp
    then have "(n - 2 ^ l) div 2 ^ l mod 4 = 1" by (rule mod4_pred)
    with 2 le show ?thesis by (simp add: swap_index_def)
  next
    case 3
    then show ?thesis by (simp add: swap_index_def)
  qed
qed

lemma bit_bit_shuffle:
  assumes "LENGTH('a) = 2 ^ k" "Suc l < k"
  shows "bit (bit_shuffle (v :: 'a::len word) l) n \<longleftrightarrow> n < LENGTH('a) \<and> bit v (swap_index l n)"
proof -
  have ge: "(n div 2 ^ l) mod 4 = 2 \<Longrightarrow> 2 ^ l \<le> n"
    by (metis div_less mod_0 not_less zero_neq_numeral)
  show ?thesis
    using ge by (auto simp: bit_shuffle_def Let_def bit_simps bit_shuffle_mask swap_index_def add.commute dest: bit_imp_le_length)
qed

lemma bit_shuffle_invol:
  assumes "LENGTH('a) = 2 ^ k" "Suc l < k"
  shows "bit_shuffle (bit_shuffle (v :: 'a::len word) l) l = v"
  using assms swap_index_less [OF assms(2)]
  by (auto simp: bit_bit_shuffle [OF assms] intro!: bit_word_eqI)

section \<open>Signed sums, arithmetic shift and the overflow tests\<close>

lemma is_negative_full: "is_negative LENGTH('a) (v :: 'a::len word) \<longleftrightarrow> sint v < 0"
  by (simp add: is_negative_def push_bit_eq_mult and_exp_eq_0_iff_not_bit bit_last_iff)

lemma arithmetic_rs_portable_eq: "arithmetic_rs_portable v shamt = arithmetic_rs v shamt"
proof (rule bit_word_eqI)
  fix n assume n: "n < LENGTH('a)"
  have "(v :: 'a word) AND msb_set = 0 \<longleftrightarrow> \<not> bit v (LENGTH('a) - Suc 0)"
    by (simp add: msb_set_eq and_exp_eq_0_iff_not_bit)
  with n show "bit (arithmetic_rs_portable v shamt) n = bit (arithmetic_rs v shamt) n"
    by (auto simp: arithmetic_rs_portable_def arithmetic_rs_def ones_rs_bit bit_signed_drop_bit_iff
        bit_drop_bit_eq add.commute not_le dest: bit_imp_le_length)
qed

lemma wrap_into_range:
  fixes h x :: int
  assumes "0 < h" "- (2 * h) \<le> x" "x < 2 * h"
  shows "(x + h) mod (2 * h) - h = (if h \<le> x then x - 2 * h else if x < - h then x + 2 * h else x)"
proof -
  consider "h \<le> x" | "x < - h" | "- h \<le> x" "x < h" by linarith
  then show ?thesis
  proof cases
    case 1
    then have "(x + h) mod (2 * h) = x + h - 2 * h"
      using assms by (intro int_mod_pos_eq [where q = 1]) auto
    with 1 show ?thesis by simp
  next
    case 2
    then have "(x + h) mod (2 * h) = x + h + 2 * h"
      using assms by (intro int_mod_pos_eq [where q = "- 1"]) auto
    with 2 assms show ?thesis by simp
  next
    case 3
    then show ?thesis using assms by simp
  qed
qed

lemma signed_take_bit_wrap:
  fixes x :: int
  assumes "- (2 ^ Suc n) \<le> x" "x < 2 ^ Suc n"
  shows "signed_take_bit n x =
    (if 2 ^ n \<le> x then x - 2 ^ Suc n else if x < - (2 ^ n) then x + 2 ^ Suc n else x)"
  using assms wrap_into_range [of "2 ^ n" x]
  by (simp add: signed_take_bit_eq_take_bit_shift take_bit_eq_mod)

lemma sint_range:
  "- (2 ^ (LENGTH('a) - Suc 0)) \<le> sint (a :: 'a::len word)" "sint a < 2 ^ (LENGTH('a) - Suc 0)"
  using sint_ge [of a] sint_less [of a] by simp_all

lemma two_power_length: "(2 :: int) ^ LENGTH('a::len) = 2 * 2 ^ (LENGTH('a) - Suc 0)"
  by (simp flip: power_Suc)

lemma sint_plus_cases:
  "sint (a + b :: 'a::len word) =
    (if 2 ^ (LENGTH('a) - Suc 0) \<le> sint a + sint b then sint a + sint b - 2 ^ LENGTH('a)
     else if sint a + sint b < - (2 ^ (LENGTH('a) - Suc 0)) then sint a + sint b + 2 ^ LENGTH('a)
     else sint a + sint b)"
proof -
  show ?thesis
    using sint_range [of a] sint_range [of b] signed_take_bit_wrap [of "LENGTH('a) - Suc 0" "sint a + sint b"]
    by (simp add: sint_word_add two_power_length)
qed

lemma sint_minus_cases:
  "sint (a - b :: 'a::len word) =
    (if 2 ^ (LENGTH('a) - Suc 0) \<le> sint a - sint b then sint a - sint b - 2 ^ LENGTH('a)
     else if sint a - sint b < - (2 ^ (LENGTH('a) - Suc 0)) then sint a - sint b + 2 ^ LENGTH('a)
     else sint a - sint b)"
proof -
  show ?thesis
    using sint_range [of a] sint_range [of b] signed_take_bit_wrap [of "LENGTH('a) - Suc 0" "sint a - sint b"]
    by (simp add: sint_word_diff two_power_length)
qed

lemma sint_eq_0: "sint (v :: 'a::len word) = 0 \<longleftrightarrow> v = 0"
  using signed_word_eqI [of v 0] by auto

lemma signed_take_bit_exp_self: "signed_take_bit n ((2 :: int) ^ n) = - (2 ^ n)"
proof -
  have "(0 :: int) < 2 ^ n" by simp
  then have "- (2 ^ Suc n) \<le> (2 :: int) ^ n" by simp
  then show ?thesis using signed_take_bit_wrap [of n "2 ^ n"] by simp
qed

lemma sint_msb_set: "sint (v :: 'a::len word) = - (2 ^ (LENGTH('a) - Suc 0)) \<longleftrightarrow> v = msb_set"
proof -
  have "sint (msb_set :: 'a word) = - (2 ^ (LENGTH('a) - Suc 0))"
    unfolding msb_set_eq One_nat_def
    by transfer (simp add: signed_take_bit_exp_self)
  moreover have "sint v = sint (msb_set :: 'a word) \<Longrightarrow> v = msb_set" by (rule signed_word_eqI)
  ultimately show ?thesis by auto
qed

lemma is_positive_full: "is_positive LENGTH('a) (v :: 'a::len word) \<longleftrightarrow> 0 < sint v"
  using sint_eq_0 [of v] by (auto simp: is_positive_def is_negative_full)

lemma test_addition_overflow_iff:
  "snd (test_addition_overflow LENGTH('a) (a :: 'a::len word) b) \<longleftrightarrow>
    (sint a + sint b < - (2 ^ (LENGTH('a) - 1)) \<or> 2 ^ (LENGTH('a) - 1) \<le> sint a + sint b)
    \<and> \<not> (a = msb_set \<and> b = msb_set)"
  using sint_range [of a] sint_range [of b] sint_eq_0 [of "a + b"]
  by (auto simp: test_addition_overflow_def Let_def is_positive_full is_negative_full sint_plus_cases
      two_power_length sint_msb_set [symmetric] split: if_splits)

lemma test_subtraction_overflow_iff:
  "snd (test_subtraction_overflow LENGTH('a) (a :: 'a::len word) b) \<longleftrightarrow>
    (sint a - sint b < - (2 ^ (LENGTH('a) - 1)) \<or> 2 ^ (LENGTH('a) - 1) \<le> sint a - sint b)
    \<and> \<not> (a = 0 \<and> b = msb_set)"
  using sint_range [of a] sint_range [of b]
  by (auto simp: test_subtraction_overflow_def Let_def is_positive_full is_negative_full sint_minus_cases
      two_power_length sint_msb_set [symmetric] sint_eq_0 [symmetric] split: if_splits)

section \<open>Rotations\<close>

lemma mod_once: "(x :: nat) < 2 * m \<Longrightarrow> x mod m = (if x < m then x else x - m)"
  by (auto simp: not_less mod_if [of x m])

lemma bit_circ_ls:
  "bit (circ_ls (x :: 'a::len word) s) n \<longleftrightarrow>
    n < LENGTH('a) \<and> bit x ((n + (LENGTH('a) - s mod LENGTH('a))) mod LENGTH('a))"
proof -
  define r where "r = s mod LENGTH('a)"
  then have r: "r < LENGTH('a)" by simp
  show ?thesis
  proof (cases "n < LENGTH('a)")
    case True
    have "(n + (LENGTH('a) - r)) mod LENGTH('a)
        = (if n + (LENGTH('a) - r) < LENGTH('a) then n + (LENGTH('a) - r) else n - r)"
      using r True by (subst mod_once) auto
    with True r show ?thesis
      by (auto simp: circ_ls_def r_def [symmetric] bit_simps not_less add.commute dest: bit_imp_le_length)
  next
    case False
    then show ?thesis by (auto dest: bit_imp_le_length)
  qed
qed

lemma bit_circ_rs:
  "bit (circ_rs (x :: 'a::len word) s) n \<longleftrightarrow>
    n < LENGTH('a) \<and> bit x ((n + s mod LENGTH('a)) mod LENGTH('a))"
proof -
  define r where "r = s mod LENGTH('a)"
  then have r: "r < LENGTH('a)" by simp
  show ?thesis
  proof (cases "n < LENGTH('a)")
    case True
    have "(n + r) mod LENGTH('a) = (if n + r < LENGTH('a) then n + r else n + r - LENGTH('a))"
      using r True by (subst mod_once) auto
    with True r show ?thesis
      by (auto simp: circ_rs_def r_def [symmetric] bit_simps not_less add.commute dest: bit_imp_le_length)
  next
    case False
    then show ?thesis by (auto dest: bit_imp_le_length)
  qed
qed

lemma circ_rs_ls: "circ_rs (circ_ls x s) s = x"
proof (rule bit_word_eqI)
  fix n assume n: "n < LENGTH('a)"
  define r where "r = s mod LENGTH('a)"
  then have r: "r < LENGTH('a)" by simp
  have "((n + r) mod LENGTH('a) + (LENGTH('a) - r)) mod LENGTH('a) = (n + r + (LENGTH('a) - r)) mod LENGTH('a)"
    by (rule mod_add_left_eq)
  also have "\<dots> = n" using r n by simp
  finally show "bit (circ_rs (circ_ls (x :: 'a word) s) s) n = bit x n"
    using n by (simp add: bit_circ_ls bit_circ_rs r_def [symmetric])
qed

section \<open>Leading zeroes\<close>

lemma takeWhile_rev_upt:
  "takeWhile P (rev [0..<w]) = rev [Suc j..<w]"
  if "j < w" "\<not> P j" "\<And>i. j < i \<Longrightarrow> i < w \<Longrightarrow> P i"
proof -
  have "rev [0..<w] = rev [Suc j..<w] @ j # rev [0..<j]"
    using that(1) by (metis Suc_leI append.assoc append_Cons append_Nil le_add1 less_eqE plus_1_eq_Suc rev.simps(2) rev_append upt_Suc_append upt_add_eq_append zero_le)
  with that(2,3) show ?thesis by (simp add: takeWhile_append)
qed

lemma count_leading_zeroes_bounds:
  assumes "x \<noteq> 0"
  defines "k \<equiv> count_leading_zeroes LENGTH('a) (x :: 'a::len word)"
  shows "k < LENGTH('a)" "2 ^ (LENGTH('a) - 1 - k) \<le> unat x" "unat x < 2 ^ (LENGTH('a) - k)"
proof -
  define j where "j = Max {i. bit x i}"
  have fin: "finite {i. bit x i}"
    by (rule finite_subset [of _ "{..<LENGTH('a)}"]) (auto dest: bit_imp_le_length)
  obtain i where "bit x i" using assms by (auto simp: bit_eq_iff)
  then have j: "bit x j" "\<And>i. j < i \<Longrightarrow> \<not> bit x i"
    using Max_in [OF fin] Max_ge [OF fin] by (auto simp: j_def not_le [symmetric])
  then have jl: "j < LENGTH('a)" by (blast dest: bit_imp_le_length)
  then have "takeWhile (\<lambda>i. \<not> bit x i) (rev [0..<LENGTH('a)]) = rev [Suc j..<LENGTH('a)]"
    using j by (intro takeWhile_rev_upt) auto
  then have k: "k = LENGTH('a) - Suc j" by (simp add: k_def count_leading_zeroes_def)
  then show "k < LENGTH('a)" using jl by simp
  have bj: "bit (unat x) j" using j by (simp add: bit_unsigned_iff jl)
  then have "2 ^ j \<le> unat x" by (rule bit_le_exp)
  then show "2 ^ (LENGTH('a) - 1 - k) \<le> unat x" using k jl by simp
  have "take_bit (Suc j) x = x"
    using j by (auto simp: bit_simps less_Suc_eq_le not_less [symmetric] intro!: bit_word_eqI)
  then have "unat x = take_bit (Suc j) (unat x)" by (metis unsigned_take_bit_eq)
  then have "unat x < 2 ^ Suc j" by (metis take_bit_nat_less_exp)
  then show "unat x < 2 ^ (LENGTH('a) - k)" using k jl by simp
qed

section \<open>Properties\<close>

text \<open>on a register whose width is a power of two, the generalised reverse permutes the bits,
  the bit at index \<open>n\<close> coming from index \<open>n XOR shamt\<close>, and applying it twice is the identity.\<close>

theorem gen_reverse_permutation:
  assumes "LENGTH('a) = 2 ^ k" "s < 2 ^ k"
  shows "(\<forall>n. bit (gen_reverse (v :: 'a::len word) s) n \<longleftrightarrow> n < LENGTH('a) \<and> bit v (n XOR s))
    \<and> gen_reverse (gen_reverse v s) s = v"
proof -
  have "take_bit k s = s" using assms(2) by (simp add: take_bit_nat_eq_self)
  then have "bit (gen_reverse v s) n \<longleftrightarrow> n < LENGTH('a) \<and> bit v (n XOR s)" for n and v :: "'a word"
    by (simp add: bit_gen_reverse [OF assms(1)])
  moreover have "n XOR s < LENGTH('a)" if "n < LENGTH('a)" for n
    using that assms by (simp add: nat_xor_less_exp)
  ultimately show ?thesis by (auto simp: xor.assoc intro!: bit_word_eqI)
qed

theorem gen_reverse_permutation_witness:
  "gen_reverse (gen_reverse (0x12345678 :: uint32) 24) 24 = 0x12345678"
  using gen_reverse_permutation [of 5 24 "0x12345678 :: uint32"] by simp

text \<open>The two implementations of the arithmetic right shift, the one that trusts the compiler
  and the portable one, agree on every value and shift amount, and divide the signed value by
  a power of two rounding down.\<close>

theorem arithmetic_rs_implementations:
  "arithmetic_rs v shamt = arithmetic_rs_portable v shamt
    \<and> sint (arithmetic_rs (v :: 'a::len word) shamt) = sint v div 2 ^ shamt"
  by (simp add: arithmetic_rs_portable_eq arithmetic_rs_def sint_signed_drop_bit_eq drop_bit_eq_div)

lemma count_trailing_zeroes_field:
  assumes "0 < n" "k + n \<le> LENGTH('a)"
  shows "count_trailing_zeroes LENGTH('a) (push_bit k (mask n) :: 'a::len word) = k"
proof -
  have "[0..<LENGTH('a)] = [0..<k] @ k # [Suc k..<LENGTH('a)]"
    using assms by (metis add_leD1 le_add_diff_inverse less_add_same_cancel1 not_add_less1 order_less_le_trans upt_add_eq_append upt_conv_Cons zero_le)
  moreover have "takeWhile (\<lambda>i. \<not> bit (push_bit k (mask n) :: 'a word) i) ([0..<k] @ k # [Suc k..<LENGTH('a)]) = [0..<k]"
    using assms by (subst takeWhile_append2) (auto simp: bit_simps)
  ultimately show ?thesis by (simp add: count_trailing_zeroes_def)
qed

end
