(* ===== verification/Multiplication.thy ===== *)
theory Multiplication
  imports Alu_Primitives "HOL-Library.Signed_Division"
begin

text \<open>
  Multiplication and division of the two instruction sets, from
  simulator/func_sim/multiplication.h. A template instance at a signed type and at an
  unsigned type is two definitions. The lemmas compare every routine with the product,
  quotient and remainder of the operands as integers; the high word of the unsigned
  product is computed by halves (Karatsuba's layout), and its two signed variants
  from it.
\<close>

section \<open>MIPS\<close>

definition is_signed_division_overflow :: "'a::len word \<Rightarrow> 'a word \<Rightarrow> bool" where
  "is_signed_division_overflow x y \<longleftrightarrow> sint y = - 1 \<and> x = msb_set"

text \<open>The product is taken at the doubled type and cast to its unsigned counterpart.\<close>

definition mips_multiplication_u :: "'a::len word \<Rightarrow> 'a word \<Rightarrow> 'a word \<times> 'a word" where
  "mips_multiplication_u x y =
     (let v = (uint x * uint y) mod 2 ^ (2 * LENGTH('a))
      in (word_of_int (v AND uint (all_ones :: 'a word)), word_of_int (drop_bit LENGTH('a) v)))"

definition mips_multiplication_s :: "'a::len word \<Rightarrow> 'a word \<Rightarrow> 'a word \<times> 'a word" where
  "mips_multiplication_s x y =
     (let v = (sint x * sint y) mod 2 ^ (2 * LENGTH('a))
      in (word_of_int (v AND uint (all_ones :: 'a word)), word_of_int (drop_bit LENGTH('a) v)))"

definition mips_division_u :: "'a::len word \<Rightarrow> 'a word \<Rightarrow> 'a word \<times> 'a word" where
  "mips_division_u x y = (if y = 0 then (0, 0) else (x div y, x mod y))"

definition mips_division_s :: "'a::len word \<Rightarrow> 'a word \<Rightarrow> 'a word \<times> 'a word" where
  "mips_division_s x y =
     (if y = 0 \<or> is_signed_division_overflow x y then (0, 0)
      else (word_of_int (sint x sdiv sint y), word_of_int (sint x smod sint y)))"

section \<open>RISC-V\<close>

definition riscv_multiplication_low :: "'a::len word \<Rightarrow> 'a word \<Rightarrow> 'a word" where
  "riscv_multiplication_low x y = x * y AND all_ones"

definition riscv_multiplication_high_uu :: "'a::len word \<Rightarrow> 'a word \<Rightarrow> 'a word" where
  "riscv_multiplication_high_uu x y =
     (let halfwidth = LENGTH('a) div 2;
          half_mask = drop_bit halfwidth all_ones;
          x1 = drop_bit halfwidth x;
          x0 = x AND half_mask;
          y1 = drop_bit halfwidth y;
          y0 = y AND half_mask;
          low_part = drop_bit halfwidth
            (drop_bit halfwidth (x0 * y0) + ((x0 * y1) AND half_mask) + ((x1 * y0) AND half_mask));
          high_part = x1 * y1 + drop_bit halfwidth (x0 * y1) + drop_bit halfwidth (x1 * y0)
      in high_part + low_part)"

text \<open>On an unsigned type the sign tests are the top bits, 0 or 1.\<close>

definition riscv_multiplication_high_ss :: "'a::len word \<Rightarrow> 'a word \<Rightarrow> 'a word" where
  "riscv_multiplication_high_ss x y =
     (let x_is_neg = drop_bit (LENGTH('a) - 1) x;
          y_is_neg = drop_bit (LENGTH('a) - 1) y;
          result_is_neg = x_is_neg XOR y_is_neg;
          x_abs = (if x_is_neg \<noteq> 0 then NOT (x - 1) else x);
          y_abs = (if y_is_neg \<noteq> 0 then NOT (y - 1) else y);
          hi_abs = riscv_multiplication_high_uu x_abs y_abs;
          lo_abs = riscv_multiplication_low x_abs y_abs
      in if result_is_neg \<noteq> 0
         then (if lo_abs = 0 then NOT hi_abs + 1 else NOT hi_abs)
         else hi_abs)"

definition riscv_multiplication_high_su :: "'a::len word \<Rightarrow> 'a word \<Rightarrow> 'a word" where
  "riscv_multiplication_high_su x y =
     (let x_is_neg = drop_bit (LENGTH('a) - 1) x;
          x_abs = (if x_is_neg \<noteq> 0 then NOT (x - 1) else x);
          hi_abs = riscv_multiplication_high_uu x_abs y;
          lo_abs = riscv_multiplication_low x_abs y
      in if x_is_neg \<noteq> 0
         then (if lo_abs = 0 then NOT hi_abs + 1 else NOT hi_abs)
         else hi_abs)"

definition riscv_division_u :: "'a::len word \<Rightarrow> 'a word \<Rightarrow> 'a word" where
  "riscv_division_u x y = (if y = 0 then all_ones else x div y)"

definition riscv_division_s :: "'a::len word \<Rightarrow> 'a word \<Rightarrow> 'a word" where
  "riscv_division_s x y =
     (if y = 0 then all_ones
      else if is_signed_division_overflow x y then msb_set
      else word_of_int (sint x sdiv sint y))"

definition riscv_remainder_u :: "'a::len word \<Rightarrow> 'a word \<Rightarrow> 'a word" where
  "riscv_remainder_u x y = (if y = 0 then x else x mod y)"

definition riscv_remainder_s :: "'a::len word \<Rightarrow> 'a word \<Rightarrow> 'a word" where
  "riscv_remainder_s x y =
     (if y = 0 then x
      else if is_signed_division_overflow x y then 0
      else word_of_int (sint x smod sint y))"

section \<open>The high half of a product\<close>

text \<open>The identity on naturals: with halves below \<open>B\<close>, no intermediate sum reaches \<open>B * B\<close>.\<close>

lemma high_product_nat:
  fixes B x0 x1 y0 y1 :: nat
  assumes B: "0 < B"
  shows "((x1 * B + x0) * (y1 * B + y0)) div (B * B)
    = x1 * y1 + x0 * y1 div B + x1 * y0 div B
      + (x0 * y0 div B + x0 * y1 mod B + x1 * y0 mod B) div B"
proof -
  define p q where "p = x0 * y1" and "q = x1 * y0"
  have "(x1 * B + x0) * (y1 * B + y0) = x1 * y1 * (B * B) + (p + q) * B + x0 * y0"
    by (simp add: p_def q_def algebra_simps)
  then have "((x1 * B + x0) * (y1 * B + y0)) div (B * B)
      = (x1 * y1 * (B * B) + (p + q) * B + x0 * y0) div B div B"
    by (simp add: div_mult2_eq)
  also have "(x1 * y1 * (B * B) + (p + q) * B + x0 * y0) div B = x1 * y1 * B + (p + q) + x0 * y0 div B"
  proof -
    have "x1 * y1 * (B * B) + (p + q) * B + x0 * y0 = x0 * y0 + (x1 * y1 * B + (p + q)) * B"
      by (simp add: algebra_simps)
    then show ?thesis using B by simp
  qed
  also have "\<dots> = (x0 * y0 div B + p mod B + q mod B) + (x1 * y1 + p div B + q div B) * B"
    by (simp add: algebra_simps)
  finally show ?thesis using B by (simp add: p_def q_def)
qed


lemma unat_low_half:
  "LENGTH('a) = 2 * h \<Longrightarrow> unat (x AND drop_bit h all_ones :: 'a::len word) = unat x mod 2 ^ h"
proof -
  assume "LENGTH('a) = 2 * h"
  then have "drop_bit h all_ones = (mask h :: 'a word)"
    by (auto simp: all_ones_eq bit_simps intro!: bit_word_eqI)
  with \<open>LENGTH('a) = 2 * h\<close> show ?thesis
    by (simp add: take_bit_eq_mask [symmetric] unat_take_bit)
qed

lemma unat_mult_halves:
  assumes "LENGTH('a) = 2 * h" "unat (x :: 'a::len word) < 2 ^ h" "unat y < 2 ^ h"
  shows "unat (x * y) = unat x * unat y"
proof -
  have "unat x * unat y < 2 ^ h * 2 ^ h" using assms by (intro mult_strict_mono) auto
  then have "unat x * unat y < 2 ^ LENGTH('a)" by (simp add: assms(1) mult_2 power_add)
  then show ?thesis by (simp add: unat_word_ariths)
qed

lemma riscv_multiplication_high_uu_eq:
  assumes "even LENGTH('a)"
  shows "riscv_multiplication_high_uu (x :: 'a::len word) y = word_of_int ((uint x * uint y) div 2 ^ LENGTH('a))"
proof -
  define h where "h = LENGTH('a) div 2"
  have L: "LENGTH('a) = 2 * h" using assms by (simp add: h_def)
  have h: "0 < h" using L len_gt_0 [where 'a = 'a] by linarith
  define B where "B = (2 :: nat) ^ h"
  have B: "2 \<le> B" using h by (cases h) (simp_all add: B_def)
  have BB: "2 ^ LENGTH('a) = B * B" by (simp add: L B_def mult_2 power_add)
  define x1 x0 y1 y0 where "x1 = drop_bit h x" and "x0 = x AND drop_bit h all_ones"
    and "y1 = drop_bit h y" and "y0 = y AND drop_bit h all_ones"
  have small: "unat z < B" if "z = x1 \<or> z = x0 \<or> z = y1 \<or> z = y0" for z
    using that unat_less [of x] unat_less [of y]
    by (auto simp: x1_def x0_def y1_def y0_def unat_low_half [OF L] B_def unat_drop_bit less_mult_imp_div_less L mult_2 power_add)
  have halves: "unat x = unat x1 * B + unat x0" "unat y = unat y1 * B + unat y0"
    by (simp_all only: div_mult_mod_eq x1_def x0_def y1_def y0_def unat_low_half [OF L] B_def unat_drop_bit)
  have prod: "unat (a * b) = unat a * unat b"
    if "a = x1 \<or> a = x0" "b = y1 \<or> b = y0" for a b
    using that small by (intro unat_mult_halves [OF L]) (auto simp: B_def)
  let ?t = "drop_bit h (x0 * y0) + ((x0 * y1) AND drop_bit h all_ones) + ((x1 * y0) AND drop_bit h all_ones)"
  let ?n = "unat x0 * unat y0 div B + unat x0 * unat y1 mod B + unat x1 * unat y0 mod B"
  have of_nat_intro: "w = of_nat n" if "unat w = n" for w :: "'a word" and n
    using that by auto
  have half: "drop_bit h (a * b) = of_nat (unat a * unat b div B)"
    "(a * b) AND drop_bit h all_ones = of_nat (unat a * unat b mod B)"
    if "a = x1 \<or> a = x0" "b = y1 \<or> b = y0" for a b
    using prod [OF that]
    by (auto intro!: of_nat_intro simp: unat_drop_bit B_def unat_low_half [OF L])
  have t: "?t = of_nat ?n" by (simp add: half mult.commute)
  have "unat x0 * unat y0 < B * B" using small B by (intro mult_strict_mono) auto
  then have "unat x0 * unat y0 div B < B" by (simp add: less_mult_imp_div_less)
  then have "?n \<le> 3 * B - 3"
    using B mod_less_divisor [of B "unat x0 * unat y1"] mod_less_divisor [of B "unat x1 * unat y0"] by linarith
  also have "3 * B - 3 < B * B"
  proof (cases "B = 2")
    case False
    with B have "3 * B \<le> B * B" by (intro mult_le_mono1) simp
    with B show ?thesis by linarith
  qed simp
  finally have n: "?n < 2 ^ LENGTH('a)" by (simp add: BB)
  then have "unat ?t = ?n" by (simp only: t unsigned_of_nat take_bit_nat_eq_self of_nat_id)
  then have "unat (drop_bit h ?t) = ?n div B" by (simp only: unat_drop_bit B_def)
  then have low: "drop_bit h ?t = of_nat (?n div B)" by (rule of_nat_intro)
  have "riscv_multiplication_high_uu x y
      = x1 * y1 + drop_bit h (x0 * y1) + drop_bit h (x1 * y0) + drop_bit h ?t"
    by (simp add: riscv_multiplication_high_uu_def Let_def h_def [symmetric] x1_def x0_def y1_def y0_def)
  also have "\<dots> = of_nat (unat x1 * unat y1 + unat x0 * unat y1 div B + unat x1 * unat y0 div B + ?n div B)"
    by (simp only: low) (simp add: half)
  also have "\<dots> = of_nat ((unat x * unat y) div (B * B))"
    using high_product_nat [of B "unat x1" "unat x0" "unat y1" "unat y0"] B
    by (simp only: halves [symmetric])
  also have "(of_nat ((unat x * unat y) div (B * B)) :: 'a word) = of_int (int ((unat x * unat y) div (B * B)))"
    by (simp only: of_int_of_nat_eq)
  also have "int ((unat x * unat y) div (B * B)) = (uint x * uint y) div 2 ^ LENGTH('a)"
    by (simp add: BB [symmetric] zdiv_int)
  finally show ?thesis .
qed


text \<open>Negating a product held as a high and a low word.\<close>

lemma neg_div_split:
  fixes p m :: int
  assumes "0 < m"
  shows "(- p) div m = (if p mod m = 0 then - (p div m) else - (p div m) - 1)"
  using assms zdiv_zminus1_eq_if [of m p] by simp

lemma high_of_negated:
  fixes a b :: "'a::len word"
  assumes "even LENGTH('a)"
  shows "(if riscv_multiplication_low a b = 0 then NOT (riscv_multiplication_high_uu a b) + 1
      else NOT (riscv_multiplication_high_uu a b)) = word_of_int ((- (uint a * uint b)) div 2 ^ LENGTH('a))"
proof -
  have "riscv_multiplication_low a b = 0 \<longleftrightarrow> (uint a * uint b) mod 2 ^ LENGTH('a) = 0"
  proof -
    have "a * b = 0 \<longleftrightarrow> uint (a * b) = 0" by (rule unsigned_eq_0_iff [symmetric])
    then show ?thesis
      unfolding riscv_multiplication_low_def all_ones_eq uint_word_ariths(3) by simp
  qed
  then show ?thesis
    by (simp add: riscv_multiplication_high_uu_eq [OF assms] neg_div_split not_eq_complement)
qed

lemma neg_abs_sint:
  "drop_bit (LENGTH('a) - 1) (x :: 'a::len word) \<noteq> 0 \<longleftrightarrow> sint x < 0"
proof -
  have "drop_bit (LENGTH('a) - 1) x \<noteq> 0 \<longleftrightarrow> bit x (LENGTH('a) - Suc 0)"
  proof
    assume "drop_bit (LENGTH('a) - 1) x \<noteq> 0"
    then obtain n where "bit x (LENGTH('a) - 1 + n)" by (auto simp: bit_eq_iff bit_simps)
    moreover then have "n = 0" by (auto dest: bit_imp_le_length)
    ultimately show "bit x (LENGTH('a) - Suc 0)" by simp
  next
    assume "bit x (LENGTH('a) - Suc 0)"
    then have "bit (drop_bit (LENGTH('a) - 1) x) 0" by (simp add: bit_simps)
    then show "drop_bit (LENGTH('a) - 1) x \<noteq> 0" by auto
  qed
  then show ?thesis by (simp add: bit_last_iff)
qed

lemma sign_bits_xor:
  "drop_bit (LENGTH('a) - 1) (x :: 'a::len word) XOR drop_bit (LENGTH('a) - 1) y \<noteq> 0
    \<longleftrightarrow> (sint x < 0) \<noteq> (sint y < 0)"
  using neg_abs_sint [of "x XOR y"]
  by (simp add: drop_bit_xor bit_last_iff [symmetric] bit_simps)

lemma uint_sint_cases: "uint (x :: 'a::len word) = (if sint x < 0 then sint x + 2 ^ LENGTH('a) else sint x)"
proof -
  have "uint x = sint x mod 2 ^ LENGTH('a)"
    by (simp add: take_bit_eq_mod [symmetric] uint_sint)
  moreover have "sint x < 0 \<Longrightarrow> sint x mod 2 ^ LENGTH('a) = sint x + 2 ^ LENGTH('a)"
    using sint_range [of x] two_power_length [where 'a = 'a]
    by (intro int_mod_pos_eq [where q = "- 1"]) auto
  moreover have "\<not> sint x < 0 \<Longrightarrow> sint x mod 2 ^ LENGTH('a) = sint x"
    using sint_range [of x] two_power_length [where 'a = 'a] by auto
  ultimately show ?thesis by simp
qed

lemma uint_abs_word:
  "uint (if sint x < 0 then NOT (x - 1) else (x :: 'a::len word)) = \<bar>sint x\<bar>"
proof (cases "sint x < 0")
  case True
  have "NOT (x - 1) = - x" by (simp add: not_eq_complement)
  moreover have "uint (- x) = - sint x"
  proof -
    have "uint (- x) = (- uint x) mod 2 ^ LENGTH('a)" by (simp only: uint_word_ariths)
    also have "- uint x = - sint x + - 1 * 2 ^ LENGTH('a)" using True by (simp add: uint_sint_cases)
    also have "(- sint x + - 1 * 2 ^ LENGTH('a)) mod 2 ^ LENGTH('a) = (- sint x) mod 2 ^ LENGTH('a)"
      by (rule mod_mult_self1)
    also have "\<dots> = - sint x"
      using True sint_range [of x] two_power_length [where 'a = 'a] by (intro mod_pos_pos_trivial) auto
    finally show ?thesis .
  qed
  ultimately show ?thesis using True by simp
next
  case False
  then show ?thesis by (simp add: uint_sint_cases)
qed

lemma riscv_multiplication_high_ss_eq:
  assumes "even LENGTH('a)"
  shows "riscv_multiplication_high_ss (x :: 'a::len word) y = word_of_int ((sint x * sint y) div 2 ^ LENGTH('a))"
proof -
  define xa where "xa = (if sint x < 0 then NOT (x - 1) else x)"
  define ya where "ya = (if sint y < 0 then NOT (y - 1) else y)"
  have abs: "uint xa = \<bar>sint x\<bar>" "uint ya = \<bar>sint y\<bar>"
    by (simp_all only: xa_def ya_def uint_abs_word)
  have "riscv_multiplication_high_ss x y =
      (if (sint x < 0) \<noteq> (sint y < 0)
       then word_of_int ((- (uint xa * uint ya)) div 2 ^ LENGTH('a))
       else riscv_multiplication_high_uu xa ya)"
    by (simp only: riscv_multiplication_high_ss_def Let_def neg_abs_sint sign_bits_xor
        xa_def [symmetric] ya_def [symmetric] high_of_negated [OF assms])
  then show ?thesis
    by (auto simp: riscv_multiplication_high_uu_eq [OF assms] abs abs_if)
qed

lemma riscv_multiplication_high_su_eq:
  assumes "even LENGTH('a)"
  shows "riscv_multiplication_high_su (x :: 'a::len word) y = word_of_int ((sint x * uint y) div 2 ^ LENGTH('a))"
proof -
  define xa where "xa = (if sint x < 0 then NOT (x - 1) else x)"
  have abs: "uint xa = \<bar>sint x\<bar>" by (simp only: xa_def uint_abs_word)
  have "riscv_multiplication_high_su x y =
      (if sint x < 0 then word_of_int ((- (uint xa * uint y)) div 2 ^ LENGTH('a))
       else riscv_multiplication_high_uu xa y)"
    by (simp only: riscv_multiplication_high_su_def Let_def neg_abs_sint
        xa_def [symmetric] high_of_negated [OF assms])
  then show ?thesis
    by (auto simp: riscv_multiplication_high_uu_eq [OF assms] abs abs_if)
qed


section \<open>MIPS products and the division identities\<close>

lemma zdiv_less_of_less_mult: "0 < m \<Longrightarrow> v < m * m \<Longrightarrow> v div m < (m :: int)"
proof (rule ccontr)
  assume m: "0 < m" and "v < m * m" and "\<not> v div m < m"
  then have "m * m \<le> v div m * m" by (intro mult_right_mono) auto
  also have "\<dots> \<le> v div m * m + v mod m" using pos_mod_sign [OF m, of v] by linarith
  also have "\<dots> = v" by (rule div_mult_mod_eq)
  finally show False using \<open>v < m * m\<close> by simp
qed

lemma join_halves:
  fixes v :: int
  assumes "0 \<le> v" "v < 2 ^ (2 * LENGTH('a::len))"
  shows "uint (word_of_int (drop_bit LENGTH('a) v) :: 'a word) * 2 ^ LENGTH('a)
    + uint (word_of_int (v AND uint (all_ones :: 'a word)) :: 'a word) = v"
proof -
  have "v div 2 ^ LENGTH('a) < 2 ^ LENGTH('a)"
    using assms by (intro zdiv_less_of_less_mult) (simp_all add: mult_2 power_add)
  then have "uint (word_of_int (drop_bit LENGTH('a) v) :: 'a word) = v div 2 ^ LENGTH('a)"
    using assms by (simp add: drop_bit_eq_div uint_word_of_int take_bit_int_eq_self pos_imp_zdiv_nonneg_iff)
  moreover have "uint (all_ones :: 'a word) = mask LENGTH('a)"
    by (simp add: all_ones_eq unsigned_minus_1_eq_mask)
  then have "uint (word_of_int (v AND uint (all_ones :: 'a word)) :: 'a word) = v mod 2 ^ LENGTH('a)"
    by (simp add: take_bit_eq_mask [symmetric] uint_word_of_int take_bit_eq_mod)
  ultimately show ?thesis by (simp only: div_mult_mod_eq)
qed

lemma mips_multiplication_u_eq:
  assumes "mips_multiplication_u (x :: 'a::len word) y = (lo, hi)"
  shows "uint hi * 2 ^ LENGTH('a) + uint lo = uint x * uint y"
proof -
  have "uint x * uint y < 2 ^ LENGTH('a) * 2 ^ LENGTH('a)"
    by (intro mult_strict_mono) simp_all
  then have "(uint x * uint y) mod 2 ^ (2 * LENGTH('a)) = uint x * uint y"
    by (simp add: mult_2 power_add)
  then show ?thesis
    using assms join_halves [of "uint x * uint y", where 'a = 'a] \<open>uint x * uint y < _\<close>
    by (auto simp: mips_multiplication_u_def Let_def mult_2 power_add)
qed

lemma mips_multiplication_s_eq:
  assumes "mips_multiplication_s (x :: 'a::len word) y = (lo, hi)"
  shows "uint hi * 2 ^ LENGTH('a) + uint lo = (sint x * sint y) mod 2 ^ (2 * LENGTH('a))"
  using assms join_halves [where 'a = 'a] by (auto simp: mips_multiplication_s_def Let_def)

lemma riscv_division_identity_u: "riscv_division_u x y * y + riscv_remainder_u x y = x"
  using div_mult_mod_eq [of x y] by (simp add: riscv_division_u_def riscv_remainder_u_def)

lemma riscv_division_identity_s: "riscv_division_s (x :: 'a::len word) y * y + riscv_remainder_s x y = x"
proof -
  have "sint y = - 1 \<longleftrightarrow> y = - 1"
    using signed_word_eqI [of y "- 1"] by auto
  moreover have "word_of_int (sint x sdiv sint y) * y + word_of_int (sint x smod sint y) = x"
  proof -
    have "word_of_int (sint x sdiv sint y) * y + word_of_int (sint x smod sint y)
        = word_of_int (sint x sdiv sint y * sint y + sint x smod sint y)"
      by simp
    then show ?thesis by (simp only: sdiv_mult_smod_eq) simp
  qed
  moreover have "- msb_set = (msb_set :: 'a word)"
  proof -
    have "Suc (LENGTH('a) - Suc 0) = LENGTH('a)" by simp
    then have "2 * (2 :: 'a word) ^ (LENGTH('a) - Suc 0) = 0"
      by (metis power_Suc word_exp_length_eq_0)
    then have "msb_set + msb_set = (0 :: 'a word)" by (simp add: msb_set_eq)
    then show ?thesis by (metis eq_neg_iff_add_eq_0)
  qed
  ultimately show ?thesis
    by (auto simp: riscv_division_s_def riscv_remainder_s_def is_signed_division_overflow_def)
qed

lemma sint_product_bounds:
  fixes x y :: "'a::len word"
  shows "- (2 ^ (LENGTH('a) - Suc 0)) \<le> sint x * sint y div 2 ^ LENGTH('a)"
    and "sint x * sint y div 2 ^ LENGTH('a) < 2 ^ (LENGTH('a) - Suc 0)"
proof -
  define h :: int where "h = 2 ^ (LENGTH('a) - Suc 0)"
  have h: "1 \<le> h" by (simp add: h_def)
  have L: "2 ^ LENGTH('a) = 2 * h" by (simp add: h_def flip: power_Suc)
  have x: "\<bar>sint x\<bar> \<le> h" "\<bar>sint y\<bar> \<le> h"
    using sint_range [of x] sint_range [of y] by (auto simp: h_def abs_le_iff)
  then have "\<bar>sint x * sint y\<bar> \<le> h * h"
    using h by (simp add: abs_mult mult_mono)
  then have b: "- (h * h) \<le> sint x * sint y" "sint x * sint y \<le> h * h" by linarith+
  have "0 \<le> h * h" using h by simp
  then have "- h \<le> sint x * sint y div (2 * h)"
    using b h pos_imp_zdiv_nonneg_iff [of "2 * h" "sint x * sint y + h * (2 * h)"] by simp
  then show "- (2 ^ (LENGTH('a) - Suc 0)) \<le> sint x * sint y div 2 ^ LENGTH('a)"
    by (simp add: L flip: h_def)
  have "0 < h * h" using h by simp
  then have "sint x * sint y - h * (2 * h) < 0" using b by simp
  then have "(sint x * sint y + (- h) * (2 * h)) div (2 * h) < 0"
    using h by (subst pos_imp_zdiv_neg_iff) simp_all
  then have "sint x * sint y div (2 * h) < h" using h by (subst (asm) div_mult_self1) simp_all
  then show "sint x * sint y div 2 ^ LENGTH('a) < 2 ^ (LENGTH('a) - Suc 0)"
    by (simp add: L flip: h_def)
qed

lemma mips_multiplication_s_sint:
  assumes "mips_multiplication_s (x :: 'a::len word) y = (lo, hi)"
  shows "sint hi * 2 ^ LENGTH('a) + uint lo = sint x * sint y"
proof -
  let ?p = "sint x * sint y" and ?m = "2 ^ LENGTH('a) :: int"
  have "uint hi * ?m + uint lo = ?p mod (?m * ?m)"
    using mips_multiplication_s_eq [OF assms] by (simp add: mult_2 power_add)
  then have uhi: "uint hi = ?p mod (?m * ?m) div ?m" and ulo: "uint lo = ?p mod (?m * ?m) mod ?m"
    by (metis div_mult_self3 div_pos_pos_trivial add_0_right zero_less_power zero_less_numeral uint_lt2p uint_ge_0 less_numeral_extra(3) add.commute div_mult_self1,
        metis mod_mult_self3 mod_pos_pos_trivial uint_lt2p uint_ge_0)
  have "hi = word_of_int (?p div ?m)"
  proof -
    have "uint hi = ?p div ?m mod ?m" using uhi by (simp add: zmod_zmult2_eq)
    then show ?thesis by (metis word_of_int_uint uint_word_of_int take_bit_eq_mod word_uint_eqI)
  qed
  then have "sint hi = ?p div ?m"
    using sint_product_bounds [of x y]
    by (simp add: signed_of_int signed_take_bit_int_eq_self)
  moreover have "uint lo = ?p mod ?m" using ulo by (simp add: mod_mod_cancel)
  ultimately show ?thesis by (simp only: div_mult_mod_eq)
qed

lemma sint_sdiv_range:
  fixes x y :: "'a::len word"
  assumes "y \<noteq> 0" "\<not> is_signed_division_overflow x y"
  shows "- (2 ^ (LENGTH('a) - Suc 0)) \<le> sint x sdiv sint y \<and> sint x sdiv sint y < 2 ^ (LENGTH('a) - Suc 0)"
proof -
  define h :: int where "h = 2 ^ (LENGTH('a) - Suc 0)"
  have x: "- h \<le> sint x" "sint x < h" using sint_range [of x] by (auto simp: h_def)
  have y: "sint y \<noteq> 0" using assms by (simp add: sint_eq_0)
  have ov: "sint x \<noteq> - h" if "sint y = - 1"
  proof
    assume "sint x = - h"
    then have "x = msb_set" by (metis sint_msb_set h_def signed_word_eqI)
    with that assms show False by (simp add: is_signed_division_overflow_def)
  qed
  have le: "- \<bar>sint x\<bar> \<le> sint x sdiv sint y" "sint x sdiv sint y \<le> \<bar>sint x\<bar>"
    using sdiv_int_range [of "sint x" "sint y"] by simp_all
  have "sint x sdiv sint y \<noteq> h"
  proof
    assume q: "sint x sdiv sint y = h"
    with le x have m: "sint x = - h" by linarith
    moreover have "h \<noteq> 0" by (simp add: h_def)
    ultimately have "sint y = - 1"
      using q int_sdiv_negated_is_minus1 [of "sint x" "sint y"] by simp
    with ov m show False by simp
  qed
  then show ?thesis using le x by (fold h_def) linarith
qed

section \<open>Properties\<close>

text \<open>C29: on a type of even width, each high-multiplication routine of the RISC-V M extension
  returns the upper word of the exact integer product: unsigned by unsigned (computed from
  half words), signed by signed and signed by unsigned (computed on absolute values and then
  negated over two words).\<close>

theorem riscv_multiplication_high_correct:
  assumes "even LENGTH('a)"
  shows "riscv_multiplication_high_uu (x :: 'a::len word) y = word_of_int ((uint x * uint y) div 2 ^ LENGTH('a))
    \<and> riscv_multiplication_high_ss x y = word_of_int ((sint x * sint y) div 2 ^ LENGTH('a))
    \<and> riscv_multiplication_high_su x y = word_of_int ((sint x * uint y) div 2 ^ LENGTH('a))"
  using assms by (simp add: riscv_multiplication_high_uu_eq riscv_multiplication_high_ss_eq
      riscv_multiplication_high_su_eq)

theorem riscv_multiplication_high_witness:
  "riscv_multiplication_high_ss (- 3 :: uint32) 5
    = word_of_int ((sint (- 3 :: uint32) * sint (5 :: uint32)) div 2 ^ LENGTH(32))"
  using riscv_multiplication_high_correct [of "- 3 :: uint32" 5] by simp

text \<open>the MIPS multiplications leave the exact double-width product in the pair LO, HI:
  as an unsigned number for the unsigned instruction, and with HI read signed for the
  signed one.\<close>

theorem mips_multiplication_exact:
  "uint (snd (mips_multiplication_u x y)) * 2 ^ LENGTH('a) + uint (fst (mips_multiplication_u x y))
      = uint (x :: 'a::len word) * uint y
    \<and> sint (snd (mips_multiplication_s x y)) * 2 ^ LENGTH('a) + uint (fst (mips_multiplication_s x y))
      = sint x * sint y"
  by (metis mips_multiplication_u_eq mips_multiplication_s_sint prod.collapse)

text \<open>quotient and remainder of the RISC-V divisions satisfy
  quotient times divisor plus remainder equals dividend on every input, the division by zero
  and the overflowing signed division included; outside those two cases the signed quotient
  is the one truncated toward zero.\<close>

lemma riscv_division_identity:
  "riscv_division_u x y * y + riscv_remainder_u x y = x
    \<and> riscv_division_s x y * y + riscv_remainder_s x y = (x :: 'a::len word)
    \<and> (sint (riscv_division_s x y) = sint x sdiv sint y
       \<or> y = 0 \<or> is_signed_division_overflow x y)"
proof -
  have "sint (riscv_division_s x y) = sint x sdiv sint y"
    if "y \<noteq> 0" "\<not> is_signed_division_overflow x y"
  proof -
    have "sint x sdiv sint y \<ge> - (2 ^ (LENGTH('a) - Suc 0)) \<and> sint x sdiv sint y < 2 ^ (LENGTH('a) - Suc 0)"
      using sint_sdiv_range [OF that] .
    then show ?thesis using that
      by (simp add: riscv_division_s_def signed_of_int signed_take_bit_int_eq_self)
  qed
  then show ?thesis using riscv_division_identity_u riscv_division_identity_s by blast
qed

end
