(* ===== verification/Alu.thy ===== *)
theory Alu
  imports Operation Multiplication
begin

text \<open>
  The execution units of simulator/func_sim/alu.h, and the wrappers of
  simulator/func_sim/multiplication.h, as functions on a datapath. Every function has the
  name of the C++ one; a clash is resolved by a suffix (\<open>trap_if\<close>, \<open>j_target\<close>, \<open>max_s\<close>, \<open>pack_halves\<close>).
  A template type is its width \<open>w\<close>, at most the width of a register. A C++ shift by the
  width of the type or more is undefined; here it shifts everything out. \<open>run_executor\<close>
  is the call through the executor pointer and \<open>execute\<close> the method of \<open>Datapath\<close>.
\<close>

section \<open>Operands\<close>

definition src0 :: "('a::len, 'm) datapath_scheme \<Rightarrow> 'a word" where
  "src0 i = v_src i ! 0"

definition src1 :: "('a::len, 'm) datapath_scheme \<Rightarrow> 'a word" where
  "src1 i = v_src i ! 1"

definition set_dst0 :: "'a::len word \<Rightarrow> ('a, 'm) datapath_scheme \<Rightarrow> ('a, 'm) datapath_scheme" where
  "set_dst0 x i = i\<lparr>v_dst := (v_dst i)[0 := x]\<rparr>"

definition set_dst1 :: "'a::len word \<Rightarrow> ('a, 'm) datapath_scheme \<Rightarrow> ('a, 'm) datapath_scheme" where
  "set_dst1 x i = i\<lparr>v_dst := (v_dst i)[1 := x]\<rparr>"

definition shamt_imm :: "('a::len, 'm) datapath_scheme \<Rightarrow> nat" where
  "shamt_imm i = unat (ucast (v_imm i) :: uint64)"

definition shamt_imm_32 :: "('a::len, 'm) datapath_scheme \<Rightarrow> nat" where
  "shamt_imm_32 i = unat (ucast (v_imm i) + 32 :: uint64)"

definition shamt_v_src2 :: "nat \<Rightarrow> ('a::len, 'm) datapath_scheme \<Rightarrow> nat" where
  "shamt_v_src2 w i = unat (ucast (src1 i) AND bitmask (log_bitwidth w) :: uint64)"

text \<open>A register narrowed to an unsigned type of width \<open>w\<close>, and the all-ones value of the type.\<close>

definition narrow :: "nat \<Rightarrow> 'a::len word \<Rightarrow> 'a word" where
  "narrow w x = take_bit w x"

definition check_halt_trap :: "('a::len, 'm) datapath_scheme \<Rightarrow> ('a, 'm) datapath_scheme" where
  "check_halt_trap i = (if new_PC i = 0 \<or> new_PC i = PC i then i\<lparr>trap := HALT\<rparr> else i)"

section \<open>Predicates\<close>

fun eval_predicate :: "predicate \<Rightarrow> ('a::len, 'm) datapath_scheme \<Rightarrow> bool" where
  "eval_predicate P_lez i = (sint (src0 i) \<le> 0)"
| "eval_predicate P_gez i = (sint (src0 i) \<ge> 0)"
| "eval_predicate P_ltz i = (sint (src0 i) < 0)"
| "eval_predicate P_gtz i = (sint (src0 i) > 0)"
| "eval_predicate P_eq i = (src0 i = src1 i)"
| "eval_predicate P_ne i = (src0 i \<noteq> src1 i)"
| "eval_predicate P_geu i = (src0 i \<ge> src1 i)"
| "eval_predicate P_ltu i = (src0 i < src1 i)"
| "eval_predicate P_ge i = (sint (src0 i) \<ge> sint (src1 i))"
| "eval_predicate P_lt i = (sint (src0 i) < sint (src1 i))"
| "eval_predicate P_eqi i = (src0 i = v_imm i)"
| "eval_predicate P_nei i = (src0 i \<noteq> v_imm i)"
| "eval_predicate P_lti i = (sint (src0 i) < sint (v_imm i))"
| "eval_predicate P_gei i = (sint (src0 i) \<ge> sint (v_imm i))"
| "eval_predicate P_ltiu i = (src0 i < v_imm i)"
| "eval_predicate P_geiu i = (src0 i \<ge> v_imm i)"

section \<open>Addresses of loads and stores\<close>

definition addr :: "('a::len, 'm) datapath_scheme \<Rightarrow> ('a, 'm) datapath_scheme" where
  "addr i = i\<lparr>mem_addr := ucast (src0 i + v_imm i)\<rparr>"

definition load_addr :: "('a::len, 'm) datapath_scheme \<Rightarrow> ('a, 'm) datapath_scheme" where
  "load_addr i = addr i"

definition store_addr :: "('a::len, 'm) datapath_scheme \<Rightarrow> ('a, 'm) datapath_scheme" where
  "store_addr i = (let i = addr i in i\<lparr>wmask := bitmask (unat (mem_size i * 8))\<rparr>)"

definition load_addr_aligned :: "('a::len, 'm) datapath_scheme \<Rightarrow> ('a, 'm) datapath_scheme" where
  "load_addr_aligned i = 
     (let i = load_addr i
      in if mem_addr i mod ucast (mem_size i) \<noteq> 0 then i\<lparr>trap := UNALIGNED_LOAD\<rparr> else i)"

definition load_addr_right32 :: "('a::len, 'm) datapath_scheme \<Rightarrow> ('a, 'm) datapath_scheme" where
  "load_addr_right32 i = 
     (let i = load_addr i
      in i\<lparr>wmask := ucast (bitmask (unat ((4 - mem_addr i mod 4) * 8)) :: uint32)\<rparr>)"

definition load_addr_left32 :: "('a::len, 'm) datapath_scheme \<Rightarrow> ('a, 'm) datapath_scheme" where
  "load_addr_left32 i = 
     (let i = load_addr i;
          i = i\<lparr>wmask := push_bit (unat ((3 - mem_addr i mod 4) * 8)) (bitmask (unat ((1 + mem_addr i mod 4) * 8)))\<rparr>
      in i\<lparr>mem_addr := mem_addr i - 3\<rparr>)"

definition store_addr_aligned :: "('a::len, 'm) datapath_scheme \<Rightarrow> ('a, 'm) datapath_scheme" where
  "store_addr_aligned i = 
     (let i = store_addr i
      in if mem_addr i mod ucast (mem_size i) \<noteq> 0 then i\<lparr>trap := UNALIGNED_STORE\<rparr> else i)"

definition store_addr_right32 :: "('a::len, 'm) datapath_scheme \<Rightarrow> ('a, 'm) datapath_scheme" where
  "store_addr_right32 i = 
     (let i = store_addr i
      in i\<lparr>wmask := ucast (bitmask (unat ((4 - mem_addr i mod 4) * 8)) :: uint32)\<rparr>)"

definition store_addr_left32 :: "('a::len, 'm) datapath_scheme \<Rightarrow> ('a, 'm) datapath_scheme" where
  "store_addr_left32 i = 
     (let i = store_addr i;
          i = i\<lparr>wmask := push_bit (unat ((3 - mem_addr i mod 4) * 8)) (bitmask (unat ((1 + mem_addr i mod 4) * 8)))\<rparr>
      in i\<lparr>mem_addr := mem_addr i - 3\<rparr>)"

section \<open>Addition and subtraction\<close>

definition addition :: "nat \<Rightarrow> ('a::len, 'm) datapath_scheme \<Rightarrow> ('a, 'm) datapath_scheme" where
  "addition w i = set_dst0 (narrow w (narrow w (src0 i) + narrow w (src1 i))) i"

definition subtraction :: "nat \<Rightarrow> ('a::len, 'm) datapath_scheme \<Rightarrow> ('a, 'm) datapath_scheme" where
  "subtraction w i = set_dst0 (narrow w (narrow w (src0 i) - narrow w (src1 i))) i"

definition riscv_addition :: "nat \<Rightarrow> ('a::len, 'm) datapath_scheme \<Rightarrow> ('a, 'm) datapath_scheme" where
  "riscv_addition w i = set_dst0 (sign_extension (narrow w (narrow w (src0 i) + narrow w (src1 i))) w) i"

definition riscv_subtraction :: "nat \<Rightarrow> ('a::len, 'm) datapath_scheme \<Rightarrow> ('a, 'm) datapath_scheme" where
  "riscv_subtraction w i = set_dst0 (sign_extension (narrow w (narrow w (src0 i) - narrow w (src1 i))) w) i"

definition addition_imm :: "nat \<Rightarrow> ('a::len, 'm) datapath_scheme \<Rightarrow> ('a, 'm) datapath_scheme" where
  "addition_imm w i = set_dst0 (narrow w (narrow w (src0 i) + narrow w (v_imm i))) i"

definition riscv_addition_imm :: "nat \<Rightarrow> ('a::len, 'm) datapath_scheme \<Rightarrow> ('a, 'm) datapath_scheme" where
  "riscv_addition_imm w i = set_dst0 (sign_extension (src0 i + v_imm i) w) i"

definition addition_overflow :: "nat \<Rightarrow> ('a::len, 'm) datapath_scheme \<Rightarrow> ('a, 'm) datapath_scheme" where
  "addition_overflow w i = 
     (let (result, overflow) = test_addition_overflow w (src0 i) (src1 i)
      in if overflow then i\<lparr>trap := INTEGER_OVERFLOW\<rparr> else set_dst0 result i)"

definition addition_overflow_imm :: "nat \<Rightarrow> ('a::len, 'm) datapath_scheme \<Rightarrow> ('a, 'm) datapath_scheme" where
  "addition_overflow_imm w i = 
     (let (result, overflow) = test_addition_overflow w (src0 i) (v_imm i)
      in if overflow then i\<lparr>trap := INTEGER_OVERFLOW\<rparr> else set_dst0 result i)"

definition subtraction_overflow :: "nat \<Rightarrow> ('a::len, 'm) datapath_scheme \<Rightarrow> ('a, 'm) datapath_scheme" where
  "subtraction_overflow w i = 
     (let (result, overflow) = test_subtraction_overflow w (src0 i) (src1 i)
      in if overflow then i\<lparr>trap := INTEGER_OVERFLOW\<rparr> else set_dst0 result i)"

definition upper_immediate :: "nat \<Rightarrow> ('a::len, 'm) datapath_scheme \<Rightarrow> ('a, 'm) datapath_scheme" where
  "upper_immediate n i = set_dst0 (push_bit n (v_imm i)) i"

definition auipc :: "('a::len, 'm) datapath_scheme \<Rightarrow> ('a, 'm) datapath_scheme" where
  "auipc i = (let i = upper_immediate 12 i in set_dst0 (v_dst i ! 0 + ucast (PC i)) i)"

section \<open>Shifts and rotations\<close>

definition sll :: "nat \<Rightarrow> ('a::len, 'm) datapath_scheme \<Rightarrow> ('a, 'm) datapath_scheme" where
  "sll w i = set_dst0 (sign_extension (push_bit (shamt_imm i) (src0 i AND narrow w all_ones)) w) i"

definition srl :: "nat \<Rightarrow> ('a::len, 'm) datapath_scheme \<Rightarrow> ('a, 'm) datapath_scheme" where
  "srl w i = set_dst0 (sign_extension (drop_bit (shamt_imm i) (src0 i AND narrow w all_ones)) w) i"

definition sra :: "nat \<Rightarrow> ('a::len, 'm) datapath_scheme \<Rightarrow> ('a, 'm) datapath_scheme" where
  "sra w i = set_dst0 (arithmetic_rs (sign_extension (src0 i) w) (shamt_imm i)) i"

definition sllv :: "nat \<Rightarrow> ('a::len, 'm) datapath_scheme \<Rightarrow> ('a, 'm) datapath_scheme" where
  "sllv w i = set_dst0 (sign_extension (push_bit (shamt_v_src2 w i) (src0 i AND narrow w all_ones)) w) i"

definition srlv :: "nat \<Rightarrow> ('a::len, 'm) datapath_scheme \<Rightarrow> ('a, 'm) datapath_scheme" where
  "srlv w i = set_dst0 (sign_extension (drop_bit (shamt_v_src2 w i) (src0 i AND narrow w all_ones)) w) i"

definition srav :: "nat \<Rightarrow> ('a::len, 'm) datapath_scheme \<Rightarrow> ('a, 'm) datapath_scheme" where
  "srav w i = set_dst0 (arithmetic_rs (sign_extension (src0 i) w) (shamt_v_src2 w i)) i"

definition slo :: "nat \<Rightarrow> ('a::len, 'm) datapath_scheme \<Rightarrow> ('a, 'm) datapath_scheme" where
  "slo w i = set_dst0 (ones_ls (sign_extension (src0 i) w) (shamt_v_src2 w i)) i"

definition sloi :: "nat \<Rightarrow> ('a::len, 'm) datapath_scheme \<Rightarrow> ('a, 'm) datapath_scheme" where
  "sloi w i = set_dst0 (ones_ls (sign_extension (src0 i) w) (shamt_imm i)) i"

definition sro :: "nat \<Rightarrow> ('a::len, 'm) datapath_scheme \<Rightarrow> ('a, 'm) datapath_scheme" where
  "sro w i = set_dst0 (ones_rs (src0 i) (shamt_v_src2 w i)) i"

definition sroi :: "('a::len, 'm) datapath_scheme \<Rightarrow> ('a, 'm) datapath_scheme" where
  "sroi i = set_dst0 (ones_rs (src0 i) (shamt_imm i)) i"

definition rol :: "('a::len, 'm) datapath_scheme \<Rightarrow> ('a, 'm) datapath_scheme" where
  "rol i = set_dst0 (circ_ls (sign_extension (src0 i) LENGTH('a)) (shamt_v_src2 LENGTH('a) i)) i"

definition ror :: "('a::len, 'm) datapath_scheme \<Rightarrow> ('a, 'm) datapath_scheme" where
  "ror i = set_dst0 (circ_rs (sign_extension (src0 i) LENGTH('a)) (shamt_v_src2 LENGTH('a) i)) i"

definition rori :: "('a::len, 'm) datapath_scheme \<Rightarrow> ('a, 'm) datapath_scheme" where
  "rori i = set_dst0 (circ_rs (sign_extension (src0 i) LENGTH('a)) (shamt_imm i)) i"

definition dsll32 :: "('a::len, 'm) datapath_scheme \<Rightarrow> ('a, 'm) datapath_scheme" where
  "dsll32 i = set_dst0 (push_bit (shamt_imm_32 i) (src0 i)) i"

definition dsrl32 :: "('a::len, 'm) datapath_scheme \<Rightarrow> ('a, 'm) datapath_scheme" where
  "dsrl32 i = set_dst0 (drop_bit (shamt_imm_32 i) (src0 i)) i"

definition dsra32 :: "('a::len, 'm) datapath_scheme \<Rightarrow> ('a, 'm) datapath_scheme" where
  "dsra32 i = set_dst0 (arithmetic_rs (src0 i) (shamt_imm_32 i)) i"

section \<open>Counting, logic, selection\<close>

definition clo :: "nat \<Rightarrow> ('a::len, 'm) datapath_scheme \<Rightarrow> ('a, 'm) datapath_scheme" where
  "clo w i = set_dst0 (of_nat (count_leading_ones w (src0 i))) i"

definition clz :: "nat \<Rightarrow> ('a::len, 'm) datapath_scheme \<Rightarrow> ('a, 'm) datapath_scheme" where
  "clz w i = set_dst0 (of_nat (count_leading_zeroes w (src0 i))) i"

definition ctz :: "nat \<Rightarrow> ('a::len, 'm) datapath_scheme \<Rightarrow> ('a, 'm) datapath_scheme" where
  "ctz w i = set_dst0 (of_nat (count_trailing_zeroes w (src0 i))) i"

definition pcnt :: "nat \<Rightarrow> ('a::len, 'm) datapath_scheme \<Rightarrow> ('a, 'm) datapath_scheme" where
  "pcnt w i = set_dst0 (narrow w (of_nat (popcount (src0 i)))) i"

definition andv :: "('a::len, 'm) datapath_scheme \<Rightarrow> ('a, 'm) datapath_scheme" where
  "andv i = set_dst0 (src0 i AND src1 i) i"

definition orv :: "('a::len, 'm) datapath_scheme \<Rightarrow> ('a, 'm) datapath_scheme" where
  "orv i = set_dst0 (src0 i OR src1 i) i"

definition xorv :: "('a::len, 'm) datapath_scheme \<Rightarrow> ('a, 'm) datapath_scheme" where
  "xorv i = set_dst0 (src0 i XOR src1 i) i"

definition nor :: "('a::len, 'm) datapath_scheme \<Rightarrow> ('a, 'm) datapath_scheme" where
  "nor i = set_dst0 (NOT (src0 i OR src1 i)) i"

definition andi :: "('a::len, 'm) datapath_scheme \<Rightarrow> ('a, 'm) datapath_scheme" where
  "andi i = set_dst0 (src0 i AND v_imm i) i"

definition ori :: "('a::len, 'm) datapath_scheme \<Rightarrow> ('a, 'm) datapath_scheme" where
  "ori i = set_dst0 (src0 i OR v_imm i) i"

definition xori :: "('a::len, 'm) datapath_scheme \<Rightarrow> ('a, 'm) datapath_scheme" where
  "xori i = set_dst0 (src0 i XOR v_imm i) i"

definition orn :: "('a::len, 'm) datapath_scheme \<Rightarrow> ('a, 'm) datapath_scheme" where
  "orn i = set_dst0 (src0 i OR NOT (src1 i)) i"

definition xnor :: "('a::len, 'm) datapath_scheme \<Rightarrow> ('a, 'm) datapath_scheme" where
  "xnor i = set_dst0 (src0 i XOR NOT (src1 i)) i"

definition move :: "('a::len, 'm) datapath_scheme \<Rightarrow> ('a, 'm) datapath_scheme" where
  "move i = set_dst0 (src0 i) i"

definition set_pred :: "predicate \<Rightarrow> ('a::len, 'm) datapath_scheme \<Rightarrow> ('a, 'm) datapath_scheme" where
  "set_pred p i = set_dst0 (of_bool (eval_predicate p i)) i"

definition movn :: "('a::len, 'm) datapath_scheme \<Rightarrow> ('a, 'm) datapath_scheme" where
  "movn i = (let i = move i in if src1 i = 0 then i\<lparr>wmask := 0\<rparr> else i)"

definition movz :: "('a::len, 'm) datapath_scheme \<Rightarrow> ('a, 'm) datapath_scheme" where
  "movz i = (let i = move i in if src1 i \<noteq> 0 then i\<lparr>wmask := 0\<rparr> else i)"

definition max_s :: "('a::len, 'm) datapath_scheme \<Rightarrow> ('a, 'm) datapath_scheme" where
  "max_s i = set_dst0 (v_src i ! (if eval_predicate P_ge i then 0 else 1)) i"

definition max_u :: "('a::len, 'm) datapath_scheme \<Rightarrow> ('a, 'm) datapath_scheme" where
  "max_u i = set_dst0 (max (src0 i) (src1 i)) i"

definition min_s :: "('a::len, 'm) datapath_scheme \<Rightarrow> ('a, 'm) datapath_scheme" where
  "min_s i = set_dst0 (v_src i ! (if eval_predicate P_lt i then 0 else 1)) i"

definition min_u :: "('a::len, 'm) datapath_scheme \<Rightarrow> ('a, 'm) datapath_scheme" where
  "min_u i = set_dst0 (min (src0 i) (src1 i)) i"

section \<open>Bit manipulation\<close>

definition grev :: "('a::len, 'm) datapath_scheme \<Rightarrow> ('a, 'm) datapath_scheme" where
  "grev i = set_dst0 (gen_reverse (src0 i) (shamt_v_src2 LENGTH('a) i)) i"

text \<open>The loops over the levels, from the low one up and from the high one down.\<close>

definition shuffle_levels :: "nat list \<Rightarrow> 'a::len word \<Rightarrow> 'a word \<Rightarrow> 'a word" where
  "shuffle_levels levels control x =
     fold (\<lambda>l x. if drop_bit l control AND 1 \<noteq> 0 then bit_shuffle x l else x) levels x"

definition riscv_unshfl :: "('a::len, 'm) datapath_scheme \<Rightarrow> ('a, 'm) datapath_scheme" where
  "riscv_unshfl i = set_dst0 (shuffle_levels [0..<log_bitwidth LENGTH('a) - 1] (src1 i) (src0 i)) i"

definition riscv_shfl :: "('a::len, 'm) datapath_scheme \<Rightarrow> ('a, 'm) datapath_scheme" where
  "riscv_shfl i = set_dst0 (shuffle_levels (rev [0..<log_bitwidth LENGTH('a) - 1]) (src1 i) (src0 i)) i"

definition gorc :: "nat \<Rightarrow> ('a::len, 'm) datapath_scheme \<Rightarrow> ('a, 'm) datapath_scheme" where
  "gorc w i = set_dst0 (gen_or_combine (src0 i) (shamt_v_src2 w i)) i"

definition gorci :: "('a::len, 'm) datapath_scheme \<Rightarrow> ('a, 'm) datapath_scheme" where
  "gorci i = set_dst0 (gen_or_combine (src0 i) (shamt_imm i)) i"

definition sbinv :: "nat \<Rightarrow> ('a::len, 'm) datapath_scheme \<Rightarrow> ('a, 'm) datapath_scheme" where
  "sbinv w i = set_dst0 (src0 i XOR narrow w (push_bit (shamt_v_src2 w i) lsb_set)) i"

definition sbext :: "nat \<Rightarrow> ('a::len, 'm) datapath_scheme \<Rightarrow> ('a, 'm) datapath_scheme" where
  "sbext w i = set_dst0 (1 AND drop_bit (shamt_v_src2 w i) (src0 i)) i"

definition clmul :: "nat \<Rightarrow> ('a::len, 'm) datapath_scheme \<Rightarrow> ('a, 'm) datapath_scheme" where
  "clmul w i = 
     set_dst0 (fold (\<lambda>index r. if drop_bit index (src1 i) AND 1 \<noteq> 0 then r XOR push_bit index (src0 i) else r)
       [0..<w] 0) i"

definition pack_halves :: "nat \<Rightarrow> ('a::len, 'm) datapath_scheme \<Rightarrow> ('a, 'm) datapath_scheme" where
  "pack_halves w i = set_dst0 ((src0 i AND narrow w (bitmask (w div 2))) OR push_bit (w div 2) (src1 i)) i"

definition packu_halves :: "nat \<Rightarrow> ('a::len, 'm) datapath_scheme \<Rightarrow> ('a, 'm) datapath_scheme" where
  "packu_halves w i = set_dst0 (drop_bit (w div 2) (src0 i) OR (src1 i AND narrow w (push_bit (w div 2) (bitmask (w div 2))))) i"

definition bit_field_place :: "('a::len, 'm) datapath_scheme \<Rightarrow> ('a, 'm) datapath_scheme" where
  "bit_field_place i = 
     (let len = unat (drop_bit 24 (ucast (src1 i)) AND 15 :: uint64);
          len = (if len > 0 then len else 16);
          off = unat (drop_bit 16 (ucast (src1 i)) AND (of_nat LENGTH('a) - 1) :: uint64);
          m = push_bit off (bitmask len);
          data = push_bit off (src1 i)
      in set_dst0 ((data AND m) OR (src0 i AND NOT m)) i)"

section \<open>Branches, jumps, traps and control registers\<close>

definition branch :: "predicate \<Rightarrow> ('a::len, 'm) datapath_scheme \<Rightarrow> ('a, 'm) datapath_scheme" where
  "branch p i = 
     (let i = i\<lparr>is_taken_branch := eval_predicate p i\<rparr>
      in if is_taken_branch i then check_halt_trap (i\<lparr>new_PC := target i\<rparr>) else i)"

definition jump :: "Addr \<Rightarrow> ('a::len, 'm) datapath_scheme \<Rightarrow> ('a, 'm) datapath_scheme" where
  "jump t i = check_halt_trap (i\<lparr>is_taken_branch := True, new_PC := t\<rparr>)"

definition j_target :: "('a::len, 'm) datapath_scheme \<Rightarrow> ('a, 'm) datapath_scheme" where
  "j_target i = jump (target i) i"

definition riscv_jr :: "('a::len, 'm) datapath_scheme \<Rightarrow> ('a, 'm) datapath_scheme" where
  "riscv_jr i = jump (ucast (src0 i + v_imm i)) i"

definition jr :: "('a::len, 'm) datapath_scheme \<Rightarrow> ('a, 'm) datapath_scheme" where
  "jr i = 
     (let i = (if src0 i mod 4 \<noteq> 0 then i\<lparr>trap := UNALIGNED_FETCH\<rparr> else i)
      in jump (ucast (align_up 2 (src0 i))) i)"

fun run_jump :: "jump_fn \<Rightarrow> ('a::len, 'm) datapath_scheme \<Rightarrow> ('a, 'm) datapath_scheme" where
  "run_jump J_j i = j_target i"
| "run_jump J_jr i = jr i"
| "run_jump J_riscv_jr i = riscv_jr i"

definition jump_and_link :: "jump_fn \<Rightarrow> ('a::len, 'm) datapath_scheme \<Rightarrow> ('a, 'm) datapath_scheme" where
  "jump_and_link f i = run_jump f (set_dst0 (ucast (new_PC i)) i)"

definition branch_and_link :: "predicate \<Rightarrow> ('a::len, 'm) datapath_scheme \<Rightarrow> ('a, 'm) datapath_scheme" where
  "branch_and_link p i = 
     (let i = i\<lparr>is_taken_branch := eval_predicate p i\<rparr>;
          i = set_dst0 (ucast (new_PC i)) i
      in if is_taken_branch i then check_halt_trap (i\<lparr>new_PC := target i\<rparr>) else i)"

definition eret :: "('a::len, 'm) datapath_scheme \<Rightarrow> ('a, 'm) datapath_scheme" where
  "eret i = 
     (let i = jump (ucast (src0 i)) i
      in set_dst0 (v_dst i ! 0 AND (src1 i AND ucast (NOT (push_bit 2 1) :: uint32))) i)"

definition breakpoint :: "('a::len, 'm) datapath_scheme \<Rightarrow> ('a, 'm) datapath_scheme" where
  "breakpoint i = i\<lparr>trap := BREAKPOINT\<rparr>"

definition syscall :: "('a::len, 'm) datapath_scheme \<Rightarrow> ('a, 'm) datapath_scheme" where
  "syscall i = i\<lparr>trap := SYSCALL\<rparr>"

definition halt :: "('a::len, 'm) datapath_scheme \<Rightarrow> ('a, 'm) datapath_scheme" where
  "halt i = i\<lparr>trap := HALT\<rparr>"

definition unknown_instruction :: "('a::len, 'm) datapath_scheme \<Rightarrow> ('a, 'm) datapath_scheme" where
  "unknown_instruction i = i\<lparr>trap := UNKNOWN_INSTRUCTION\<rparr>"

definition trap_if :: "predicate \<Rightarrow> ('a::len, 'm) datapath_scheme \<Rightarrow> ('a, 'm) datapath_scheme" where
  "trap_if p i = (if eval_predicate p i then i\<lparr>trap := EXPLICIT_TRAP\<rparr> else i)"

definition csrrw :: "('a::len, 'm) datapath_scheme \<Rightarrow> ('a, 'm) datapath_scheme" where
  "csrrw i = set_dst1 (src1 i) (set_dst0 (src0 i) i)"

definition csrrs :: "('a::len, 'm) datapath_scheme \<Rightarrow> ('a, 'm) datapath_scheme" where
  "csrrs i = set_dst1 (src1 i) (set_dst0 all_ones (i\<lparr>wmask := src0 i\<rparr>))"

definition csrrwi :: "('a::len, 'm) datapath_scheme \<Rightarrow> ('a, 'm) datapath_scheme" where
  "csrrwi i = set_dst1 (src1 i) (set_dst0 (v_imm i) i)"

section \<open>Multiplication and division\<close>

text \<open>
  The template instance at width 32, or at width 64, on operands converted to its type.
\<close>

definition at_width ::
  "nat \<Rightarrow> (uint32 \<Rightarrow> uint32 \<Rightarrow> uint32) \<Rightarrow> (uint64 \<Rightarrow> uint64 \<Rightarrow> uint64) \<Rightarrow> 'a::len word \<Rightarrow> 'a word \<Rightarrow> 'a word" where
  "at_width w f32 f64 x y =
     (if w = 32 then ucast (f32 (ucast x) (ucast y)) else ucast (f64 (ucast x) (ucast y)))"

definition mult_h_uu :: "nat \<Rightarrow> ('a::len, 'm) datapath_scheme \<Rightarrow> ('a, 'm) datapath_scheme" where
  "mult_h_uu w i = set_dst0 (at_width w riscv_multiplication_high_uu riscv_multiplication_high_uu (src0 i) (src1 i)) i"

definition mult_h_ss :: "nat \<Rightarrow> ('a::len, 'm) datapath_scheme \<Rightarrow> ('a, 'm) datapath_scheme" where
  "mult_h_ss w i = set_dst0 (at_width w riscv_multiplication_high_ss riscv_multiplication_high_ss (src0 i) (src1 i)) i"

definition mult_h_su :: "nat \<Rightarrow> ('a::len, 'm) datapath_scheme \<Rightarrow> ('a, 'm) datapath_scheme" where
  "mult_h_su w i = set_dst0 (at_width w riscv_multiplication_high_su riscv_multiplication_high_su (src0 i) (src1 i)) i"

definition mult_l :: "nat \<Rightarrow> ('a::len, 'm) datapath_scheme \<Rightarrow> ('a, 'm) datapath_scheme" where
  "mult_l w i = set_dst0 (at_width w riscv_multiplication_low riscv_multiplication_low (src0 i) (src1 i)) i"

definition riscv_div :: "bool \<Rightarrow> nat \<Rightarrow> ('a::len, 'm) datapath_scheme \<Rightarrow> ('a, 'm) datapath_scheme" where
  "riscv_div s w i = 
     set_dst0 (if s then at_width w riscv_division_s riscv_division_s (src0 i) (src1 i)
               else at_width w riscv_division_u riscv_division_u (src0 i) (src1 i)) i"

definition riscv_rem :: "bool \<Rightarrow> nat \<Rightarrow> ('a::len, 'm) datapath_scheme \<Rightarrow> ('a, 'm) datapath_scheme" where
  "riscv_rem s w i = 
     set_dst0 (if s then at_width w riscv_remainder_s riscv_remainder_s (src0 i) (src1 i)
               else at_width w riscv_remainder_u riscv_remainder_u (src0 i) (src1 i)) i"

definition pair_at_width ::
  "nat \<Rightarrow> (uint32 \<Rightarrow> uint32 \<Rightarrow> uint32 \<times> uint32) \<Rightarrow> (uint64 \<Rightarrow> uint64 \<Rightarrow> uint64 \<times> uint64)
   \<Rightarrow> 'a::len word \<Rightarrow> 'a word \<Rightarrow> 'a word \<times> 'a word" where
  "pair_at_width w f32 f64 x y =
     (if w = 32 then map_prod ucast ucast (f32 (ucast x) (ucast y))
      else map_prod ucast ucast (f64 (ucast x) (ucast y)))"

definition mips_multiplication_unit :: "bool \<Rightarrow> nat \<Rightarrow> ('a::len, 'm) datapath_scheme \<Rightarrow> ('a, 'm) datapath_scheme" where
  "mips_multiplication_unit s w i = 
     (let result = (if s then pair_at_width w mips_multiplication_s mips_multiplication_s (src0 i) (src1 i)
                    else pair_at_width w mips_multiplication_u mips_multiplication_u (src0 i) (src1 i))
      in set_dst1 (snd result) (set_dst0 (fst result) i))"

definition mips_division_unit :: "bool \<Rightarrow> nat \<Rightarrow> ('a::len, 'm) datapath_scheme \<Rightarrow> ('a, 'm) datapath_scheme" where
  "mips_division_unit s w i = 
     (let result = (if s then pair_at_width w mips_division_s mips_division_s (src0 i) (src1 i)
                    else pair_at_width w mips_division_u mips_division_u (src0 i) (src1 i))
      in set_dst1 (snd result) (set_dst0 (fst result) i))"

section \<open>The executor\<close>

fun run_address :: "address_fn \<Rightarrow> ('a::len, 'm) datapath_scheme \<Rightarrow> ('a, 'm) datapath_scheme" where
  "run_address X_load_addr i = load_addr i"
| "run_address X_store_addr i = store_addr i"
| "run_address X_load_addr_aligned i = load_addr_aligned i"
| "run_address X_load_addr_right32 i = load_addr_right32 i"
| "run_address X_load_addr_left32 i = load_addr_left32 i"
| "run_address X_store_addr_aligned i = store_addr_aligned i"
| "run_address X_store_addr_right32 i = store_addr_right32 i"
| "run_address X_store_addr_left32 i = store_addr_left32 i"
| "run_address X_addr i = addr i"

fun run_arith :: "arith_fn \<Rightarrow> ('a::len, 'm) datapath_scheme \<Rightarrow> ('a, 'm) datapath_scheme" where
  "run_arith (X_addition w) i = addition w i"
| "run_arith (X_subtraction w) i = subtraction w i"
| "run_arith (X_riscv_addition w) i = riscv_addition w i"
| "run_arith (X_riscv_subtraction w) i = riscv_subtraction w i"
| "run_arith (X_addition_imm w) i = addition_imm w i"
| "run_arith (X_riscv_addition_imm w) i = riscv_addition_imm w i"
| "run_arith (X_addition_overflow w) i = addition_overflow w i"
| "run_arith (X_addition_overflow_imm w) i = addition_overflow_imm w i"
| "run_arith (X_subtraction_overflow w) i = subtraction_overflow w i"
| "run_arith (X_upper_immediate n) i = upper_immediate n i"
| "run_arith X_auipc i = auipc i"

fun run_shift :: "shift_fn \<Rightarrow> ('a::len, 'm) datapath_scheme \<Rightarrow> ('a, 'm) datapath_scheme" where
  "run_shift (X_sll w) i = sll w i"
| "run_shift (X_srl w) i = srl w i"
| "run_shift (X_sra w) i = sra w i"
| "run_shift (X_sllv w) i = sllv w i"
| "run_shift (X_srlv w) i = srlv w i"
| "run_shift (X_srav w) i = srav w i"
| "run_shift (X_slo w) i = slo w i"
| "run_shift (X_sloi w) i = sloi w i"
| "run_shift (X_sro w) i = sro w i"
| "run_shift X_sroi i = sroi i"
| "run_shift X_rol i = rol i"
| "run_shift X_ror i = ror i"
| "run_shift X_rori i = rori i"
| "run_shift X_dsll32 i = dsll32 i"
| "run_shift X_dsrl32 i = dsrl32 i"
| "run_shift X_dsra32 i = dsra32 i"

fun run_logic :: "logic_fn \<Rightarrow> ('a::len, 'm) datapath_scheme \<Rightarrow> ('a, 'm) datapath_scheme" where
  "run_logic X_andv i = andv i"
| "run_logic X_orv i = orv i"
| "run_logic X_xorv i = xorv i"
| "run_logic X_nor i = nor i"
| "run_logic X_andi i = andi i"
| "run_logic X_ori i = ori i"
| "run_logic X_xori i = xori i"
| "run_logic X_orn i = orn i"
| "run_logic X_xnor i = xnor i"
| "run_logic X_movn i = movn i"
| "run_logic X_movz i = movz i"
| "run_logic X_move i = move i"
| "run_logic (X_set p) i = set_pred p i"
| "run_logic X_max i = max_s i"
| "run_logic X_maxu i = max_u i"
| "run_logic X_min i = min_s i"
| "run_logic X_minu i = min_u i"

fun run_bit :: "bit_fn \<Rightarrow> ('a::len, 'm) datapath_scheme \<Rightarrow> ('a, 'm) datapath_scheme" where
  "run_bit (X_clo w) i = clo w i"
| "run_bit (X_clz w) i = clz w i"
| "run_bit (X_ctz w) i = ctz w i"
| "run_bit (X_pcnt w) i = pcnt w i"
| "run_bit X_grev i = grev i"
| "run_bit X_riscv_unshfl i = riscv_unshfl i"
| "run_bit X_riscv_shfl i = riscv_shfl i"
| "run_bit (X_gorc w) i = gorc w i"
| "run_bit X_gorci i = gorci i"
| "run_bit (X_sbinv w) i = sbinv w i"
| "run_bit (X_sbext w) i = sbext w i"
| "run_bit (X_clmul w) i = clmul w i"
| "run_bit (X_pack w) i = pack_halves w i"
| "run_bit (X_packu w) i = packu_halves w i"
| "run_bit X_bit_field_place i = bit_field_place i"

fun run_control :: "control_fn \<Rightarrow> ('a::len, 'm) datapath_scheme \<Rightarrow> ('a, 'm) datapath_scheme" where
  "run_control (X_branch p) i = branch p i"
| "run_control (X_jump f) i = run_jump f i"
| "run_control (X_jump_and_link f) i = jump_and_link f i"
| "run_control (X_branch_and_link p) i = branch_and_link p i"
| "run_control X_eret i = eret i"
| "run_control X_breakpoint i = breakpoint i"
| "run_control X_syscall i = syscall i"
| "run_control X_halt i = halt i"
| "run_control (X_trap p) i = trap_if p i"
| "run_control X_unknown_instruction i = unknown_instruction i"
| "run_control X_csrrw i = csrrw i"
| "run_control X_csrrs i = csrrs i"
| "run_control X_csrrwi i = csrrwi i"

fun run_mult :: "mult_fn \<Rightarrow> ('a::len, 'm) datapath_scheme \<Rightarrow> ('a, 'm) datapath_scheme" where
  "run_mult (X_riscv_mult_h_uu w) i = mult_h_uu w i"
| "run_mult (X_riscv_mult_h_ss w) i = mult_h_ss w i"
| "run_mult (X_riscv_mult_h_su w) i = mult_h_su w i"
| "run_mult (X_riscv_mult_l w) i = mult_l w i"
| "run_mult (X_riscv_div s w) i = riscv_div s w i"
| "run_mult (X_riscv_rem s w) i = riscv_rem s w i"
| "run_mult (X_mips_multiplication s w) i = mips_multiplication_unit s w i"
| "run_mult (X_mips_division s w) i = mips_division_unit s w i"

fun run_executor :: "execute_fn \<Rightarrow> ('a::len, 'm) datapath_scheme \<Rightarrow> ('a, 'm) datapath_scheme" where
  "run_executor X_do_nothing i = i"
| "run_executor (Address_fn f) i = run_address f i"
| "run_executor (Arith_fn f) i = run_arith f i"
| "run_executor (Shift_fn f) i = run_shift f i"
| "run_executor (Logic_fn f) i = run_logic f i"
| "run_executor (Bit_fn f) i = run_bit f i"
| "run_executor (Control_fn f) i = run_control f i"
| "run_executor (Mult_fn f) i = run_mult f i"

definition execute :: "('a::len, 'm) datapath_scheme \<Rightarrow> ('a, 'm) datapath_scheme" where
  "execute i = (let i = run_executor (executor i) i in i\<lparr>complete := True\<rparr>)"

section \<open>What an execution leaves alone\<close>

text \<open>
  \<open>static_eq\<close> says that two states of an instruction agree on everything the decoder set
  and on the operands: an execution changes the results, the memory address, the write
  mask, the trap, the outcome of a branch and the completion flag, and nothing else.
\<close>

definition static_eq :: "('a::len, 'm) datapath_scheme \<Rightarrow> ('a, 'm) datapath_scheme \<Rightarrow> bool" where
  "static_eq i k \<longleftrightarrow> (\<exists>t ma tk np d m c.
     k = i\<lparr>trap := t, mem_addr := ma, is_taken_branch := tk, new_PC := np, v_dst := d,
           wmask := m, complete := c\<rparr> \<and> length d = length (v_dst i))"

lemma static_eqI:
  "length (v_dst k) = length (v_dst i) \<Longrightarrow>
   k = i\<lparr>trap := trap k, mem_addr := mem_addr k, is_taken_branch := is_taken_branch k,
     new_PC := new_PC k, v_dst := v_dst k, wmask := wmask k, complete := complete k\<rparr> \<Longrightarrow> static_eq i k"
  unfolding static_eq_def by blast

lemma static_eq_refl [intro!, simp]: "static_eq i i"
  by (rule static_eqI) simp_all

lemma static_eq_trans [trans]: "static_eq i k \<Longrightarrow> static_eq k l \<Longrightarrow> static_eq i l"
  unfolding static_eq_def by fastforce

lemma static_eqD:
  assumes "static_eq i k"
  shows "opname k = opname i" "mem_size k = mem_size i" "delayed_slots k = delayed_slots i"
    "PC k = PC i" "target k = target i" "operation k = operation i"
    "sequence_id k = sequence_id i" "v_src k = v_src i" "v_imm k = v_imm i" "executor k = executor i"
    "memory_complete k = memory_complete i" "length (v_dst k) = length (v_dst i)"
    "datapath.more k = datapath.more i"
  using assms by (auto simp: static_eq_def)

lemmas alu_state = set_dst0_def set_dst1_def check_halt_trap_def Let_def

lemma static_eq_address: "static_eq i (run_address f i)"
  by (rule static_eqI; cases f)
    (simp_all add: alu_state addr_def load_addr_def store_addr_def load_addr_aligned_def
      load_addr_right32_def load_addr_left32_def store_addr_aligned_def store_addr_right32_def
      store_addr_left32_def)

text \<open>Each elementary update keeps the relation to the state where the execution began.\<close>

lemma static_eq_step [simp, intro]:
  assumes "static_eq i k"
  shows "static_eq i (set_dst0 x k)" "static_eq i (set_dst1 x k)" "static_eq i (k\<lparr>trap := t\<rparr>)"
    "static_eq i (k\<lparr>is_taken_branch := b\<rparr>)" "static_eq i (k\<lparr>new_PC := a\<rparr>)"
    "static_eq i (k\<lparr>is_taken_branch := b, new_PC := a\<rparr>)"
    "static_eq i (k\<lparr>wmask := m\<rparr>)" "static_eq i (k\<lparr>complete := b\<rparr>)"
  by (rule static_eq_trans [OF assms], rule static_eqI; simp add: set_dst0_def set_dst1_def)+

lemma static_eq_check_halt_trap [simp]: "static_eq i k \<Longrightarrow> static_eq i (check_halt_trap k)"
  by (simp add: check_halt_trap_def)

lemma static_eq_jump [simp]: "static_eq i k \<Longrightarrow> static_eq i (jump t k)"
  by (simp add: jump_def)

lemma static_eq_arith [simp]: "static_eq i (run_arith f i)"
  by (cases f)
    (auto simp: addition_def subtraction_def riscv_addition_def riscv_subtraction_def addition_imm_def
      riscv_addition_imm_def addition_overflow_def addition_overflow_imm_def subtraction_overflow_def
      upper_immediate_def auipc_def Let_def split: prod.split)

lemma static_eq_shift [simp]: "static_eq i (run_shift f i)"
  by (cases f)
    (simp_all add: sll_def srl_def sra_def sllv_def srlv_def srav_def slo_def sloi_def sro_def sroi_def
      rol_def ror_def rori_def dsll32_def dsrl32_def dsra32_def)

lemma static_eq_logic [simp]: "static_eq i (run_logic f i)"
  by (cases f)
    (auto simp: andv_def orv_def xorv_def nor_def andi_def ori_def xori_def orn_def xnor_def
      movn_def movz_def move_def set_pred_def max_s_def max_u_def min_s_def min_u_def Let_def)

lemma static_eq_bit [simp]: "static_eq i (run_bit f i)"
  by (cases f)
    (simp_all add: clo_def clz_def ctz_def pcnt_def grev_def riscv_unshfl_def riscv_shfl_def gorc_def
      gorci_def sbinv_def sbext_def clmul_def pack_halves_def packu_halves_def bit_field_place_def Let_def)

lemma static_eq_run_jump [simp]: "static_eq i k \<Longrightarrow> static_eq i (run_jump f k)"
  by (cases f) (simp_all add: j_target_def jr_def riscv_jr_def Let_def)

lemma static_eq_control [simp]: "static_eq i (run_control f i)"
  by (cases f)
    (simp_all add: branch_def branch_and_link_def jump_and_link_def eret_def breakpoint_def syscall_def
      halt_def trap_if_def unknown_instruction_def csrrw_def csrrs_def csrrwi_def Let_def)

lemma static_eq_mult [simp]: "static_eq i (run_mult f i)"
  by (cases f)
    (auto simp: mult_h_uu_def mult_h_ss_def mult_h_su_def mult_l_def riscv_div_def riscv_rem_def
      mips_multiplication_unit_def mips_division_unit_def Let_def)

lemma static_eq_run_executor: "static_eq i (run_executor f i)"
  by (cases f) (simp_all add: static_eq_address)

lemma execute_static: "static_eq i (execute i)" and execute_complete: "complete (execute i)"
  by (simp_all add: execute_def Let_def static_eq_run_executor)

section \<open>Results\<close>

lemma src_frame [simp, frame_simps]:
  "src0 (set_dst0 x i) = src0 i" "src1 (set_dst0 x i) = src1 i"
  "src0 (i\<lparr>trap := t\<rparr>) = src0 i" "src0 (i\<lparr>wmask := m\<rparr>) = src0 i" "src0 (i\<lparr>mem_addr := a\<rparr>) = src0 i"
  by (simp_all add: src0_def src1_def set_dst0_def)

lemma set_dst_fields [simp, frame_simps]:
  "trap (set_dst0 x i) = trap i" "new_PC (set_dst0 x i) = new_PC i" "PC (set_dst0 x i) = PC i"
  "is_taken_branch (set_dst0 x i) = is_taken_branch i" "target (set_dst0 x i) = target i"
  "v_imm (set_dst0 x i) = v_imm i" "wmask (set_dst0 x i) = wmask i"
  "v_dst (set_dst0 x i) = (v_dst i)[0 := x]" "v_dst (set_dst1 x i) = (v_dst i)[1 := x]"
  "trap (set_dst1 x i) = trap i" "wmask (set_dst1 x i) = wmask i"
  by (simp_all add: set_dst0_def set_dst1_def)

text \<open>A concrete instruction for the witnesses.\<close>

definition example_datapath :: "(32, nat) base_instruction" where
  "example_datapath = (new_base_instruction 0x100 0x104 X_do_nothing 0)\<lparr>v_src := [0x0F0F1234, 0x1003, 0]\<rparr>"

lemma wf_example_datapath: "wf_datapath example_datapath"
  by (simp add: example_datapath_def wf_datapath_def new_base_instruction_def operation.extend_def)

lemma shuffle_levels_Cons: "shuffle_levels (l # ls) c x =
    shuffle_levels ls c (if drop_bit l c AND 1 \<noteq> 0 then bit_shuffle x l else x)"
  by (simp add: shuffle_levels_def)

lemma shuffle_levels_append: "shuffle_levels (xs @ ys) c x = shuffle_levels ys c (shuffle_levels xs c x)"
  by (simp add: shuffle_levels_def)

lemma shuffle_levels_rev:
  assumes "LENGTH('a) = 2 ^ k" "\<And>l. l \<in> set ls \<Longrightarrow> Suc l < k"
  shows "shuffle_levels (rev ls) c (shuffle_levels ls c (x :: 'a::len word)) = x"
  using assms(2)
  by (induction ls arbitrary: x)
    (auto simp: shuffle_levels_Cons shuffle_levels_append shuffle_levels_def
      bit_shuffle_invol [OF assms(1)])

text \<open>on registers whose width is a power of two the RISC-V shuffle and unshuffle
  instructions undo each other: unshuffling the result of a shuffle with the same control
  operand gives the first operand back, and shuffling the result of an unshuffle does.\<close>

lemma riscv_shfl_unshfl_inverse:
  assumes "LENGTH('a) = 2 ^ k" "wf_datapath (i :: ('a::len, 'm) datapath_scheme)"
  shows "v_dst (riscv_unshfl (i\<lparr>v_src := (v_src i)[0 := v_dst (riscv_shfl i) ! 0]\<rparr>)) ! 0 = src0 i
    \<and> v_dst (riscv_shfl (i\<lparr>v_src := (v_src i)[0 := v_dst (riscv_unshfl i) ! 0]\<rparr>)) ! 0 = src0 i"
proof -
  let ?ls = "[0..<log_bitwidth LENGTH('a) - 1]"
  have len: "0 < length (v_src i)" "0 < length (v_dst i)" using assms(2) by (auto simp: wf_datapath_def)
  have "log_bitwidth LENGTH('a) = k" using assms(1) by (simp add: log_bitwidth_exp)
  then have lt: "Suc l < k" if "l \<in> set ?ls" for l using that by simp
  have "shuffle_levels ?ls (src1 i) (shuffle_levels (rev ?ls) (src1 i) (src0 i)) = src0 i"
    "shuffle_levels (rev ?ls) (src1 i) (shuffle_levels ?ls (src1 i) (src0 i)) = src0 i"
    using shuffle_levels_rev [OF assms(1), of "rev ?ls" "src1 i" "src0 i"] lt
      shuffle_levels_rev [OF assms(1), of ?ls "src1 i" "src0 i"] by simp_all
  then show ?thesis using len
    by (simp add: riscv_unshfl_def riscv_shfl_def src0_def src1_def)
qed




text \<open>Whatever function the decoder selected, executing an instruction changes only its
  results, memory address, write mask, trap and branch outcome: the operands, the kind of
  operation, the program counter, the decoded target, the operand size and the register
  numbers stay, the arrays keep their lengths, and the instruction is complete.\<close>

theorem execute_frame:
  "static_eq i (execute i) \<and> complete (execute i)"
  by (simp add: execute_static execute_complete)

lemma sint_sign_extension_eq:
  assumes "0 < w" "w \<le> LENGTH('a)" "uint (v :: 'a::len word) = take_bit m x" "w \<le> m"
  shows "sint (sign_extension v w) = signed_take_bit (w - 1) x"
proof -
  have "signed_take_bit (w - Suc 0) (take_bit m x) = signed_take_bit (w - Suc 0) x"
    using assms(1,4) by (intro bit_eqI) (auto simp: bit_simps min_def)
  with assms show ?thesis by (simp add: sint_sign_extension)
qed

text \<open>The words below are the truncations of the results on integers.\<close>

lemma uint_narrow: "w \<le> LENGTH('a) \<Longrightarrow> uint (narrow w (x :: 'a::len word)) = take_bit w (uint x)"
  by (simp add: narrow_def unsigned_take_bit_eq)

lemma uint_narrow_sum:
  assumes "w \<le> LENGTH('a)"
  shows "uint (narrow w (narrow w x + narrow w (y :: 'a::len word))) = take_bit w (sint x + sint y)"
    and "uint (narrow w (narrow w x - narrow w (y :: 'a::len word))) = take_bit w (sint x - sint y)"
  unfolding uint_narrow [OF assms] uint_word_ariths(1,2) take_bit_eq_mod [symmetric]
    uint_sint [of x] uint_sint [of y]
  using assms by (simp_all add: take_bit_add take_bit_diff min_def)

lemma uint_sum: "uint (x + y :: 'a::len word) = take_bit LENGTH('a) (sint x + sint y)"
  unfolding uint_word_ariths(1) take_bit_eq_mod [symmetric] uint_sint [of x] uint_sint [of y]
  by (simp add: take_bit_add)

lemma bit_sint_lt: "n < LENGTH('a) \<Longrightarrow> bit (sint (x :: 'a::len word)) n = bit x n"
proof -
  assume "n < LENGTH('a)"
  then have "n = LENGTH('a) - Suc 0 \<or> n < LENGTH('a) - Suc 0" by linarith
  then show ?thesis by (auto simp: bit_sint_iff)
qed

lemma uint_push_narrow:
  assumes "w \<le> LENGTH('a)"
  shows "uint (push_bit m (x AND narrow w all_ones) :: 'a::len word)
    = take_bit LENGTH('a) (push_bit m (take_bit w (sint x)))"
  using assms
  by (intro bit_eqI) (auto simp: bit_push_bit_iff bit_and_iff bit_take_bit_iff bit_uint_iff bit_mask_iff narrow_def all_ones_eq bit_sint_lt)


theorem riscv_shfl_unshfl_witness:
  "v_dst (riscv_unshfl (example_datapath\<lparr>v_src := (v_src example_datapath)[0 := v_dst (riscv_shfl example_datapath) ! 0]\<rparr>)) ! 0
    = 0x0F0F1234"
  using riscv_shfl_unshfl_inverse [OF _ wf_example_datapath, of 5]
  by (simp add: example_datapath_def src0_def)


section \<open>Byte lanes of the unaligned accesses\<close>

text \<open>The address modulo four, as one of four cases, and of the address three above.\<close>

lemma addr_mod4:
  fixes a :: Addr
  shows "a mod 4 = of_nat (unat a mod 4)" "(a + 3) mod 4 = of_nat ((unat a + 3) mod 4)"
proof -
  have "unat (a mod 4) = unat a mod 4" by (simp add: unat_mod)
  then show "a mod 4 = of_nat (unat a mod 4)" by (rule word_of_unatI)
  have "unat ((a + 3) mod 4) = (unat a + 3) mod 4"
    by (simp add: unat_mod unat_word_ariths(1) mod_mod_cancel)
  then show "(a + 3) mod 4 = of_nat ((unat a + 3) mod 4)" by (rule word_of_unatI)
qed

lemma addr_mod4_cases:
  fixes a :: Addr
  obtains "a mod 4 = 0" "(a + 3) mod 4 = 3" | "a mod 4 = 1" "(a + 3) mod 4 = 0"
    | "a mod 4 = 2" "(a + 3) mod 4 = 1" | "a mod 4 = 3" "(a + 3) mod 4 = 2"
proof -
  have "unat a mod 4 < 4" by simp
  then consider "unat a mod 4 = 0" | "unat a mod 4 = 1" | "unat a mod 4 = 2" | "unat a mod 4 = 3"
    by linarith
  moreover have "(unat a + 3) mod 4 = (unat a mod 4 + 3) mod 4" by presburger
  ultimately show ?thesis using that addr_mod4 [of a] by cases simp_all
qed

lemma lane_masks:
  assumes "32 \<le> LENGTH('a)"
  shows "(ucast (bitmask 32 :: uint32) :: 'a::len word) = mask 32"
    "(ucast (bitmask 24 :: uint32) :: 'a::len word) = mask 24"
    "(ucast (bitmask 16 :: uint32) :: 'a::len word) = mask 16"
    "(ucast (bitmask 8 :: uint32) :: 'a::len word) = mask 8"
  using assms by (auto simp: bitmask_eq_mask bit_simps intro!: bit_word_eqI)

text \<open>the two halves of an unaligned word access meet. When the base of a \<open>lwr\<close> or \<open>swr\<close> is
  the address \<open>a\<close> and that of a \<open>lwl\<close> or \<open>swl\<close> is \<open>a + 3\<close>, both access the word at \<open>a\<close>; the right
  one covers the low bytes, the left one the high bytes of the register, together exactly the
  low 32 bits, and their byte lanes are disjoint unless \<open>a\<close> is aligned, when each covers all.\<close>

theorem unaligned_word_lanes:
  fixes l r :: "('a::len, 'm) datapath_scheme"
  assumes "32 \<le> LENGTH('a)" "mem_addr (addr l) = mem_addr (addr r) + 3"
  shows "mem_addr (load_addr_left32 l) = mem_addr (load_addr_right32 r)
    \<and> mem_addr (store_addr_left32 l) = mem_addr (store_addr_right32 r)
    \<and> wmask (load_addr_left32 l) OR wmask (load_addr_right32 r) = mask 32
    \<and> wmask (store_addr_left32 l) OR wmask (store_addr_right32 r) = mask 32
    \<and> wmask (load_addr_left32 l) AND wmask (load_addr_right32 r)
      = (if mem_addr (addr r) mod 4 = 0 then mask 32 else 0)"
  using assms
  by (cases "mem_addr (addr r)" rule: addr_mod4_cases)
    (auto simp: load_addr_left32_def load_addr_right32_def store_addr_left32_def store_addr_right32_def
      load_addr_def store_addr_def Let_def lane_masks bitmask_eq_mask bit_simps intro!: bit_word_eqI)

section \<open>Jumps\<close>

lemma mod4_take_bit: "(x :: 'a::len word) mod 4 = take_bit 2 x"
  by (simp add: take_bit_eq_mod)

lemma align_up_mod4: "align_up 2 (x :: 'a::len word) mod 4 = 0"
  by (auto simp: mod4_take_bit align_up_def bit_simps intro!: bit_word_eqI)

lemma align_up_aligned:
  assumes "(x :: 'a::len word) mod 4 = 0"
  shows "align_up 2 x = x"
proof -
  have bits: "\<not> bit x n" if "n < 2" for n
    using assms that unfolding mod4_take_bit by (metis bit_0_eq bit_take_bit_iff bot_apply bot_bool_def)
  have "x AND mask 2 = 0" by (auto simp: bits bit_simps intro!: bit_word_eqI)
  then have "x + mask 2 = x OR mask 2" by (rule disjunctive_add_eq_or)
  moreover have "drop_bit 2 (x OR mask 2) = drop_bit 2 x"
    by (auto simp: bit_simps intro!: bit_word_eqI)
  ultimately have "align_up 2 x = push_bit 2 (drop_bit 2 x)"
    by (simp add: align_up_def bitmask_eq_mask)
  then show ?thesis using assms bits_ident [of 2 x] by (simp add: mod4_take_bit)
qed


lemma check_halt_trap_fields:
  "new_PC (check_halt_trap i) = new_PC i" "v_dst (check_halt_trap i) = v_dst i"
  "trap (check_halt_trap i) = (if new_PC i = 0 \<or> new_PC i = PC i then HALT else trap i)"
  by (simp_all add: check_halt_trap_def)

lemma run_jump_v_dst: "v_dst (run_jump f i) = v_dst i"
  by (cases f) (simp_all add: j_target_def jr_def riscv_jr_def jump_def check_halt_trap_fields Let_def)

text \<open>a jump through a register to an unaligned address raises the unaligned fetch trap and
  goes to the next multiple of four; to an aligned one it goes as it is and raises nothing. A
  jump to zero or to itself halts the program in either case. The linking forms first save the
  fall-through address.\<close>
theorem jr_alignment:
  "new_PC (jr i) = (if src0 i mod 4 = 0 then ucast (src0 i) else ucast (align_up 2 (src0 i)))
    \<and> align_up 2 (src0 i) mod 4 = 0
    \<and> trap (jr i) = (if new_PC (jr i) = 0 \<or> new_PC (jr i) = PC i then HALT
        else if src0 i mod 4 \<noteq> 0 then UNALIGNED_FETCH else trap i)
    \<and> v_dst (jump_and_link f i) = (v_dst i)[0 := ucast (new_PC i)]"
  using align_up_aligned [of "src0 i"] align_up_mod4 [of "src0 i"]
  by (cases "src0 i mod 4 = 0")
    (simp_all add: jr_def jump_def jump_and_link_def run_jump_v_dst check_halt_trap_fields Let_def)

section \<open>Carry-less product\<close>

lemma bit_clmul_fold:
  "bit (fold (\<lambda>k r. if drop_bit k y AND 1 \<noteq> 0 then r XOR push_bit k x else r) [0..<w] 0 :: 'a::len word) n
    \<longleftrightarrow> n < LENGTH('a) \<and> odd (card {k. k < w \<and> k \<le> n \<and> bit y k \<and> bit x (n - k)})"
proof (induction w)
  case (Suc w)
  let ?S = "\<lambda>w. {k. k < w \<and> k \<le> n \<and> bit y k \<and> bit x (n - k)}"
  have S: "?S (Suc w) = (if w \<le> n \<and> bit y w \<and> bit x (n - w) then insert w (?S w) else ?S w)"
    by (auto simp: less_Suc_eq)
  have [simp]: "finite (?S w)" by simp
  have b: "drop_bit w y AND 1 \<noteq> 0 \<longleftrightarrow> bit y w"
    using and_exp_eq_0_iff_not_bit [of "drop_bit w y" 0] by (simp add: bit_drop_bit_eq)
  show ?case
  proof (cases "w \<le> n \<and> bit y w \<and> bit x (n - w)")
    case True
    then have "odd (card (?S (Suc w))) \<longleftrightarrow> \<not> odd (card (?S w))" by (simp add: S)
    with True Suc.IH show ?thesis by (simp add: b bit_xor_iff bit_push_bit_iff) blast
  next
    case False
    then have "?S (Suc w) = ?S w" by (simp only: S False if_False)
    with False Suc.IH show ?thesis by (auto simp: b bit_xor_iff bit_push_bit_iff)
  qed
qed simp

text \<open>the carry-less product: bit \<open>n\<close> of the result is the parity of the number of ways to write
  \<open>n\<close> as the sum of the position of a set bit of the second operand, below the width, and the
  position of a set bit of the first.\<close>

theorem clmul_parity:
  assumes "wf_datapath (i :: ('a::len, 'm) datapath_scheme)"
  shows "bit (v_dst (clmul w i) ! 0) n
    \<longleftrightarrow> n < LENGTH('a) \<and> odd (card {k. k < w \<and> k \<le> n \<and> bit (src1 i) k \<and> bit (src0 i) (n - k)})"
  using assms by (simp add: clmul_def bit_clmul_fold wf_datapath_def)

section \<open>Alignment\<close>

text \<open>An aligned load or store computes the sum of base and offset as the address and raises
  the unaligned trap of its kind exactly when the operand size does not divide it; a store
  masks the value to its size.\<close>

theorem aligned_access:
  "mem_addr (load_addr_aligned i) = ucast (src0 i + v_imm i)
    \<and> mem_addr (store_addr_aligned i) = ucast (src0 i + v_imm i)
    \<and> trap (load_addr_aligned i) =
      (if unat (mem_size i) dvd unat (mem_addr (addr i)) then trap i else UNALIGNED_LOAD)
    \<and> trap (store_addr_aligned i) =
      (if unat (mem_size i) dvd unat (mem_addr (addr i)) then trap i else UNALIGNED_STORE)
    \<and> wmask (store_addr_aligned i) = mask (unat (mem_size i * 8))"
proof -
  have "unat (ucast (mem_size i) :: Addr) = unat (mem_size i)" by (simp add: unat_ucast_up)
  moreover have "a mod b = 0 \<longleftrightarrow> unat b dvd unat a" for a b :: Addr
  proof -
    have "a mod b = 0 \<longleftrightarrow> unat (a mod b) = 0" by (rule unsigned_eq_0_iff [symmetric])
    then show ?thesis by (simp add: unat_mod mod_eq_0_iff_dvd)
  qed
  ultimately have "a mod ucast (mem_size i) = 0 \<longleftrightarrow> unat (mem_size i) dvd unat a" for a :: Addr
    by simp
  then show ?thesis
    by (simp add: load_addr_aligned_def store_addr_aligned_def load_addr_def store_addr_def addr_def
      bitmask_eq_mask Let_def)
qed

theorem unaligned_word_lanes_witness:
  "wmask (load_addr_left32 (example_datapath\<lparr>v_imm := 3\<rparr>)) OR wmask (load_addr_right32 (example_datapath\<lparr>v_imm := 0\<rparr>))
    = mask 32"
  using unaligned_word_lanes [of "example_datapath\<lparr>v_imm := 3\<rparr>" "example_datapath\<lparr>v_imm := 0\<rparr>"]
  by (simp add: addr_def src0_def example_datapath_def)

theorem clmul_parity_witness:
  "bit (v_dst (clmul 32 example_datapath) ! 0) 2
    \<longleftrightarrow> odd (card {k. k < 32 \<and> k \<le> 2 \<and> bit (src1 example_datapath) k \<and> bit (src0 example_datapath) (2 - k)})"
  using clmul_parity [OF wf_example_datapath, of 32 2] by simp

end
