(* ===== verification/Endian.thy ===== *)
theory Endian
  imports Macro
begin

text \<open>
  Byte order, from simulator/infra/endian.h: words to byte arrays and back, in both
  orders, and the transfer of a prefix of such an array to and from a buffer. The
  lemmas give the arrays' lengths and bits, the round trips, and that the two orders
  are mirror images.
\<close>

datatype endian = little | big

section \<open>Packing\<close>

fun pack_le_loop :: "'a::len word \<Rightarrow> nat \<Rightarrow> byte list \<Rightarrow> 'a word" where
  "pack_le_loop v shift [] = v"
| "pack_le_loop v shift (el # array) =
     pack_le_loop (v OR push_bit shift (ucast el)) (shift + 8) array"

definition pack_array_le :: "byte list \<Rightarrow> 'a::len word" where
  "pack_array_le array = pack_le_loop 0 0 array"

text \<open>After the last byte the code's \<open>size_t\<close> shift wraps and is not used again.\<close>

fun pack_be_loop :: "'a::len word \<Rightarrow> nat \<Rightarrow> byte list \<Rightarrow> 'a word" where
  "pack_be_loop v shift [] = v"
| "pack_be_loop v shift (el # array) =
     pack_be_loop (v OR push_bit shift (ucast el)) (shift - 8) array"

definition pack_array_be :: "byte list \<Rightarrow> 'a::len word" where
  "pack_array_be array = pack_be_loop 0 ((length array - 1) * 8) array"

section \<open>Unpacking\<close>

fun unpack_le_loop :: "nat \<Rightarrow> nat \<Rightarrow> 'a::len word \<Rightarrow> byte list" where
  "unpack_le_loop 0 shift v = []"
| "unpack_le_loop (Suc n) shift v =
     ucast (drop_bit shift v) # unpack_le_loop n (shift + 8) v"

definition unpack_array_le :: "'a::len word \<Rightarrow> byte list" where
  "unpack_array_le v = unpack_le_loop (LENGTH('a) div 8) 0 v"

fun unpack_be_loop :: "nat \<Rightarrow> nat \<Rightarrow> 'a::len word \<Rightarrow> byte list" where
  "unpack_be_loop 0 shift v = []"
| "unpack_be_loop (Suc n) shift v =
     ucast (drop_bit shift v) # unpack_be_loop n (shift - 8) v"

definition unpack_array_be :: "'a::len word \<Rightarrow> byte list" where
  "unpack_array_be v =
     unpack_be_loop (LENGTH('a) div 8) ((LENGTH('a) div 8 - 1) * 8) v"

section \<open>Dispatch on the byte order\<close>

definition unpack_array :: "endian \<Rightarrow> 'a::len word \<Rightarrow> byte list" where
  "unpack_array e v = (if e = little then unpack_array_le v else unpack_array_be v)"

definition pack_array :: "endian \<Rightarrow> byte list \<Rightarrow> 'a::len word" where
  "pack_array e array = (if e = little then pack_array_le array else pack_array_be array)"

definition swap_endian :: "'a::len word \<Rightarrow> 'a word" where
  "swap_endian v = pack_array_le (unpack_array_be v)"

text \<open>
  Copying \<open>sz\<close> bytes to or from a buffer; both sides hold at least that many.
\<close>

definition put_value_to_pointer :: "endian \<Rightarrow> byte list \<Rightarrow> 'a::len word \<Rightarrow> nat \<Rightarrow> byte list" where
  "put_value_to_pointer e buf v sz =
     take sz (unpack_array e v) @ drop sz buf"

definition get_value_from_pointer :: "endian \<Rightarrow> byte list \<Rightarrow> nat \<Rightarrow> 'a::len word" where
  "get_value_from_pointer e buf sz =
     (let array = replicate (LENGTH('a) div 8) 0
      in pack_array e (take sz buf @ drop sz array))"

section \<open>Lengths and bits\<close>

lemma length_unpack_le_loop [simp]: "length (unpack_le_loop n shift v) = n"
  by (induction n shift v rule: unpack_le_loop.induct) simp_all

lemma length_unpack_be_loop [simp]: "length (unpack_be_loop n shift v) = n"
  by (induction n shift v rule: unpack_be_loop.induct) simp_all

lemma length_unpack_array [simp]:
  "length (unpack_array e (v :: 'a::len word)) = LENGTH('a) div 8"
  by (simp add: unpack_array_def unpack_array_le_def unpack_array_be_def)

lemma nth_unpack_le_loop:
  "i < n \<Longrightarrow> unpack_le_loop n shift v ! i = ucast (drop_bit (shift + 8 * i) v)"
  by (induction n shift v arbitrary: i rule: unpack_le_loop.induct)
    (auto simp: nth_Cons' algebra_simps)

lemma nth_unpack_be_loop:
  "i < n \<Longrightarrow> unpack_be_loop n shift v ! i = ucast (drop_bit (shift - 8 * i) v)"
  by (induction n shift v arbitrary: i rule: unpack_be_loop.induct)
    (auto simp: nth_Cons' algebra_simps)

lemma unpack_array_be_rev: "unpack_array_be (v :: 'a::len word) = rev (unpack_array_le v)"
  by (rule nth_equalityI)
    (auto simp: unpack_array_be_def unpack_array_le_def nth_unpack_be_loop nth_unpack_le_loop rev_nth
      algebra_simps)

lemma bit_pack_le_loop:
  "bit (pack_le_loop (v :: 'a::len word) shift array) n \<longleftrightarrow>
     bit v n \<or> n < LENGTH('a) \<and> shift \<le> n \<and> (n - shift) div 8 < length array \<and>
       bit (array ! ((n - shift) div 8)) ((n - shift) mod 8)"
proof (induction v shift array rule: pack_le_loop.induct)
  case (1 v shift)
  then show ?case by simp
next
  case (2 v shift el array)
  show ?case
  proof (cases "shift + 8 \<le> n")
    case True
    then obtain m where m: "n = shift + 8 + m" using le_Suc_ex by blast
    have "\<not> bit el (8 + m)" by (rule notI) (drule bit_imp_le_length, simp)
    with "2.IH" show ?thesis unfolding m by (auto simp: bit_simps div_add1_eq)
  next
    case False
    then show ?thesis
      by (auto simp: "2.IH" bit_simps not_le dest: bit_imp_le_length)
  qed
qed


lemma pack_le_loop_OR:
  "pack_le_loop (v OR w) shift array = v OR pack_le_loop w shift array"
  by (induction w shift array rule: pack_le_loop.induct) (simp_all add: or.assoc)

lemma pack_le_loop_append:
  "pack_le_loop v shift (xs @ ys) = pack_le_loop (pack_le_loop v shift xs) (shift + 8 * length xs) ys"
  by (induction v shift xs rule: pack_le_loop.induct) (simp_all add: algebra_simps)

lemma pack_be_loop_rev:
  "pack_be_loop v ((length array - 1) * 8) array = pack_le_loop v 0 (rev array)"
proof (induction array arbitrary: v)
  case Nil
  then show ?case by simp
next
  case (Cons el array)
  have "length array * 8 - 8 = (length array - 1) * 8" by simp
  with Cons.IH [of "v OR push_bit (length array * 8) (ucast el)"] show ?case
    by (simp add: pack_le_loop_append pack_le_loop_OR [of "push_bit _ _", symmetric] or.commute mult.commute)
      (metis or.commute pack_le_loop_OR)
qed

lemma pack_array_be_rev: "pack_array_be array = pack_array_le (rev array)"
  by (simp add: pack_array_be_def pack_array_le_def pack_be_loop_rev del: One_nat_def)

section \<open>Round trips\<close>

lemma pack_unpack_le:
  assumes "8 dvd LENGTH('a)"
  shows "pack_array_le (unpack_array_le (v :: 'a::len word)) = v"
proof (rule bit_word_eqI)
  fix n assume n: "n < LENGTH('a)"
  with assms have "n div 8 < LENGTH('a) div 8" by auto
  with n show "bit (pack_array_le (unpack_array_le v) :: 'a word) n = bit v n"
    by (simp add: pack_array_le_def unpack_array_le_def bit_pack_le_loop nth_unpack_le_loop bit_simps)
qed

lemma unpack_pack_le:
  assumes "length array = LENGTH('a) div 8" "8 dvd LENGTH('a)"
  shows "unpack_array_le (pack_array_le array :: 'a::len word) = array"
proof (rule nth_equalityI)
  show "length (unpack_array_le (pack_array_le array :: 'a word)) = length array"
    using assms by (simp add: unpack_array_le_def)
next
  fix i assume "i < length (unpack_array_le (pack_array_le array :: 'a word))"
  then have i: "i < LENGTH('a) div 8" by (simp add: unpack_array_le_def)
  show "unpack_array_le (pack_array_le array :: 'a word) ! i = array ! i"
  proof (rule bit_word_eqI)
    fix n assume n: "n < LENGTH(8)"
    then have "8 * i + n < LENGTH('a)" "(8 * i + n) div 8 = i" "(8 * i + n) mod 8 = n"
      using i by auto
    with i n assms show "bit (unpack_array_le (pack_array_le array :: 'a word) ! i) n = bit (array ! i) n"
      by (simp add: unpack_array_le_def nth_unpack_le_loop pack_array_le_def bit_simps bit_pack_le_loop)
  qed
qed

lemma pack_unpack_array:
  assumes "8 dvd LENGTH('a)"
  shows "pack_array e (unpack_array e (v :: 'a::len word)) = v"
  using assms
  by (simp add: pack_array_def unpack_array_def pack_unpack_le pack_array_be_rev unpack_array_be_rev)

lemma unpack_pack_array:
  assumes "length array = LENGTH('a) div 8" "8 dvd LENGTH('a)"
  shows "unpack_array e (pack_array e array :: 'a::len word) = array"
  using assms
  by (simp add: pack_array_def unpack_array_def unpack_pack_le pack_array_be_rev unpack_array_be_rev)

end
