(* ===== verification/Memory.thy ===== *)
theory Memory
  imports Endian Operation
begin

text \<open>
  The memory of the simulated program, from simulator/memory/memory.h and memory.cpp. The
  abstract classes become the record \<open>memory_ops\<close> of their virtual functions, over a state
  of any type: copying bytes out of the guest, copying bytes into it (which may throw) and
  the length of a string. Everything the abstract classes define on top of these functions is
  defined here over such a record; plain_memory.cpp and hierarchied_memory.cpp provide it.

  A read copies into a buffer that is not initialised, and the copy may stop short of it; the
  bytes the buffer held before are the parameter \<open>junk\<close>.
\<close>

section \<open>Errors and the virtual functions\<close>

datatype mem_error =
    FuncMemoryOutOfRange Addr Addr
  | FuncMemoryBadMapping string
  | StoreToZero
  | AssertionFailed

record 'm memory_ops =
  guest_to_host :: "'m \<Rightarrow> Addr \<Rightarrow> nat \<Rightarrow> byte list"
  host_to_guest :: "'m \<Rightarrow> Addr \<Rightarrow> byte list \<Rightarrow> mem_error + 'm"
  mem_strlen :: "'m \<Rightarrow> Addr \<Rightarrow> nat"

section \<open>Readable memory\<close>

definition fill_buffer :: "byte list \<Rightarrow> byte list \<Rightarrow> byte list" where
  "fill_buffer buffer bytes = bytes @ drop (length bytes) buffer"

definition read_mem :: "'m memory_ops \<Rightarrow> (nat \<Rightarrow> byte) \<Rightarrow> endian \<Rightarrow> 'm \<Rightarrow> Addr \<Rightarrow> 'a::len word" where
  "read_mem M junk e m addr =
     (let bytes = map junk [0..<LENGTH('a) div 8]
      in pack_array e (fill_buffer bytes (guest_to_host M m addr (length bytes))))"

definition read_masked ::
  "'m memory_ops \<Rightarrow> (nat \<Rightarrow> byte) \<Rightarrow> endian \<Rightarrow> 'm \<Rightarrow> Addr \<Rightarrow> 'a::len word \<Rightarrow> 'a word" where
  "read_masked M junk e m addr msk = read_mem M junk e m addr AND msk"

definition read_string_by_size :: "'m memory_ops \<Rightarrow> 'm \<Rightarrow> Addr \<Rightarrow> nat \<Rightarrow> byte list" where
  "read_string_by_size M m addr sz = fill_buffer (replicate sz 0) (guest_to_host M m addr sz)"

definition read_string :: "'m memory_ops \<Rightarrow> 'm \<Rightarrow> Addr \<Rightarrow> byte list" where
  "read_string M m addr = read_string_by_size M m addr (mem_strlen M m addr)"

definition read_string_limited :: "'m memory_ops \<Rightarrow> 'm \<Rightarrow> Addr \<Rightarrow> nat \<Rightarrow> byte list" where
  "read_string_limited M m addr sz = read_string_by_size M m addr (min sz (mem_strlen M m addr))"

text \<open>The load of an instruction. The value is read at the width of the register and masked.\<close>

definition mem_load ::
  "'m memory_ops \<Rightarrow> (nat \<Rightarrow> byte) \<Rightarrow> endian \<Rightarrow> 'm \<Rightarrow> ('a::len, 'i) datapath_scheme
   \<Rightarrow> ('a, 'i) datapath_scheme option" where
  "mem_load M junk e m i =
     (let msk = bitmask (unat (mem_size i * 8))
      in load (read_masked M junk e m (mem_addr i) msk) i)"

definition zero_memory :: "unit memory_ops" where
  "zero_memory = \<lparr>guest_to_host = \<lambda>m ga sz. replicate sz 0,
     host_to_guest = \<lambda>m ga bs. Inl AssertionFailed, mem_strlen = \<lambda>m addr. 0\<rparr>"

section \<open>Writeable memory\<close>

text \<open>\<open>memcpy_host_to_guest_noexcept\<close> returns 0 when the copy throws.\<close>

definition host_to_guest_noexcept :: "'m memory_ops \<Rightarrow> 'm \<Rightarrow> Addr \<Rightarrow> byte list \<Rightarrow> nat \<times> 'm" where
  "host_to_guest_noexcept M m ga bs =
     (case host_to_guest M m ga bs of Inr m' \<Rightarrow> (length bs, m') | Inl e \<Rightarrow> (0, m))"

definition write_mem :: "'m memory_ops \<Rightarrow> endian \<Rightarrow> 'a::len word \<Rightarrow> Addr \<Rightarrow> 'm \<Rightarrow> mem_error + 'm" where
  "write_mem M e v addr m = host_to_guest M m addr (unpack_array e v)"

definition write_integer ::
  "'m memory_ops \<Rightarrow> endian \<Rightarrow> 'a::len word \<Rightarrow> Addr \<Rightarrow> nat \<Rightarrow> 'm \<Rightarrow> mem_error + 'm" where
  "write_integer M e v addr sz m =
     (if sz = 1 then write_mem M e (ucast v :: uint8) addr m
      else if sz = 2 then write_mem M e (ucast v :: uint16) addr m
      else if sz = 4 then write_mem M e (ucast v :: uint32) addr m
      else if sz = 8 then write_mem M e (ucast v :: uint64) addr m
      else if sz = 16 then write_mem M e (ucast v :: 128 word) addr m
      else Inl AssertionFailed)"

definition write_string_by_size :: "'m memory_ops \<Rightarrow> byte list \<Rightarrow> Addr \<Rightarrow> nat \<Rightarrow> 'm \<Rightarrow> mem_error + 'm" where
  "write_string_by_size M s addr sz m = host_to_guest M m addr (take sz s)"

definition write_string :: "'m memory_ops \<Rightarrow> byte list \<Rightarrow> Addr \<Rightarrow> 'm \<Rightarrow> mem_error + 'm" where
  "write_string M s addr m = write_string_by_size M s addr (length s) m"

definition write_string_limited :: "'m memory_ops \<Rightarrow> byte list \<Rightarrow> Addr \<Rightarrow> nat \<Rightarrow> 'm \<Rightarrow> mem_error + 'm" where
  "write_string_limited M s addr sz m = write_string_by_size M s addr (min sz (length s)) m"

text \<open>\<open>memset\<close> from position \<open>k\<close> on; the loop stops at the first exception.\<close>

fun memset_loop :: "'m memory_ops \<Rightarrow> Addr \<Rightarrow> byte \<Rightarrow> nat \<Rightarrow> nat \<Rightarrow> 'm \<Rightarrow> mem_error + 'm" where
  "memset_loop M addr v k 0 m = Inr m"
| "memset_loop M addr v k (Suc n) m =
     (case host_to_guest M m (addr + of_nat k) [v] of Inl e \<Rightarrow> Inl e
      | Inr m' \<Rightarrow> memset_loop M addr v (Suc k) n m')"

definition mem_memset :: "'m memory_ops \<Rightarrow> Addr \<Rightarrow> byte \<Rightarrow> nat \<Rightarrow> 'm \<Rightarrow> mem_error + 'm" where
  "mem_memset M addr v sz m = memset_loop M addr v 0 sz m"

section \<open>Loads and stores of instructions\<close>

definition masked_write ::
  "'m memory_ops \<Rightarrow> (nat \<Rightarrow> byte) \<Rightarrow> endian \<Rightarrow> 'a::len word \<Rightarrow> Addr \<Rightarrow> 'a word \<Rightarrow> 'm \<Rightarrow> mem_error + 'm" where
  "masked_write M junk e v addr msk m =
     write_mem M e ((v AND msk) OR (read_mem M junk e m addr AND NOT msk)) addr m"

definition mem_store ::
  "'m memory_ops \<Rightarrow> (nat \<Rightarrow> byte) \<Rightarrow> endian \<Rightarrow> ('a::len, 'i) datapath_scheme \<Rightarrow> 'm \<Rightarrow> mem_error + 'm" where
  "mem_store M junk e i m =
     (if mem_addr i = 0 then Inl StoreToZero
      else let full_mask = bitmask (unat (mem_size i * 8))
        in if wmask i AND full_mask = full_mask
           then write_integer M e (v_src i ! 1) (mem_addr i) (unat (mem_size i)) m
           else masked_write M junk e (v_src i ! 1) (mem_addr i) (wmask i) m)"

definition load_store ::
  "'m memory_ops \<Rightarrow> (nat \<Rightarrow> byte) \<Rightarrow> endian \<Rightarrow> ('a::len, 'i) datapath_scheme \<Rightarrow> 'm
   \<Rightarrow> mem_error + (('a, 'i) datapath_scheme \<times> 'm)" where
  "load_store M junk e i m =
     (if is_load i
      then (case mem_load M junk e m i of None \<Rightarrow> Inl AssertionFailed | Some i' \<Rightarrow> Inr (i', m))
      else if is_store i
      then (case mem_store M junk e i m of Inl err \<Rightarrow> Inl err | Inr m' \<Rightarrow> Inr (i, m'))
      else Inr (i, m))"

section \<open>Bits of packed and unpacked values\<close>

lemma bit_pack_array:
  "bit (pack_array e bs :: 'a::len word) n \<longleftrightarrow> n < LENGTH('a) \<and> n div 8 < length bs
     \<and> bit ((if e = little then bs else rev bs) ! (n div 8)) (n mod 8)"
  by (simp add: pack_array_def pack_array_be_rev) (simp add: pack_array_le_def bit_pack_le_loop)

lemma nth_unpack_ucast:
  assumes "i < LENGTH('b) div 8"
  shows "unpack_array little (ucast (v :: 'a::len word) :: 'b::len word) ! i = ucast (drop_bit (8 * i) v)"
  using assms
  by (intro bit_word_eqI) (auto simp: unpack_array_def unpack_array_le_def nth_unpack_le_loop bit_simps)

section \<open>What the providers promise\<close>

text \<open>
  The contract of a memory over an abstraction of its contents, a function from addresses below
  its size to bytes. Reading and writing inside the memory are reading and updating that
  function; writing outside throws. Reading past the end is not constrained.
\<close>

locale func_memory =
  fixes M :: "'m memory_ops"
    and ok :: "'m \<Rightarrow> bool"
    and byte_at :: "'m \<Rightarrow> nat \<Rightarrow> byte"
    and msize :: "'m \<Rightarrow> nat"
  assumes read_bytes: "ok m \<Longrightarrow> unat a + n \<le> msize m \<Longrightarrow>
      guest_to_host M m a n = map (byte_at m) [unat a..<unat a + n]"
    and write_bytes: "ok m \<Longrightarrow> unat a + length bs \<le> msize m \<Longrightarrow>
      \<exists>m'. host_to_guest M m a bs = Inr m' \<and> ok m' \<and> msize m' = msize m
        \<and> (\<forall>k < msize m. byte_at m' k =
            (if unat a \<le> k \<and> k < unat a + length bs then bs ! (k - unat a) else byte_at m k))"
    and write_outside: "ok m \<Longrightarrow> msize m < unat a + length bs \<Longrightarrow> length bs < 2 ^ 64 \<Longrightarrow> \<exists>e. host_to_guest M m a bs = Inl e"
begin

lemma read_mem_eq:
  assumes "ok m" "unat a + LENGTH('a) div 8 \<le> msize m"
  shows "(read_mem M junk e m a :: 'a::len word)
    = pack_array e (map (byte_at m) [unat a..<unat a + LENGTH('a) div 8])"
  using read_bytes [OF assms] by (simp add: read_mem_def fill_buffer_def Let_def)

text \<open>A write that fits is read back, wherever the buffer of the read came from.\<close>

lemma write_mem_total:
  assumes "ok m" "unat a + LENGTH('a) div 8 \<le> msize m" "8 dvd LENGTH('a)"
  obtains m' where "write_mem M e (v :: 'a::len word) a m = Inr m'" "ok m'" "msize m' = msize m"
    "read_mem M junk e m' a = v"
    "\<And>k. k < msize m \<Longrightarrow> k < unat a \<or> unat a + LENGTH('a) div 8 \<le> k \<Longrightarrow> byte_at m' k = byte_at m k"
proof -
  obtain m' where w: "host_to_guest M m a (unpack_array e v) = Inr m'" "ok m'" "msize m' = msize m"
    and b: "\<forall>k < msize m. byte_at m' k =
      (if unat a \<le> k \<and> k < unat a + LENGTH('a) div 8 then unpack_array e v ! (k - unat a) else byte_at m k)"
    using write_bytes [of m a "unpack_array e v"] assms(1,2) by auto
  have "map (byte_at m') [unat a..<unat a + LENGTH('a) div 8] = unpack_array e v"
    using assms(2) b by (intro nth_equalityI) simp_all
  then have "read_mem M junk e m' a = v"
    using read_mem_eq [OF w(2), of a, where 'a = 'a] w(3) assms(2,3) by (simp add: pack_unpack_array)
  moreover have "byte_at m' k = byte_at m k" if "k < msize m" "k < unat a \<or> unat a + LENGTH('a) div 8 \<le> k" for k
    using b that by auto
  ultimately show ?thesis using that w by (simp add: write_mem_def)
qed

lemma write_mem_outside:
  "ok m \<Longrightarrow> msize m < unat a + LENGTH('a) div 8 \<Longrightarrow> LENGTH('a) div 8 < 2 ^ 64 \<Longrightarrow> \<exists>err. write_mem M e (v :: 'a::len word) a m = Inl err"
  unfolding write_mem_def by (rule write_outside) simp_all

lemma read_mem_frame:
  assumes "ok m" "ok m'" "msize m' = msize m" "unat a + LENGTH('a) div 8 \<le> msize m"
    "\<And>k. unat a \<le> k \<Longrightarrow> k < unat a + LENGTH('a) div 8 \<Longrightarrow> byte_at m' k = byte_at m k"
  shows "(read_mem M junk e m' a :: 'a::len word) = read_mem M junk' e m a"
proof -
  have "map (byte_at m') [unat a..<unat a + LENGTH('a) div 8] = map (byte_at m) [unat a..<unat a + LENGTH('a) div 8]"
    using assms(5) by simp
  then show ?thesis using assms(1-4) by (simp only: read_mem_eq)
qed

text \<open>A masked write merges the value into the word that was there.\<close>

lemma masked_write_merges:
  assumes "ok m" "unat a + LENGTH('a) div 8 \<le> msize m" "8 dvd LENGTH('a)"
  shows "\<exists>m'. masked_write M junk e (v :: 'a::len word) a msk m = Inr m' \<and> ok m' \<and> msize m' = msize m
    \<and> read_mem M junk' e m' a = (v AND msk) OR (read_mem M junk e m a AND NOT msk)"
  unfolding masked_write_def by (rule write_mem_total [OF assms]) blast

text \<open>A store with no mask over the operand size, then a load of that size.\<close>

lemma write_integer_total:
  assumes "ok m" "unat a + sz \<le> msize m" "sz \<in> {1, 2, 4, 8}"
  obtains m' where "write_integer M e (v :: 'a::len word) a sz m = Inr m'" "ok m'" "msize m' = msize m"
    "\<And>k. k < msize m \<Longrightarrow> byte_at m' k =
       (if unat a \<le> k \<and> k < unat a + sz
        then (if sz = 1 then unpack_array e (ucast v :: uint8)
              else if sz = 2 then unpack_array e (ucast v :: uint16)
              else if sz = 4 then unpack_array e (ucast v :: uint32)
              else unpack_array e (ucast v :: uint64)) ! (k - unat a)
        else byte_at m k)"
proof -
  let ?bs = "if sz = 1 then unpack_array e (ucast v :: uint8)
    else if sz = 2 then unpack_array e (ucast v :: uint16)
    else if sz = 4 then unpack_array e (ucast v :: uint32)
    else unpack_array e (ucast v :: uint64)"
  have len: "length ?bs = sz" using assms(3) by auto
  have w: "write_integer M e v a sz m = host_to_guest M m a ?bs"
    using assms(3) by (auto simp: write_integer_def write_mem_def)
  show ?thesis
    using write_bytes [of m a ?bs] assms(1,2) that unfolding len w by blast
qed

text \<open>In little-endian order a load sees the bytes that a store of the same size wrote.\<close>

lemma write_integer_read_le:
  assumes "ok m" "unat a + LENGTH('a) div 8 \<le> msize m" "sz \<in> {1, 2, 4, 8}" "8 * sz \<le> LENGTH('a)"
  shows "\<exists>m'. write_integer M little (v :: 'a::len word) a sz m = Inr m' \<and> ok m' \<and> msize m' = msize m
    \<and> read_masked M junk little m' a (mask (8 * sz)) = v AND mask (8 * sz)"
proof -
  have "unat a + sz \<le> msize m" using assms(2,4) by linarith
  from write_integer_total [OF assms(1) this assms(3), of little v] obtain m'
    where m': "write_integer M little v a sz m = Inr m'" "ok m'" "msize m' = msize m"
    and bytes: "\<And>k. k < msize m \<Longrightarrow> byte_at m' k =
       (if unat a \<le> k \<and> k < unat a + sz
        then (if sz = 1 then unpack_array little (ucast v :: uint8)
              else if sz = 2 then unpack_array little (ucast v :: uint16)
              else if sz = 4 then unpack_array little (ucast v :: uint32)
              else unpack_array little (ucast v :: uint64)) ! (k - unat a)
        else byte_at m k)" by blast
  have byte: "byte_at m' (unat a + i) = ucast (drop_bit (8 * i) v)" if "i < sz" for i
    using that assms(2-4) bytes [of "unat a + i"] by (auto simp: nth_unpack_ucast)
  have "read_masked M junk little m' a (mask (8 * sz)) = v AND mask (8 * sz)"
  proof (rule bit_word_eqI)
    fix n assume n: "n < LENGTH('a)"
    show "bit (read_masked M junk little m' a (mask (8 * sz)) :: 'a word) n = bit (v AND mask (8 * sz)) n"
    proof (cases "n < 8 * sz")
      case True
      then have i: "n div 8 < sz" by linarith
      then have "n div 8 < LENGTH('a) div 8" using assms(4) by linarith
      then have "bit (read_mem M junk little m' a :: 'a word) n = bit (byte_at m' (unat a + n div 8)) (n mod 8)"
        using m' assms(2) n by (simp add: read_mem_eq bit_pack_array)
      then show ?thesis using byte [OF i] n by (simp add: read_masked_def bit_simps)
    qed (simp add: read_masked_def bit_simps)
  qed
  with m' show ?thesis by blast
qed

text \<open>
  In big-endian order the bytes of a store of half the register's width or less are at the
  beginning of the window that a load reads, and the load masks its end.
\<close>

lemma write_integer_read_be:
  assumes "ok m" "unat a + LENGTH('a) div 8 \<le> msize m" "sz \<in> {1, 2, 4, 8}" "16 * sz \<le> LENGTH('a)"
    "8 dvd LENGTH('a)"
  shows "\<exists>m'. write_integer M big (v :: 'a::len word) a sz m = Inr m' \<and> ok m' \<and> msize m' = msize m
    \<and> (read_masked M junk big m' a (mask (8 * sz)) :: 'a word) = read_masked M junk big m a (mask (8 * sz))"
proof -
  have "unat a + sz \<le> msize m" using assms(2,4) by linarith
  from write_integer_total [OF assms(1) this assms(3), of big v] obtain m'
    where m': "write_integer M big v a sz m = Inr m'" "ok m'" "msize m' = msize m"
    and bytes: "\<And>k. k < msize m \<Longrightarrow> unat a + sz \<le> k \<Longrightarrow> byte_at m' k = byte_at m k"
    by (smt (verit, best) not_le)
  have "(read_masked M junk big m' a (mask (8 * sz)) :: 'a word) = read_masked M junk big m a (mask (8 * sz))"
  proof (rule bit_word_eqI)
    fix n assume n: "n < LENGTH('a)"
    show "bit (read_masked M junk big m' a (mask (8 * sz)) :: 'a word) n
      = bit (read_masked M junk big m a (mask (8 * sz)) :: 'a word) n"
    proof (cases "n < 8 * sz")
      case True
      let ?i = "LENGTH('a) div 8 - 1 - n div 8"
      have i: "n div 8 < LENGTH('a) div 8" "?i < LENGTH('a) div 8" "sz \<le> ?i"
        using True assms(3-5) n by auto
      then have "byte_at m' (unat a + ?i) = byte_at m (unat a + ?i)"
        using bytes [of "unat a + ?i"] assms(2) by simp
      then show ?thesis
        using m' assms(1,2) n i by (simp add: read_masked_def read_mem_eq bit_simps bit_pack_array rev_nth)
    qed (simp add: read_masked_def bit_simps)
  qed
  with m' show ?thesis by blast
qed

text \<open>The same for the instructions: a load after a store at its address and of its size.\<close>

lemma store_load:
  fixes i :: "('a::len, 'i) datapath_scheme" and j :: "('a, 'j) datapath_scheme"
  assumes "ok m" "unat (mem_addr i) + LENGTH('a) div 8 \<le> msize m" "8 dvd LENGTH('a)" "mem_addr i \<noteq> 0"
    "mem_size i \<in> {1, 2, 4, 8}" "8 * unat (mem_size i) \<le> LENGTH('a)"
    "wmask i AND bitmask (8 * unat (mem_size i)) = bitmask (8 * unat (mem_size i))"
    "mem_addr j = mem_addr i" "mem_size j = mem_size i"
  shows "\<exists>m'. mem_store M junk little i m = Inr m' \<and> ok m' \<and> msize m' = msize m
      \<and> mem_load M junk little m' j = load (v_src i ! 1 AND bitmask (8 * unat (mem_size i))) j"
    "16 * unat (mem_size i) \<le> LENGTH('a) \<Longrightarrow> \<exists>m'. mem_store M junk big i m = Inr m' \<and> ok m' \<and> msize m' = msize m
      \<and> mem_load M junk big m' j = mem_load M junk big m j"
proof -
  have sz: "unat (mem_size i * 8) = 8 * unat (mem_size i)" "unat (mem_size i) \<in> {1, 2, 4, 8}"
    using assms(5) by auto
  show "\<exists>m'. mem_store M junk little i m = Inr m' \<and> ok m' \<and> msize m' = msize m
      \<and> mem_load M junk little m' j = load (v_src i ! 1 AND bitmask (8 * unat (mem_size i))) j"
    using write_integer_read_le [OF assms(1,2) sz(2) assms(6), of "v_src i ! 1" junk] assms(4,7-9)
    by (auto simp: mem_store_def mem_load_def Let_def sz(1) bitmask_eq_mask)
  assume "16 * unat (mem_size i) \<le> LENGTH('a)"
  from write_integer_read_be [OF assms(1,2) sz(2) this assms(3), of "v_src i ! 1" junk]
  show "\<exists>m'. mem_store M junk big i m = Inr m' \<and> ok m' \<and> msize m' = msize m
      \<and> mem_load M junk big m' j = mem_load M junk big m j"
    using assms(4,7-9) by (auto simp: mem_store_def mem_load_def Let_def sz(1) bitmask_eq_mask)
qed

end

section \<open>Replication\<close>

text \<open>\<open>FuncMemoryReplicant\<close> reads from the primary and writes to the primary and all replicas.\<close>

record 'm replicant =
  primary :: 'm
  replicas :: "'m list"

fun write_replicas :: "'m memory_ops \<Rightarrow> Addr \<Rightarrow> byte list \<Rightarrow> 'm list \<Rightarrow> mem_error + 'm list" where
  "write_replicas M ga bs [] = Inr []"
| "write_replicas M ga bs (r # reps) =
     (case host_to_guest M r ga bs of Inl e \<Rightarrow> Inl e
      | Inr r' \<Rightarrow> (case write_replicas M ga bs reps of Inl e \<Rightarrow> Inl e | Inr reps' \<Rightarrow> Inr (r' # reps')))"

definition replicant_write :: "'m memory_ops \<Rightarrow> 'm replicant \<Rightarrow> Addr \<Rightarrow> byte list \<Rightarrow> mem_error + 'm replicant" where
  "replicant_write M r ga bs =
     (case host_to_guest M (primary r) ga bs of Inl e \<Rightarrow> Inl e
      | Inr p \<Rightarrow> (case write_replicas M ga bs (replicas r) of Inl e \<Rightarrow> Inl e
          | Inr reps \<Rightarrow> Inr \<lparr>primary = p, replicas = reps\<rparr>))"

definition replicant_ops :: "'m memory_ops \<Rightarrow> 'm replicant memory_ops" where
  "replicant_ops M =
     \<lparr>guest_to_host = \<lambda>r ga sz. guest_to_host M (primary r) ga sz,
      host_to_guest = replicant_write M,
      mem_strlen = \<lambda>r addr. mem_strlen M (primary r) addr\<rparr>"

text \<open>\<open>add_replica\<close> takes the function that duplicates the primary into another memory.\<close>

definition add_replica ::
  "('m \<Rightarrow> 'm \<Rightarrow> mem_error + 'm) \<Rightarrow> 'm \<Rightarrow> 'm replicant \<Rightarrow> mem_error + 'm replicant" where
  "add_replica duplicate mem r =
     (case duplicate (primary r) mem of Inl e \<Rightarrow> Inl e
      | Inr mem' \<Rightarrow> Inr (r\<lparr>replicas := replicas r @ [mem']\<rparr>))"


text \<open>Replication keeps the contract: the replicas stay copies of the primary, of the same size.\<close>

definition coherent :: "('m \<Rightarrow> bool) \<Rightarrow> ('m \<Rightarrow> nat \<Rightarrow> byte) \<Rightarrow> ('m \<Rightarrow> nat) \<Rightarrow> 'm replicant \<Rightarrow> bool" where
  "coherent ok byte_at msize r \<longleftrightarrow> ok (primary r)
     \<and> (\<forall>q \<in> set (replicas r). ok q \<and> msize q = msize (primary r)
        \<and> (\<forall>k < msize (primary r). byte_at q k = byte_at (primary r) k))"

context func_memory
begin

lemma write_replicas_coherent:
  assumes "ok p" "unat a + length bs \<le> msize p" "host_to_guest M p a bs = Inr p'" "msize p' = msize p"
    "\<forall>k < msize p. byte_at p' k =
       (if unat a \<le> k \<and> k < unat a + length bs then bs ! (k - unat a) else byte_at p k)"
    "\<forall>q \<in> set reps. ok q \<and> msize q = msize p \<and> (\<forall>k < msize p. byte_at q k = byte_at p k)"
  shows "\<exists>reps'. write_replicas M a bs reps = Inr reps' \<and> length reps' = length reps
    \<and> (\<forall>q \<in> set reps'. ok q \<and> msize q = msize p \<and> (\<forall>k < msize p. byte_at q k = byte_at p' k))"
  using assms(6)
proof (induction reps)
  case (Cons q reps)
  then have q: "ok q" "msize q = msize p" "\<forall>k < msize p. byte_at q k = byte_at p k" by simp_all
  obtain q' where "host_to_guest M q a bs = Inr q'" "ok q'" "msize q' = msize q"
    "\<forall>k < msize q. byte_at q' k =
       (if unat a \<le> k \<and> k < unat a + length bs then bs ! (k - unat a) else byte_at q k)"
    using write_bytes [OF q(1), of a bs] assms(2) q(2) by auto
  moreover obtain reps' where "write_replicas M a bs reps = Inr reps'" "length reps' = length reps"
    "\<forall>q \<in> set reps'. ok q \<and> msize q = msize p \<and> (\<forall>k < msize p. byte_at q k = byte_at p' k)"
    using Cons by auto
  ultimately show ?case using q assms(5) by simp
qed simp

lemma replicant_write_bytes:
  assumes "coherent ok byte_at msize r" "unat a + length bs \<le> msize (primary r)"
  shows "\<exists>r'. host_to_guest (replicant_ops M) r a bs = Inr r' \<and> coherent ok byte_at msize r'
    \<and> msize (primary r') = msize (primary r)
    \<and> (\<forall>k < msize (primary r). byte_at (primary r') k =
        (if unat a \<le> k \<and> k < unat a + length bs then bs ! (k - unat a) else byte_at (primary r) k))"
proof -
  have i: "ok (primary r)" using assms(1) by (simp add: coherent_def)
  obtain p where p: "host_to_guest M (primary r) a bs = Inr p" "ok p" "msize p = msize (primary r)"
    "\<forall>k < msize (primary r). byte_at p k =
       (if unat a \<le> k \<and> k < unat a + length bs then bs ! (k - unat a) else byte_at (primary r) k)"
    using write_bytes [OF i assms(2)] by blast
  obtain reps where "write_replicas M a bs (replicas r) = Inr reps"
    "\<forall>q \<in> set reps. ok q \<and> msize q = msize (primary r) \<and> (\<forall>k < msize (primary r). byte_at q k = byte_at p k)"
    using write_replicas_coherent [OF i assms(2) p(1,3,4), of "replicas r"] assms(1)
    unfolding coherent_def by blast
  with p show ?thesis by (simp add: replicant_ops_def replicant_write_def coherent_def)
qed

lemma replicant: "func_memory (replicant_ops M) (coherent ok byte_at msize)
    (\<lambda>r. byte_at (primary r)) (\<lambda>r. msize (primary r))"
proof
  fix r :: "'m replicant" and a n
  assume "coherent ok byte_at msize r" "unat (a :: Addr) + n \<le> msize (primary r)"
  then show "guest_to_host (replicant_ops M) r a n = map (byte_at (primary r)) [unat a..<unat a + n]"
    by (simp add: replicant_ops_def coherent_def read_bytes)
next
  fix r :: "'m replicant" and a and bs :: "byte list"
  assume "coherent ok byte_at msize r" "msize (primary r) < unat (a :: Addr) + length bs" "length bs < 2 ^ 64"
  then have "\<exists>e. host_to_guest M (primary r) a bs = Inl e"
    using write_outside [of "primary r" a bs] by (simp add: coherent_def)
  then show "\<exists>e. host_to_guest (replicant_ops M) r a bs = Inl e"
    by (auto simp: replicant_ops_def replicant_write_def)
qed (rule replicant_write_bytes)

end

end
