(* ===== verification/Memory_Image.thy ===== *)
theory Memory_Image
  imports Memory
begin

text \<open>
  Sequences of writes to a memory, seen through the contract \<open>func_memory\<close>: what a memory
  holds is a function from addresses to bytes, and a copy into it overwrites a range of it.
  The loaders and the system calls are described with these functions.
\<close>

section \<open>Overwriting a range\<close>

definition overwrite :: "nat \<Rightarrow> byte list \<Rightarrow> (nat \<Rightarrow> byte) \<Rightarrow> nat \<Rightarrow> byte" where
  "overwrite a bs f k = (if a \<le> k \<and> k < a + length bs then bs ! (k - a) else f k)"

lemma overwrite_Nil [simp]: "overwrite a [] f = f"
  by (rule ext) (auto simp: overwrite_def)

lemma overwrite_append: "overwrite (a + length xs) ys (overwrite a xs f) = overwrite a (xs @ ys) f"
proof
  fix k
  have "k - a - length xs = k - (a + length xs)" by simp
  then show "overwrite (a + length xs) ys (overwrite a xs f) k = overwrite a (xs @ ys) f k"
    by (auto simp: overwrite_def nth_append)
qed

lemma overwrite_appendD: "b = a + length xs \<Longrightarrow> overwrite b ys (overwrite a xs f) = overwrite a (xs @ ys) f"
  by (simp only: overwrite_append)

lemma overwrite_commute:
  "a + length xs \<le> b \<Longrightarrow> overwrite b ys (overwrite a xs f) = overwrite a xs (overwrite b ys f)"
  by (rule ext) (auto simp: overwrite_def)

lemma overwrite_outside: "k < a \<or> a + length bs \<le> k \<Longrightarrow> overwrite a bs f k = f k"
  by (auto simp: overwrite_def)

lemma map_overwrite_same: "map (overwrite a bs f) [a..<a + length bs] = bs"
  by (intro nth_equalityI) (auto simp: overwrite_def)

lemma map_overwrite_inside:
  "a + i + n \<le> a + length bs \<Longrightarrow> map (overwrite a bs f) [a + i..<a + i + n] = take n (drop i bs)"
  by (intro nth_equalityI) (auto simp: overwrite_def)

lemma map_overwrite_outside:
  "b \<le> a \<or> a + length bs \<le> c \<Longrightarrow> map (overwrite a bs f) [c..<b] = map f [c..<b]"
  by (intro map_cong) (auto simp: overwrite_def)

section \<open>Writes to a memory\<close>

definition holds ::
  "('m \<Rightarrow> bool) \<Rightarrow> ('m \<Rightarrow> nat \<Rightarrow> byte) \<Rightarrow> ('m \<Rightarrow> nat) \<Rightarrow> nat \<Rightarrow> (nat \<Rightarrow> byte) \<Rightarrow> 'm \<Rightarrow> bool" where
  "holds ok byte_at msize n f m \<longleftrightarrow> ok m \<and> msize m = n \<and> (\<forall>k < n. byte_at m k = f k)"

context func_memory
begin

lemma holds_self: "ok m \<Longrightarrow> holds ok byte_at msize (msize m) (byte_at m) m"
  by (simp add: holds_def)

lemma copy_holds:
  assumes "holds ok byte_at msize n f m" "unat a + length bs \<le> n"
  obtains m' where "host_to_guest M m a bs = Inr m'" "holds ok byte_at msize n (overwrite (unat a) bs f) m'"
proof -
  have m: "ok m" "msize m = n" "\<forall>k < n. byte_at m k = f k" using assms(1) by (simp_all add: holds_def)
  obtain m' where w: "host_to_guest M m a bs = Inr m'" "ok m'" "msize m' = msize m"
    "\<forall>k < msize m. byte_at m' k = (if unat a \<le> k \<and> k < unat a + length bs then bs ! (k - unat a) else byte_at m k)"
    using write_bytes [OF m(1), of a bs] assms(2) m(2) by auto
  then have "holds ok byte_at msize n (overwrite (unat a) bs f) m'"
    using m by (simp add: holds_def overwrite_def)
  then show thesis using that w(1) by blast
qed

lemma write_mem_holds:
  assumes "holds ok byte_at msize n f m" "unat a + LENGTH('a) div 8 \<le> n"
  obtains m' where "write_mem M e (v :: 'a::len word) a m = Inr m'"
    "holds ok byte_at msize n (overwrite (unat a) (unpack_array e v) f) m'"
  by (rule copy_holds [OF assms(1), of a "unpack_array e v"]) (use assms(2) in \<open>simp_all add: write_mem_def\<close>)

lemma write_string_holds:
  assumes "holds ok byte_at msize n f m" "unat a + length s \<le> n"
  obtains m' where "write_string M s a m = Inr m'" "holds ok byte_at msize n (overwrite (unat a) s f) m'"
  by (rule copy_holds [OF assms]) (simp add: write_string_def write_string_by_size_def)

lemma memset_loop_holds:
  assumes "holds ok byte_at msize n f m" "unat a + k + j \<le> n" "n \<le> 2 ^ 64"
  shows "\<exists>m'. memset_loop M a v k j m = Inr m' \<and> holds ok byte_at msize n (overwrite (unat a + k) (replicate j v) f) m'"
  using assms(1,2)
proof (induction j arbitrary: k f m)
  case (Suc j)
  have "unat (a + of_nat k) = unat a + k"
    using Suc.prems(2) assms(3) by (simp add: unat_word_ariths unat_of_nat)
  moreover from this obtain m' where "host_to_guest M m (a + of_nat k) [v] = Inr m'"
    "holds ok byte_at msize n (overwrite (unat (a + of_nat k)) [v] f) m'"
    using copy_holds [OF Suc.prems(1), of "a + of_nat k" "[v]"] Suc.prems(2) by auto
  ultimately show ?case
    using Suc.IH [of "overwrite (unat a + k) [v] f" m' "Suc k"] Suc.prems(2)
    by (simp add: overwrite_appendD)
qed simp

lemma memset_holds:
  assumes "holds ok byte_at msize n f m" "unat a + j \<le> n" "n \<le> 2 ^ 64"
  obtains m' where "mem_memset M a v j m = Inr m'" "holds ok byte_at msize n (overwrite (unat a) (replicate j v) f) m'"
  using memset_loop_holds [OF assms(1), of a 0 j v] assms(2,3) by (auto simp: mem_memset_def)

lemma holds_copy_out:
  "holds ok byte_at msize n f m \<Longrightarrow> unat a + j \<le> n \<Longrightarrow> guest_to_host M m a j = map f [unat a..<unat a + j]"
  using read_bytes [of m a j] by (simp add: holds_def)

lemma holds_read_mem:
  "holds ok byte_at msize n f m \<Longrightarrow> unat a + LENGTH('a) div 8 \<le> n \<Longrightarrow>
     (read_mem M junk e m a :: 'a::len word) = pack_array e (map f [unat a..<unat a + LENGTH('a) div 8])"
  by (subst read_mem_eq) (auto simp: holds_def intro!: arg_cong [of _ _ "pack_array e"])

end

end
