(* ===== verification/Plain_Memory.thy ===== *)
theory Plain_Memory
  imports Memory_Image
begin

text \<open>
  The plain memory of simulator/memory/plain_memory.cpp: one vector of bytes, of a size that is
  a power of two. A read whose address lies past the end computes a length that wraps, and
  copies outside the vector, which C++ leaves undefined; here such a read gives no bytes.
\<close>

type_synonym arena = "byte list"

definition new_plain :: "nat \<Rightarrow> arena" where
  "new_plain addr_bits = replicate (2 ^ addr_bits) 0"

definition plain_host_to_guest :: "arena \<Rightarrow> Addr \<Rightarrow> byte list \<Rightarrow> mem_error + arena" where
  "plain_host_to_guest m ga bs =
     (if length bs > length m then Inl (FuncMemoryOutOfRange (ga + of_nat (length bs)) (of_nat (length m)))
      else if unat ga > length m then Inl (FuncMemoryOutOfRange ga (of_nat (length m)))
      else if unat ga > length m - length bs
      then Inl (FuncMemoryOutOfRange (ga + of_nat (length bs)) (of_nat (length m)))
      else Inr (take (unat ga) m @ bs @ drop (unat ga + length bs) m))"

definition plain_guest_to_host :: "arena \<Rightarrow> Addr \<Rightarrow> nat \<Rightarrow> byte list" where
  "plain_guest_to_host m ga sz =
     (let valid_size = min sz (length m - unat ga) in take valid_size (drop (unat ga) m))"

definition plain_strlen :: "arena \<Rightarrow> Addr \<Rightarrow> nat" where
  "plain_strlen m addr = length (takeWhile (\<lambda>b. b \<noteq> 0) (drop (unat addr) m))"

definition plain_ops :: "arena memory_ops" where
  "plain_ops = \<lparr>guest_to_host = plain_guest_to_host, host_to_guest = plain_host_to_guest,
     mem_strlen = plain_strlen\<rparr>"

definition plain_duplicate_to :: "'m memory_ops \<Rightarrow> arena \<Rightarrow> 'm \<Rightarrow> mem_error + 'm" where
  "plain_duplicate_to M m other = host_to_guest M other 0 m"

section \<open>The contract\<close>

lemma nth_overwrite:
  assumes "a + length bs \<le> length m" "k < length m"
  shows "(take a m @ bs @ drop (a + length bs) m) ! k =
    (if a \<le> k \<and> k < a + length bs then bs ! (k - a) else m ! k)"
proof -
  consider "k < a" | "a \<le> k" "k < a + length bs" | "a + length bs \<le> k" by linarith
  then show ?thesis
  proof cases
    case 2
    then have "k - a < length bs" by linarith
    then show ?thesis using 2 assms by (simp add: nth_append min_def)
  next
    case 3
    then have "a + length bs + (k - a - length bs) = k" "\<not> k - a < length bs" by linarith+
    then show ?thesis using 3 assms by (simp add: nth_append min_def)
  qed (use assms in \<open>simp add: nth_append\<close>)
qed

interpretation plain: func_memory plain_ops "\<lambda>m. True" "\<lambda>m k. m ! k" length
proof
  fix m :: arena and a :: Addr and n
  assume "unat a + n \<le> length m"
  then show "guest_to_host plain_ops m a n = map ((!) m) [unat a..<unat a + n]"
    by (intro nth_equalityI) (auto simp: plain_ops_def plain_guest_to_host_def Let_def)
next
  fix m :: arena and a :: Addr and bs :: "byte list"
  assume fits: "unat a + length bs \<le> length m"
  then have "plain_host_to_guest m a bs = Inr (take (unat a) m @ bs @ drop (unat a + length bs) m)"
    by (simp add: plain_host_to_guest_def)
  then show "\<exists>m'. host_to_guest plain_ops m a bs = Inr m' \<and> True \<and> length m' = length m
      \<and> (\<forall>k < length m. m' ! k =
          (if unat a \<le> k \<and> k < unat a + length bs then bs ! (k - unat a) else m ! k))"
    using fits nth_overwrite [OF fits] by (simp add: plain_ops_def)
qed (auto simp: plain_ops_def plain_host_to_guest_def)

interpretation plain_rep: func_memory "replicant_ops plain_ops" "coherent (\<lambda>m. True) (\<lambda>m k. m ! k) length"
    "\<lambda>r k. primary r ! k" "\<lambda>r. length (primary r)"
  by (rule plain.replicant)

end
