(* ===== verification/Hierarchied_Memory.thy ===== *)
theory Hierarchied_Memory
  imports Plain_Memory
begin

text \<open>
  The hierarchied memory of simulator/memory/hierarchied_memory.cpp: a vector of sets, each a
  vector of pages, each a vector of bytes, where an empty vector stands for one that is not
  allocated yet. An address is split into a set, a page and an offset by masks. The masks and
  sizes the constructor computes are functions of the three bit counts, which do not change.
\<close>

section \<open>State and geometry\<close>

record hier =
  page_bits :: nat
  offset_bits :: nat
  set_bits :: nat
  addr_bits :: nat
  sets :: "byte list list list"

definition addr_mask :: "hier \<Rightarrow> Addr" where
  "addr_mask h = bitmask (min (addr_bits h) 64)"

definition offset_mask :: "hier \<Rightarrow> Addr" where
  "offset_mask h = bitmask (offset_bits h)"

definition page_mask :: "hier \<Rightarrow> Addr" where
  "page_mask h = push_bit (offset_bits h) (bitmask (page_bits h))"

definition set_mask :: "hier \<Rightarrow> Addr" where
  "set_mask h = push_bit (page_bits h + offset_bits h) (bitmask (set_bits h))"

text \<open>The bit counts are 32-bit numbers: their difference wraps, and is then too large.\<close>

definition new_hier :: "uint32 \<Rightarrow> uint32 \<Rightarrow> uint32 \<Rightarrow> mem_error + hier" where
  "new_hier addrb pageb offsetb =
     (let setb = addrb - offsetb - pageb
      in if setb \<ge> 32 then Inl (FuncMemoryBadMapping ''Too many sets'')
         else if pageb \<ge> 32 then Inl (FuncMemoryBadMapping ''Too many pages'')
         else if offsetb \<ge> 32 then Inl (FuncMemoryBadMapping ''Each page is too large'')
         else Inr \<lparr>page_bits = unat pageb, offset_bits = unat offsetb, set_bits = unat setb,
           addr_bits = unat addrb, sets = replicate (2 ^ unat setb) []\<rparr>)"

definition get_set :: "hier \<Rightarrow> Addr \<Rightarrow> nat" where
  "get_set h a = unat (drop_bit (page_bits h + offset_bits h) (a AND set_mask h))"

definition get_page :: "hier \<Rightarrow> Addr \<Rightarrow> nat" where
  "get_page h a = unat (drop_bit (offset_bits h) (a AND page_mask h))"

definition get_offset :: "hier \<Rightarrow> Addr \<Rightarrow> nat" where
  "get_offset h a = unat (a AND offset_mask h)"

definition get_addr :: "hier \<Rightarrow> nat \<Rightarrow> nat \<Rightarrow> nat \<Rightarrow> Addr" where
  "get_addr h s p off = push_bit (page_bits h + offset_bits h) (of_nat s)
     OR push_bit (offset_bits h) (of_nat p) OR of_nat off"

section \<open>Access\<close>

definition hier_check :: "hier \<Rightarrow> Addr \<Rightarrow> bool" where
  "hier_check h a \<longleftrightarrow> sets h ! get_set h a \<noteq> [] \<and> sets h ! get_set h a ! get_page h a \<noteq> []"

definition read_byte :: "hier \<Rightarrow> Addr \<Rightarrow> byte" where
  "read_byte h a = sets h ! get_set h a ! get_page h a ! get_offset h a"

definition check_and_read_byte :: "hier \<Rightarrow> Addr \<Rightarrow> byte" where
  "check_and_read_byte h a = (if hier_check h a then read_byte h a else 0)"

definition alloc :: "Addr \<Rightarrow> hier \<Rightarrow> hier" where
  "alloc a h =
     (let s = sets h ! get_set h a;
          s = (if s = [] then replicate (2 ^ page_bits h) [] else s);
          p = s ! get_page h a;
          p = (if p = [] then replicate (2 ^ offset_bits h) 0 else p)
      in h\<lparr>sets := (sets h)[get_set h a := s[get_page h a := p]]\<rparr>)"

definition write_byte :: "Addr \<Rightarrow> byte \<Rightarrow> hier \<Rightarrow> hier" where
  "write_byte a v h =
     (let s = sets h ! get_set h a; p = s ! get_page h a
      in h\<lparr>sets := (sets h)[get_set h a := s[get_page h a := p[get_offset h a := v]]]\<rparr>)"

definition alloc_and_write_byte :: "Addr \<Rightarrow> byte \<Rightarrow> hier \<Rightarrow> hier" where
  "alloc_and_write_byte a v h = write_byte a v (alloc a h)"

fun write_bytes_loop :: "Addr \<Rightarrow> byte list \<Rightarrow> hier \<Rightarrow> hier" where
  "write_bytes_loop a [] h = h"
| "write_bytes_loop a (b # bs) h = write_bytes_loop (a + 1) bs (alloc_and_write_byte a b h)"

definition hier_host_to_guest :: "hier \<Rightarrow> Addr \<Rightarrow> byte list \<Rightarrow> mem_error + hier" where
  "hier_host_to_guest h ga bs =
     (let size = addr_mask h + 1; n = of_nat (length bs)
      in if n > size then Inl (FuncMemoryOutOfRange (ga + n) size)
         else if ga > size then Inl (FuncMemoryOutOfRange ga size)
         else if ga > size - n then Inl (FuncMemoryOutOfRange ga size)
         else Inr (write_bytes_loop ga bs h))"

definition hier_guest_to_host :: "hier \<Rightarrow> Addr \<Rightarrow> nat \<Rightarrow> byte list" where
  "hier_guest_to_host h ga sz = map (\<lambda>off. check_and_read_byte h (ga + of_nat off)) [0..<sz]"

text \<open>The search for the terminating zero stops at the size of the memory; the fuel of the loop
  is the number of addresses.\<close>

fun strlen_loop :: "nat \<Rightarrow> nat \<Rightarrow> hier \<Rightarrow> Addr \<Rightarrow> nat" where
  "strlen_loop i 0 h a = i"
| "strlen_loop i (Suc n) h a = (if check_and_read_byte h (a + of_nat i) = 0 then i else strlen_loop (Suc i) n h a)"

definition hier_strlen :: "hier \<Rightarrow> Addr \<Rightarrow> nat" where
  "hier_strlen h a = strlen_loop 0 (unat (addr_mask h) + 1) h a"

definition hier_ops :: "hier memory_ops" where
  "hier_ops = \<lparr>guest_to_host = hier_guest_to_host, host_to_guest = hier_host_to_guest,
     mem_strlen = hier_strlen\<rparr>"

text \<open>Duplication writes every page, an unallocated one as no bytes, and stops at an exception.\<close>

fun duplicate_pages :: "'m memory_ops \<Rightarrow> hier \<Rightarrow> (nat \<times> nat) list \<Rightarrow> 'm \<Rightarrow> mem_error + 'm" where
  "duplicate_pages M h [] m = Inr m"
| "duplicate_pages M h ((s, p) # ps) m =
     (case host_to_guest M m (get_addr h s p 0) (sets h ! s ! p) of Inl e \<Rightarrow> Inl e
      | Inr m' \<Rightarrow> duplicate_pages M h ps m')"

definition hier_duplicate_to :: "'m memory_ops \<Rightarrow> hier \<Rightarrow> 'm \<Rightarrow> mem_error + 'm" where
  "hier_duplicate_to M h m =
     duplicate_pages M h (concat (map (\<lambda>s. map (\<lambda>p. (s, p)) [0..<length (sets h ! s)]) [0..<length (sets h)])) m"

section \<open>The parts of an address\<close>

text \<open>The invariant: a vector of every level has its full length or is empty, and the memory is
  smaller than the address space, so that its size is a 64-bit number.\<close>

definition wf_hier :: "hier \<Rightarrow> bool" where
  "wf_hier h \<longleftrightarrow> set_bits h + page_bits h + offset_bits h = addr_bits h \<and> addr_bits h < 64
     \<and> length (sets h) = 2 ^ set_bits h
     \<and> (\<forall>s \<in> set (sets h). s = [] \<or> length s = 2 ^ page_bits h)
     \<and> (\<forall>s \<in> set (sets h). \<forall>p \<in> set s. p = [] \<or> length p = 2 ^ offset_bits h)"

definition hier_size :: "hier \<Rightarrow> nat" where
  "hier_size h = 2 ^ addr_bits h"

lemma get_parts:
  assumes "set_bits h + page_bits h + offset_bits h = addr_bits h" "addr_bits h < 64"
  shows "get_set h a = unat a div 2 ^ (page_bits h + offset_bits h) mod 2 ^ set_bits h"
    "get_page h a = unat a div 2 ^ offset_bits h mod 2 ^ page_bits h"
    "get_offset h a = unat a mod 2 ^ offset_bits h"
proof -
  have f: "drop_bit k (a AND push_bit k (mask n)) = take_bit n (drop_bit k a)" for k n and a :: Addr
  proof (rule bit_word_eqI)
    fix j assume "j < LENGTH(64)"
    have "bit a (k + j) \<Longrightarrow> k + j < LENGTH(64)" by (rule bit_imp_le_length)
    then show "bit (drop_bit k (a AND push_bit k (mask n))) j = bit (take_bit n (drop_bit k a)) j"
      by (auto simp: bit_simps)
  qed
  have d: "unat (take_bit n (drop_bit k a)) = unat a div 2 ^ k mod 2 ^ n" if "n \<le> 64" for k n and a :: Addr
    using that by (simp add: unat_take_bit unat_drop_bit)
  show "get_set h a = unat a div 2 ^ (page_bits h + offset_bits h) mod 2 ^ set_bits h"
    "get_page h a = unat a div 2 ^ offset_bits h mod 2 ^ page_bits h"
    using assms by (simp_all add: get_set_def get_page_def set_mask_def page_mask_def bitmask_eq_mask f d
        del: drop_bit_and)
  show "get_offset h a = unat a mod 2 ^ offset_bits h"
    using assms d [of "offset_bits h" 0]
    by (simp add: get_offset_def offset_mask_def bitmask_eq_mask take_bit_eq_mask [symmetric])
qed

text \<open>An address below the size is determined by its parts.\<close>

lemma div_mod_split_inj:
  fixes x y :: nat
  assumes "x div (p * q) = y div (p * q)" "x div q mod p = y div q mod p" "x mod q = y mod q"
  shows "x = y"
proof -
  have "x div q = y div q"
    using assms(1,2) by (metis div_mult2_eq div_mult_mod_eq mult.commute)
  with assms(3) show ?thesis by (metis div_mult_mod_eq)
qed

lemma get_parts_inj:
  assumes "wf_hier h" "unat a < hier_size h" "unat b < hier_size h"
    "get_set h a = get_set h b" "get_page h a = get_page h b" "get_offset h a = get_offset h b"
  shows "a = b"
proof -
  have bits: "set_bits h + page_bits h + offset_bits h = addr_bits h" "addr_bits h < 64"
    using assms(1) by (simp_all add: wf_hier_def)
  have "x div 2 ^ (page_bits h + offset_bits h) < 2 ^ set_bits h" if "x < hier_size h" for x
    using that bits(1)
    by (intro less_mult_imp_div_less) (simp add: hier_size_def power_add [symmetric] add.assoc)
  with assms(2,3) have "unat a div 2 ^ (page_bits h + offset_bits h) = unat b div 2 ^ (page_bits h + offset_bits h)"
    using assms(4) by (simp add: get_parts [OF bits])
  then have "unat a = unat b"
    using assms(5,6) div_mod_split_inj [of "unat a" "2 ^ page_bits h" "2 ^ offset_bits h" "unat b"]
    by (simp add: get_parts [OF bits] power_add)
  then show ?thesis by (simp add: unsigned_word_eqI)
qed


section \<open>Writing a byte\<close>

definition set_for_write :: "hier \<Rightarrow> Addr \<Rightarrow> byte list list" where
  "set_for_write h a =
     (if sets h ! get_set h a = [] then replicate (2 ^ page_bits h) [] else sets h ! get_set h a)"

definition page_for_write :: "hier \<Rightarrow> Addr \<Rightarrow> byte list" where
  "page_for_write h a =
     (if set_for_write h a ! get_page h a = [] then replicate (2 ^ offset_bits h) 0
      else set_for_write h a ! get_page h a)"

lemma geometry_frame [simp]:
  "get_set (h\<lparr>sets := x\<rparr>) a = get_set h a" "get_page (h\<lparr>sets := x\<rparr>) a = get_page h a"
  "get_offset (h\<lparr>sets := x\<rparr>) a = get_offset h a" "addr_mask (h\<lparr>sets := x\<rparr>) = addr_mask h"
  "hier_size (h\<lparr>sets := x\<rparr>) = hier_size h"
  by (simp_all add: get_set_def get_page_def get_offset_def set_mask_def page_mask_def offset_mask_def
      addr_mask_def hier_size_def)

lemma parts_bounds:
  assumes "wf_hier h"
  shows "get_set h a < length (sets h)" "get_page h a < length (set_for_write h a)"
    "get_offset h a < length (page_for_write h a)"
    "sets h ! get_set h a \<noteq> [] \<Longrightarrow> get_page h a < length (sets h ! get_set h a)"
proof -
  have bits: "set_bits h + page_bits h + offset_bits h = addr_bits h" "addr_bits h < 64"
    and len: "length (sets h) = 2 ^ set_bits h"
    using assms by (simp_all add: wf_hier_def)
  show s: "get_set h a < length (sets h)" by (simp add: len get_parts [OF bits])
  then have "sets h ! get_set h a \<in> set (sets h)" by simp
  with assms have pages: "sets h ! get_set h a = [] \<or> length (sets h ! get_set h a) = 2 ^ page_bits h"
    "\<forall>p \<in> set (sets h ! get_set h a). p = [] \<or> length p = 2 ^ offset_bits h"
    by (auto simp: wf_hier_def)
  then have "length (set_for_write h a) = 2 ^ page_bits h"
    by (auto simp: set_for_write_def)
  then show p: "get_page h a < length (set_for_write h a)" by (simp add: get_parts [OF bits])
  then have "set_for_write h a ! get_page h a \<in> set (set_for_write h a)" by simp
  then have "length (page_for_write h a) = 2 ^ offset_bits h"
    using pages(2) by (auto simp: page_for_write_def set_for_write_def split: if_splits)
  then show "get_offset h a < length (page_for_write h a)" by (simp add: get_parts [OF bits])
  show "sets h ! get_set h a \<noteq> [] \<Longrightarrow> get_page h a < length (sets h ! get_set h a)"
    using p by (simp add: set_for_write_def)
qed

text \<open>Allocation and write together replace one page.\<close>

lemma alloc_and_write_byte_eq:
  assumes "wf_hier h"
  shows "alloc_and_write_byte a v h = h\<lparr>sets := (sets h)[get_set h a :=
    (set_for_write h a)[get_page h a := (page_for_write h a)[get_offset h a := v]]]\<rparr>"
  using parts_bounds [OF assms, of a]
  by (simp add: alloc_and_write_byte_def write_byte_def alloc_def set_for_write_def page_for_write_def Let_def)

lemma alloc_and_write_byte_wf:
  assumes "wf_hier h"
  shows "wf_hier (alloc_and_write_byte a v h)"
proof -
  have s: "sets h ! get_set h a \<in> set (sets h)" using parts_bounds(1) [OF assms] by simp
  have sw: "length (set_for_write h a) = 2 ^ page_bits h"
    "\<forall>p \<in> set (set_for_write h a). p = [] \<or> length p = 2 ^ offset_bits h"
    using assms s by (auto simp: set_for_write_def wf_hier_def)
  have "set_for_write h a ! get_page h a \<in> set (set_for_write h a)" using parts_bounds(2) [OF assms] by simp
  then have "length (page_for_write h a) = 2 ^ offset_bits h"
    using sw(2) by (auto simp: page_for_write_def)
  then have "\<forall>p \<in> set ((set_for_write h a)[get_page h a := (page_for_write h a)[get_offset h a := v]]).
      p = [] \<or> length p = 2 ^ offset_bits h"
    using sw(2) set_update_subset_insert by fastforce
  then show ?thesis
    using assms sw(1) set_update_subset_insert [of "sets h" "get_set h a"]
    unfolding alloc_and_write_byte_eq [OF assms] by (fastforce simp: wf_hier_def)
qed

lemma read_after_write_byte:
  assumes "wf_hier h"
  shows "check_and_read_byte (alloc_and_write_byte a v h) b =
    (if get_set h b = get_set h a \<and> get_page h b = get_page h a \<and> get_offset h b = get_offset h a
     then v else check_and_read_byte h b)"
proof -
  note bounds = parts_bounds [OF assms, of a]
  note defs = check_and_read_byte_def hier_check_def read_byte_def alloc_and_write_byte_eq [OF assms]
  consider (set) "get_set h b \<noteq> get_set h a"
    | (page) "get_set h b = get_set h a" "get_page h b \<noteq> get_page h a"
    | (same) "get_set h b = get_set h a" "get_page h b = get_page h a" by blast
  then show ?thesis
  proof cases
    case set
    then show ?thesis by (simp add: defs)
  next
    case page
    have "set_for_write h a ! get_page h b = []" if "sets h ! get_set h a = []"
    proof -
      have "get_page h b < 2 ^ page_bits h"
        using assms by (simp add: wf_hier_def get_parts(2))
      then show ?thesis using that by (simp add: set_for_write_def)
    qed
    moreover have "set_for_write h a = sets h ! get_set h a" if "sets h ! get_set h a \<noteq> []"
      using that by (simp add: set_for_write_def)
    moreover have "set_for_write h a \<noteq> []" using bounds(2) by auto
    ultimately show ?thesis using page bounds(1)
      by (cases "sets h ! get_set h a = []") (simp_all add: defs)
  next
    case same
    have "page_for_write h a \<noteq> []" using bounds(3) by auto
    moreover have "set_for_write h a \<noteq> []" using bounds(2) by auto
    moreover have "page_for_write h a ! get_offset h b = check_and_read_byte h b"
    proof -
      have "get_offset h b < 2 ^ offset_bits h" "get_page h a < 2 ^ page_bits h"
        using assms by (simp_all add: wf_hier_def get_parts(2,3))
      then show ?thesis using same
        by (auto simp: page_for_write_def set_for_write_def check_and_read_byte_def hier_check_def read_byte_def)
    qed
    ultimately show ?thesis using same bounds
      by (cases "get_offset h b = get_offset h a") (auto simp: defs)
  qed
qed

section \<open>The contract\<close>

lemma alloc_and_write_byte_geometry [simp]:
  "hier_size (alloc_and_write_byte a v h) = hier_size h" "addr_mask (alloc_and_write_byte a v h) = addr_mask h"
  by (simp_all add: alloc_and_write_byte_def write_byte_def alloc_def Let_def)

lemma unat_addr_size:
  assumes "wf_hier h"
  shows "unat (addr_mask h + 1) = hier_size h" "hier_size h < 2 ^ 64"
proof -
  have b: "addr_bits h < 64" using assms by (simp add: wf_hier_def)
  then show lt: "hier_size h < 2 ^ 64"
    unfolding hier_size_def by (rule power_strict_increasing) simp
  have "addr_mask h + 1 = (2 ^ addr_bits h :: Addr)"
    using b by (simp add: addr_mask_def bitmask_eq_mask mask_eq_decr_exp min_def)
  then have "addr_mask h + 1 = (of_nat (hier_size h) :: Addr)" by (simp add: hier_size_def)
  with lt show "unat (addr_mask h + 1) = hier_size h"
    by (simp add: unat_of_nat take_bit_nat_eq_self)
qed

text \<open>Within the memory, reading after writing a byte compares addresses.\<close>

lemma byte_after_write_byte:
  assumes "wf_hier h" "unat a < hier_size h" "k < hier_size h"
  shows "check_and_read_byte (alloc_and_write_byte a v h) (of_nat k)
    = (if k = unat a then v else check_and_read_byte h (of_nat k))"
proof -
  have k: "unat (of_nat k :: Addr) = k"
    using assms(3) unat_addr_size(2) [OF assms(1)] by (simp add: unat_of_nat take_bit_nat_eq_self)
  then have "a = of_nat k"
    if "get_set h (of_nat k) = get_set h a" "get_page h (of_nat k) = get_page h a"
      "get_offset h (of_nat k) = get_offset h a"
    using get_parts_inj [OF assms(1,2), of "of_nat k"] assms(3) that by simp
  then show ?thesis unfolding read_after_write_byte [OF assms(1)] using k by auto
qed

lemma write_bytes_loop:
  assumes "wf_hier h" "unat a + length bs \<le> hier_size h"
  shows "wf_hier (write_bytes_loop a bs h) \<and> hier_size (write_bytes_loop a bs h) = hier_size h
    \<and> (\<forall>k < hier_size h. check_and_read_byte (write_bytes_loop a bs h) (of_nat k) =
        (if unat a \<le> k \<and> k < unat a + length bs then bs ! (k - unat a) else check_and_read_byte h (of_nat k)))"
  using assms
proof (induction a bs h rule: write_bytes_loop.induct)
  case (2 a b bs h)
  have a: "unat a < hier_size h" using "2.prems"(2) by simp
  have step: "unat (a + 1) = unat a + 1" if "bs \<noteq> []"
  proof -
    have "unat a + 1 < 2 ^ 64"
      using "2.prems" unat_addr_size(2) [of h] that by (cases bs) auto
    then show ?thesis by (simp add: unat_word_ariths)
  qed
  show ?case
  proof (cases "bs = []")
    case True
    then show ?thesis
      using alloc_and_write_byte_wf [OF "2.prems"(1)] byte_after_write_byte [OF "2.prems"(1) a] by auto
  next
    case False
    let ?h = "alloc_and_write_byte a b h"
    note wf = alloc_and_write_byte_wf [OF "2.prems"(1), of a b]
    have "wf_hier (write_bytes_loop (a + 1) bs ?h) \<and> hier_size (write_bytes_loop (a + 1) bs ?h) = hier_size h
      \<and> (\<forall>k < hier_size h. check_and_read_byte (write_bytes_loop (a + 1) bs ?h) (of_nat k) =
          (if unat a + 1 \<le> k \<and> k < unat a + 1 + length bs then bs ! (k - (unat a + 1))
           else check_and_read_byte ?h (of_nat k)))"
      using "2.IH" [OF wf] "2.prems"(2) step [OF False] by simp
    then show ?thesis
      using byte_after_write_byte [OF "2.prems"(1) a, of _ b] byte_after_write_byte [OF "2.prems"(1) a a, of b]
      by (auto simp: nth_Cons')
  qed
qed auto

interpretation hier: func_memory hier_ops wf_hier "\<lambda>h k. check_and_read_byte h (of_nat k)" hier_size
proof
  fix h :: hier and a :: Addr and n
  assume "wf_hier h" "unat a + n \<le> hier_size h"
  then show "guest_to_host hier_ops h a n = map (\<lambda>k. check_and_read_byte h (of_nat k)) [unat a..<unat a + n]"
    by (intro nth_equalityI) (simp_all add: hier_ops_def hier_guest_to_host_def)
next
  fix h :: hier and a :: Addr and bs :: "byte list"
  assume h: "wf_hier h" and fits: "unat a + length bs \<le> hier_size h"
  have n: "unat (of_nat (length bs) :: Addr) = length bs"
    using fits unat_addr_size(2) [OF h] by (simp add: unat_of_nat take_bit_nat_eq_self)
  moreover have "unat (addr_mask h + 1 - of_nat (length bs)) = hier_size h - length bs"
    using fits n by (simp add: unat_sub_if_size unat_addr_size(1) [OF h])
  ultimately have "host_to_guest hier_ops h a bs = Inr (write_bytes_loop a bs h)"
    using fits by (simp add: hier_ops_def hier_host_to_guest_def Let_def word_less_nat_alt unat_addr_size(1) [OF h])
  with write_bytes_loop [OF h fits] show "\<exists>m'. host_to_guest hier_ops h a bs = Inr m' \<and> wf_hier m'
      \<and> hier_size m' = hier_size h
      \<and> (\<forall>k < hier_size h. check_and_read_byte m' (of_nat k) =
          (if unat a \<le> k \<and> k < unat a + length bs then bs ! (k - unat a) else check_and_read_byte h (of_nat k)))"
    by simp
next
  fix h :: hier and a :: Addr and bs :: "byte list"
  assume h: "wf_hier h" and out: "hier_size h < unat a + length bs" "length bs < 2 ^ 64"
  have n: "unat (of_nat (length bs) :: Addr) = length bs"
    using out(2) by (simp add: unat_of_nat take_bit_nat_eq_self)
  have "unat (addr_mask h + 1 - of_nat (length bs)) = hier_size h - length bs" if "length bs \<le> hier_size h"
    using that n by (simp add: unat_sub_if_size unat_addr_size(1) [OF h])
  then show "\<exists>e. host_to_guest hier_ops h a bs = Inl e"
    using out(1) n
    by (simp add: hier_ops_def hier_host_to_guest_def Let_def word_less_nat_alt unat_addr_size(1) [OF h])
      linarith
qed

interpretation hier_rep: func_memory "replicant_ops hier_ops"
    "coherent wf_hier (\<lambda>h k. check_and_read_byte h (of_nat k)) hier_size"
    "\<lambda>r k. check_and_read_byte (primary r) (of_nat k)" "\<lambda>r. hier_size (primary r)"
  by (rule hier.replicant)

section \<open>The memory as an array of bytes\<close>

text \<open>The abstraction: what a reader of every address sees.\<close>

definition flatten :: "hier \<Rightarrow> byte list" where
  "flatten h = map (\<lambda>k. check_and_read_byte h (of_nat k)) [0..<hier_size h]"

lemma length_flatten [simp]: "length (flatten h) = hier_size h"
  by (simp add: flatten_def)

lemma nth_flatten [simp]: "k < hier_size h \<Longrightarrow> flatten h ! k = check_and_read_byte h (of_nat k)"
  by (simp add: flatten_def)

lemma flatten_unallocated:
  assumes "wf_hier h" "sets h = replicate n []"
  shows "flatten h = replicate (hier_size h) 0"
proof -
  have "check_and_read_byte h k = 0" for k
    using parts_bounds(1) [OF assms(1), of k] assms(2) by (simp add: check_and_read_byte_def hier_check_def)
  then show ?thesis by (simp add: flatten_def map_replicate_const)
qed

lemma hier_plain_simulation:
  assumes "wf_hier h" "length bs < 2 ^ 64"
  shows "case hier_host_to_guest h a bs of
      Inl e \<Rightarrow> (\<exists>e'. plain_host_to_guest (flatten h) a bs = Inl e')
    | Inr h' \<Rightarrow> wf_hier h' \<and> plain_host_to_guest (flatten h) a bs = Inr (flatten h')"
    "unat a + n \<le> hier_size h \<Longrightarrow> hier_guest_to_host h a n = plain_guest_to_host (flatten h) a n"
proof -
  show "case hier_host_to_guest h a bs of
      Inl e \<Rightarrow> (\<exists>e'. plain_host_to_guest (flatten h) a bs = Inl e')
    | Inr h' \<Rightarrow> wf_hier h' \<and> plain_host_to_guest (flatten h) a bs = Inr (flatten h')"
  proof (cases "unat a + length bs \<le> hier_size h")
    case True
    obtain h' where h': "hier_host_to_guest h a bs = Inr h'" "wf_hier h'" "hier_size h' = hier_size h"
      "\<forall>k < hier_size h. check_and_read_byte h' (of_nat k) =
        (if unat a \<le> k \<and> k < unat a + length bs then bs ! (k - unat a) else check_and_read_byte h (of_nat k))"
      using hier.write_bytes [OF assms(1) True] by (auto simp: hier_ops_def)
    obtain p' where p': "plain_host_to_guest (flatten h) a bs = Inr p'" "length p' = hier_size h"
      "\<forall>k < hier_size h. p' ! k = (if unat a \<le> k \<and> k < unat a + length bs then bs ! (k - unat a) else flatten h ! k)"
      using plain.write_bytes [of a bs "flatten h"] True by (auto simp: plain_ops_def)
    have "flatten h' = p'" using h' p' by (intro nth_equalityI) simp_all
    with h' p' show ?thesis by simp
  next
    case False
    then show ?thesis
      using hier.write_outside [of h a bs] plain.write_outside [of "flatten h" a bs] assms
      by (auto simp: hier_ops_def plain_ops_def)
  qed
  assume fits: "unat a + n \<le> hier_size h"
  have "hier_guest_to_host h a n = map (\<lambda>k. check_and_read_byte h (of_nat k)) [unat a..<unat a + n]"
    using hier.read_bytes [OF assms(1) fits] by (simp add: hier_ops_def)
  moreover have "plain_guest_to_host (flatten h) a n = map ((!) (flatten h)) [unat a..<unat a + n]"
    using plain.read_bytes [of a n "flatten h"] fits by (simp add: plain_ops_def)
  ultimately show "hier_guest_to_host h a n = plain_guest_to_host (flatten h) a n" using fits by simp
qed

text \<open>C4: The hierarchied memory refines the plain one: with the bytes of all its addresses as the
  plain memory's vector, writes succeed and fail together, a successful write commutes with the
  abstraction and keeps the invariant, and reads inside the memory give the same bytes.\<close>
theorem hierarchied_refines_plain:
  assumes "wf_hier h" "length bs < 2 ^ 64"
  shows "(case hier_host_to_guest h a bs of
      Inl e \<Rightarrow> (\<exists>e'. plain_host_to_guest (flatten h) a bs = Inl e')
    | Inr h' \<Rightarrow> wf_hier h' \<and> plain_host_to_guest (flatten h) a bs = Inr (flatten h'))
    \<and> (unat a + n \<le> hier_size h \<longrightarrow> hier_guest_to_host h a n = plain_guest_to_host (flatten h) a n)"
  using hier_plain_simulation [OF assms] by blast

definition small_hier :: hier where
  "small_hier = \<lparr>page_bits = 1, offset_bits = 2, set_bits = 1, addr_bits = 4, sets = [[], []]\<rparr>"

lemma wf_small_hier: "wf_hier small_hier"
  by (simp add: wf_hier_def small_hier_def)

lemma size_small_hier: "hier_size small_hier = 16"
  by (simp add: hier_size_def small_hier_def)

lemma flatten_small_hier: "flatten small_hier = replicate 16 0"
  using flatten_unallocated [OF wf_small_hier, of 2]
  by (simp add: size_small_hier) (simp add: small_hier_def numeral_2_eq_2)

lemma hierarchied_refines_plain_witness:
  "\<exists>h'. hier_host_to_guest small_hier 6 [1, 2, 3] = Inr h'
     \<and> flatten h' = [0, 0, 0, 0, 0, 0, 1, 2, 3, 0, 0, 0, 0, 0, 0, 0]
     \<and> hier_guest_to_host small_hier 6 2 = plain_guest_to_host (flatten small_hier) 6 2"
proof -
  have w: "plain_host_to_guest (replicate 16 0) 6 [1, 2, 3]
      = Inr [0, 0, 0, 0, 0, 0, 1, 2, 3, 0, 0, 0, 0, 0, 0, 0]"
    by (code_simp)
  have "length [1, 2, 3 :: byte] < 2 ^ 64" "unat (6 :: Addr) + 2 \<le> hier_size small_hier"
    by (simp_all add: size_small_hier)
  with hierarchied_refines_plain [OF wf_small_hier this(1), of 6 2]
  show ?thesis
    unfolding flatten_small_hier w by (auto split: sum.splits)
qed

lemma new_hier_facts:
  assumes "new_hier addrb pageb offsetb = Inr h"
  shows "unat pageb < 32" "unat offsetb < 32" "unat pageb + unat offsetb \<le> unat addrb"
    "set_bits h + page_bits h + offset_bits h = addr_bits h" "addr_bits h = unat addrb"
    "addrb < 64 \<Longrightarrow> wf_hier h \<and> flatten h = replicate (2 ^ unat addrb) 0"
    "64 \<le> addrb \<Longrightarrow> bs \<noteq> [] \<Longrightarrow> length bs < 2 ^ 64 \<Longrightarrow> \<exists>e. hier_host_to_guest h a bs = Inl e"
proof -
  let ?s = "addrb - offsetb - pageb"
  have b: "unat ?s < 32" "unat pageb < 32" "unat offsetb < 32"
    and h: "h = \<lparr>page_bits = unat pageb, offset_bits = unat offsetb, set_bits = unat ?s,
           addr_bits = unat addrb, sets = replicate (2 ^ unat ?s) []\<rparr>"
    using assms by (auto simp: new_hier_def Let_def word_less_nat_alt not_le split: if_splits)
  have "unat addrb = unat (?s + (pageb + offsetb))" by (simp add: algebra_simps)
  also have "\<dots> = unat ?s + (unat pageb + unat offsetb)"
    using b by (simp only: unat_word_ariths) simp
  finally have sum: "unat addrb = unat ?s + unat pageb + unat offsetb" by simp
  then show "unat pageb < 32" "unat offsetb < 32" "unat pageb + unat offsetb \<le> unat addrb"
    "set_bits h + page_bits h + offset_bits h = addr_bits h" "addr_bits h = unat addrb"
    using b h by simp_all
  have "wf_hier h" if "addrb < 64"
    using that sum by (simp add: wf_hier_def h word_less_nat_alt)
  then show "addrb < 64 \<Longrightarrow> wf_hier h \<and> flatten h = replicate (2 ^ unat addrb) 0"
    using flatten_unallocated [of h "2 ^ unat ?s"] by (simp add: hier_size_def h)
  assume a: "64 \<le> addrb" and bs: "bs \<noteq> []" "length bs < 2 ^ 64"
  have "addr_mask h = - 1"
    using a mask_full [where 'a = 64] by (simp add: addr_mask_def bitmask_eq_mask h word_le_nat_alt min_def)
  moreover have "unat (of_nat (length bs) :: Addr) = length bs"
    using bs(2) by (simp add: unat_of_nat take_bit_nat_eq_self)
  ultimately show "\<exists>e. hier_host_to_guest h a bs = Inl e"
    using bs(1) by (simp add: hier_host_to_guest_def Let_def word_less_nat_alt)
qed



section \<open>Stores and loads of instructions\<close>

lemma store_load_orders:
  fixes i :: "('a::len, 'i) datapath_scheme" and j :: "('a, 'j) datapath_scheme"
  assumes "wf_hier h" "unat (mem_addr i) + LENGTH('a) div 8 \<le> hier_size h" "LENGTH('a) \<in> {32, 64}"
    "mem_addr i \<noteq> 0" "mem_size i \<in> {1, 2, 4, 8}"
    "wmask i AND bitmask (8 * unat (mem_size i)) = bitmask (8 * unat (mem_size i))"
    "mem_addr j = mem_addr i" "mem_size j = mem_size i"
  shows "8 * unat (mem_size i) \<le> LENGTH('a) \<Longrightarrow> \<exists>h'. mem_store hier_ops junk little i h = Inr h' \<and> wf_hier h'
      \<and> mem_load hier_ops junk little h' j = load (v_src i ! 1 AND bitmask (8 * unat (mem_size i))) j"
    "16 * unat (mem_size i) \<le> LENGTH('a) \<Longrightarrow> \<exists>h'. mem_store hier_ops junk big i h = Inr h' \<and> wf_hier h'
      \<and> mem_load hier_ops junk big h' j = mem_load hier_ops junk big h j"
proof -
  have d: "8 dvd LENGTH('a)" using assms(3) by auto
  note s = hier.store_load [OF assms(1,2) d assms(4,5) _ assms(6-8)]
  show "8 * unat (mem_size i) \<le> LENGTH('a) \<Longrightarrow> \<exists>h'. mem_store hier_ops junk little i h = Inr h' \<and> wf_hier h'
      \<and> mem_load hier_ops junk little h' j = load (v_src i ! 1 AND bitmask (8 * unat (mem_size i))) j"
    using s(1) by blast
  assume sz: "16 * unat (mem_size i) \<le> LENGTH('a)"
  then have "8 * unat (mem_size i) \<le> LENGTH('a)" by linarith
  from s(2) [OF this sz] show "\<exists>h'. mem_store hier_ops junk big i h = Inr h' \<and> wf_hier h'
      \<and> mem_load hier_ops junk big h' j = mem_load hier_ops junk big h j"
    by blast
qed

text \<open>C21: In little-endian order, a store with no byte masked out followed by a load at the same
  address and of the same size delivers the low bytes of the stored register to the load, which
  extends them. In big-endian order, a store of at most half the register's width leaves the
  result of the load as it was before: the load reads a whole register and keeps its low bytes,
  which are the last of the window, not the ones that were written.\<close>
theorem store_then_load:
  fixes i :: "('a::len, 'i) datapath_scheme" and j :: "('a, 'j) datapath_scheme"
  assumes "wf_hier h" "unat (mem_addr i) + LENGTH('a) div 8 \<le> hier_size h" "LENGTH('a) \<in> {32, 64}"
    "mem_addr i \<noteq> 0" "mem_size i \<in> {1, 2, 4, 8}"
    "wmask i AND bitmask (8 * unat (mem_size i)) = bitmask (8 * unat (mem_size i))"
    "mem_addr j = mem_addr i" "mem_size j = mem_size i"
  shows "(8 * unat (mem_size i) \<le> LENGTH('a) \<longrightarrow> (\<exists>h'. mem_store hier_ops junk little i h = Inr h' \<and> wf_hier h'
      \<and> mem_load hier_ops junk little h' j = load (v_src i ! 1 AND bitmask (8 * unat (mem_size i))) j))
    \<and> (16 * unat (mem_size i) \<le> LENGTH('a) \<longrightarrow> (\<exists>h'. mem_store hier_ops junk big i h = Inr h' \<and> wf_hier h'
      \<and> mem_load hier_ops junk big h' j = mem_load hier_ops junk big h j))"
  using store_load_orders [OF assms] by blast

definition example_store :: "(32, nat) base_instruction" where
  "example_store = (new_base_instruction 0x100 0x104 X_do_nothing 0)
     \<lparr>operation := OUT_STORE, mem_addr := 4, mem_size := 2, wmask := 0xffff, v_src := [0, 0x1234abcd]\<rparr>"

definition example_load :: "(32, nat) base_instruction" where
  "example_load = example_store\<lparr>operation := OUT_LOADU\<rparr>"

lemma store_then_load_witness:
  "\<exists>h'. mem_store hier_ops (\<lambda>k. 0) little example_store small_hier = Inr h'
     \<and> mem_load hier_ops (\<lambda>k. 0) little h' example_load = load 0xabcd example_load"
proof -
  have "bitmask 16 = (0xffff :: 32 word)" by (simp add: bitmask_eq_mask mask_eq_exp_minus_1)
  then show ?thesis
    using store_then_load [OF wf_small_hier, of example_store example_load "\<lambda>k. 0"]
    by (auto simp: example_store_def example_load_def size_small_hier)
qed

text \<open>Writes through the replicating memory keep every replica a copy of the primary, and every
  one of them returns the value that was written.\<close>
lemma replicated_writes:
  assumes "coherent wf_hier (\<lambda>h k. check_and_read_byte h (of_nat k)) hier_size r"
    "unat a + LENGTH('a) div 8 \<le> hier_size (primary r)" "8 dvd LENGTH('a)"
  shows "\<exists>r'. write_mem (replicant_ops hier_ops) e (v :: 'a::len word) a r = Inr r'
    \<and> coherent wf_hier (\<lambda>h k. check_and_read_byte h (of_nat k)) hier_size r'
    \<and> (\<forall>q \<in> set (primary r' # replicas r'). read_mem hier_ops junk e q a = v)"
proof -
  obtain r' where r': "write_mem (replicant_ops hier_ops) e v a r = Inr r'"
    "coherent wf_hier (\<lambda>h k. check_and_read_byte h (of_nat k)) hier_size r'"
    "hier_size (primary r') = hier_size (primary r)" "read_mem (replicant_ops hier_ops) junk e r' a = v"
    using hier_rep.write_mem_total [OF assms, of e v junk] by blast
  then have p: "read_mem hier_ops junk e (primary r') a = v"
    by (simp add: read_mem_def replicant_ops_def)
  moreover have "read_mem hier_ops junk e q a = v" if "q \<in> set (replicas r')" for q
    unfolding p [symmetric]
    by (rule hier.read_mem_frame) (use that r'(2,3) assms(2) in \<open>auto simp: coherent_def\<close>)
  ultimately show ?thesis using r' by auto
qed

lemma replicated_writes_witness:
  "\<exists>r'. write_mem (replicant_ops hier_ops) big (0x1234 :: uint16) 3
      \<lparr>primary = small_hier, replicas = [small_hier, small_hier]\<rparr> = Inr r'
    \<and> (\<forall>q \<in> set (primary r' # replicas r'). read_mem hier_ops (\<lambda>k. 0) big q 3 = (0x1234 :: uint16))"
proof -
  have "coherent wf_hier (\<lambda>h k. check_and_read_byte h (of_nat k)) hier_size
      \<lparr>primary = small_hier, replicas = [small_hier, small_hier]\<rparr>"
    by (simp add: coherent_def wf_small_hier)
  from replicated_writes [OF this, of 3 big "0x1234 :: uint16" "\<lambda>k. 0"]
  show ?thesis by (auto simp: size_small_hier)
qed

end
