(* ===== verification/Mips_Register.thy ===== *)
theory Mips_Register
  imports Prelude
begin

text \<open>
  The registers of a MIPS processor, from simulator/mips/mips_register: the number of a
  register is its position in mips_register.def, whose names are \<open>regTable\<close>.
\<close>

datatype mips_register = MIPSRegister (reg_num: nat)

definition regTable :: "string list" where
  "regTable =
     [''zero'', ''at'', ''v0'', ''v1'', ''a0'', ''a1'', ''a2'', ''a3'',
      ''t0'', ''t1'', ''t2'', ''t3'', ''t4'', ''t5'', ''t6'', ''t7'',
      ''s0'', ''s1'', ''s2'', ''s3'', ''s4'', ''s5'', ''s6'', ''s7'',
      ''t8'', ''t9'', ''k0'', ''k1'', ''gp'', ''sp'', ''fp'', ''ra'',
      ''hi'', ''lo'', ''Context0'', ''Random'', ''EntryLo0'', ''EntryLo1'', ''Context1'', ''PageMask'',
      ''Wired'', ''HWREna'', ''BadVAddr'', ''Count'', ''EntryHi'', ''Compare'', ''SR'', ''Cause'',
      ''EPC'', ''PRId'', ''Config'', ''LLAddr'', ''WatchLo'', ''WatchHi'', ''CP0_20'', ''CP0_21'',
      ''CP0_22'', ''Debug'', ''DEPC'', ''PerfCtl'', ''ECC'', ''CacheErr'', ''TagLo'', ''TagHi'',
      ''ErrorEPC'', ''DESAVE'', ''f0'', ''f1'', ''f2'', ''f3'', ''f4'', ''f5'',
      ''f6'', ''f7'', ''f8'', ''f9'', ''f10'', ''f11'', ''f12'', ''f13'',
      ''f14'', ''f15'', ''f16'', ''f17'', ''f18'', ''f19'', ''f20'', ''f21'',
      ''f22'', ''f23'', ''f24'', ''f25'', ''f26'', ''f27'', ''f28'', ''f29'',
      ''f30'', ''f31'']"

definition MAX_REG :: nat where "MAX_REG = 98"

definition MIPS_REG_zero :: nat where "MIPS_REG_zero = 0"
definition MIPS_REG_ra :: nat where "MIPS_REG_ra = 31"
definition MIPS_REG_hi :: nat where "MIPS_REG_hi = 32"
definition MIPS_REG_lo :: nat where "MIPS_REG_lo = 33"
definition MIPS_CP0_REG_Context0 :: nat where "MIPS_CP0_REG_Context0 = 34"
definition MIPS_CP0_REG_BadVAddr :: nat where "MIPS_CP0_REG_BadVAddr = 42"
definition MIPS_CP0_REG_SR :: nat where "MIPS_CP0_REG_SR = 46"
definition MIPS_CP0_REG_Cause :: nat where "MIPS_CP0_REG_Cause = 47"
definition MIPS_CP0_REG_EPC :: nat where "MIPS_CP0_REG_EPC = 48"
definition MIPS_CP1_REG_f0 :: nat where "MIPS_CP1_REG_f0 = 66"
definition MIPS_CP1_REG_f31 :: nat where "MIPS_CP1_REG_f31 = 97"

lemmas mips_reg_nums = MIPS_REG_zero_def MIPS_REG_ra_def MIPS_REG_hi_def MIPS_REG_lo_def
  MIPS_CP0_REG_Context0_def MIPS_CP0_REG_BadVAddr_def MIPS_CP0_REG_SR_def MIPS_CP0_REG_Cause_def
  MIPS_CP0_REG_EPC_def MIPS_CP1_REG_f0_def MIPS_CP1_REG_f31_def MAX_REG_def

definition mips_is_zero :: "mips_register \<Rightarrow> bool" where "mips_is_zero r \<longleftrightarrow> reg_num r = MIPS_REG_zero"
definition is_mips_hi :: "mips_register \<Rightarrow> bool" where "is_mips_hi r \<longleftrightarrow> reg_num r = MIPS_REG_hi"
definition is_mips_lo :: "mips_register \<Rightarrow> bool" where "is_mips_lo r \<longleftrightarrow> reg_num r = MIPS_REG_lo"

definition from_cpu_index :: "nat \<Rightarrow> mips_register" where
  "from_cpu_index n = MIPSRegister n"

definition from_cp0_index :: "nat \<Rightarrow> mips_register" where
  "from_cp0_index n = MIPSRegister (MIPS_CP0_REG_Context0 + n)"

definition from_cp1_index :: "uint8 \<Rightarrow> mips_register" where
  "from_cp1_index n = MIPSRegister (MIPS_CP1_REG_f0 + unat n)"

definition mips_hi :: mips_register where "mips_hi = MIPSRegister MIPS_REG_hi"
definition mips_lo :: mips_register where "mips_lo = MIPSRegister MIPS_REG_lo"
definition mips_fcsr :: mips_register where "mips_fcsr = MIPSRegister MIPS_CP1_REG_f31"
definition mips_zero :: mips_register where "mips_zero = MIPSRegister MIPS_REG_zero"
definition mips_return_address :: mips_register where "mips_return_address = MIPSRegister MIPS_REG_ra"
definition mips_cause :: mips_register where "mips_cause = MIPSRegister MIPS_CP0_REG_Cause"
definition mips_status :: mips_register where "mips_status = MIPSRegister MIPS_CP0_REG_SR"
definition mips_epc :: mips_register where "mips_epc = MIPSRegister MIPS_CP0_REG_EPC"

lemmas mips_registers = mips_hi_def mips_lo_def mips_fcsr_def mips_zero_def mips_return_address_def
  mips_cause_def mips_status_def mips_epc_def from_cpu_index_def from_cp0_index_def from_cp1_index_def

definition from_gdb_index :: "nat \<Rightarrow> mips_register" where
  "from_gdb_index n =
     (if n < 32 then from_cpu_index n
      else if n = 32 then MIPSRegister MIPS_CP0_REG_SR
      else if n = 33 then mips_lo
      else if n = 34 then mips_hi
      else if n = 35 then MIPSRegister MIPS_CP0_REG_BadVAddr
      else if n = 36 then mips_cause
      else mips_zero)"

definition mips_gdb_pc_index :: uint8 where "mips_gdb_pc_index = 37"

text \<open>\<open>dump\<close> throws for a number outside the table.\<close>

definition mips_dump :: "mips_register \<Rightarrow> string option" where
  "mips_dump r = (if reg_num r < length regTable then Some (regTable ! reg_num r) else None)"

section \<open>The numbers agree with the table\<close>

lemma length_regTable: "length regTable = MAX_REG"
  by (simp add: regTable_def MAX_REG_def)

lemma regTable_names:
  "regTable ! MIPS_REG_zero = ''zero''" "regTable ! MIPS_REG_ra = ''ra''"
  "regTable ! MIPS_REG_hi = ''hi''" "regTable ! MIPS_REG_lo = ''lo''"
  "regTable ! MIPS_CP0_REG_Context0 = ''Context0''" "regTable ! MIPS_CP0_REG_BadVAddr = ''BadVAddr''"
  "regTable ! MIPS_CP0_REG_SR = ''SR''" "regTable ! MIPS_CP0_REG_Cause = ''Cause''"
  "regTable ! MIPS_CP0_REG_EPC = ''EPC''" "regTable ! MIPS_CP1_REG_f0 = ''f0''"
  "regTable ! MIPS_CP1_REG_f31 = ''f31''"
  by (simp_all add: regTable_def mips_reg_nums)

text \<open>Every register a debugger can name is a register of the file.\<close>

lemma from_gdb_index_bound: "reg_num (from_gdb_index n) < MAX_REG"
  by (auto simp: from_gdb_index_def mips_registers mips_reg_nums)

end
