(* ===== verification/Mips_Decode.thy ===== *)
theory Mips_Decode
  imports Alu_Primitives Mips_Register
begin

text \<open>
  MIPS versions and the fields of an instruction word, from simulator/mips/mips_version.h
  and simulator/mips/mips_instr_decode.h. The assertion of \<open>get_register\<close> is \<open>None\<close>.
\<close>

section \<open>Versions\<close>

datatype mips_version = V_I | V_II | V_III | V_IV | V_V | V_32 | V_64 | V_mars | V_mars64

text \<open>The enumeration as a type class, so that statements about all versions compute.\<close>

instantiation mips_version :: enum
begin

definition enum_mips_version :: "mips_version list" where
  "enum_mips_version = [V_I, V_II, V_III, V_IV, V_V, V_32, V_64, V_mars, V_mars64]"

definition enum_all_mips_version :: "(mips_version \<Rightarrow> bool) \<Rightarrow> bool" where
  "enum_all_mips_version P \<longleftrightarrow> list_all P [V_I, V_II, V_III, V_IV, V_V, V_32, V_64, V_mars, V_mars64]"

definition enum_ex_mips_version :: "(mips_version \<Rightarrow> bool) \<Rightarrow> bool" where
  "enum_ex_mips_version P \<longleftrightarrow> list_ex P [V_I, V_II, V_III, V_IV, V_V, V_32, V_64, V_mars, V_mars64]"

instance
proof
  show univ: "(UNIV :: mips_version set) = set enum_class.enum"
    using mips_version.nchotomy by (auto simp: enum_mips_version_def)
  show "distinct (enum_class.enum :: mips_version list)"
    by (simp add: enum_mips_version_def)
  show "enum_class.enum_all P \<longleftrightarrow> Ball UNIV P" for P :: "mips_version \<Rightarrow> bool"
    unfolding univ by (simp add: enum_mips_version_def enum_all_mips_version_def)
  show "enum_class.enum_ex P \<longleftrightarrow> Bex UNIV P" for P :: "mips_version \<Rightarrow> bool"
    unfolding univ by (simp add: enum_mips_version_def enum_ex_mips_version_def)
qed

end

fun version_number :: "mips_version \<Rightarrow> nat" where
  "version_number V_I = 0"
| "version_number V_II = 1"
| "version_number V_III = 2"
| "version_number V_IV = 3"
| "version_number V_V = 4"
| "version_number V_32 = 5"
| "version_number V_64 = 6"
| "version_number V_mars = 7"
| "version_number V_mars64 = 8"

text \<open>The width of a register.\<close>

fun register_width :: "mips_version \<Rightarrow> nat" where
  "register_width V_I = 32"
| "register_width V_II = 32"
| "register_width V_III = 64"
| "register_width V_IV = 64"
| "register_width V_V = 64"
| "register_width V_32 = 32"
| "register_width V_64 = 64"
| "register_width V_mars = 32"
| "register_width V_mars64 = 64"

definition is_supported :: "uint64 \<Rightarrow> mips_version \<Rightarrow> bool" where
  "is_supported versions v \<longleftrightarrow> drop_bit (version_number v) versions AND 1 \<noteq> 0"

definition add_version :: "uint64 \<Rightarrow> mips_version \<Rightarrow> uint64" where
  "add_version versions v = versions OR push_bit (version_number v) 1"

definition MIPS_64_Instr :: uint64 where "MIPS_64_Instr = add_version (add_version 0 V_64) V_mars64"
definition MIPS_32_Instr :: uint64 where "MIPS_32_Instr = add_version (add_version MIPS_64_Instr V_32) V_mars"
definition MIPS_V_Instr :: uint64 where "MIPS_V_Instr = add_version MIPS_64_Instr V_V"
definition MIPS_IV_Instr :: uint64 where "MIPS_IV_Instr = add_version MIPS_V_Instr V_IV"
definition MIPS_III_Instr :: uint64 where "MIPS_III_Instr = add_version MIPS_IV_Instr V_III"
definition MIPS_II_Instr :: uint64 where "MIPS_II_Instr = add_version (MIPS_III_Instr OR MIPS_32_Instr) V_II"
definition MIPS_I_Instr :: uint64 where "MIPS_I_Instr = add_version MIPS_II_Instr V_I"

lemmas mips_masks = MIPS_64_Instr_def MIPS_32_Instr_def MIPS_V_Instr_def MIPS_IV_Instr_def
  MIPS_III_Instr_def MIPS_II_Instr_def MIPS_I_Instr_def add_version_def

section \<open>Fields\<close>

datatype mips_reg =
    R_RS | R_RT | R_RD | R_CP0_RD | R_SR | R_EPC | R_FR | R_FT | R_FS | R_FD | R_FCSR
  | R_ZERO | R_RA | R_HI | R_LO | R_HI_LO

definition is_explicit_register :: "mips_reg \<Rightarrow> bool" where
  "is_explicit_register t \<longleftrightarrow> t = R_RS \<or> t = R_RT \<or> t = R_RD \<or> t = R_CP0_RD \<or> t = R_FR \<or> t = R_FT
     \<or> t = R_FS \<or> t = R_FD \<or> t = R_FCSR"

record mips_decoder =
  funct :: uint32
  shamt :: uint32
  rd :: uint32
  rt :: uint32
  rs :: uint32
  opcode :: uint32
  imm16 :: uint32
  jump_index :: uint32
  raw_bytes :: uint32
  fd :: uint32
  fs :: uint32
  ft :: uint32
  fmt :: uint32

definition decode_mask :: "uint32 \<Rightarrow> uint32 \<Rightarrow> uint32" where
  "decode_mask b m = drop_bit (count_trailing_zeroes 32 m) (b AND m)"

definition mips_instr_decoder :: "uint32 \<Rightarrow> mips_decoder" where
  "mips_instr_decoder w =
     \<lparr>funct      = decode_mask w 0b00000000000000000000000000111111,
      shamt      = decode_mask w 0b00000000000000000000011111000000,
      rd         = decode_mask w 0b00000000000000001111100000000000,
      rt         = decode_mask w 0b00000000000111110000000000000000,
      rs         = decode_mask w 0b00000011111000000000000000000000,
      opcode     = decode_mask w 0b11111100000000000000000000000000,
      imm16      = decode_mask w 0b00000000000000001111111111111111,
      jump_index = decode_mask w 0b00000011111111111111111111111111,
      raw_bytes  = decode_mask w 0b11111111111111111111111111111111,
      fd         = decode_mask w 0b00000000000000000000011111000000,
      fs         = decode_mask w 0b00000000000000001111100000000000,
      ft         = decode_mask w 0b00000000000111110000000000000000,
      fmt        = decode_mask w 0b00000011111000000000000000000000\<rparr>"

definition get_immediate_value :: "mips_decoder \<Rightarrow> char \<Rightarrow> uint32" where
  "get_immediate_value d t =
     (if t = CHR ''N'' then 0
      else if t = CHR ''S'' then shamt d
      else if t = CHR ''J'' then jump_index d
      else imm16 d)"

definition get_immediate :: "char \<Rightarrow> uint32 \<Rightarrow> 'a::len word" where
  "get_immediate t v =
     (if t = CHR ''N'' \<or> t = CHR ''S'' \<or> t = CHR ''J'' \<or> t = CHR ''L'' then ucast v
      else sign_extension (ucast v) 16)"

fun get_register :: "mips_decoder \<Rightarrow> mips_reg \<Rightarrow> mips_register option" where
  "get_register d R_ZERO = Some mips_zero"
| "get_register d R_HI = Some mips_hi"
| "get_register d R_LO = Some mips_lo"
| "get_register d R_RA = Some mips_return_address"
| "get_register d R_RS = Some (from_cpu_index (unat (rs d)))"
| "get_register d R_RT = Some (from_cpu_index (unat (rt d)))"
| "get_register d R_RD = Some (from_cpu_index (unat (rd d)))"
| "get_register d R_CP0_RD = Some (from_cp0_index (unat (rd d)))"
| "get_register d R_SR = Some mips_status"
| "get_register d R_EPC = Some mips_epc"
| "get_register d R_FD = Some (from_cp1_index (ucast (fd d)))"
| "get_register d R_FS = Some (from_cp1_index (ucast (fs d)))"
| "get_register d R_FT = Some (from_cp1_index (ucast (ft d)))"
| "get_register d R_FR = Some (from_cp1_index (ucast (fmt d)))"
| "get_register d R_FCSR = Some mips_fcsr"
| "get_register d R_HI_LO = None"

section \<open>The masks select contiguous fields\<close>

lemma decode_mask_field:
  assumes "0 < n" "k + n \<le> 32"
  shows "decode_mask w (push_bit k (mask n)) = take_bit n (drop_bit k w)"
proof -
  have "count_trailing_zeroes 32 (push_bit k (mask n) :: uint32) = k"
    using count_trailing_zeroes_field [where 'a = 32, OF assms(1)] assms(2) by simp
  then show ?thesis
    using assms(2) by (auto simp: decode_mask_def bit_simps intro!: bit_word_eqI)
qed

lemma take_bit_split:
  "take_bit (m + n) (w :: 'a::len word) = push_bit m (take_bit n (drop_bit m w)) OR take_bit m w"
proof (rule bit_word_eqI)
  fix j assume "j < LENGTH('a)"
  show "bit (take_bit (m + n) w) j = bit (push_bit m (take_bit n (drop_bit m w)) OR take_bit m w) j"
  proof (cases "j < m")
    case False
    then obtain i where "j = m + i" using le_Suc_ex not_less by blast
    then show ?thesis using \<open>j < LENGTH('a)\<close> by (simp add: bit_simps)
  qed (use \<open>j < LENGTH('a)\<close> in \<open>auto simp: bit_simps\<close>)
qed

lemma mips_fields [simp]:
  "funct (mips_instr_decoder w) = take_bit 6 w"
  "shamt (mips_instr_decoder w) = take_bit 5 (drop_bit 6 w)"
  "rd (mips_instr_decoder w) = take_bit 5 (drop_bit 11 w)"
  "rt (mips_instr_decoder w) = take_bit 5 (drop_bit 16 w)"
  "rs (mips_instr_decoder w) = take_bit 5 (drop_bit 21 w)"
  "opcode (mips_instr_decoder w) = take_bit 6 (drop_bit 26 w)"
  "imm16 (mips_instr_decoder w) = take_bit 16 w"
  "jump_index (mips_instr_decoder w) = take_bit 26 w"
  "raw_bytes (mips_instr_decoder w) = w"
  "fd (mips_instr_decoder w) = take_bit 5 (drop_bit 6 w)"
  "fs (mips_instr_decoder w) = take_bit 5 (drop_bit 11 w)"
  "ft (mips_instr_decoder w) = take_bit 5 (drop_bit 16 w)"
  "fmt (mips_instr_decoder w) = take_bit 5 (drop_bit 21 w)"
proof -
  have m: "(0b00000000000000000000000000111111 :: uint32) = push_bit 0 (mask 6)"
    "(0b00000000000000000000011111000000 :: uint32) = push_bit 6 (mask 5)"
    "(0b00000000000000001111100000000000 :: uint32) = push_bit 11 (mask 5)"
    "(0b00000000000111110000000000000000 :: uint32) = push_bit 16 (mask 5)"
    "(0b00000011111000000000000000000000 :: uint32) = push_bit 21 (mask 5)"
    "(0b11111100000000000000000000000000 :: uint32) = push_bit 26 (mask 6)"
    "(0b00000000000000001111111111111111 :: uint32) = push_bit 0 (mask 16)"
    "(0b00000011111111111111111111111111 :: uint32) = push_bit 0 (mask 26)"
    "(0b11111111111111111111111111111111 :: uint32) = push_bit 0 (mask 32)"
    by (simp_all add: mask_eq_exp_minus_1 push_bit_eq_mult)
  have d: "decode_mask w (push_bit k (mask n)) = take_bit n (drop_bit k w)" if "0 < n \<and> k + n \<le> 32" for k n
    using that by (simp add: decode_mask_field)
  show
    "funct (mips_instr_decoder w) = take_bit 6 w"
    "shamt (mips_instr_decoder w) = take_bit 5 (drop_bit 6 w)"
    "rd (mips_instr_decoder w) = take_bit 5 (drop_bit 11 w)"
    "rt (mips_instr_decoder w) = take_bit 5 (drop_bit 16 w)"
    "rs (mips_instr_decoder w) = take_bit 5 (drop_bit 21 w)"
    "opcode (mips_instr_decoder w) = take_bit 6 (drop_bit 26 w)"
    "imm16 (mips_instr_decoder w) = take_bit 16 w"
    "jump_index (mips_instr_decoder w) = take_bit 26 w"
    "raw_bytes (mips_instr_decoder w) = w"
    "fd (mips_instr_decoder w) = take_bit 5 (drop_bit 6 w)"
    "fs (mips_instr_decoder w) = take_bit 5 (drop_bit 11 w)"
    "ft (mips_instr_decoder w) = take_bit 5 (drop_bit 16 w)"
    "fmt (mips_instr_decoder w) = take_bit 5 (drop_bit 21 w)"
    unfolding mips_instr_decoder_def m mips_decoder.simps
    by (subst d; simp add: take_bit_word_eq_self)+
qed

text \<open>The decoder loses nothing and invents nothing: an instruction word is its opcode,
  register, shift amount and function fields put side by side, it is also its opcode, two
  registers and immediate, and its opcode and jump index; every field is below the number of
  its values.\<close>

theorem mips_fields_partition:
  fixes w :: uint32
  defines "d \<equiv> mips_instr_decoder w"
  shows "push_bit 26 (opcode d) OR push_bit 21 (rs d) OR push_bit 16 (rt d) OR push_bit 11 (rd d)
      OR push_bit 6 (shamt d) OR funct d = w
    \<and> push_bit 26 (opcode d) OR push_bit 21 (rs d) OR push_bit 16 (rt d) OR imm16 d = w
    \<and> push_bit 26 (opcode d) OR jump_index d = w
    \<and> unat (opcode d) < 64 \<and> unat (rs d) < 32 \<and> unat (rt d) < 32 \<and> unat (rd d) < 32 \<and> unat (funct d) < 64"
proof -
  have "unat (take_bit 5 x) < 32" "unat (take_bit 6 x) < 64" for x :: uint32
    by (simp_all add: unat_take_bit)
  moreover have "push_bit 26 (opcode d) OR jump_index d = w"
    using take_bit_split [of 26 6 w] by (simp add: d_def take_bit_word_eq_self)
  moreover have "push_bit 21 (rs d) OR push_bit 16 (rt d) OR imm16 d = jump_index d"
    using take_bit_split [of 21 5 w] take_bit_split [of 16 5 w] by (simp add: d_def or.assoc)
  moreover have "push_bit 11 (rd d) OR push_bit 6 (shamt d) OR funct d = imm16 d"
    using take_bit_split [of 11 5 w] take_bit_split [of 6 5 w] by (simp add: d_def or.assoc)
  ultimately show ?thesis by (simp add: d_def or.assoc)
qed

end
