(* ===== verification/Mips_Tables.thy ===== *)
theory Mips_Tables
  imports Mips_Decode Operation
begin

text \<open>
  The instruction tables of simulator/mips/mips_instr.cpp: the executor of every instruction,
  under the name it has there, and the hash maps from a field of the instruction word to a
  table entry, as association lists in the order of the source. The list of an entry's sources
  or destinations names the fields that hold the register numbers.
\<close>

section \<open>Executors\<close>

definition mips_add :: execute_fn where "mips_add = Arith_fn (X_addition_overflow 32)"
definition mips_addi :: execute_fn where "mips_addi = Arith_fn (X_addition_overflow_imm 32)"
definition mips_addiu :: execute_fn where "mips_addiu = Arith_fn (X_addition_imm 32)"
definition mips_addu :: execute_fn where "mips_addu = Arith_fn (X_addition 32)"
definition mips_and :: execute_fn where "mips_and = Logic_fn X_andv"
definition mips_andi :: execute_fn where "mips_andi = Logic_fn X_andi"
definition mips_beq :: execute_fn where "mips_beq = Control_fn (X_branch P_eq)"
definition mips_beql :: execute_fn where "mips_beql = Control_fn (X_branch P_eq)"
definition mips_bgez :: execute_fn where "mips_bgez = Control_fn (X_branch P_gez)"
definition mips_bgezal :: execute_fn where "mips_bgezal = Control_fn (X_branch_and_link P_gez)"
definition mips_bgezall :: execute_fn where "mips_bgezall = Control_fn (X_branch_and_link P_gez)"
definition mips_bgezl :: execute_fn where "mips_bgezl = Control_fn (X_branch P_gez)"
definition mips_bgtz :: execute_fn where "mips_bgtz = Control_fn (X_branch P_gtz)"
definition mips_bgtzl :: execute_fn where "mips_bgtzl = Control_fn (X_branch P_gtz)"
definition mips_blez :: execute_fn where "mips_blez = Control_fn (X_branch P_lez)"
definition mips_blezl :: execute_fn where "mips_blezl = Control_fn (X_branch P_lez)"
definition mips_bltz :: execute_fn where "mips_bltz = Control_fn (X_branch P_ltz)"
definition mips_bltzal :: execute_fn where "mips_bltzal = Control_fn (X_branch_and_link P_ltz)"
definition mips_bltzall :: execute_fn where "mips_bltzall = Control_fn (X_branch_and_link P_ltz)"
definition mips_bltzl :: execute_fn where "mips_bltzl = Control_fn (X_branch P_ltz)"
definition mips_bne :: execute_fn where "mips_bne = Control_fn (X_branch P_ne)"
definition mips_bnel :: execute_fn where "mips_bnel = Control_fn (X_branch P_ne)"
definition mips_break :: execute_fn where "mips_break = Control_fn X_breakpoint"
definition mips_clo :: execute_fn where "mips_clo = Bit_fn (X_clo 32)"
definition mips_clz :: execute_fn where "mips_clz = Bit_fn (X_clz 32)"
definition mips_dadd :: execute_fn where "mips_dadd = Arith_fn (X_addition_overflow 64)"
definition mips_daddi :: execute_fn where "mips_daddi = Arith_fn (X_addition_overflow_imm 64)"
definition mips_daddiu :: execute_fn where "mips_daddiu = Arith_fn (X_addition_imm 64)"
definition mips_daddu :: execute_fn where "mips_daddu = Arith_fn (X_addition 64)"
definition mips_dclo :: execute_fn where "mips_dclo = Bit_fn (X_clo 64)"
definition mips_dclz :: execute_fn where "mips_dclz = Bit_fn (X_clz 64)"
definition mips_dsll :: execute_fn where "mips_dsll = Shift_fn (X_sll 64)"
definition mips_dsll32 :: execute_fn where "mips_dsll32 = Shift_fn X_dsll32"
definition mips_dsllv :: execute_fn where "mips_dsllv = Shift_fn (X_sllv 64)"
definition mips_dsra :: execute_fn where "mips_dsra = Shift_fn (X_sra 64)"
definition mips_dsra32 :: execute_fn where "mips_dsra32 = Shift_fn X_dsra32"
definition mips_dsrav :: execute_fn where "mips_dsrav = Shift_fn (X_srav 64)"
definition mips_dsrl :: execute_fn where "mips_dsrl = Shift_fn (X_srl 64)"
definition mips_dsrl32 :: execute_fn where "mips_dsrl32 = Shift_fn X_dsrl32"
definition mips_dsrlv :: execute_fn where "mips_dsrlv = Shift_fn (X_srlv 64)"
definition mips_dsub :: execute_fn where "mips_dsub = Arith_fn (X_subtraction_overflow 64)"
definition mips_dsubu :: execute_fn where "mips_dsubu = Arith_fn (X_subtraction 64)"
definition mips_eret :: execute_fn where "mips_eret = Control_fn X_eret"
definition mips_j :: execute_fn where "mips_j = Control_fn (X_jump J_j)"
definition mips_jal :: execute_fn where "mips_jal = Control_fn (X_jump_and_link J_j)"
definition mips_jalr :: execute_fn where "mips_jalr = Control_fn (X_jump_and_link J_jr)"
definition mips_jr :: execute_fn where "mips_jr = Control_fn (X_jump J_jr)"
definition mips_lb :: execute_fn where "mips_lb = Address_fn X_load_addr"
definition mips_lbu :: execute_fn where "mips_lbu = Address_fn X_load_addr"
definition mips_ld :: execute_fn where "mips_ld = Address_fn X_load_addr_aligned"
definition mips_ldl :: execute_fn where "mips_ldl = Address_fn X_load_addr"
definition mips_ldr :: execute_fn where "mips_ldr = Address_fn X_load_addr"
definition mips_lh :: execute_fn where "mips_lh = Address_fn X_load_addr_aligned"
definition mips_lhu :: execute_fn where "mips_lhu = Address_fn X_load_addr_aligned"
definition mips_ll :: execute_fn where "mips_ll = Address_fn X_load_addr_aligned"
definition mips_lui :: execute_fn where "mips_lui = Arith_fn (X_upper_immediate 16)"
definition mips_lw :: execute_fn where "mips_lw = Address_fn X_load_addr_aligned"
definition mips_lwl :: execute_fn where "mips_lwl = Address_fn X_load_addr_left32"
definition mips_lwr :: execute_fn where "mips_lwr = Address_fn X_load_addr_right32"
definition mips_lwu :: execute_fn where "mips_lwu = Address_fn X_load_addr_aligned"
definition mips_mfc0 :: execute_fn where "mips_mfc0 = Logic_fn X_move"
definition mips_mfhi :: execute_fn where "mips_mfhi = Logic_fn X_move"
definition mips_mflo :: execute_fn where "mips_mflo = Logic_fn X_move"
definition mips_movn :: execute_fn where "mips_movn = Logic_fn X_movn"
definition mips_movz :: execute_fn where "mips_movz = Logic_fn X_movz"
definition mips_mtc0 :: execute_fn where "mips_mtc0 = Logic_fn X_move"
definition mips_mthi :: execute_fn where "mips_mthi = Logic_fn X_move"
definition mips_mtlo :: execute_fn where "mips_mtlo = Logic_fn X_move"
definition mips_nor :: execute_fn where "mips_nor = Logic_fn X_nor"
definition mips_or :: execute_fn where "mips_or = Logic_fn X_orv"
definition mips_ori :: execute_fn where "mips_ori = Logic_fn X_ori"
definition mips_sb :: execute_fn where "mips_sb = Address_fn X_store_addr"
definition mips_sc :: execute_fn where "mips_sc = Address_fn X_store_addr_aligned"
definition mips_sd :: execute_fn where "mips_sd = Address_fn X_store_addr_aligned"
definition mips_sdl :: execute_fn where "mips_sdl = Address_fn X_store_addr"
definition mips_sdr :: execute_fn where "mips_sdr = Address_fn X_store_addr"
definition mips_sh :: execute_fn where "mips_sh = Address_fn X_store_addr_aligned"
definition mips_sll :: execute_fn where "mips_sll = Shift_fn (X_sll 32)"
definition mips_sllv :: execute_fn where "mips_sllv = Shift_fn (X_sllv 32)"
definition mips_slt :: execute_fn where "mips_slt = Logic_fn (X_set P_lt)"
definition mips_slti :: execute_fn where "mips_slti = Logic_fn (X_set P_lti)"
definition mips_sltiu :: execute_fn where "mips_sltiu = Logic_fn (X_set P_ltiu)"
definition mips_sltu :: execute_fn where "mips_sltu = Logic_fn (X_set P_ltu)"
definition mips_sra :: execute_fn where "mips_sra = Shift_fn (X_sra 32)"
definition mips_srav :: execute_fn where "mips_srav = Shift_fn (X_srav 32)"
definition mips_srl :: execute_fn where "mips_srl = Shift_fn (X_srl 32)"
definition mips_srlv :: execute_fn where "mips_srlv = Shift_fn (X_srlv 32)"
definition mips_sub :: execute_fn where "mips_sub = Arith_fn (X_subtraction_overflow 32)"
definition mips_subu :: execute_fn where "mips_subu = Arith_fn (X_subtraction 32)"
definition mips_sw :: execute_fn where "mips_sw = Address_fn X_store_addr_aligned"
definition mips_swl :: execute_fn where "mips_swl = Address_fn X_store_addr_left32"
definition mips_swr :: execute_fn where "mips_swr = Address_fn X_store_addr_right32"
definition mips_syscall :: execute_fn where "mips_syscall = Control_fn X_syscall"
definition mips_teq :: execute_fn where "mips_teq = Control_fn (X_trap P_eq)"
definition mips_teqi :: execute_fn where "mips_teqi = Control_fn (X_trap P_eqi)"
definition mips_tge :: execute_fn where "mips_tge = Control_fn (X_trap P_ge)"
definition mips_tgei :: execute_fn where "mips_tgei = Control_fn (X_trap P_gei)"
definition mips_tgeiu :: execute_fn where "mips_tgeiu = Control_fn (X_trap P_geiu)"
definition mips_tgeu :: execute_fn where "mips_tgeu = Control_fn (X_trap P_geu)"
definition mips_tlt :: execute_fn where "mips_tlt = Control_fn (X_trap P_lt)"
definition mips_tlti :: execute_fn where "mips_tlti = Control_fn (X_trap P_lti)"
definition mips_tltiu :: execute_fn where "mips_tltiu = Control_fn (X_trap P_ltiu)"
definition mips_tltu :: execute_fn where "mips_tltu = Control_fn (X_trap P_ltu)"
definition mips_tne :: execute_fn where "mips_tne = Control_fn (X_trap P_ne)"
definition mips_tnei :: execute_fn where "mips_tnei = Control_fn (X_trap P_nei)"
definition mips_xor :: execute_fn where "mips_xor = Logic_fn X_xorv"
definition mips_xori :: execute_fn where "mips_xori = Logic_fn X_xori"
definition mips_unknown :: execute_fn where "mips_unknown = Control_fn X_unknown_instruction"
definition mips_madd :: execute_fn where "mips_madd = Mult_fn (X_mips_multiplication True 32)"
definition mips_maddu :: execute_fn where "mips_maddu = Mult_fn (X_mips_multiplication False 32)"
definition mips_msub :: execute_fn where "mips_msub = Mult_fn (X_mips_multiplication True 32)"
definition mips_msubu :: execute_fn where "mips_msubu = Mult_fn (X_mips_multiplication False 32)"
definition mips_dmult :: execute_fn where "mips_dmult = Mult_fn (X_mips_multiplication True 64)"
definition mips_dmultu :: execute_fn where "mips_dmultu = Mult_fn (X_mips_multiplication False 64)"
definition mips_mul :: execute_fn where "mips_mul = Mult_fn (X_mips_multiplication True 32)"
definition mips_mult :: execute_fn where "mips_mult = Mult_fn (X_mips_multiplication True 32)"
definition mips_multu :: execute_fn where "mips_multu = Mult_fn (X_mips_multiplication False 32)"
definition mips_ddiv :: execute_fn where "mips_ddiv = Mult_fn (X_mips_division True 64)"
definition mips_ddivu :: execute_fn where "mips_ddivu = Mult_fn (X_mips_division False 64)"
definition mips_div :: execute_fn where "mips_div = Mult_fn (X_mips_division True 32)"
definition mips_divu :: execute_fn where "mips_divu = Mult_fn (X_mips_division False 32)"
definition mips_abs_d :: execute_fn where "mips_abs_d = Control_fn X_unknown_instruction"
definition mips_abs_s :: execute_fn where "mips_abs_s = Control_fn X_unknown_instruction"
definition mips_add_d :: execute_fn where "mips_add_d = Control_fn X_unknown_instruction"
definition mips_add_s :: execute_fn where "mips_add_s = Control_fn X_unknown_instruction"
definition mips_bc1f :: execute_fn where "mips_bc1f = Control_fn X_unknown_instruction"
definition mips_bc1t :: execute_fn where "mips_bc1t = Control_fn X_unknown_instruction"
definition mips_bc1fl :: execute_fn where "mips_bc1fl = Control_fn X_unknown_instruction"
definition mips_bc1tl :: execute_fn where "mips_bc1tl = Control_fn X_unknown_instruction"
definition mips_c_f_d :: execute_fn where "mips_c_f_d = Control_fn X_unknown_instruction"
definition mips_c_f_s :: execute_fn where "mips_c_f_s = Control_fn X_unknown_instruction"
definition mips_c_un_d :: execute_fn where "mips_c_un_d = Control_fn X_unknown_instruction"
definition mips_c_un_s :: execute_fn where "mips_c_un_s = Control_fn X_unknown_instruction"
definition mips_c_eq_d :: execute_fn where "mips_c_eq_d = Control_fn X_unknown_instruction"
definition mips_c_eq_s :: execute_fn where "mips_c_eq_s = Control_fn X_unknown_instruction"
definition mips_c_ueq_d :: execute_fn where "mips_c_ueq_d = Control_fn X_unknown_instruction"
definition mips_c_ueq_s :: execute_fn where "mips_c_ueq_s = Control_fn X_unknown_instruction"
definition mips_c_olt_d :: execute_fn where "mips_c_olt_d = Control_fn X_unknown_instruction"
definition mips_c_olt_s :: execute_fn where "mips_c_olt_s = Control_fn X_unknown_instruction"
definition mips_c_ult_d :: execute_fn where "mips_c_ult_d = Control_fn X_unknown_instruction"
definition mips_c_ult_s :: execute_fn where "mips_c_ult_s = Control_fn X_unknown_instruction"
definition mips_c_ole_d :: execute_fn where "mips_c_ole_d = Control_fn X_unknown_instruction"
definition mips_c_ole_s :: execute_fn where "mips_c_ole_s = Control_fn X_unknown_instruction"
definition mips_c_ule_d :: execute_fn where "mips_c_ule_d = Control_fn X_unknown_instruction"
definition mips_c_ule_s :: execute_fn where "mips_c_ule_s = Control_fn X_unknown_instruction"
definition mips_c_sf_d :: execute_fn where "mips_c_sf_d = Control_fn X_unknown_instruction"
definition mips_c_sf_s :: execute_fn where "mips_c_sf_s = Control_fn X_unknown_instruction"
definition mips_c_ngle_d :: execute_fn where "mips_c_ngle_d = Control_fn X_unknown_instruction"
definition mips_c_ngle_s :: execute_fn where "mips_c_ngle_s = Control_fn X_unknown_instruction"
definition mips_c_seq_d :: execute_fn where "mips_c_seq_d = Control_fn X_unknown_instruction"
definition mips_c_seq_s :: execute_fn where "mips_c_seq_s = Control_fn X_unknown_instruction"
definition mips_c_ngl_d :: execute_fn where "mips_c_ngl_d = Control_fn X_unknown_instruction"
definition mips_c_ngl_s :: execute_fn where "mips_c_ngl_s = Control_fn X_unknown_instruction"
definition mips_c_lt_d :: execute_fn where "mips_c_lt_d = Control_fn X_unknown_instruction"
definition mips_c_lt_s :: execute_fn where "mips_c_lt_s = Control_fn X_unknown_instruction"
definition mips_c_nge_d :: execute_fn where "mips_c_nge_d = Control_fn X_unknown_instruction"
definition mips_c_nge_s :: execute_fn where "mips_c_nge_s = Control_fn X_unknown_instruction"
definition mips_c_le_d :: execute_fn where "mips_c_le_d = Control_fn X_unknown_instruction"
definition mips_c_le_s :: execute_fn where "mips_c_le_s = Control_fn X_unknown_instruction"
definition mips_c_ngt_d :: execute_fn where "mips_c_ngt_d = Control_fn X_unknown_instruction"
definition mips_c_ngt_s :: execute_fn where "mips_c_ngt_s = Control_fn X_unknown_instruction"
definition mips_ceil_l_d :: execute_fn where "mips_ceil_l_d = Control_fn X_unknown_instruction"
definition mips_ceil_l_s :: execute_fn where "mips_ceil_l_s = Control_fn X_unknown_instruction"
definition mips_ceil_w_d :: execute_fn where "mips_ceil_w_d = Control_fn X_unknown_instruction"
definition mips_ceil_w_s :: execute_fn where "mips_ceil_w_s = Control_fn X_unknown_instruction"
definition mips_cfc1 :: execute_fn where "mips_cfc1 = Control_fn X_unknown_instruction"
definition mips_ctc1 :: execute_fn where "mips_ctc1 = Control_fn X_unknown_instruction"
definition mips_cvt_d_l :: execute_fn where "mips_cvt_d_l = Control_fn X_unknown_instruction"
definition mips_cvt_d_s :: execute_fn where "mips_cvt_d_s = Control_fn X_unknown_instruction"
definition mips_cvt_d_w :: execute_fn where "mips_cvt_d_w = Control_fn X_unknown_instruction"
definition mips_cvt_s_d :: execute_fn where "mips_cvt_s_d = Control_fn X_unknown_instruction"
definition mips_cvt_s_l :: execute_fn where "mips_cvt_s_l = Control_fn X_unknown_instruction"
definition mips_cvt_s_w :: execute_fn where "mips_cvt_s_w = Control_fn X_unknown_instruction"
definition mips_cvt_l_d :: execute_fn where "mips_cvt_l_d = Control_fn X_unknown_instruction"
definition mips_cvt_l_s :: execute_fn where "mips_cvt_l_s = Control_fn X_unknown_instruction"
definition mips_cvt_w_d :: execute_fn where "mips_cvt_w_d = Control_fn X_unknown_instruction"
definition mips_cvt_w_s :: execute_fn where "mips_cvt_w_s = Control_fn X_unknown_instruction"
definition mips_div_d :: execute_fn where "mips_div_d = Control_fn X_unknown_instruction"
definition mips_div_s :: execute_fn where "mips_div_s = Control_fn X_unknown_instruction"
definition mips_dmfc1 :: execute_fn where "mips_dmfc1 = Control_fn X_unknown_instruction"
definition mips_dmtc1 :: execute_fn where "mips_dmtc1 = Control_fn X_unknown_instruction"
definition mips_floor_l_d :: execute_fn where "mips_floor_l_d = Control_fn X_unknown_instruction"
definition mips_floor_l_s :: execute_fn where "mips_floor_l_s = Control_fn X_unknown_instruction"
definition mips_floor_w_d :: execute_fn where "mips_floor_w_d = Control_fn X_unknown_instruction"
definition mips_floor_w_s :: execute_fn where "mips_floor_w_s = Control_fn X_unknown_instruction"
definition mips_ldc1 :: execute_fn where "mips_ldc1 = Control_fn X_unknown_instruction"
definition mips_lwc1 :: execute_fn where "mips_lwc1 = Control_fn X_unknown_instruction"
definition mips_ldxc1 :: execute_fn where "mips_ldxc1 = Control_fn X_unknown_instruction"
definition mips_lwxc1 :: execute_fn where "mips_lwxc1 = Control_fn X_unknown_instruction"
definition mips_mfc1 :: execute_fn where "mips_mfc1 = Control_fn X_unknown_instruction"
definition mips_madd_d :: execute_fn where "mips_madd_d = Control_fn X_unknown_instruction"
definition mips_madd_s :: execute_fn where "mips_madd_s = Control_fn X_unknown_instruction"
definition mips_mov_d :: execute_fn where "mips_mov_d = Control_fn X_unknown_instruction"
definition mips_mov_s :: execute_fn where "mips_mov_s = Control_fn X_unknown_instruction"
definition mips_movf :: execute_fn where "mips_movf = Control_fn X_unknown_instruction"
definition mips_movf_d :: execute_fn where "mips_movf_d = Control_fn X_unknown_instruction"
definition mips_movf_s :: execute_fn where "mips_movf_s = Control_fn X_unknown_instruction"
definition mips_movn_d :: execute_fn where "mips_movn_d = Control_fn X_unknown_instruction"
definition mips_movn_s :: execute_fn where "mips_movn_s = Control_fn X_unknown_instruction"
definition mips_movt :: execute_fn where "mips_movt = Control_fn X_unknown_instruction"
definition mips_movt_d :: execute_fn where "mips_movt_d = Control_fn X_unknown_instruction"
definition mips_movt_s :: execute_fn where "mips_movt_s = Control_fn X_unknown_instruction"
definition mips_movz_d :: execute_fn where "mips_movz_d = Control_fn X_unknown_instruction"
definition mips_movz_s :: execute_fn where "mips_movz_s = Control_fn X_unknown_instruction"
definition mips_msub_d :: execute_fn where "mips_msub_d = Control_fn X_unknown_instruction"
definition mips_msub_s :: execute_fn where "mips_msub_s = Control_fn X_unknown_instruction"
definition mips_mtc1 :: execute_fn where "mips_mtc1 = Control_fn X_unknown_instruction"
definition mips_mul_d :: execute_fn where "mips_mul_d = Control_fn X_unknown_instruction"
definition mips_mul_s :: execute_fn where "mips_mul_s = Control_fn X_unknown_instruction"
definition mips_neg_d :: execute_fn where "mips_neg_d = Control_fn X_unknown_instruction"
definition mips_neg_s :: execute_fn where "mips_neg_s = Control_fn X_unknown_instruction"
definition mips_nmadd_d :: execute_fn where "mips_nmadd_d = Control_fn X_unknown_instruction"
definition mips_nmadd_s :: execute_fn where "mips_nmadd_s = Control_fn X_unknown_instruction"
definition mips_nmsub_d :: execute_fn where "mips_nmsub_d = Control_fn X_unknown_instruction"
definition mips_nmsub_s :: execute_fn where "mips_nmsub_s = Control_fn X_unknown_instruction"
definition mips_recip_d :: execute_fn where "mips_recip_d = Control_fn X_unknown_instruction"
definition mips_recip_s :: execute_fn where "mips_recip_s = Control_fn X_unknown_instruction"
definition mips_round_l_d :: execute_fn where "mips_round_l_d = Control_fn X_unknown_instruction"
definition mips_round_l_s :: execute_fn where "mips_round_l_s = Control_fn X_unknown_instruction"
definition mips_round_w_d :: execute_fn where "mips_round_w_d = Control_fn X_unknown_instruction"
definition mips_round_w_s :: execute_fn where "mips_round_w_s = Control_fn X_unknown_instruction"
definition mips_rsqrt_d :: execute_fn where "mips_rsqrt_d = Control_fn X_unknown_instruction"
definition mips_rsqrt_s :: execute_fn where "mips_rsqrt_s = Control_fn X_unknown_instruction"
definition mips_sdc1 :: execute_fn where "mips_sdc1 = Control_fn X_unknown_instruction"
definition mips_sdxc1 :: execute_fn where "mips_sdxc1 = Control_fn X_unknown_instruction"
definition mips_sqrt_d :: execute_fn where "mips_sqrt_d = Control_fn X_unknown_instruction"
definition mips_sqrt_s :: execute_fn where "mips_sqrt_s = Control_fn X_unknown_instruction"
definition mips_sub_d :: execute_fn where "mips_sub_d = Control_fn X_unknown_instruction"
definition mips_sub_s :: execute_fn where "mips_sub_s = Control_fn X_unknown_instruction"
definition mips_swc1 :: execute_fn where "mips_swc1 = Control_fn X_unknown_instruction"
definition mips_swxc1 :: execute_fn where "mips_swxc1 = Control_fn X_unknown_instruction"
definition mips_trunc_l_d :: execute_fn where "mips_trunc_l_d = Control_fn X_unknown_instruction"
definition mips_trunc_l_s :: execute_fn where "mips_trunc_l_s = Control_fn X_unknown_instruction"
definition mips_trunc_w_d :: execute_fn where "mips_trunc_w_d = Control_fn X_unknown_instruction"
definition mips_trunc_w_s :: execute_fn where "mips_trunc_w_s = Control_fn X_unknown_instruction"

section \<open>Entries\<close>

record mips_entry =
  entry_name :: string
  entry_function :: execute_fn
  entry_operation :: operation_type
  entry_mem_size :: uint8
  entry_imm_type :: char
  entry_imm_print_type :: imm
  entry_src :: "mips_reg list"
  entry_dst :: "mips_reg list"
  entry_versions :: uint64

definition entry ::
  "string \<Rightarrow> execute_fn \<Rightarrow> operation_type \<Rightarrow> uint8 \<Rightarrow> char \<Rightarrow> imm \<Rightarrow> mips_reg list \<Rightarrow> mips_reg list
   \<Rightarrow> uint64 \<Rightarrow> mips_entry" where
  "entry n f op sz t p s d v = \<lparr>entry_name = n, entry_function = f, entry_operation = op,
     entry_mem_size = sz, entry_imm_type = t, entry_imm_print_type = p, entry_src = s,
     entry_dst = d, entry_versions = v\<rparr>"

type_synonym mips_table = "(uint32 \<times> mips_entry) list"

section \<open>Tables\<close>

definition isaMapR :: mips_table where
  "isaMapR = [
     (0x0, entry ''sll'' mips_sll OUT_ARITHM 0 (CHR ''S'') Imm_SHIFT [R_RT] [R_RD] MIPS_I_Instr),
     (0x2, entry ''srl'' mips_srl OUT_ARITHM 0 (CHR ''S'') Imm_SHIFT [R_RT] [R_RD] MIPS_I_Instr),
     (0x3, entry ''sra'' mips_sra OUT_ARITHM 0 (CHR ''S'') Imm_SHIFT [R_RT] [R_RD] MIPS_I_Instr),
     (0x4, entry ''sllv'' mips_sllv OUT_ARITHM 0 (CHR ''N'') Imm_NO [R_RT, R_RS] [R_RD] MIPS_I_Instr),
     (0x6, entry ''srlv'' mips_srlv OUT_ARITHM 0 (CHR ''N'') Imm_NO [R_RT, R_RS] [R_RD] MIPS_I_Instr),
     (0x7, entry ''srav'' mips_srav OUT_ARITHM 0 (CHR ''N'') Imm_NO [R_RT, R_RS] [R_RD] MIPS_I_Instr),
     (0x8, entry ''jr'' mips_jr OUT_R_JUMP 0 (CHR ''N'') Imm_NO [R_RS] [R_ZERO] MIPS_I_Instr),
     (0x9, entry ''jalr'' mips_jalr OUT_R_JUMP 0 (CHR ''N'') Imm_NO [R_RS] [R_RD] MIPS_I_Instr),
     (0xA, entry ''movz'' mips_movz OUT_R_CONDM 0 (CHR ''N'') Imm_NO [R_RS, R_RT] [R_RD] (MIPS_IV_Instr OR MIPS_32_Instr)),
     (0xB, entry ''movn'' mips_movn OUT_R_CONDM 0 (CHR ''N'') Imm_NO [R_RS, R_RT] [R_RD] (MIPS_IV_Instr OR MIPS_32_Instr)),
     (0xC, entry ''syscall'' mips_syscall OUT_SYSCALL 0 (CHR ''N'') Imm_NO [] [R_ZERO] MIPS_I_Instr),
     (0xD, entry ''break'' mips_break OUT_BREAK 0 (CHR ''N'') Imm_NO [] [R_ZERO] MIPS_I_Instr),
     (0x10, entry ''mfhi'' mips_mfhi OUT_ARITHM 0 (CHR ''N'') Imm_NO [R_HI] [R_RD] MIPS_I_Instr),
     (0x11, entry ''mthi'' mips_mthi OUT_ARITHM 0 (CHR ''N'') Imm_NO [R_RS] [R_HI] MIPS_I_Instr),
     (0x12, entry ''mflo'' mips_mflo OUT_ARITHM 0 (CHR ''N'') Imm_NO [R_LO] [R_RD] MIPS_I_Instr),
     (0x13, entry ''mtlo'' mips_mtlo OUT_ARITHM 0 (CHR ''N'') Imm_NO [R_RS] [R_LO] MIPS_I_Instr),
     (0x14, entry ''dsllv'' mips_dsllv OUT_ARITHM 0 (CHR ''N'') Imm_NO [R_RT, R_RS] [R_RD] MIPS_III_Instr),
     (0x16, entry ''dsrlv'' mips_dsrlv OUT_ARITHM 0 (CHR ''N'') Imm_NO [R_RT, R_RS] [R_RD] MIPS_III_Instr),
     (0x17, entry ''dsrav'' mips_dsrav OUT_ARITHM 0 (CHR ''N'') Imm_NO [R_RT, R_RS] [R_RD] MIPS_III_Instr),
     (0x18, entry ''mult'' mips_mult OUT_DIVMULT 0 (CHR ''N'') Imm_NO [R_RS, R_RT] [R_LO, R_HI] MIPS_I_Instr),
     (0x19, entry ''multu'' mips_multu OUT_DIVMULT 0 (CHR ''N'') Imm_NO [R_RS, R_RT] [R_LO, R_HI] MIPS_I_Instr),
     (0x1A, entry ''div'' mips_div OUT_DIVMULT 0 (CHR ''N'') Imm_NO [R_RS, R_RT] [R_LO, R_HI] MIPS_I_Instr),
     (0x1B, entry ''divu'' mips_divu OUT_DIVMULT 0 (CHR ''N'') Imm_NO [R_RS, R_RT] [R_LO, R_HI] MIPS_I_Instr),
     (0x1C, entry ''dmult'' mips_dmult OUT_DIVMULT 0 (CHR ''N'') Imm_NO [R_RS, R_RT] [R_LO, R_HI] MIPS_III_Instr),
     (0x1D, entry ''dmultu'' mips_dmultu OUT_DIVMULT 0 (CHR ''N'') Imm_NO [R_RS, R_RT] [R_LO, R_HI] MIPS_III_Instr),
     (0x1E, entry ''ddiv'' mips_ddiv OUT_DIVMULT 0 (CHR ''N'') Imm_NO [R_RS, R_RT] [R_LO, R_HI] MIPS_III_Instr),
     (0x1F, entry ''ddivu'' mips_ddivu OUT_DIVMULT 0 (CHR ''N'') Imm_NO [R_RS, R_RT] [R_LO, R_HI] MIPS_III_Instr),
     (0x20, entry ''add'' mips_add OUT_ARITHM 0 (CHR ''N'') Imm_NO [R_RS, R_RT] [R_RD] MIPS_I_Instr),
     (0x21, entry ''addu'' mips_addu OUT_ARITHM 0 (CHR ''N'') Imm_NO [R_RS, R_RT] [R_RD] MIPS_I_Instr),
     (0x22, entry ''sub'' mips_sub OUT_ARITHM 0 (CHR ''N'') Imm_NO [R_RS, R_RT] [R_RD] MIPS_I_Instr),
     (0x23, entry ''subu'' mips_subu OUT_ARITHM 0 (CHR ''N'') Imm_NO [R_RS, R_RT] [R_RD] MIPS_I_Instr),
     (0x24, entry ''and'' mips_and OUT_ARITHM 0 (CHR ''N'') Imm_NO [R_RS, R_RT] [R_RD] MIPS_I_Instr),
     (0x25, entry ''or'' mips_or OUT_ARITHM 0 (CHR ''N'') Imm_NO [R_RS, R_RT] [R_RD] MIPS_I_Instr),
     (0x26, entry ''xor'' mips_xor OUT_ARITHM 0 (CHR ''N'') Imm_NO [R_RS, R_RT] [R_RD] MIPS_I_Instr),
     (0x27, entry ''nor'' mips_nor OUT_ARITHM 0 (CHR ''N'') Imm_NO [R_RS, R_RT] [R_RD] MIPS_I_Instr),
     (0x2A, entry ''slt'' mips_slt OUT_ARITHM 0 (CHR ''N'') Imm_NO [R_RS, R_RT] [R_RD] MIPS_I_Instr),
     (0x2B, entry ''sltu'' mips_sltu OUT_ARITHM 0 (CHR ''N'') Imm_NO [R_RS, R_RT] [R_RD] MIPS_I_Instr),
     (0x2C, entry ''dadd'' mips_dadd OUT_ARITHM 0 (CHR ''N'') Imm_NO [R_RS, R_RT] [R_RD] MIPS_III_Instr),
     (0x2D, entry ''daddu'' mips_daddu OUT_ARITHM 0 (CHR ''N'') Imm_NO [R_RS, R_RT] [R_RD] MIPS_III_Instr),
     (0x2E, entry ''dsub'' mips_dsub OUT_ARITHM 0 (CHR ''N'') Imm_NO [R_RS, R_RT] [R_RD] MIPS_III_Instr),
     (0x2F, entry ''dsubu'' mips_dsubu OUT_ARITHM 0 (CHR ''N'') Imm_NO [R_RS, R_RT] [R_RD] MIPS_III_Instr),
     (0x30, entry ''tge'' mips_tge OUT_TRAP 0 (CHR ''N'') Imm_NO [R_RS, R_RT] [R_ZERO] MIPS_II_Instr),
     (0x31, entry ''tgeu'' mips_tgeu OUT_TRAP 0 (CHR ''N'') Imm_NO [R_RS, R_RT] [R_ZERO] MIPS_II_Instr),
     (0x32, entry ''tlt'' mips_tlt OUT_TRAP 0 (CHR ''N'') Imm_NO [R_RS, R_RT] [R_ZERO] MIPS_II_Instr),
     (0x33, entry ''tltu'' mips_tltu OUT_TRAP 0 (CHR ''N'') Imm_NO [R_RS, R_RT] [R_ZERO] MIPS_II_Instr),
     (0x34, entry ''teq'' mips_teq OUT_TRAP 0 (CHR ''N'') Imm_NO [R_RS, R_RT] [R_ZERO] MIPS_II_Instr),
     (0x36, entry ''tne'' mips_tne OUT_TRAP 0 (CHR ''N'') Imm_NO [R_RS, R_RT] [R_ZERO] MIPS_II_Instr),
     (0x38, entry ''dsll'' mips_dsll OUT_ARITHM 0 (CHR ''S'') Imm_SHIFT [R_RT] [R_RD] MIPS_III_Instr),
     (0x3A, entry ''dsrl'' mips_dsrl OUT_ARITHM 0 (CHR ''S'') Imm_SHIFT [R_RT] [R_RD] MIPS_III_Instr),
     (0x3B, entry ''dsra'' mips_dsra OUT_ARITHM 0 (CHR ''S'') Imm_SHIFT [R_RT] [R_RD] MIPS_III_Instr),
     (0x3C, entry ''dsll32'' mips_dsll32 OUT_ARITHM 0 (CHR ''S'') Imm_SHIFT [R_RT] [R_RD] MIPS_III_Instr),
     (0x3E, entry ''dsrl32'' mips_dsrl32 OUT_ARITHM 0 (CHR ''S'') Imm_SHIFT [R_RT] [R_RD] MIPS_III_Instr),
     (0x3F, entry ''dsra32'' mips_dsra32 OUT_ARITHM 0 (CHR ''S'') Imm_SHIFT [R_RT] [R_RD] MIPS_III_Instr)]"

definition isaMapRI :: mips_table where
  "isaMapRI = [
     (0x0, entry ''bltz'' mips_bltz OUT_BRANCH 0 (CHR ''I'') Imm_ARITH [R_RS] [R_ZERO] MIPS_I_Instr),
     (0x1, entry ''bgez'' mips_bgez OUT_BRANCH 0 (CHR ''I'') Imm_ARITH [R_RS] [R_ZERO] MIPS_I_Instr),
     (0x2, entry ''bltzl'' mips_bltzl OUT_BRANCH_LIKELY 0 (CHR ''I'') Imm_ARITH [R_RS] [R_ZERO] MIPS_II_Instr),
     (0x3, entry ''bgezl'' mips_bgezl OUT_BRANCH_LIKELY 0 (CHR ''I'') Imm_ARITH [R_RS] [R_ZERO] MIPS_II_Instr),
     (0x8, entry ''tgei'' mips_tgei OUT_TRAP 0 (CHR ''I'') Imm_TRAP [R_RS] [R_ZERO] MIPS_II_Instr),
     (0x9, entry ''tgeiu'' mips_tgeiu OUT_TRAP 0 (CHR ''I'') Imm_TRAP [R_RS] [R_ZERO] MIPS_II_Instr),
     (0xA, entry ''tlti'' mips_tlti OUT_TRAP 0 (CHR ''I'') Imm_TRAP [R_RS] [R_ZERO] MIPS_II_Instr),
     (0xB, entry ''tltiu'' mips_tltiu OUT_TRAP 0 (CHR ''I'') Imm_TRAP [R_RS] [R_ZERO] MIPS_II_Instr),
     (0xC, entry ''teqi'' mips_teqi OUT_TRAP 0 (CHR ''I'') Imm_TRAP [R_RS] [R_ZERO] MIPS_II_Instr),
     (0xE, entry ''tnei'' mips_tnei OUT_TRAP 0 (CHR ''I'') Imm_TRAP [R_RS] [R_ZERO] MIPS_II_Instr),
     (0x10, entry ''bltzal'' mips_bltzal OUT_BRANCH 0 (CHR ''I'') Imm_ARITH [R_RS] [R_RA] MIPS_I_Instr),
     (0x11, entry ''bgezal'' mips_bgezal OUT_BRANCH 0 (CHR ''I'') Imm_ARITH [R_RS] [R_RA] MIPS_I_Instr),
     (0x12, entry ''bltzall'' mips_bltzall OUT_BRANCH_LIKELY 0 (CHR ''I'') Imm_ARITH [R_RS] [R_RA] MIPS_II_Instr),
     (0x13, entry ''bgezall'' mips_bgezall OUT_BRANCH_LIKELY 0 (CHR ''I'') Imm_ARITH [R_RS] [R_RA] MIPS_II_Instr)]"

definition isaMapIJ :: mips_table where
  "isaMapIJ = [
     (0x2, entry ''j'' mips_j OUT_J_JUMP 0 (CHR ''J'') Imm_JUMP [] [R_ZERO] MIPS_I_Instr),
     (0x3, entry ''jal'' mips_jal OUT_J_JUMP 0 (CHR ''J'') Imm_JUMP [] [R_RA] MIPS_I_Instr),
     (0x4, entry ''beq'' mips_beq OUT_BRANCH 0 (CHR ''I'') Imm_ARITH [R_RS, R_RT] [R_ZERO] MIPS_I_Instr),
     (0x5, entry ''bne'' mips_bne OUT_BRANCH 0 (CHR ''I'') Imm_ARITH [R_RS, R_RT] [R_ZERO] MIPS_I_Instr),
     (0x6, entry ''blez'' mips_blez OUT_BRANCH 0 (CHR ''I'') Imm_ARITH [R_RS] [R_ZERO] MIPS_I_Instr),
     (0x7, entry ''bgtz'' mips_bgtz OUT_BRANCH 0 (CHR ''I'') Imm_ARITH [R_RS] [R_ZERO] MIPS_I_Instr),
     (0x8, entry ''addi'' mips_addi OUT_ARITHM 0 (CHR ''I'') Imm_ARITH [R_RS] [R_RT] MIPS_I_Instr),
     (0x9, entry ''addiu'' mips_addiu OUT_ARITHM 0 (CHR ''I'') Imm_ARITH [R_RS] [R_RT] MIPS_I_Instr),
     (0xA, entry ''slti'' mips_slti OUT_ARITHM 0 (CHR ''I'') Imm_ARITH [R_RS] [R_RT] MIPS_I_Instr),
     (0xB, entry ''sltiu'' mips_sltiu OUT_ARITHM 0 (CHR ''I'') Imm_ARITH [R_RS] [R_RT] MIPS_I_Instr),
     (0xC, entry ''andi'' mips_andi OUT_ARITHM 0 (CHR ''L'') Imm_LOGIC [R_RS] [R_RT] MIPS_I_Instr),
     (0xD, entry ''ori'' mips_ori OUT_ARITHM 0 (CHR ''L'') Imm_LOGIC [R_RS] [R_RT] MIPS_I_Instr),
     (0xE, entry ''xori'' mips_xori OUT_ARITHM 0 (CHR ''L'') Imm_LOGIC [R_RS] [R_RT] MIPS_I_Instr),
     (0xF, entry ''lui'' mips_lui OUT_ARITHM 0 (CHR ''I'') Imm_LOGIC [] [R_RT] MIPS_I_Instr),
     (0x14, entry ''beql'' mips_beql OUT_BRANCH_LIKELY 0 (CHR ''I'') Imm_ARITH [R_RS, R_RT] [R_ZERO] MIPS_II_Instr),
     (0x15, entry ''bnel'' mips_bnel OUT_BRANCH_LIKELY 0 (CHR ''I'') Imm_ARITH [R_RS, R_RT] [R_ZERO] MIPS_II_Instr),
     (0x16, entry ''blezl'' mips_blezl OUT_BRANCH_LIKELY 0 (CHR ''I'') Imm_ARITH [R_RS, R_RT] [R_ZERO] MIPS_II_Instr),
     (0x17, entry ''bgtzl'' mips_bgtzl OUT_BRANCH_LIKELY 0 (CHR ''I'') Imm_ARITH [R_RS, R_RT] [R_ZERO] MIPS_II_Instr),
     (0x1A, entry ''ldl'' mips_ldl OUT_LOAD 8 (CHR ''I'') Imm_ADDR [R_RS] [R_RT] MIPS_III_Instr),
     (0x1B, entry ''ldr'' mips_ldr OUT_LOAD 8 (CHR ''I'') Imm_ADDR [R_RS] [R_RT] MIPS_III_Instr),
     (0x18, entry ''daddi'' mips_daddi OUT_ARITHM 0 (CHR ''I'') Imm_ARITH [R_RS] [R_RT] MIPS_III_Instr),
     (0x19, entry ''daddiu'' mips_daddiu OUT_ARITHM 0 (CHR ''I'') Imm_ARITH [R_RS] [R_RT] MIPS_III_Instr),
     (0x20, entry ''lb'' mips_lb OUT_LOAD 1 (CHR ''I'') Imm_ADDR [R_RS] [R_RT] MIPS_I_Instr),
     (0x21, entry ''lh'' mips_lh OUT_LOAD 2 (CHR ''I'') Imm_ADDR [R_RS] [R_RT] MIPS_I_Instr),
     (0x22, entry ''lwl'' mips_lwl OUT_PARTIAL_LOAD 4 (CHR ''I'') Imm_ADDR [R_RS] [R_RT] MIPS_I_Instr),
     (0x23, entry ''lw'' mips_lw OUT_LOAD 4 (CHR ''I'') Imm_ADDR [R_RS] [R_RT] MIPS_I_Instr),
     (0x24, entry ''lbu'' mips_lbu OUT_LOADU 1 (CHR ''I'') Imm_ADDR [R_RS] [R_RT] MIPS_I_Instr),
     (0x25, entry ''lhu'' mips_lhu OUT_LOADU 2 (CHR ''I'') Imm_ADDR [R_RS] [R_RT] MIPS_I_Instr),
     (0x26, entry ''lwr'' mips_lwr OUT_PARTIAL_LOAD 4 (CHR ''I'') Imm_ADDR [R_RS] [R_RT] MIPS_I_Instr),
     (0x27, entry ''lwu'' mips_lwu OUT_LOADU 4 (CHR ''I'') Imm_ADDR [R_RS] [R_RT] MIPS_I_Instr),
     (0x28, entry ''sb'' mips_sb OUT_STORE 1 (CHR ''I'') Imm_ADDR [R_RS, R_RT] [R_ZERO] MIPS_I_Instr),
     (0x29, entry ''sh'' mips_sh OUT_STORE 2 (CHR ''I'') Imm_ADDR [R_RS, R_RT] [R_ZERO] MIPS_I_Instr),
     (0x2A, entry ''swl'' mips_swl OUT_STORE 4 (CHR ''I'') Imm_ADDR [R_RS, R_RT] [R_ZERO] MIPS_I_Instr),
     (0x2B, entry ''sw'' mips_sw OUT_STORE 4 (CHR ''I'') Imm_ADDR [R_RS, R_RT] [R_ZERO] MIPS_I_Instr),
     (0x2C, entry ''sdl'' mips_sdl OUT_STORE 8 (CHR ''I'') Imm_ADDR [R_RS, R_RT] [R_ZERO] MIPS_III_Instr),
     (0x2D, entry ''sdr'' mips_sdr OUT_STORE 8 (CHR ''I'') Imm_ADDR [R_RS, R_RT] [R_ZERO] MIPS_III_Instr),
     (0x2E, entry ''swr'' mips_swr OUT_STORE 4 (CHR ''I'') Imm_ADDR [R_RS, R_RT] [R_ZERO] MIPS_I_Instr),
     (0x30, entry ''ll'' mips_ll OUT_LOAD 2 (CHR ''I'') Imm_ADDR [R_RS] [R_RT] MIPS_I_Instr),
     (0x31, entry ''lwc1'' mips_lwc1 OUT_LOAD 4 (CHR ''I'') Imm_ADDR [R_RS] [R_FT] MIPS_I_Instr),
     (0x35, entry ''ldc1'' mips_ldc1 OUT_LOAD 8 (CHR ''I'') Imm_ADDR [R_RS] [R_FT] MIPS_II_Instr),
     (0x37, entry ''ld'' mips_ld OUT_LOAD 8 (CHR ''I'') Imm_ADDR [R_RS] [R_RT] MIPS_III_Instr),
     (0x38, entry ''sc'' mips_sc OUT_STORE 2 (CHR ''I'') Imm_ADDR [R_RS, R_RT] [R_ZERO] MIPS_I_Instr),
     (0x39, entry ''swc1'' mips_swc1 OUT_STORE 4 (CHR ''I'') Imm_ADDR [R_RS] [R_FT] MIPS_I_Instr),
     (0x3D, entry ''sdc1'' mips_sdc1 OUT_STORE 8 (CHR ''I'') Imm_ADDR [R_RS] [R_FT] MIPS_II_Instr),
     (0x3F, entry ''sd'' mips_sd OUT_STORE 8 (CHR ''I'') Imm_ADDR [R_RS, R_RT] [R_ZERO] MIPS_III_Instr)]"

definition isaMapMIPS32 :: mips_table where
  "isaMapMIPS32 = [
     (0x00, entry ''madd'' mips_madd OUT_R_ACCUM 0 (CHR ''N'') Imm_NO [R_RS, R_RT] [R_LO, R_HI] MIPS_32_Instr),
     (0x01, entry ''maddu'' mips_maddu OUT_R_ACCUM 0 (CHR ''N'') Imm_NO [R_RS, R_RT] [R_LO, R_HI] MIPS_32_Instr),
     (0x02, entry ''mul'' mips_mul OUT_ARITHM 0 (CHR ''N'') Imm_NO [R_RS, R_RT] [R_RD] MIPS_32_Instr),
     (0x04, entry ''msub'' mips_msub OUT_R_SUBTR 0 (CHR ''N'') Imm_NO [R_RS, R_RT] [R_LO, R_HI] MIPS_32_Instr),
     (0x05, entry ''msubu'' mips_msubu OUT_R_SUBTR 0 (CHR ''N'') Imm_NO [R_RS, R_RT] [R_LO, R_HI] MIPS_32_Instr),
     (0x20, entry ''clz'' mips_clz OUT_ARITHM 0 (CHR ''N'') Imm_NO [R_RS] [R_RD] MIPS_32_Instr),
     (0x21, entry ''clo'' mips_clo OUT_ARITHM 0 (CHR ''N'') Imm_NO [R_RS] [R_RD] MIPS_32_Instr),
     (0x24, entry ''dclz'' mips_dclz OUT_ARITHM 0 (CHR ''N'') Imm_NO [R_RS] [R_RD] MIPS_64_Instr),
     (0x25, entry ''dclo'' mips_dclo OUT_ARITHM 0 (CHR ''N'') Imm_NO [R_RS] [R_RD] MIPS_64_Instr)]"

definition isaMapCOP0_rs :: mips_table where
  "isaMapCOP0_rs = [
     (0x00, entry ''mfc0'' mips_mfc0 OUT_ARITHM 0 (CHR ''N'') Imm_NO [R_CP0_RD] [R_RT] MIPS_I_Instr),
     (0x04, entry ''mtc0'' mips_mtc0 OUT_ARITHM 0 (CHR ''N'') Imm_NO [R_RT] [R_CP0_RD] MIPS_I_Instr)]"

definition isaMapCOP0_funct :: mips_table where
  "isaMapCOP0_funct = [
     (0x18, entry ''eret'' mips_eret OUT_R_JUMP 0 (CHR ''N'') Imm_NO [R_EPC, R_SR] [R_SR] MIPS_I_Instr)]"

definition isaMapCOP1 :: mips_table where
  "isaMapCOP1 = [
     (0x00, entry ''mfc1'' mips_mfc1 OUT_FPU 0 (CHR ''N'') Imm_NO [R_FS] [R_RT] MIPS_I_Instr),
     (0x01, entry ''dmfc1'' mips_dmfc1 OUT_FPU 0 (CHR ''N'') Imm_NO [R_FS] [R_RT] MIPS_III_Instr),
     (0x02, entry ''cfc1'' mips_cfc1 OUT_FPU 0 (CHR ''N'') Imm_NO [R_FS] [R_RT] MIPS_I_Instr),
     (0x04, entry ''mtc1'' mips_mtc1 OUT_FPU 0 (CHR ''N'') Imm_NO [R_RT] [R_FS] MIPS_I_Instr),
     (0x05, entry ''dmtc1'' mips_dmtc1 OUT_FPU 0 (CHR ''N'') Imm_NO [R_RT] [R_FS] MIPS_III_Instr),
     (0x06, entry ''ctc1'' mips_ctc1 OUT_FPU 0 (CHR ''N'') Imm_NO [R_RT] [R_FS] MIPS_III_Instr)]"

definition isaMapCOP1_s :: mips_table where
  "isaMapCOP1_s = [
     (0x00, entry ''add.s'' mips_add_s OUT_FPU 0 (CHR ''N'') Imm_NO [R_FS, R_FT] [R_FD] MIPS_I_Instr),
     (0x01, entry ''sub.s'' mips_sub_s OUT_FPU 0 (CHR ''N'') Imm_NO [R_FS, R_FT] [R_FD] MIPS_I_Instr),
     (0x02, entry ''mul.s'' mips_mul_s OUT_FPU 0 (CHR ''N'') Imm_NO [R_FS, R_FT] [R_FD] MIPS_I_Instr),
     (0x03, entry ''div.s'' mips_div_s OUT_FPU 0 (CHR ''N'') Imm_NO [R_FS, R_FT] [R_FD] MIPS_I_Instr),
     (0x04, entry ''sqrt.s'' mips_sqrt_s OUT_FPU 0 (CHR ''N'') Imm_NO [R_FS] [R_FD] MIPS_II_Instr),
     (0x05, entry ''abs.s'' mips_abs_s OUT_FPU 0 (CHR ''N'') Imm_NO [R_FS] [R_FD] MIPS_I_Instr),
     (0x06, entry ''mov.s'' mips_mov_s OUT_FPU 0 (CHR ''N'') Imm_NO [R_FS] [R_FD] MIPS_I_Instr),
     (0x07, entry ''neg.s'' mips_neg_s OUT_FPU 0 (CHR ''N'') Imm_NO [R_FS] [R_FD] MIPS_I_Instr),
     (0x08, entry ''round.l.s'' mips_round_l_s OUT_FPU 0 (CHR ''N'') Imm_NO [R_FS] [R_FD] MIPS_III_Instr),
     (0x09, entry ''trunc.l.s'' mips_trunc_l_s OUT_FPU 0 (CHR ''N'') Imm_NO [R_FS] [R_FD] MIPS_III_Instr),
     (0x0A, entry ''ceil.l.s'' mips_ceil_l_s OUT_FPU 0 (CHR ''N'') Imm_NO [R_FS] [R_FD] MIPS_III_Instr),
     (0x0B, entry ''floor.l.s'' mips_floor_l_s OUT_FPU 0 (CHR ''N'') Imm_NO [R_FS] [R_FD] MIPS_III_Instr),
     (0x0C, entry ''round.w.s'' mips_round_w_s OUT_FPU 0 (CHR ''N'') Imm_NO [R_FS] [R_FD] MIPS_II_Instr),
     (0x0D, entry ''trunc.w.s'' mips_trunc_w_s OUT_FPU 0 (CHR ''N'') Imm_NO [R_FS] [R_FD] MIPS_II_Instr),
     (0x0E, entry ''ceil.w.s'' mips_ceil_w_s OUT_FPU 0 (CHR ''N'') Imm_NO [R_FS] [R_FD] MIPS_II_Instr),
     (0x0F, entry ''floor.w.s'' mips_floor_w_s OUT_FPU 0 (CHR ''N'') Imm_NO [R_FS] [R_FD] MIPS_II_Instr),
     (0x12, entry ''movz.s'' mips_movz_s OUT_FPU 0 (CHR ''N'') Imm_NO [R_FS, R_RT] [R_FD] MIPS_IV_Instr),
     (0x13, entry ''movn.s'' mips_movn_s OUT_FPU 0 (CHR ''N'') Imm_NO [R_FS, R_RT] [R_FD] MIPS_IV_Instr),
     (0x15, entry ''recip.s'' mips_recip_s OUT_FPU 0 (CHR ''N'') Imm_NO [R_FS] [R_FD] MIPS_IV_Instr),
     (0x16, entry ''rsqrt.s'' mips_rsqrt_s OUT_FPU 0 (CHR ''N'') Imm_NO [R_FS] [R_FD] MIPS_IV_Instr),
     (0x21, entry ''cvt.d.s'' mips_cvt_d_s OUT_FPU 0 (CHR ''N'') Imm_NO [R_FS] [R_FD] MIPS_I_Instr),
     (0x24, entry ''cvt.w.s'' mips_cvt_w_s OUT_FPU 0 (CHR ''N'') Imm_NO [R_FS] [R_FD] MIPS_I_Instr),
     (0x25, entry ''cvt.l.s'' mips_cvt_l_s OUT_FPU 0 (CHR ''N'') Imm_NO [R_FS] [R_FD] MIPS_III_Instr),
     (0x30, entry ''c.f.s'' mips_c_f_s OUT_FPU 0 (CHR ''N'') Imm_NO [R_FS, R_FT] [R_FCSR] MIPS_I_Instr),
     (0x31, entry ''c.un.s'' mips_c_un_s OUT_FPU 0 (CHR ''N'') Imm_NO [R_FS, R_FT] [R_FCSR] MIPS_I_Instr),
     (0x32, entry ''c.eq.s'' mips_c_eq_s OUT_FPU 0 (CHR ''N'') Imm_NO [R_FS, R_FT] [R_FCSR] MIPS_I_Instr),
     (0x33, entry ''c.ueq.s'' mips_c_ueq_s OUT_FPU 0 (CHR ''N'') Imm_NO [R_FS, R_FT] [R_FCSR] MIPS_I_Instr),
     (0x34, entry ''c.olt.s'' mips_c_olt_s OUT_FPU 0 (CHR ''N'') Imm_NO [R_FS, R_FT] [R_FCSR] MIPS_I_Instr),
     (0x35, entry ''c.ult.s'' mips_c_ult_s OUT_FPU 0 (CHR ''N'') Imm_NO [R_FS, R_FT] [R_FCSR] MIPS_I_Instr),
     (0x36, entry ''c.ole.s'' mips_c_ole_s OUT_FPU 0 (CHR ''N'') Imm_NO [R_FS, R_FT] [R_FCSR] MIPS_I_Instr),
     (0x37, entry ''c.ule.s'' mips_c_ule_s OUT_FPU 0 (CHR ''N'') Imm_NO [R_FS, R_FT] [R_FCSR] MIPS_I_Instr),
     (0x38, entry ''c.sf.s'' mips_c_sf_s OUT_FPU 0 (CHR ''N'') Imm_NO [R_FS, R_FT] [R_FCSR] MIPS_I_Instr),
     (0x39, entry ''c.ngle.s'' mips_c_ngle_s OUT_FPU 0 (CHR ''N'') Imm_NO [R_FS, R_FT] [R_FCSR] MIPS_I_Instr),
     (0x3A, entry ''c.seq.s'' mips_c_seq_s OUT_FPU 0 (CHR ''N'') Imm_NO [R_FS, R_FT] [R_FCSR] MIPS_I_Instr),
     (0x3B, entry ''c.ngl.s'' mips_c_ngl_s OUT_FPU 0 (CHR ''N'') Imm_NO [R_FS, R_FT] [R_FCSR] MIPS_I_Instr),
     (0x3C, entry ''c.lt.s'' mips_c_lt_s OUT_FPU 0 (CHR ''N'') Imm_NO [R_FS, R_FT] [R_FCSR] MIPS_I_Instr),
     (0x3D, entry ''c.nge.s'' mips_c_nge_s OUT_FPU 0 (CHR ''N'') Imm_NO [R_FS, R_FT] [R_FCSR] MIPS_I_Instr),
     (0x3E, entry ''c.le.s'' mips_c_le_s OUT_FPU 0 (CHR ''N'') Imm_NO [R_FS, R_FT] [R_FCSR] MIPS_I_Instr),
     (0x3F, entry ''c.ngt.s'' mips_c_ngt_s OUT_FPU 0 (CHR ''N'') Imm_NO [R_FS, R_FT] [R_FCSR] MIPS_I_Instr)]"

definition isaMapCOP1_d :: mips_table where
  "isaMapCOP1_d = [
     (0x00, entry ''add.d'' mips_add_d OUT_FPU 0 (CHR ''N'') Imm_NO [R_FS, R_FT] [R_FD] MIPS_I_Instr),
     (0x01, entry ''sub.d'' mips_sub_d OUT_FPU 0 (CHR ''N'') Imm_NO [R_FS, R_FT] [R_FD] MIPS_I_Instr),
     (0x02, entry ''mul.d'' mips_mul_d OUT_FPU 0 (CHR ''N'') Imm_NO [R_FS, R_FT] [R_FD] MIPS_I_Instr),
     (0x03, entry ''div.d'' mips_div_d OUT_FPU 0 (CHR ''N'') Imm_NO [R_FS, R_FT] [R_FD] MIPS_I_Instr),
     (0x04, entry ''sqrt.d'' mips_sqrt_d OUT_FPU 0 (CHR ''N'') Imm_NO [R_FS] [R_FD] MIPS_II_Instr),
     (0x05, entry ''abs.d'' mips_abs_d OUT_FPU 0 (CHR ''N'') Imm_NO [R_FS] [R_FD] MIPS_I_Instr),
     (0x06, entry ''mov.d'' mips_mov_d OUT_FPU 0 (CHR ''N'') Imm_NO [R_FS] [R_FD] MIPS_I_Instr),
     (0x07, entry ''neg.d'' mips_neg_d OUT_FPU 0 (CHR ''N'') Imm_NO [R_FS] [R_FD] MIPS_I_Instr),
     (0x08, entry ''round.l.d'' mips_round_l_d OUT_FPU 0 (CHR ''N'') Imm_NO [R_FS] [R_FD] MIPS_III_Instr),
     (0x09, entry ''trunc.l.d'' mips_trunc_l_d OUT_FPU 0 (CHR ''N'') Imm_NO [R_FS] [R_FD] MIPS_III_Instr),
     (0x0A, entry ''ceil.l.d'' mips_ceil_l_d OUT_FPU 0 (CHR ''N'') Imm_NO [R_FS] [R_FD] MIPS_III_Instr),
     (0x0B, entry ''floor.l.d'' mips_floor_l_d OUT_FPU 0 (CHR ''N'') Imm_NO [R_FS] [R_FD] MIPS_III_Instr),
     (0x0C, entry ''round.w.d'' mips_round_w_d OUT_FPU 0 (CHR ''N'') Imm_NO [R_FS] [R_FD] MIPS_II_Instr),
     (0x0D, entry ''trunc.w.d'' mips_trunc_w_d OUT_FPU 0 (CHR ''N'') Imm_NO [R_FS] [R_FD] MIPS_II_Instr),
     (0x0E, entry ''ceil.w.d'' mips_ceil_w_d OUT_FPU 0 (CHR ''N'') Imm_NO [R_FS] [R_FD] MIPS_II_Instr),
     (0x0F, entry ''floor.w.d'' mips_floor_w_d OUT_FPU 0 (CHR ''N'') Imm_NO [R_FS] [R_FD] MIPS_II_Instr),
     (0x12, entry ''movz.d'' mips_movz_d OUT_FPU 0 (CHR ''N'') Imm_NO [R_FS, R_RT] [R_FD] MIPS_IV_Instr),
     (0x13, entry ''movn.d'' mips_movn_d OUT_FPU 0 (CHR ''N'') Imm_NO [R_FS, R_RT] [R_FD] MIPS_IV_Instr),
     (0x15, entry ''recip.d'' mips_recip_d OUT_FPU 0 (CHR ''N'') Imm_NO [R_FS] [R_FD] MIPS_IV_Instr),
     (0x16, entry ''rsqrt.d'' mips_rsqrt_d OUT_FPU 0 (CHR ''N'') Imm_NO [R_FS] [R_FD] MIPS_IV_Instr),
     (0x20, entry ''cvt.s.d'' mips_cvt_s_d OUT_FPU 0 (CHR ''N'') Imm_NO [R_FS] [R_FD] MIPS_I_Instr),
     (0x24, entry ''cvt.w.d'' mips_cvt_w_d OUT_FPU 0 (CHR ''N'') Imm_NO [R_FS] [R_FD] MIPS_I_Instr),
     (0x25, entry ''cvt.l.d'' mips_cvt_l_d OUT_FPU 0 (CHR ''N'') Imm_NO [R_FS] [R_FD] MIPS_III_Instr),
     (0x30, entry ''c.f.d'' mips_c_f_d OUT_FPU 0 (CHR ''N'') Imm_NO [R_FS, R_FT] [R_FCSR] MIPS_I_Instr),
     (0x31, entry ''c.un.d'' mips_c_un_d OUT_FPU 0 (CHR ''N'') Imm_NO [R_FS, R_FT] [R_FCSR] MIPS_I_Instr),
     (0x32, entry ''c.eq.d'' mips_c_eq_d OUT_FPU 0 (CHR ''N'') Imm_NO [R_FS, R_FT] [R_FCSR] MIPS_I_Instr),
     (0x33, entry ''c.ueq.d'' mips_c_ueq_d OUT_FPU 0 (CHR ''N'') Imm_NO [R_FS, R_FT] [R_FCSR] MIPS_I_Instr),
     (0x34, entry ''c.olt.d'' mips_c_olt_d OUT_FPU 0 (CHR ''N'') Imm_NO [R_FS, R_FT] [R_FCSR] MIPS_I_Instr),
     (0x35, entry ''c.ult.d'' mips_c_ult_d OUT_FPU 0 (CHR ''N'') Imm_NO [R_FS, R_FT] [R_FCSR] MIPS_I_Instr),
     (0x36, entry ''c.ole.d'' mips_c_ole_d OUT_FPU 0 (CHR ''N'') Imm_NO [R_FS, R_FT] [R_FCSR] MIPS_I_Instr),
     (0x37, entry ''c.ule.d'' mips_c_ule_d OUT_FPU 0 (CHR ''N'') Imm_NO [R_FS, R_FT] [R_FCSR] MIPS_I_Instr),
     (0x38, entry ''c.sf.d'' mips_c_sf_d OUT_FPU 0 (CHR ''N'') Imm_NO [R_FS, R_FT] [R_FCSR] MIPS_I_Instr),
     (0x39, entry ''c.ngle.d'' mips_c_ngle_d OUT_FPU 0 (CHR ''N'') Imm_NO [R_FS, R_FT] [R_FCSR] MIPS_I_Instr),
     (0x3A, entry ''c.seq.d'' mips_c_seq_d OUT_FPU 0 (CHR ''N'') Imm_NO [R_FS, R_FT] [R_FCSR] MIPS_I_Instr),
     (0x3B, entry ''c.ngl.d'' mips_c_ngl_d OUT_FPU 0 (CHR ''N'') Imm_NO [R_FS, R_FT] [R_FCSR] MIPS_I_Instr),
     (0x3C, entry ''c.lt.d'' mips_c_lt_d OUT_FPU 0 (CHR ''N'') Imm_NO [R_FS, R_FT] [R_FCSR] MIPS_I_Instr),
     (0x3D, entry ''c.nge.d'' mips_c_nge_d OUT_FPU 0 (CHR ''N'') Imm_NO [R_FS, R_FT] [R_FCSR] MIPS_I_Instr),
     (0x3E, entry ''c.le.d'' mips_c_le_d OUT_FPU 0 (CHR ''N'') Imm_NO [R_FS, R_FT] [R_FCSR] MIPS_I_Instr),
     (0x3F, entry ''c.ngt.d'' mips_c_ngt_d OUT_FPU 0 (CHR ''N'') Imm_NO [R_FS, R_FT] [R_FCSR] MIPS_I_Instr)]"

definition isaMapCOP1_l :: mips_table where
  "isaMapCOP1_l = [
     (0x20, entry ''cvt.s.l'' mips_cvt_s_l OUT_FPU 0 (CHR ''N'') Imm_NO [R_FS] [R_FD] MIPS_III_Instr),
     (0x21, entry ''cvt.d.l'' mips_cvt_d_l OUT_FPU 0 (CHR ''N'') Imm_NO [R_FS] [R_FD] MIPS_III_Instr)]"

definition isaMapCOP1_w :: mips_table where
  "isaMapCOP1_w = [
     (0x20, entry ''cvt.s.w'' mips_cvt_s_w OUT_FPU 0 (CHR ''N'') Imm_NO [R_FS] [R_FD] MIPS_I_Instr),
     (0x21, entry ''cvt.d.w'' mips_cvt_d_w OUT_FPU 0 (CHR ''N'') Imm_NO [R_FS] [R_FD] MIPS_I_Instr)]"

definition isaMapCOP1I :: mips_table where
  "isaMapCOP1I = [
     (0x0, entry ''bc1f'' mips_bc1f OUT_BRANCH 0 (CHR ''I'') Imm_ARITH [R_FCSR] [R_ZERO] MIPS_I_Instr),
     (0x1, entry ''bc1t'' mips_bc1t OUT_BRANCH 0 (CHR ''I'') Imm_ARITH [R_FCSR] [R_ZERO] MIPS_I_Instr),
     (0x2, entry ''bc1fl'' mips_bc1fl OUT_BRANCH 0 (CHR ''I'') Imm_ARITH [R_FCSR] [R_ZERO] MIPS_I_Instr),
     (0x3, entry ''bc1tl'' mips_bc1tl OUT_BRANCH 0 (CHR ''I'') Imm_ARITH [R_FCSR] [R_ZERO] MIPS_I_Instr)]"

definition isaMapCOP1X :: mips_table where
  "isaMapCOP1X = [
     (0x0, entry ''lwxc1'' mips_lwxc1 OUT_LOAD 4 (CHR ''N'') Imm_NO [R_RS, R_RT] [R_FD] MIPS_IV_Instr),
     (0x1, entry ''ldxc1'' mips_ldxc1 OUT_LOAD 8 (CHR ''N'') Imm_NO [R_RS, R_RT] [R_FD] MIPS_IV_Instr),
     (0x8, entry ''swxc1'' mips_swxc1 OUT_STORE 4 (CHR ''N'') Imm_NO [R_RS, R_RT] [R_FD] MIPS_IV_Instr),
     (0x9, entry ''sdxc1'' mips_sdxc1 OUT_STORE 8 (CHR ''N'') Imm_NO [R_RS, R_RT] [R_FD] MIPS_IV_Instr),
     (0x20, entry ''madd.s'' mips_madd_s OUT_FPU 0 (CHR ''N'') Imm_NO [R_FR, R_FS, R_FT] [R_FD] MIPS_IV_Instr),
     (0x21, entry ''madd.d'' mips_madd_d OUT_FPU 0 (CHR ''N'') Imm_NO [R_FR, R_FS, R_FT] [R_FD] MIPS_IV_Instr),
     (0x28, entry ''msub.s'' mips_msub_s OUT_FPU 0 (CHR ''N'') Imm_NO [R_FR, R_FS, R_FT] [R_FD] MIPS_IV_Instr),
     (0x29, entry ''msub.d'' mips_msub_d OUT_FPU 0 (CHR ''N'') Imm_NO [R_FR, R_FS, R_FT] [R_FD] MIPS_IV_Instr),
     (0x30, entry ''nmadd.s'' mips_nmadd_s OUT_FPU 0 (CHR ''N'') Imm_NO [R_FR, R_FS, R_FT] [R_FD] MIPS_IV_Instr),
     (0x31, entry ''nmadd.d'' mips_nmadd_d OUT_FPU 0 (CHR ''N'') Imm_NO [R_FR, R_FS, R_FT] [R_FD] MIPS_IV_Instr),
     (0x38, entry ''nmsub.s'' mips_nmsub_s OUT_FPU 0 (CHR ''N'') Imm_NO [R_FR, R_FS, R_FT] [R_FD] MIPS_IV_Instr),
     (0x39, entry ''nmsub.d'' mips_nmsub_d OUT_FPU 0 (CHR ''N'') Imm_NO [R_FR, R_FS, R_FT] [R_FD] MIPS_IV_Instr)]"

definition isaMapMOVCI :: mips_table where
  "isaMapMOVCI = [
     (0x0, entry ''movf'' mips_movf OUT_FPU 0 (CHR ''N'') Imm_NO [R_RS, R_FCSR] [R_RD] MIPS_IV_Instr),
     (0x1, entry ''movt'' mips_movt OUT_FPU 0 (CHR ''N'') Imm_NO [R_RS, R_FCSR] [R_RD] MIPS_IV_Instr)]"

definition isaMapMOVCF_d :: mips_table where
  "isaMapMOVCF_d = [
     (0x0, entry ''movf.d'' mips_movf_d OUT_FPU 0 (CHR ''N'') Imm_NO [R_FS, R_FCSR] [R_FD] MIPS_IV_Instr),
     (0x1, entry ''movt.d'' mips_movt_d OUT_FPU 0 (CHR ''N'') Imm_NO [R_FS, R_FCSR] [R_FD] MIPS_IV_Instr)]"

definition isaMapMOVCF_s :: mips_table where
  "isaMapMOVCF_s = [
     (0x0, entry ''movf.s'' mips_movf_s OUT_FPU 0 (CHR ''N'') Imm_NO [R_FS, R_FCSR] [R_FD] MIPS_IV_Instr),
     (0x1, entry ''movt.s'' mips_movt_s OUT_FPU 0 (CHR ''N'') Imm_NO [R_FS, R_FCSR] [R_FD] MIPS_IV_Instr)]"

definition all_isa_maps :: "mips_table list" where
  "all_isa_maps =
     [isaMapR, isaMapRI, isaMapMIPS32, isaMapIJ, isaMapCOP0_rs, isaMapCOP0_funct, isaMapCOP1, isaMapCOP1X, isaMapCOP1_s, isaMapCOP1_d, isaMapCOP1_l, isaMapCOP1_w, isaMapCOP1I, isaMapMOVCI, isaMapMOVCF_s, isaMapMOVCF_d]"

lemmas isa_tables =
  isaMapR_def isaMapRI_def isaMapIJ_def isaMapMIPS32_def isaMapCOP0_rs_def
  isaMapCOP0_funct_def isaMapCOP1_def isaMapCOP1_s_def isaMapCOP1_d_def isaMapCOP1_l_def
  isaMapCOP1_w_def isaMapCOP1I_def isaMapCOP1X_def isaMapMOVCI_def isaMapMOVCF_d_def
  isaMapMOVCF_s_def

lemmas mips_executors =
  mips_add_def mips_addi_def mips_addiu_def mips_addu_def mips_and_def mips_andi_def
  mips_beq_def mips_beql_def mips_bgez_def mips_bgezal_def mips_bgezall_def mips_bgezl_def
  mips_bgtz_def mips_bgtzl_def mips_blez_def mips_blezl_def mips_bltz_def mips_bltzal_def
  mips_bltzall_def mips_bltzl_def mips_bne_def mips_bnel_def mips_break_def mips_clo_def
  mips_clz_def mips_dadd_def mips_daddi_def mips_daddiu_def mips_daddu_def mips_dclo_def
  mips_dclz_def mips_dsll_def mips_dsll32_def mips_dsllv_def mips_dsra_def mips_dsra32_def
  mips_dsrav_def mips_dsrl_def mips_dsrl32_def mips_dsrlv_def mips_dsub_def mips_dsubu_def
  mips_eret_def mips_j_def mips_jal_def mips_jalr_def mips_jr_def mips_lb_def mips_lbu_def
  mips_ld_def mips_ldl_def mips_ldr_def mips_lh_def mips_lhu_def mips_ll_def mips_lui_def
  mips_lw_def mips_lwl_def mips_lwr_def mips_lwu_def mips_mfc0_def mips_mfhi_def mips_mflo_def
  mips_movn_def mips_movz_def mips_mtc0_def mips_mthi_def mips_mtlo_def mips_nor_def
  mips_or_def mips_ori_def mips_sb_def mips_sc_def mips_sd_def mips_sdl_def mips_sdr_def
  mips_sh_def mips_sll_def mips_sllv_def mips_slt_def mips_slti_def mips_sltiu_def
  mips_sltu_def mips_sra_def mips_srav_def mips_srl_def mips_srlv_def mips_sub_def
  mips_subu_def mips_sw_def mips_swl_def mips_swr_def mips_syscall_def mips_teq_def
  mips_teqi_def mips_tge_def mips_tgei_def mips_tgeiu_def mips_tgeu_def mips_tlt_def
  mips_tlti_def mips_tltiu_def mips_tltu_def mips_tne_def mips_tnei_def mips_xor_def
  mips_xori_def mips_unknown_def mips_madd_def mips_maddu_def mips_msub_def mips_msubu_def
  mips_dmult_def mips_dmultu_def mips_mul_def mips_mult_def mips_multu_def mips_ddiv_def
  mips_ddivu_def mips_div_def mips_divu_def mips_abs_d_def mips_abs_s_def mips_add_d_def
  mips_add_s_def mips_bc1f_def mips_bc1t_def mips_bc1fl_def mips_bc1tl_def mips_c_f_d_def
  mips_c_f_s_def mips_c_un_d_def mips_c_un_s_def mips_c_eq_d_def mips_c_eq_s_def
  mips_c_ueq_d_def mips_c_ueq_s_def mips_c_olt_d_def mips_c_olt_s_def mips_c_ult_d_def
  mips_c_ult_s_def mips_c_ole_d_def mips_c_ole_s_def mips_c_ule_d_def mips_c_ule_s_def
  mips_c_sf_d_def mips_c_sf_s_def mips_c_ngle_d_def mips_c_ngle_s_def mips_c_seq_d_def
  mips_c_seq_s_def mips_c_ngl_d_def mips_c_ngl_s_def mips_c_lt_d_def mips_c_lt_s_def
  mips_c_nge_d_def mips_c_nge_s_def mips_c_le_d_def mips_c_le_s_def mips_c_ngt_d_def
  mips_c_ngt_s_def mips_ceil_l_d_def mips_ceil_l_s_def mips_ceil_w_d_def mips_ceil_w_s_def
  mips_cfc1_def mips_ctc1_def mips_cvt_d_l_def mips_cvt_d_s_def mips_cvt_d_w_def
  mips_cvt_s_d_def mips_cvt_s_l_def mips_cvt_s_w_def mips_cvt_l_d_def mips_cvt_l_s_def
  mips_cvt_w_d_def mips_cvt_w_s_def mips_div_d_def mips_div_s_def mips_dmfc1_def
  mips_dmtc1_def mips_floor_l_d_def mips_floor_l_s_def mips_floor_w_d_def mips_floor_w_s_def
  mips_ldc1_def mips_lwc1_def mips_ldxc1_def mips_lwxc1_def mips_mfc1_def mips_madd_d_def
  mips_madd_s_def mips_mov_d_def mips_mov_s_def mips_movf_def mips_movf_d_def mips_movf_s_def
  mips_movn_d_def mips_movn_s_def mips_movt_def mips_movt_d_def mips_movt_s_def
  mips_movz_d_def mips_movz_s_def mips_msub_d_def mips_msub_s_def mips_mtc1_def mips_mul_d_def
  mips_mul_s_def mips_neg_d_def mips_neg_s_def mips_nmadd_d_def mips_nmadd_s_def
  mips_nmsub_d_def mips_nmsub_s_def mips_recip_d_def mips_recip_s_def mips_round_l_d_def
  mips_round_l_s_def mips_round_w_d_def mips_round_w_s_def mips_rsqrt_d_def mips_rsqrt_s_def
  mips_sdc1_def mips_sdxc1_def mips_sqrt_d_def mips_sqrt_s_def mips_sub_d_def mips_sub_s_def
  mips_swc1_def mips_swxc1_def mips_trunc_l_d_def mips_trunc_l_s_def mips_trunc_w_d_def
  mips_trunc_w_s_def

definition unknown_entry :: mips_entry where
  "unknown_entry = entry ''Unknown instruction'' mips_unknown OUT_ARITHM 0 (CHR ''N'') Imm_NO [] [R_ZERO] MIPS_I_Instr"

definition instr_nop :: mips_entry where
  "instr_nop = entry ''nop'' X_do_nothing OUT_ARITHM 0 (CHR ''N'') Imm_NO [] [R_ZERO] MIPS_I_Instr"

section \<open>Lookup\<close>

definition table_find :: "mips_table \<Rightarrow> uint32 \<Rightarrow> mips_entry" where
  "table_find table key = (case map_of table key of None \<Rightarrow> unknown_entry | Some e \<Rightarrow> e)"

definition get_opcode_special_entry :: "mips_decoder \<Rightarrow> mips_entry" where
  "get_opcode_special_entry d =
     (if funct d = 0x1 then table_find isaMapMOVCI (ft d) else table_find isaMapR (funct d))"

definition get_COP1_s_entry :: "mips_decoder \<Rightarrow> mips_entry" where
  "get_COP1_s_entry d =
     (if funct d = 0x11 then table_find isaMapMOVCF_s (ft d) else table_find isaMapCOP1_s (funct d))"

definition get_COP1_d_entry :: "mips_decoder \<Rightarrow> mips_entry" where
  "get_COP1_d_entry d =
     (if funct d = 0x11 then table_find isaMapMOVCF_d (ft d) else table_find isaMapCOP1_d (funct d))"

definition get_cp0_entry :: "mips_decoder \<Rightarrow> mips_entry" where
  "get_cp0_entry d =
     (if funct d = 0x0 then table_find isaMapCOP0_rs (rs d) else table_find isaMapCOP0_funct (funct d))"

definition get_cp1_entry :: "mips_decoder \<Rightarrow> mips_entry" where
  "get_cp1_entry d =
     (if fmt d = 0x8 then table_find isaMapCOP1I (ft d)
      else if fmt d = 0x10 then get_COP1_s_entry d
      else if fmt d = 0x11 then get_COP1_d_entry d
      else if fmt d = 0x14 then table_find isaMapCOP1_w (funct d)
      else if fmt d = 0x15 then table_find isaMapCOP1_l (funct d)
      else table_find isaMapCOP1 (fmt d))"

definition get_table_entry :: "uint32 \<Rightarrow> mips_entry" where
  "get_table_entry bytes =
     (let d = mips_instr_decoder bytes
      in if raw_bytes d = 0 then instr_nop
         else if opcode d = 0x0 then get_opcode_special_entry d
         else if opcode d = 0x1 then table_find isaMapRI (rt d)
         else if opcode d = 0x10 then get_cp0_entry d
         else if opcode d = 0x11 then get_cp1_entry d
         else if opcode d = 0x13 then table_find isaMapCOP1X (funct d)
         else if opcode d = 0x1C then table_find isaMapMIPS32 (funct d)
         else table_find isaMapIJ (opcode d))"

text \<open>The lookup by name scans the maps in turn; the names of one map are distinct.\<close>

definition find_by_name :: "mips_table \<Rightarrow> string \<Rightarrow> mips_entry option" where
  "find_by_name table name = map_option snd (find (\<lambda>(k, e). entry_name e = name) table)"

fun find_in_maps :: "mips_table list \<Rightarrow> string \<Rightarrow> mips_entry option" where
  "find_in_maps [] name = None"
| "find_in_maps (t # ts) name =
     (case find_by_name t name of Some e \<Rightarrow> Some e | None \<Rightarrow> find_in_maps ts name)"

definition get_table_entry_by_name :: "string \<Rightarrow> mips_entry" where
  "get_table_entry_by_name name =
     (if name = ''nop'' then instr_nop
      else case find_in_maps all_isa_maps name of Some e \<Rightarrow> e | None \<Rightarrow> unknown_entry)"

end
