(* ===== verification/Riscv_Register.thy ===== *)
theory Riscv_Register
  imports Prelude
begin

text \<open>
  The registers of a RISC-V processor, from simulator/risc_v/riscv_register: the 32 general
  registers of riscv_register.def and then the control and status registers. The list of the
  latter, a name and a number each, comes from the generated header riscv.opcode.gen.h and is
  the parameter \<open>csrs\<close>; the number past the last register stands for no register.
\<close>

datatype riscv_register = RISCVRegister (riscv_num: nat)

type_synonym csr_list = "(string \<times> nat) list"

definition riscv_reg_names :: "string list" where
  "riscv_reg_names =
     [''zero'', ''ra'', ''sp'', ''gp'', ''tp'', ''t0'', ''t1'', ''t2'',
      ''s0'', ''s1'', ''a0'', ''a1'', ''a2'', ''a3'', ''a4'', ''a5'',
      ''a6'', ''a7'', ''s2'', ''s3'', ''s4'', ''s5'', ''s6'', ''s7'',
      ''s8'', ''s9'', ''s10'', ''s11'', ''t3'', ''t4'', ''t5'', ''t6'']"

definition riscv_regTable :: "csr_list \<Rightarrow> string list" where
  "riscv_regTable csrs = riscv_reg_names @ map fst csrs"

definition riscv_MAX_REG :: "csr_list \<Rightarrow> nat" where
  "riscv_MAX_REG csrs = 32 + length csrs"

definition popular_reg_shift :: nat where "popular_reg_shift = 8"

definition riscv_is_zero :: "riscv_register \<Rightarrow> bool" where
  "riscv_is_zero r \<longleftrightarrow> riscv_num r = 0"

definition riscv_from_cpu_index :: "nat \<Rightarrow> riscv_register" where
  "riscv_from_cpu_index n = RISCVRegister n"

definition from_cpu_popular_index :: "nat \<Rightarrow> riscv_register" where
  "from_cpu_popular_index n = RISCVRegister (n + popular_reg_shift)"

text \<open>The hash maps of the control registers, by number and by name; a later entry with the
  same key is not inserted.\<close>

definition try_read :: "('k \<times> 'v) list \<Rightarrow> 'k \<Rightarrow> 'v \<Rightarrow> 'v" where
  "try_read m k bad = (case map_of m k of None \<Rightarrow> bad | Some v \<Rightarrow> v)"

definition get_csr_regnum :: "csr_list \<Rightarrow> nat \<Rightarrow> nat" where
  "get_csr_regnum csrs v =
     try_read (map (\<lambda>k. (snd (csrs ! k), 32 + k)) [0..<length csrs]) v (riscv_MAX_REG csrs)"

definition get_csr_regnum_by_name :: "csr_list \<Rightarrow> string \<Rightarrow> nat" where
  "get_csr_regnum_by_name csrs name =
     try_read (map (\<lambda>k. (fst (csrs ! k), 32 + k)) [0..<length csrs]) name (riscv_MAX_REG csrs)"

definition from_csr_index :: "csr_list \<Rightarrow> nat \<Rightarrow> riscv_register" where
  "from_csr_index csrs n = RISCVRegister (get_csr_regnum csrs n)"

definition from_csr_name :: "csr_list \<Rightarrow> string \<Rightarrow> riscv_register" where
  "from_csr_name csrs name = RISCVRegister (get_csr_regnum_by_name csrs name)"

definition riscv_mips_hi :: "csr_list \<Rightarrow> riscv_register" where
  "riscv_mips_hi csrs = RISCVRegister (riscv_MAX_REG csrs)"

definition riscv_zero :: riscv_register where "riscv_zero = RISCVRegister 0"
definition riscv_return_address :: riscv_register where "riscv_return_address = RISCVRegister 1"

definition riscv_is_valid :: "csr_list \<Rightarrow> riscv_register \<Rightarrow> bool" where
  "riscv_is_valid csrs r \<longleftrightarrow> riscv_num r \<noteq> riscv_MAX_REG csrs"

definition riscv_dump :: "csr_list \<Rightarrow> riscv_register \<Rightarrow> string option" where
  "riscv_dump csrs r =
     (if riscv_num r < length (riscv_regTable csrs) then Some (riscv_regTable csrs ! riscv_num r) else None)"

section \<open>Lookups by number and by name\<close>

lemma length_riscv_regTable: "length (riscv_regTable csrs) = riscv_MAX_REG csrs"
  by (simp add: riscv_regTable_def riscv_MAX_REG_def riscv_reg_names_def)

lemma popular_reg_shift_name: "riscv_reg_names ! popular_reg_shift = ''s0''"
  by (simp add: riscv_reg_names_def popular_reg_shift_def)

text \<open>A key found in the list gives a register of the file, whose entry has the key; a key
  that is not there gives the invalid register.\<close>

lemma try_read_index:
  "try_read (map (\<lambda>k. (f (csrs ! k), 32 + k)) [0..<length csrs]) v bad = n \<Longrightarrow>
    n = bad \<and> v \<notin> f ` set csrs \<or> (\<exists>k < length csrs. n = 32 + k \<and> f (csrs ! k) = v)"
proof -
  let ?m = "map (\<lambda>k. (f (csrs ! k), 32 + k)) [0..<length csrs]"
  assume n: "try_read ?m v bad = n"
  show ?thesis
  proof (cases "map_of ?m v")
    case None
    then have "v \<notin> fst ` set ?m" by (rule map_of_eq_None_iff [THEN iffD1])
    then have "v \<notin> f ` set csrs" by (force simp: in_set_conv_nth)
    with None n show ?thesis by (simp add: try_read_def)
  next
    case (Some x)
    then have "(v, x) \<in> set ?m" by (rule map_of_SomeD)
    with Some n show ?thesis by (auto simp: try_read_def)
  qed
qed

lemma from_csr_index_cases:
  "riscv_is_valid csrs (from_csr_index csrs n) \<longleftrightarrow> n \<in> snd ` set csrs"
  "riscv_num (from_csr_index csrs n) \<le> riscv_MAX_REG csrs"
  using try_read_index [OF refl, of snd csrs n "riscv_MAX_REG csrs"]
  by (auto simp: riscv_is_valid_def from_csr_index_def get_csr_regnum_def riscv_MAX_REG_def)

lemma from_csr_name_cases:
  "riscv_is_valid csrs (from_csr_name csrs n) \<longleftrightarrow> n \<in> fst ` set csrs"
  "riscv_num (from_csr_name csrs n) \<le> riscv_MAX_REG csrs"
  using try_read_index [OF refl, of fst csrs n "riscv_MAX_REG csrs"]
  by (auto simp: riscv_is_valid_def from_csr_name_def get_csr_regnum_by_name_def riscv_MAX_REG_def)

text \<open>The name printed for a control register that was found by name is that name.\<close>

lemma riscv_dump_from_csr_name:
  assumes "n \<in> fst ` set csrs"
  shows "riscv_dump csrs (from_csr_name csrs n) = Some n"
proof -
  have "\<exists>k < length csrs. riscv_num (from_csr_name csrs n) = 32 + k \<and> fst (csrs ! k) = n"
    using try_read_index [OF refl, of fst csrs n "riscv_MAX_REG csrs"] assms
    by (simp add: from_csr_name_def get_csr_regnum_by_name_def)
  then obtain k where "k < length csrs" "riscv_num (from_csr_name csrs n) = 32 + k" "fst (csrs ! k) = n"
    by blast
  moreover have "length riscv_reg_names = 32" by (simp add: riscv_reg_names_def)
  ultimately show ?thesis
    by (simp add: riscv_dump_def riscv_regTable_def nth_append)
qed

end
