(* ===== verification/Register_File.thy ===== *)
theory Register_File
  imports Operation Mips_Register Riscv_Register
begin

text \<open>
  The register file of simulator/func_sim/rf/rf.h, a template over the instruction set. What
  it uses of the register class is the record \<open>register_class\<close>, the two classes of the
  repository being \<open>mips_class\<close> and \<open>riscv_class\<close>; the locale \<open>registers\<close> states what
  the register file relies on, and its lemmas are proved from that. The access
  \<open>array.at\<close> throws past the last register, here \<open>None\<close>.
\<close>

section \<open>Register classes\<close>

record 'r register_class =
  to_rf_index :: "'r \<Rightarrow> nat"
  is_zero :: "'r \<Rightarrow> bool"
  is_lo :: "'r \<Rightarrow> bool"
  hi_register :: 'r
  max_reg :: nat

definition mips_class :: "mips_register register_class" where
  "mips_class = \<lparr>to_rf_index = reg_num, is_zero = mips_is_zero, is_lo = is_mips_lo,
     hi_register = mips_hi, max_reg = MAX_REG\<rparr>"

definition riscv_class :: "csr_list \<Rightarrow> riscv_register register_class" where
  "riscv_class csrs = \<lparr>to_rf_index = riscv_num, is_zero = riscv_is_zero, is_lo = \<lambda>r. False,
     hi_register = riscv_mips_hi csrs, max_reg = riscv_MAX_REG csrs\<rparr>"

section \<open>The register file\<close>

type_synonym 'a rf = "'a word list"

definition new_rf :: "'r register_class \<Rightarrow> 'a::len rf" where
  "new_rf C = replicate (max_reg C) 0"

definition get_value :: "'r register_class \<Rightarrow> 'a::len rf \<Rightarrow> 'r \<Rightarrow> 'a word option" where
  "get_value C rf r = (if to_rf_index C r < length rf then Some (rf ! to_rf_index C r) else None)"

definition set_value :: "'r register_class \<Rightarrow> 'r \<Rightarrow> 'a::len word \<Rightarrow> 'a rf \<Rightarrow> 'a rf option" where
  "set_value C r v rf =
     (if to_rf_index C r < length rf then Some (rf[to_rf_index C r := v]) else None)"

definition rf_read :: "'r register_class \<Rightarrow> 'a::len rf \<Rightarrow> 'r \<Rightarrow> 'a word option" where
  "rf_read C rf r = get_value C rf r"

definition rf_write :: "'r register_class \<Rightarrow> 'r \<Rightarrow> 'a::len word \<Rightarrow> 'a rf \<Rightarrow> 'a rf option" where
  "rf_write C r v rf = (if \<not> is_zero C r then set_value C r v rf else Some rf)"

definition apply_mask :: "'r register_class \<Rightarrow> 'a::len rf \<Rightarrow> 'r \<Rightarrow> 'a word \<Rightarrow> 'a word \<Rightarrow> 'a word option" where
  "apply_mask C rf r v m =
     (case get_value C rf r of None \<Rightarrow> None | Some old \<Rightarrow> Some ((old AND NOT m) OR (v AND m)))"

definition write_masked :: "'r register_class \<Rightarrow> 'r \<Rightarrow> 'a::len word \<Rightarrow> 'a word \<Rightarrow> 'a rf \<Rightarrow> 'a rf option" where
  "write_masked C r v m rf =
     (case apply_mask C rf r v m of None \<Rightarrow> None | Some x \<Rightarrow> rf_write C r x rf)"

text \<open>The accumulating multiplications add to or subtract from LO and HI, 32 bits each.\<close>

definition rf_addition :: "uint32 \<Rightarrow> uint32 \<Rightarrow> 'a::len word \<times> bool" where
  "rf_addition x y = (ucast (x + y), 0xffffffff - x < y)"

definition rf_subtraction :: "uint32 \<Rightarrow> uint32 \<Rightarrow> 'a::len word \<times> bool" where
  "rf_subtraction x y = (ucast (x - y), x < y)"

definition accumulate :: "'r register_class \<Rightarrow> 'a::len rf \<Rightarrow> 'r \<Rightarrow> 'a word \<Rightarrow> int \<Rightarrow> ('a word \<times> bool) option" where
  "accumulate C rf r v acc =
     (if acc = 1 then map_option (\<lambda>old. rf_addition (ucast old) (ucast v)) (get_value C rf r)
      else if acc = - 1 then map_option (\<lambda>old. rf_subtraction (ucast old) (ucast v)) (get_value C rf r)
      else Some (v, False))"

definition carry :: "'r register_class \<Rightarrow> 'a::len word \<Rightarrow> int \<Rightarrow> 'a rf \<Rightarrow> 'a rf option" where
  "carry C m acc rf =
     (case accumulate C rf (hi_register C) 1 acc of None \<Rightarrow> None
      | Some (v, _) \<Rightarrow> write_masked C (hi_register C) v m rf)"

definition write_accumulate ::
  "'r register_class \<Rightarrow> 'r \<Rightarrow> 'a::len word \<Rightarrow> 'a word \<Rightarrow> int \<Rightarrow> 'a rf \<Rightarrow> 'a rf option" where
  "write_accumulate C r v m acc rf =
     (case accumulate C rf r v acc of None \<Rightarrow> None
      | Some (new_val, do_carry) \<Rightarrow>
          (case (if is_lo C r \<and> do_carry then carry C m acc rf else Some rf) of None \<Rightarrow> None
           | Some rf \<Rightarrow> write_masked C r new_val m rf))"

definition read_source ::
  "'r register_class \<Rightarrow> 'a::len rf \<Rightarrow> nat \<Rightarrow> ('a, 'r, 'm) base_instruction_scheme
   \<Rightarrow> ('a, 'r, 'm) base_instruction_scheme option" where
  "read_source C rf k i =
     (if k < length (src i)
      then (case rf_read C rf (src i ! k) of None \<Rightarrow> None | Some v \<Rightarrow> set_v_src v k i)
      else None)"

definition read_sources ::
  "'r register_class \<Rightarrow> 'a::len rf \<Rightarrow> ('a, 'r, 'm) base_instruction_scheme
   \<Rightarrow> ('a, 'r, 'm) base_instruction_scheme option" where
  "read_sources C rf i =
     (case read_source C rf 0 i of None \<Rightarrow> None | Some i \<Rightarrow> read_source C rf 1 i)"

definition write_dst ::
  "'r register_class \<Rightarrow> ('a::len, 'r, 'm) base_instruction_scheme \<Rightarrow> 'a rf \<Rightarrow> 'a rf option" where
  "write_dst C i rf =
     (case write_accumulate C (dst i ! 0) (v_dst i ! 0) (wmask i) (get_accumulation_type i) rf of None \<Rightarrow> None
      | Some rf \<Rightarrow> write_accumulate C (dst i ! 1) (v_dst i ! 1) all_ones (get_accumulation_type i) rf)"

section \<open>What the register file relies on\<close>

definition valid_reg :: "'r register_class \<Rightarrow> 'r \<Rightarrow> bool" where
  "valid_reg C r \<longleftrightarrow> to_rf_index C r < max_reg C"

text \<open>The invariant of the file: it has a slot for every register, and the zero register holds 0.\<close>

definition wf_rf :: "'r register_class \<Rightarrow> 'a::len rf \<Rightarrow> bool" where
  "wf_rf C rf \<longleftrightarrow> length rf = max_reg C \<and> rf ! 0 = 0"

lemmas rf_basic = get_value_def set_value_def rf_read_def rf_write_def apply_mask_def write_masked_def

locale registers =
  fixes C :: "'r register_class"
  assumes zero_index: "is_zero C r \<longleftrightarrow> to_rf_index C r = 0"
    and nonempty: "0 < max_reg C"
    and lo_hi: "is_lo C r \<Longrightarrow> valid_reg C (hi_register C) \<and> to_rf_index C r \<noteq> to_rf_index C (hi_register C)
      \<and> 0 < to_rf_index C r \<and> 0 < to_rf_index C (hi_register C)"
begin

lemma wf_new: "wf_rf C (new_rf C)"
  using nonempty by (simp add: wf_rf_def new_rf_def)

text \<open>Reading and writing registers of the class never throws.\<close>

lemma read_valid: "wf_rf C rf \<Longrightarrow> valid_reg C r \<Longrightarrow> rf_read C rf r = Some (rf ! to_rf_index C r)"
  by (simp add: rf_basic wf_rf_def valid_reg_def)

lemma write_masked_eq:
  assumes "wf_rf C rf" "valid_reg C r"
  shows "write_masked C r v m rf = Some (if to_rf_index C r = 0 then rf
    else rf[to_rf_index C r := (rf ! to_rf_index C r AND NOT m) OR (v AND m)])"
  using assms by (simp add: rf_basic wf_rf_def valid_reg_def zero_index)

lemma wf_update: "wf_rf C rf \<Longrightarrow> 0 < k \<Longrightarrow> wf_rf C (rf[k := v])"
  by (simp add: wf_rf_def)

lemma write_masked_wf:
  assumes "wf_rf C rf" "valid_reg C r"
  shows "\<exists>rf'. write_masked C r v m rf = Some rf' \<and> wf_rf C rf'"
  using assms by (auto simp: write_masked_eq intro: wf_update)

lemma accumulate_valid: "wf_rf C rf \<Longrightarrow> valid_reg C r \<Longrightarrow> \<exists>x b. accumulate C rf r v acc = Some (x, b)"
  by (auto simp: accumulate_def rf_addition_def rf_subtraction_def rf_basic wf_rf_def valid_reg_def)

lemma write_accumulate_wf:
  assumes "wf_rf C rf" "valid_reg C r"
  shows "\<exists>rf'. write_accumulate C r v m acc rf = Some rf' \<and> wf_rf C rf'"
proof -
  obtain x b where a: "accumulate C rf r v acc = Some (x, b)"
    using accumulate_valid [OF assms] by blast
  have "\<exists>rf'. (if is_lo C r \<and> b then carry C m acc rf else Some rf) = Some rf' \<and> wf_rf C rf'"
  proof (cases "is_lo C r \<and> b")
    case True
    then have "valid_reg C (hi_register C)" using lo_hi by blast
    with assms(1) obtain y c where "accumulate C rf (hi_register C) 1 acc = Some (y, c)"
      using accumulate_valid by blast
    with True write_masked_wf [OF assms(1) \<open>valid_reg C (hi_register C)\<close>] show ?thesis
      by (simp add: carry_def)
  qed (use assms(1) in auto)
  then show ?thesis
    using write_masked_wf [OF _ assms(2)] by (auto simp: write_accumulate_def a)
qed

lemma write_dst_wf:
  assumes "wf_rf C rf" "valid_reg C (dst i ! 0)" "valid_reg C (dst i ! 1)"
  shows "\<exists>rf'. write_dst C i rf = Some rf' \<and> wf_rf C rf'"
proof -
  obtain rf0 where "write_accumulate C (dst i ! 0) (v_dst i ! 0) (wmask i) (get_accumulation_type i) rf = Some rf0"
    and "wf_rf C rf0"
    using write_accumulate_wf [OF assms(1,2)] by blast
  then show ?thesis
    using write_accumulate_wf [OF \<open>wf_rf C rf0\<close> assms(3)] by (simp add: write_dst_def)
qed

lemma read_sources_total:
  assumes "wf_rf C rf" "wf_datapath i" "length (src i) = 3" "valid_reg C (src i ! 0)" "valid_reg C (src i ! 1)"
  shows "read_sources C rf i = Some (i\<lparr>v_src :=
    (v_src i)[0 := rf ! to_rf_index C (src i ! 0), 1 := rf ! to_rf_index C (src i ! 1)]\<rparr>)"
  using assms by (simp add: read_sources_def read_source_def read_valid set_v_src_def wf_datapath_def)

text \<open>An instruction that does not accumulate writes its first result through the mask and its
  second whole, and nothing else; the zero register is never written.\<close>

lemma write_dst_plain:
  assumes "wf_rf C rf" "valid_reg C (dst i ! 0)" "valid_reg C (dst i ! 1)" "get_accumulation_type i = 0"
  defines "k0 \<equiv> to_rf_index C (dst i ! 0)" and "k1 \<equiv> to_rf_index C (dst i ! 1)"
  defines "rf0 \<equiv> (if k0 = 0 then rf else rf[k0 := (rf ! k0 AND NOT (wmask i)) OR (v_dst i ! 0 AND wmask i)])"
  shows "write_dst C i rf = Some (if k1 = 0 then rf0 else rf0[k1 := v_dst i ! 1])"
proof -
  have "wf_rf C rf0" using assms(1) by (auto simp: rf0_def intro: wf_update)
  have "write_accumulate C (dst i ! 0) (v_dst i ! 0) (wmask i) 0 rf = Some rf0"
    by (simp add: write_accumulate_def accumulate_def write_masked_eq [OF assms(1,2)] rf0_def k0_def)
  moreover have "write_accumulate C (dst i ! 1) (v_dst i ! 1) all_ones 0 rf0
      = Some (if k1 = 0 then rf0 else rf0[k1 := v_dst i ! 1])"
    by (simp add: write_accumulate_def accumulate_def write_masked_eq [OF \<open>wf_rf C rf0\<close> assms(3)]
        k1_def all_ones_eq del: One_nat_def)
  ultimately show ?thesis using assms(4) by (simp add: write_dst_def)
qed

end

interpretation mips_rf: registers mips_class
  by unfold_locales
    (auto simp: mips_class_def mips_is_zero_def is_mips_lo_def mips_hi_def valid_reg_def mips_reg_nums)

interpretation riscv_rf: registers "riscv_class csrs" for csrs
  by unfold_locales (simp_all add: riscv_class_def riscv_is_zero_def riscv_MAX_REG_def)

section \<open>The 64-bit accumulator\<close>

lemma mod_square:
  fixes a b m :: int
  assumes "0 \<le> a" "a < m"
  shows "(a + m * b) mod (m * m) = a + m * (b mod m)"
proof -
  have "m * (b mod m) \<le> m * (m - 1)" using assms by (intro mult_left_mono) auto
  then have lt: "a + m * (b mod m) < m * m" using assms by (simp add: algebra_simps)
  have ge: "0 \<le> a + m * (b mod m)" using assms by simp
  have "m * b = m * (m * (b div m) + b mod m)" by simp
  then have "a + m * b = (a + m * (b mod m)) + (b div m) * (m * m)"
    by (simp only: distrib_left) (simp add: algebra_simps)
  then have "(a + m * b) mod (m * m) = (a + m * (b mod m)) mod (m * m)"
    by (simp only: mod_mult_self1)
  then show ?thesis using lt ge by simp
qed

definition word_pair :: "uint32 \<Rightarrow> uint32 \<Rightarrow> int" where
  "word_pair l h = uint l + 2 ^ 32 * uint h"

lemma word_pair_mod:
  assumes "uint l + 2 ^ 32 * c = a" "uint h = (b + c) mod 2 ^ 32" "d = a + 2 ^ 32 * b"
  shows "word_pair l h = d mod 2 ^ 64"
  using mod_square [of "uint l" "2 ^ 32" "b + c"] assms(2) uint_lt2p [of l]
  by (simp add: word_pair_def assms(1) [symmetric] assms(3) algebra_simps)

lemma word_pair_add:
  "word_pair (l + p) (h + of_bool (0xffffffff - l < p) + q) = (word_pair l h + word_pair p q) mod 2 ^ 64"
proof -
  have "uint (0xffffffff - l) = 2 ^ 32 - 1 - uint l"
    using uint_lt2p [of l] by (simp add: uint_sub_if')
  then have c: "0xffffffff - l < p \<longleftrightarrow> 2 ^ 32 \<le> uint l + uint p" by (auto simp: word_less_def)
  have "uint (l + p) + 2 ^ 32 * of_bool (0xffffffff - l < p) = uint l + uint p"
    by (auto simp: c uint_plus_if')
  moreover have "uint (h + of_bool (0xffffffff - l < p) + q) = (uint h + uint q + of_bool (0xffffffff - l < p)) mod 2 ^ 32"
    by (cases "0xffffffff - l < p") (simp_all add: uint_word_ariths mod_simps algebra_simps)
  ultimately show ?thesis by (rule word_pair_mod) (simp add: word_pair_def algebra_simps)
qed

lemma word_pair_sub:
  "word_pair (l - p) (h - of_bool (l < p) - q) = (word_pair l h - word_pair p q) mod 2 ^ 64"
proof -
  have "uint (l - p) + 2 ^ 32 * (- of_bool (l < p)) = uint l - uint p"
    by (auto simp: word_less_def uint_sub_if')
  moreover have "uint (h - of_bool (l < p) - q) = (uint h - uint q + (- of_bool (l < p))) mod 2 ^ 32"
    by (cases "l < p") (simp_all add: uint_word_ariths mod_simps algebra_simps)
  ultimately show ?thesis by (rule word_pair_mod) (simp add: word_pair_def algebra_simps)
qed

text \<open>The accumulator of a MIPS register file, and the 64-bit value an instruction carries.\<close>

definition hi_lo :: "'a::len rf \<Rightarrow> int" where
  "hi_lo rf = word_pair (ucast (rf ! MIPS_REG_lo)) (ucast (rf ! MIPS_REG_hi))"

definition result_pair :: "('a::len, 'm) datapath_scheme \<Rightarrow> int" where
  "result_pair i = word_pair (ucast (v_dst i ! 0)) (ucast (v_dst i ! 1))"

lemma mips_lo_hi [simp]:
  "to_rf_index mips_class mips_lo = 33" "to_rf_index mips_class mips_hi = 32"
  "hi_register mips_class = mips_hi" "is_lo mips_class mips_lo" "\<not> is_lo mips_class mips_hi"
  "\<not> is_zero mips_class mips_lo" "\<not> is_zero mips_class mips_hi" "max_reg mips_class = 98"
  by (simp_all add: mips_class_def mips_lo_def mips_hi_def is_mips_lo_def mips_is_zero_def mips_reg_nums)

lemma ucast32 [simp]:
  assumes "32 \<le> LENGTH('a)"
  shows "ucast (ucast (x :: uint32) :: 'a::len word) = x"
  using assms by (auto simp: bit_simps intro!: bit_word_eqI)

lemma write_dst_accumulates:
  fixes i :: "('a::len, mips_register, 'm) base_instruction_scheme"
  assumes "32 \<le> LENGTH('a)" "wf_rf mips_class rf" "dst i = [mips_lo, mips_hi]" "wmask i = all_ones"
    and acc: "get_accumulation_type i = a" "a = 1 \<or> a = - 1"
  shows "\<exists>rf'. write_dst mips_class i rf = Some rf' \<and> hi_lo rf' = (hi_lo rf + a * result_pair i) mod 2 ^ 64
    \<and> (\<forall>k. k \<noteq> 32 \<and> k \<noteq> 33 \<longrightarrow> rf' ! k = rf ! k)"
proof -
  have len: "length rf = 98" using assms(2) by (simp add: wf_rf_def)
  have one: "(ucast (1 :: 'a word) :: uint32) = 1" using assms(1) by (auto simp: bit_simps intro!: bit_word_eqI)
  let ?l = "ucast (rf ! 33) :: uint32" and ?h = "ucast (rf ! 32) :: uint32"
    and ?p = "ucast (v_dst i ! 0) :: uint32" and ?q = "ucast (v_dst i ! 1) :: uint32"
  show ?thesis
  proof (cases "a = 1")
    case True
    let ?c = "0xffffffff - ?l < ?p"
    have "write_dst mips_class i rf = Some (rf[33 := ucast (?l + ?p), 32 := ucast (?h + of_bool ?c + ?q)])"
      using True acc(1) assms(1) len
      by (cases ?c) (simp_all add: write_dst_def write_accumulate_def accumulate_def carry_def
          rf_addition_def rf_basic assms(3,4) all_ones_eq one ucast32 list_update_swap [of 33 32])
    then show ?thesis
      using True len assms(1) word_pair_add [of ?l ?p ?h ?q]
      by (simp add: hi_lo_def result_pair_def mips_reg_nums)
  next
    case False
    with acc have "a = - 1" by simp
    let ?c = "?l < ?p"
    have "write_dst mips_class i rf = Some (rf[33 := ucast (?l - ?p), 32 := ucast (?h - of_bool ?c - ?q)])"
      using \<open>a = - 1\<close> acc(1) assms(1) len
      by (cases ?c) (simp_all add: write_dst_def write_accumulate_def accumulate_def carry_def
          rf_subtraction_def rf_basic assms(3,4) all_ones_eq one ucast32 list_update_swap [of 33 32])
    then show ?thesis
      using \<open>a = - 1\<close> len assms(1) word_pair_sub [of ?l ?p ?h ?q]
      by (simp add: hi_lo_def result_pair_def mips_reg_nums)
  qed
qed

section \<open>Properties\<close>

lemma reg_num_eq: "to_rf_index mips_class r = reg_num r" "r = r' \<longleftrightarrow> reg_num r = reg_num r'"
  by (cases r; cases r'; simp add: mips_class_def)+

text \<open>On a well-formed MIPS register file an instruction with valid destinations always
  completes its write-back, the file stays well-formed with the zero register reading 0, and an
  instruction that does not accumulate changes no register but its two destinations.\<close>

theorem mips_write_dst_safe:
  fixes i :: "('a::len, mips_register, 'm) base_instruction_scheme"
  assumes "wf_rf mips_class rf" "valid_reg mips_class (dst i ! 0)" "valid_reg mips_class (dst i ! 1)"
    "get_accumulation_type i = 0"
  shows "\<exists>rf'. write_dst mips_class i rf = Some rf' \<and> wf_rf mips_class rf'
    \<and> rf_read mips_class rf' mips_zero = Some 0
    \<and> (\<forall>r. r \<notin> {dst i ! 0, dst i ! 1} \<longrightarrow> rf_read mips_class rf' r = rf_read mips_class rf r)"
proof -
  obtain rf' where w: "write_dst mips_class i rf = Some rf'" and wf: "wf_rf mips_class rf'"
    using mips_rf.write_dst_wf [OF assms(1-3)] by blast
  have "rf_read mips_class rf' mips_zero = Some 0"
    using wf by (simp add: rf_basic wf_rf_def mips_class_def mips_zero_def mips_reg_nums)
  moreover have "rf_read mips_class rf' r = rf_read mips_class rf r" if "r \<notin> {dst i ! 0, dst i ! 1}" for r
  proof -
    have "reg_num r \<noteq> reg_num (dst i ! 0)" "reg_num r \<noteq> reg_num (dst i ! 1)"
      using that by (auto simp: reg_num_eq(2))
    then show ?thesis
      using w mips_rf.write_dst_plain [OF assms] by (auto simp: rf_basic reg_num_eq(1) split: if_splits)
  qed
  ultimately show ?thesis using w wf by blast
qed

definition example_mips_instr :: "(32, mips_register) base_instruction" where
  "example_mips_instr = (new_base_instruction 0x100 0x104 X_do_nothing mips_zero)
     \<lparr>v_dst := [0xffffffff, 1], dst := [mips_lo, mips_hi], operation := OUT_R_ACCUM\<rparr>"

lemma example_mips_instr:
  "dst example_mips_instr = [mips_lo, mips_hi]" "wmask example_mips_instr = all_ones"
  "v_dst example_mips_instr = [0xffffffff, 1]" "get_accumulation_type example_mips_instr = 1"
  by (simp_all add: example_mips_instr_def new_base_instruction_def operation.extend_def
      get_accumulation_type_def)

theorem mips_write_dst_safe_witness:
  "\<exists>rf'. write_dst mips_class (example_mips_instr\<lparr>operation := OUT_DIVMULT\<rparr>) (new_rf mips_class) = Some rf'
    \<and> wf_rf mips_class rf'"
  using mips_write_dst_safe [OF mips_rf.wf_new, of "example_mips_instr\<lparr>operation := OUT_DIVMULT\<rparr>"]
  by (auto simp: example_mips_instr valid_reg_def get_accumulation_type_def)

text \<open>the accumulating multiplications. An instruction with destinations LO and HI and a full
  mask adds the 64-bit number formed by its two results to the number held in LO and HI, or
  subtracts it, modulo \<open>2 ^ 64\<close>, the carry or borrow out of LO going into HI; all other
  registers stay. On 64-bit registers the numbers are the low halves.\<close>

theorem madd_msub_accumulate:
  fixes i :: "('a::len, mips_register, 'm) base_instruction_scheme"
  assumes "32 \<le> LENGTH('a)" "wf_rf mips_class rf" "dst i = [mips_lo, mips_hi]" "wmask i = all_ones"
    "operation i = OUT_R_ACCUM \<or> operation i = OUT_R_SUBTR"
  shows "\<exists>rf'. write_dst mips_class i rf = Some rf'
    \<and> hi_lo rf' = (if operation i = OUT_R_ACCUM then hi_lo rf + result_pair i
        else hi_lo rf - result_pair i) mod 2 ^ 64
    \<and> (\<forall>k. k \<noteq> 32 \<and> k \<noteq> 33 \<longrightarrow> rf' ! k = rf ! k)"
  using assms(5) write_dst_accumulates [OF assms(1-4) refl]
  by (auto simp: get_accumulation_type_def)

theorem madd_msub_accumulate_witness:
  "\<exists>rf'. write_dst mips_class example_mips_instr (new_rf mips_class) = Some rf' \<and> hi_lo rf' = 0x1ffffffff"
proof -
  have "hi_lo (new_rf mips_class :: 32 word list) = 0" "result_pair example_mips_instr = 0x1ffffffff"
    by (simp_all add: hi_lo_def result_pair_def word_pair_def new_rf_def mips_reg_nums example_mips_instr)
  moreover have "operation example_mips_instr = OUT_R_ACCUM"
    by (simp add: example_mips_instr_def)
  ultimately show ?thesis
    using madd_msub_accumulate [OF _ mips_rf.wf_new, of example_mips_instr]
    by (auto simp: example_mips_instr)
qed

end
