(* ===== verification/Mips_Instr.thy ===== *)
theory Mips_Instr
  imports Mips_Tables Alu Register_File Endian
begin

text \<open>
  The MIPS instruction, from simulator/mips/mips_instr.h and mips_instr.cpp: decoding a word
  into an instruction with its executor, registers, immediate and target. The constructors
  throw where an entry names more registers than there are or a register that does not decode,
  here \<open>None\<close>. The theorem \<open>mips_decode_total\<close> shows that no word does.
\<close>

section \<open>The instruction\<close>

record (overloaded) 'a mips_instr = "('a::len, mips_register) base_instruction" +
  raw :: uint32
  raw_valid :: bool
  instr_endian :: endian

definition new_mips_instr :: "Addr \<Rightarrow> uint32 \<Rightarrow> bool \<Rightarrow> endian \<Rightarrow> 'a::len mips_instr" where
  "new_mips_instr pc w valid e =
     base_instruction.extend (new_base_instruction pc (pc + 4) X_do_nothing mips_zero)
       \<lparr>raw = w, raw_valid = valid, instr_endian = e\<rparr>"

text \<open>A \<open>bitset\<close> updated at the positions of a list, from position \<open>k\<close> on.\<close>

fun set_bits :: "nat \<Rightarrow> bool list \<Rightarrow> bool list \<Rightarrow> bool list" where
  "set_bits k [] bs = bs"
| "set_bits k (x # xs) bs = set_bits (Suc k) xs (bs[k := x])"

definition init :: "mips_entry \<Rightarrow> mips_version \<Rightarrow> 'a::len mips_instr \<Rightarrow> 'a mips_instr" where
  "init e version i =
     (let i = i\<lparr>imm_print_type := entry_imm_print_type e\<rparr>;
          i = i\<lparr>operation := entry_operation e\<rparr>;
          i = i\<lparr>mem_size := ucast (entry_mem_size e)\<rparr>;
          i = i\<lparr>executor := (if is_supported (entry_versions e) version then entry_function e else mips_unknown)\<rparr>;
          i = i\<lparr>opname := entry_name e\<rparr>;
          i = i\<lparr>print_dst := set_bits 0 (map is_explicit_register (entry_dst e)) (print_dst i)\<rparr>;
          i = i\<lparr>print_src := set_bits 0 (map is_explicit_register (entry_src e)) (print_src i)\<rparr>;
          has_delayed_slot = (is_jump i \<and> version \<noteq> V_mars \<and> version \<noteq> V_mars64
            \<and> (entry_src e = [] \<or> entry_src e ! 0 \<noteq> R_EPC));
          i = i\<lparr>delayed_slots := (if has_delayed_slot then 1 else 0)\<rparr>
      in i\<lparr>new_PC := new_PC i + ucast (delayed_slots i) * 4\<rparr>)"

definition init_target :: "'a::len mips_instr \<Rightarrow> 'a mips_instr" where
  "init_target i =
     (if is_branch i
      then i\<lparr>target := PC i + 4 + push_bit 2 (sign_extension (ucast (v_imm i)) LENGTH('a))\<rparr>
      else if is_direct_jump i
      then i\<lparr>target := (PC i AND 0xf0000000) OR ucast (push_bit 2 (v_imm i))\<rparr>
      else i)"

text \<open>Filling an array of registers; \<open>at\<close> throws past its end.\<close>

fun fill_registers :: "mips_decoder \<Rightarrow> nat \<Rightarrow> mips_reg list \<Rightarrow> mips_register list \<Rightarrow> mips_register list option" where
  "fill_registers d k [] regs = Some regs"
| "fill_registers d k (t # ts) regs =
     (case get_register d t of None \<Rightarrow> None
      | Some r \<Rightarrow> if k < length regs then fill_registers d (Suc k) ts (regs[k := r]) else None)"

definition mips_instr :: "mips_version \<Rightarrow> endian \<Rightarrow> uint32 \<Rightarrow> Addr \<Rightarrow> 'a::len mips_instr option" where
  "mips_instr version e bytes pc =
     (let entry = get_table_entry bytes;
          d = mips_instr_decoder bytes;
          i = init entry version (new_mips_instr pc bytes True e)
      in case fill_registers d 0 (entry_src entry) (src i) of None \<Rightarrow> None
         | Some srcs \<Rightarrow>
       case fill_registers d 0 (entry_dst entry) (dst i) of None \<Rightarrow> None
         | Some dsts \<Rightarrow>
             let i = i\<lparr>src := srcs, dst := dsts\<rparr>;
                 i = i\<lparr>v_imm := get_immediate (entry_imm_type entry) (get_immediate_value d (entry_imm_type entry))\<rparr>
             in Some (init_target i))"

definition mips_instr_by_name ::
  "mips_version \<Rightarrow> string \<Rightarrow> endian \<Rightarrow> uint32 \<Rightarrow> Addr \<Rightarrow> 'a::len mips_instr" where
  "mips_instr_by_name version name e immediate pc =
     (let entry = get_table_entry_by_name name;
          i = init entry version (new_mips_instr pc 0 False e);
          i = i\<lparr>v_imm := get_immediate (entry_imm_type entry) immediate\<rparr>
      in init_target i)"

definition is_same_bytes :: "'a::len mips_instr \<Rightarrow> uint32 \<Rightarrow> bool" where
  "is_same_bytes i bytes \<longleftrightarrow> raw i = bytes"

definition is_same :: "'a::len mips_instr \<Rightarrow> 'a mips_instr \<Rightarrow> bool" where
  "is_same i rhs \<longleftrightarrow> PC i = PC rhs \<and> is_same_bytes i (raw rhs)"

definition is_same_checker :: "'a::len mips_instr \<Rightarrow> 'a mips_instr \<Rightarrow> bool" where
  "is_same_checker i rhs \<longleftrightarrow> is_same i rhs \<and> sequence_id i = sequence_id rhs
     \<and> (mips_is_zero (dst i ! 0) \<or> v_dst i ! 0 = v_dst rhs ! 0)
     \<and> (mips_is_zero (dst i ! 1) \<or> v_dst i ! 1 = v_dst rhs ! 1)"

definition is_nop :: "'a::len mips_instr \<Rightarrow> bool" where
  "is_nop i \<longleftrightarrow> raw i = 0"

definition dump_bytes :: "'a::len mips_instr \<Rightarrow> byte list" where
  "dump_bytes i = unpack_array (instr_endian i) (raw i)"

section \<open>Every entry is well formed\<close>

text \<open>
  What a decoded instruction needs of its entry: registers that decode, few enough for the
  arrays, and a memory size of a power of two for loads and stores and none for the rest.
\<close>

definition wf_entry :: "mips_entry \<Rightarrow> bool" where
  "wf_entry e \<longleftrightarrow> length (entry_src e) \<le> 3 \<and> length (entry_dst e) \<le> 2
     \<and> R_HI_LO \<notin> set (entry_src e) \<union> set (entry_dst e)
     \<and> (entry_mem_size e = 0 \<longleftrightarrow> entry_operation e \<notin> {OUT_LOAD, OUT_LOADU, OUT_PARTIAL_LOAD, OUT_STORE})
     \<and> entry_mem_size e \<in> {0, 1, 2, 4, 8}
     \<and> (entry_operation e \<in> {OUT_R_ACCUM, OUT_R_SUBTR} \<longrightarrow> entry_dst e = [R_LO, R_HI])"

lemma wf_entry_entry:
  "wf_entry (entry n f op sz t p s d v) \<longleftrightarrow> length s \<le> 3 \<and> length d \<le> 2
     \<and> R_HI_LO \<notin> set s \<union> set d
     \<and> (sz = 0 \<longleftrightarrow> op \<notin> {OUT_LOAD, OUT_LOADU, OUT_PARTIAL_LOAD, OUT_STORE})
     \<and> sz \<in> {0, 1, 2, 4, 8} \<and> (op \<in> {OUT_R_ACCUM, OUT_R_SUBTR} \<longrightarrow> d = [R_LO, R_HI])"
  by (simp add: wf_entry_def entry_def)

lemma wf_tables: "\<forall>t \<in> set all_isa_maps. \<forall>(k, e) \<in> set t. wf_entry e"
  by (simp add: all_isa_maps_def isa_tables wf_entry_entry)

lemma unknown_wf [simp]: "wf_entry unknown_entry" "wf_entry instr_nop"
  by (simp_all add: unknown_entry_def instr_nop_def wf_entry_entry)

text \<open>A statement about every entry that a lookup can give.\<close>

lemma table_find_all:
  assumes "\<forall>t \<in> set all_isa_maps. \<forall>(k, e) \<in> set t. P e" "t \<in> set all_isa_maps" "P unknown_entry"
  shows "P (table_find t key)"
proof (cases "map_of t key")
  case (Some e)
  then have "(key, e) \<in> set t" by (rule map_of_SomeD)
  with assms(1,2) Some show ?thesis by (fastforce simp: table_find_def)
qed (use assms(3) in \<open>simp add: table_find_def\<close>)

lemma get_table_entry_all:
  assumes "\<forall>t \<in> set all_isa_maps. \<forall>(k, e) \<in> set t. P e" "P unknown_entry" "P instr_nop"
  shows "P (get_table_entry bytes)"
proof -
  have "P (table_find t key)" if "t \<in> set all_isa_maps" for t key
    using table_find_all [OF assms(1) that assms(2)] .
  then show ?thesis
    using assms(3)
    by (simp add: get_table_entry_def get_opcode_special_entry_def get_COP1_s_entry_def
        get_COP1_d_entry_def get_cp0_entry_def get_cp1_entry_def all_isa_maps_def Let_def)
qed

lemma wf_get_table_entry: "wf_entry (get_table_entry bytes)"
  using wf_tables by (rule get_table_entry_all) simp_all

section \<open>Decoding never fails\<close>

lemma decoded_register_valid:
  assumes "get_register (mips_instr_decoder w) t = Some r"
  shows "valid_reg mips_class r"
proof -
  have b: "unat (take_bit 5 x) < 32" for x :: uint32
    using unat_take_bit [of 5 x] by simp
  have "unat (ucast (take_bit 5 x) :: uint8) < 32" for x :: uint32
  proof -
    have "unat (ucast (take_bit 5 x) :: uint8) = take_bit 8 (unat (take_bit 5 x))"
      by (simp add: unsigned_ucast_eq)
    then show ?thesis using b [of x] by (simp add: take_bit_eq_mod)
  qed
  note b = b this
  have "reg_num r < 98"
    using assms b [of "drop_bit 21 w"] b [of "drop_bit 16 w"] b [of "drop_bit 11 w"] b [of "drop_bit 6 w"]
    by (cases t) (auto simp: mips_registers mips_reg_nums)
  then show ?thesis by (simp add: valid_reg_def mips_class_def MAX_REG_def)
qed

lemma fill_registers_total:
  assumes "k + length ts \<le> length regs" "R_HI_LO \<notin> set ts" "\<forall>r \<in> set regs. valid_reg mips_class r"
  shows "\<exists>regs'. fill_registers (mips_instr_decoder w) k ts regs = Some regs' \<and> length regs' = length regs
    \<and> (\<forall>r \<in> set regs'. valid_reg mips_class r)"
  using assms
proof (induction ts arbitrary: k regs)
  case (Cons t ts)
  then have "t \<noteq> R_HI_LO" by auto
  then obtain r where r: "get_register (mips_instr_decoder w) t = Some r" by (cases t) auto
  then have "\<forall>x \<in> set (regs[k := r]). valid_reg mips_class x"
    using Cons.prems(3) decoded_register_valid [OF r] set_update_subset_insert by fastforce
  moreover have "Suc k + length ts \<le> length (regs[k := r])" "R_HI_LO \<notin> set ts" "k < length regs"
    using Cons.prems(1,2) by auto
  ultimately show ?case using Cons.IH [of "Suc k" "regs[k := r]"] r by simp
qed simp

lemma init_fields [simp]:
  "v_src (init e v i) = v_src i" "v_dst (init e v i) = v_dst i" "src (init e v i) = src i"
  "dst (init e v i) = dst i" "PC (init e v i) = PC i" "raw (init e v i) = raw i"
  "operation (init e v i) = entry_operation e" "mem_size (init e v i) = ucast (entry_mem_size e)"
  "executor (init e v i) = (if is_supported (entry_versions e) v then entry_function e else mips_unknown)"
  "trap (init e v i) = trap i" "complete (init e v i) = complete i" "v_imm (init e v i) = v_imm i"
  "wmask (init e v i) = wmask i"
  by (simp_all add: init_def Let_def)

lemma init_target_fields [simp]:
  "v_src (init_target i) = v_src i" "v_dst (init_target i) = v_dst i" "src (init_target i) = src i"
  "dst (init_target i) = dst i" "PC (init_target i) = PC i" "raw (init_target i) = raw i"
  "operation (init_target i) = operation i" "mem_size (init_target i) = mem_size i"
  "executor (init_target i) = executor i" "trap (init_target i) = trap i" "new_PC (init_target i) = new_PC i"
  "delayed_slots (init_target i) = delayed_slots i" "wmask (init_target i) = wmask i"
  by (simp_all add: init_target_def)

lemma new_mips_instr_fields [simp]:
  "v_src (new_mips_instr pc w b e) = [of_nat NO_VAL32, of_nat NO_VAL32, of_nat NO_VAL32]"
  "v_dst (new_mips_instr pc w b e) = [of_nat NO_VAL32, of_nat NO_VAL32]"
  "src (new_mips_instr pc w b e) = [mips_zero, mips_zero, mips_zero]"
  "dst (new_mips_instr pc w b e) = [mips_zero, mips_zero]"
  "PC (new_mips_instr pc w b e) = pc" "new_PC (new_mips_instr pc w b e) = pc + 4"
  "raw (new_mips_instr pc w b e) = w" "trap (new_mips_instr pc w b e) = NO_TRAP"
  "wmask (new_mips_instr pc w b e) = all_ones" "target (new_mips_instr pc w b e) = of_nat NO_VAL32"
  by (simp_all add: new_mips_instr_def new_base_instruction_def new_operation_def operation.extend_def
      base_instruction.extend_def)

text \<open>The decoder as one equation: the registers decode, and the rest is the entry.\<close>

definition decoded_imm :: "uint32 \<Rightarrow> 'a::len word" where
  "decoded_imm bytes = get_immediate (entry_imm_type (get_table_entry bytes))
     (get_immediate_value (mips_instr_decoder bytes) (entry_imm_type (get_table_entry bytes)))"

lemma mips_instr_Some:
  "\<exists>srcs dsts. length srcs = 3 \<and> length dsts = 2 \<and> (\<forall>r \<in> set srcs \<union> set dsts. valid_reg mips_class r)
    \<and> (entry_dst (get_table_entry bytes) = [R_LO, R_HI] \<longrightarrow> dsts = [mips_lo, mips_hi])
    \<and> mips_instr version e bytes pc = Some (init_target
      ((init (get_table_entry bytes) version (new_mips_instr pc bytes True e))
        \<lparr>src := srcs, dst := dsts, v_imm := decoded_imm bytes\<rparr>))"
proof -
  let ?e = "get_table_entry bytes"
  have z: "valid_reg mips_class mips_zero" by (simp add: valid_reg_def mips_class_def mips_registers mips_reg_nums)
  have "length (entry_src ?e) \<le> 3" "length (entry_dst ?e) \<le> 2"
    "R_HI_LO \<notin> set (entry_src ?e)" "R_HI_LO \<notin> set (entry_dst ?e)"
    using wf_get_table_entry [of bytes] by (simp_all add: wf_entry_def)
  then obtain srcs dsts where "fill_registers (mips_instr_decoder bytes) 0 (entry_src ?e) [mips_zero, mips_zero, mips_zero] = Some srcs"
    "length srcs = 3" "\<forall>r \<in> set srcs. valid_reg mips_class r"
    "fill_registers (mips_instr_decoder bytes) 0 (entry_dst ?e) [mips_zero, mips_zero] = Some dsts"
    "length dsts = 2" "\<forall>r \<in> set dsts. valid_reg mips_class r"
    using fill_registers_total [of 0 "entry_src ?e" "[mips_zero, mips_zero, mips_zero]" bytes]
      fill_registers_total [of 0 "entry_dst ?e" "[mips_zero, mips_zero]" bytes] z by auto
  then show ?thesis
    by (intro exI [of _ srcs] exI [of _ dsts]) (auto simp: mips_instr_def decoded_imm_def Let_def)
qed

text \<open>C39: every 32-bit word decodes, in every version of the instruction set, at either byte order and
  any address: no register number is out of range, so neither reading the sources nor writing
  the results can throw, the arrays have their lengths, and the instruction remembers its word
  and address and has no trap yet.\<close>

theorem mips_decode_total:
  "\<exists>i :: 'a::len mips_instr. mips_instr version e bytes pc = Some i \<and> wf_datapath i
    \<and> length (src i) = 3 \<and> length (dst i) = 2
    \<and> set (src i) \<union> set (dst i) \<subseteq> Collect (valid_reg mips_class)
    \<and> raw i = bytes \<and> PC i = pc \<and> trap i = NO_TRAP \<and> wmask i = all_ones"
  using mips_instr_Some [of bytes version e pc, where 'a = 'a] by (auto simp: wf_datapath_def)

section \<open>Targets and delay slots\<close>

lemma init_jump_fields [simp]:
  "delayed_slots (init e v i) = (if is_jump (init e v i) \<and> v \<noteq> V_mars \<and> v \<noteq> V_mars64
     \<and> (entry_src e = [] \<or> entry_src e ! 0 \<noteq> R_EPC) then 1 else 0)"
  "new_PC (init e v i) = new_PC i + ucast (delayed_slots (init e v i)) * 4"
  by (simp_all add: init_def Let_def operation_predicates)

lemma mips_instr_fields:
  assumes "mips_instr version e bytes pc = Some (i :: 'a::len mips_instr)"
  shows "operation i = entry_operation (get_table_entry bytes)"
    "mem_size i = ucast (entry_mem_size (get_table_entry bytes))"
    "executor i = (if is_supported (entry_versions (get_table_entry bytes)) version
       then entry_function (get_table_entry bytes) else mips_unknown)"
    "v_imm i = decoded_imm bytes" "PC i = pc"
    "delayed_slots i = (if is_jump i \<and> version \<noteq> V_mars \<and> version \<noteq> V_mars64
       \<and> (entry_src (get_table_entry bytes) = [] \<or> entry_src (get_table_entry bytes) ! 0 \<noteq> R_EPC) then 1 else 0)"
    "new_PC i = pc + 4 + ucast (delayed_slots i) * 4"
    "is_branch i \<Longrightarrow> target i = pc + 4 + push_bit 2 (sign_extension (ucast (v_imm i)) LENGTH('a))"
    "is_direct_jump i \<Longrightarrow> target i = (pc AND 0xf0000000) OR ucast (push_bit 2 (v_imm i))"
proof -
  obtain srcs dsts where i: "i = init_target
      ((init (get_table_entry bytes) version (new_mips_instr pc bytes True e))
        \<lparr>src := srcs, dst := dsts, v_imm := decoded_imm bytes\<rparr>)"
    using mips_instr_Some [of bytes version e pc, where 'a = 'a] assms by auto
  have op: "is_jump i = is_jump (init (get_table_entry bytes) version (new_mips_instr pc bytes True e :: 'a mips_instr))"
    by (rule operation_predicates_frame) (simp add: i)
  show "operation i = entry_operation (get_table_entry bytes)"
    "mem_size i = ucast (entry_mem_size (get_table_entry bytes))"
    "executor i = (if is_supported (entry_versions (get_table_entry bytes)) version
       then entry_function (get_table_entry bytes) else mips_unknown)"
    "PC i = pc"
    by (simp_all add: i)
  show "v_imm i = decoded_imm bytes" by (simp add: i init_target_def)
  show d: "delayed_slots i = (if is_jump i \<and> version \<noteq> V_mars \<and> version \<noteq> V_mars64
       \<and> (entry_src (get_table_entry bytes) = [] \<or> entry_src (get_table_entry bytes) ! 0 \<noteq> R_EPC) then 1 else 0)"
    unfolding op by (simp add: i)
  show "new_PC i = pc + 4 + ucast (delayed_slots i) * 4"
    by (simp add: i)
  show "is_branch i \<Longrightarrow> target i = pc + 4 + push_bit 2 (sign_extension (ucast (v_imm i)) LENGTH('a))"
    "is_direct_jump i \<Longrightarrow> target i = (pc AND 0xf0000000) OR ucast (push_bit 2 (v_imm i))"
    by (auto simp: i init_target_def operation_predicates)
qed


lemma branch_imm_type:
  "\<forall>t \<in> set all_isa_maps. \<forall>(k, e) \<in> set t. entry_operation e \<in> {OUT_BRANCH, OUT_BRANCH_LIKELY} \<longrightarrow> entry_imm_type e = CHR ''I''"
  by (simp add: all_isa_maps_def isa_tables entry_def)

lemma branch_offset:
  assumes "16 \<le> LENGTH('a)" "LENGTH('a) \<le> 64"
  shows "sign_extension (ucast (sign_extension (ucast (x :: uint32)) 16 :: 'a::len word) :: Addr) LENGTH('a)
    = word_of_int (signed_take_bit 15 (uint x))"
proof (rule bit_word_eqI)
  fix n assume "n < LENGTH(64)"
  have m: "min (min n (LENGTH('a) - Suc 0)) 15 = min n 15" "min n (LENGTH('a) - Suc 0) < LENGTH('a)"
    "min n 15 < LENGTH('a)" "min n 15 < 32"
    using assms by linarith+
  with \<open>n < LENGTH(64)\<close> assms
  show "bit (sign_extension (ucast (sign_extension (ucast x) 16 :: 'a word) :: Addr) LENGTH('a)) n
      = bit (word_of_int (signed_take_bit 15 (uint x)) :: Addr) n"
    by (simp add: bit_sign_extension bit_ucast_iff bit_word_of_int_iff bit_signed_take_bit_iff bit_uint_iff min.commute)
qed

text \<open>C24: a decoded MIPS jump has one delay slot except on the two MARS versions and in a return from
  exception, and nothing else has any; the address after an instruction is that of the next
  word, or of the one after the delay slot. The target of a branch is the address of the next
  word plus four times the signed 16-bit offset.\<close>
theorem mips_branch_target:
  fixes i :: "'a::len mips_instr"
  assumes "mips_instr version e bytes pc = Some i" "16 \<le> LENGTH('a)" "LENGTH('a) \<le> 64"
  shows "delayed_slots i = (if is_jump i \<and> version \<notin> {V_mars, V_mars64}
       \<and> \<not> (entry_src (get_table_entry bytes) \<noteq> [] \<and> hd (entry_src (get_table_entry bytes)) = R_EPC) then 1 else 0)
    \<and> new_PC i = pc + (if delayed_slots i = 1 then 8 else 4)
    \<and> (is_branch i \<longrightarrow> target i = pc + 4 + 4 * word_of_int (signed_take_bit 15 (uint (take_bit 16 bytes))))"
proof -
  note f = mips_instr_fields [OF assms(1)]
  have "target i = pc + 4 + 4 * word_of_int (signed_take_bit 15 (uint (take_bit 16 bytes)))" if b: "is_branch i"
  proof -
    let ?e = "get_table_entry bytes"
    have "entry_operation e \<in> {OUT_BRANCH, OUT_BRANCH_LIKELY} \<longrightarrow> entry_imm_type e = CHR ''I''"
      if "e = ?e" for e
      unfolding that using branch_imm_type
      by (rule get_table_entry_all) (simp_all add: unknown_entry_def instr_nop_def entry_def)
    then have "entry_imm_type ?e = CHR ''I''"
      using b f(1) by (auto simp: operation_predicates)
    then have "v_imm i = sign_extension (ucast (take_bit 16 bytes)) 16"
      using f(4) by (simp add: decoded_imm_def get_immediate_def get_immediate_value_def)
    then show ?thesis
      using f(8) [OF b] branch_offset [OF assms(2,3)] by (simp add: push_bit_eq_mult mult.commute)
  qed
  then show ?thesis using f(6,7)
    by (cases "entry_src (get_table_entry bytes)") auto
qed


definition example_beq :: uint32 where "example_beq = 0x1022fffe"

lemma get_table_entry_beq: "get_table_entry example_beq = entry ''beq'' mips_beq OUT_BRANCH 0 (CHR ''I'') Imm_ARITH [R_RS, R_RT] [R_ZERO] MIPS_I_Instr"
  by (simp add: get_table_entry_def example_beq_def Let_def table_find_def isaMapIJ_def)

theorem mips_branch_target_witness:
  "\<exists>i :: 32 mips_instr. mips_instr V_32 little example_beq 0x1000 = Some i \<and> target i = 0xffc \<and> new_PC i = 0x1008"
proof -
  obtain i :: "32 mips_instr" where i: "mips_instr V_32 little example_beq 0x1000 = Some i"
    using mips_instr_Some [where 'a = 32] by blast
  then have "operation i = OUT_BRANCH"
    by (simp add: mips_instr_fields(1) get_table_entry_beq entry_def)
  then have "is_branch i" "is_jump i" by (simp_all add: operation_predicates)
  with mips_branch_target [OF i] i show ?thesis
    by (simp add: get_table_entry_beq entry_def) (simp add: example_beq_def)
qed

section \<open>Versions and widths\<close>

lemma supported_masks:
  "is_supported MIPS_64_Instr v \<longleftrightarrow> v \<in> {V_64, V_mars64}"
  "is_supported MIPS_32_Instr v \<longleftrightarrow> v \<in> {V_64, V_mars64, V_32, V_mars}"
  "is_supported MIPS_IV_Instr v \<longleftrightarrow> v \<in> {V_64, V_mars64, V_V, V_IV}"
  "is_supported (MIPS_IV_Instr OR MIPS_32_Instr) v \<longleftrightarrow> v \<in> {V_64, V_mars64, V_V, V_IV, V_32, V_mars}"
  "is_supported MIPS_III_Instr v \<longleftrightarrow> v \<in> {V_64, V_mars64, V_V, V_IV, V_III}"
  "is_supported MIPS_II_Instr v \<longleftrightarrow> v \<noteq> V_I"
  "is_supported MIPS_I_Instr v"
  by (cases v; simp add: mips_masks is_supported_def)+

lemma executor_width_table:
  "\<forall>t \<in> set all_isa_maps. \<forall>(k, e) \<in> set t.
    execute_width (entry_function e) \<le> 32
    \<or> execute_width (entry_function e) = 64 \<and> entry_versions e \<in> {MIPS_III_Instr, MIPS_64_Instr}"
  by (simp add: all_isa_maps_def isa_tables entry_def mips_executors)

lemma width_supported:
  assumes "execute_width f \<le> 32 \<or> execute_width f = 64 \<and> m \<in> {MIPS_III_Instr, MIPS_64_Instr}"
    "is_supported m v"
  shows "execute_width f \<le> register_width v"
proof -
  have "32 \<le> register_width v" by (cases v) simp_all
  moreover have "m \<in> {MIPS_III_Instr, MIPS_64_Instr} \<Longrightarrow> register_width v = 64"
    using assms(2) by (auto simp: supported_masks)
  ultimately show ?thesis using assms(1) by auto
qed

text \<open>C27: a decoded instruction never works at a width its registers do not have: whatever the
  version, its executor is either one of an instruction the version supports, whose width is at
  most the version's register width, or the one that only raises the unknown instruction trap.\<close>

theorem mips_version_gate:
  assumes "mips_instr version e bytes pc = Some i"
  shows "execute_width (executor i) \<le> register_width version
    \<and> (executor i = entry_function (get_table_entry bytes) \<and> is_supported (entry_versions (get_table_entry bytes)) version
      \<or> execute i = i\<lparr>trap := UNKNOWN_INSTRUCTION, complete := True\<rparr>)"
proof -
  have "is_supported (entry_versions (get_table_entry bytes)) version
      \<longrightarrow> execute_width (entry_function (get_table_entry bytes)) \<le> register_width version"
  proof -
    have "execute_width (entry_function (get_table_entry bytes)) \<le> 32
      \<or> execute_width (entry_function (get_table_entry bytes)) = 64
        \<and> entry_versions (get_table_entry bytes) \<in> {MIPS_III_Instr, MIPS_64_Instr}"
      using executor_width_table
      by (rule get_table_entry_all) (simp_all add: unknown_entry_def instr_nop_def entry_def mips_unknown_def)
    then show ?thesis using width_supported by blast
  qed
  then show ?thesis
    by (auto simp: mips_instr_fields(3) [OF assms] mips_unknown_def execute_def unknown_instruction_def Let_def)
qed

theorem mips_version_gate_witness:
  "\<exists>i :: 32 mips_instr. mips_instr V_I little 0x0000003c 0 = Some i
    \<and> execute i = i\<lparr>trap := UNKNOWN_INSTRUCTION, complete := True\<rparr>"
proof -
  obtain i :: "32 mips_instr" where i: "mips_instr V_I little 0x0000003c 0 = Some i"
    using mips_instr_Some [where 'a = 32] by blast
  have "entry_versions (get_table_entry 0x0000003c) = MIPS_III_Instr"
    by (simp add: get_table_entry_def get_opcode_special_entry_def Let_def table_find_def isaMapR_def entry_def)
  with mips_version_gate [OF i] i show ?thesis by (auto simp: supported_masks)
qed

section \<open>Multiply and accumulate, from the word to the registers\<close>

lemma decoded_accumulate:
  assumes "mips_instr version e bytes pc = Some (i :: 'a::len mips_instr)" "operation i \<in> {OUT_R_ACCUM, OUT_R_SUBTR}"
  shows "dst i = [mips_lo, mips_hi]" "wmask i = all_ones" "wf_datapath i"
proof -
  obtain srcs dsts where "length srcs = 3" "entry_dst (get_table_entry bytes) = [R_LO, R_HI] \<longrightarrow> dsts = [mips_lo, mips_hi]"
    and i: "i = init_target
      ((init (get_table_entry bytes) version (new_mips_instr pc bytes True e))
        \<lparr>src := srcs, dst := dsts, v_imm := decoded_imm bytes\<rparr>)"
    using mips_instr_Some [of bytes version e pc, where 'a = 'a] assms(1) by auto
  moreover have "entry_dst (get_table_entry bytes) = [R_LO, R_HI]"
    using wf_get_table_entry [of bytes] assms(2) mips_instr_fields(1) [OF assms(1)] by (auto simp: wf_entry_def)
  ultimately show "dst i = [mips_lo, mips_hi]" "wmask i = all_ones" "wf_datapath i"
    by (simp_all add: wf_datapath_def)
qed

lemma static_eq_mips_fields:
  assumes "static_eq i (k :: 'a::len mips_instr)"
  shows "dst k = dst i" "src k = src i" "raw k = raw i"
  using assms by (auto simp: static_eq_def)

text \<open>C19: \<open>madd\<close> and \<open>msub\<close> end to end on a 32-bit processor: once such a word is decoded, given its
  operands, executed and written back to a well-formed register file, the 64-bit number in LO
  and HI has grown, or shrunk, by the exact signed product of the operands, modulo \<open>2 ^ 64\<close>.\<close>

theorem madd_msub_end_to_end:
  assumes "mips_instr version e bytes pc = Some (i :: 32 mips_instr)" "wf_rf mips_class rf"
    "executor i = mips_madd \<or> executor i = mips_msub" "operation i \<in> {OUT_R_ACCUM, OUT_R_SUBTR}"
  shows "\<exists>rf'. write_dst mips_class (execute (i\<lparr>v_src := [x, y, z]\<rparr>)) rf = Some rf'
    \<and> hi_lo rf' = (if operation i = OUT_R_ACCUM then hi_lo rf + sint x * sint y
        else hi_lo rf - sint x * sint y) mod 2 ^ 64"
proof -
  let ?i = "i\<lparr>v_src := [x, y, z]\<rparr>" and ?k = "execute (i\<lparr>v_src := [x, y, z]\<rparr>)"
  note d = decoded_accumulate [OF assms(1,4)]
  have se: "static_eq ?i ?k" by (rule execute_static)
  have "run_executor (executor i) ?i = mips_multiplication_unit True 32 ?i"
    using assms(3) by (auto simp: mips_madd_def mips_msub_def)
  then have k: "v_dst ?k = v_dst (mips_multiplication_unit True 32 ?i)" "wmask ?k = wmask i"
    by (simp_all add: execute_def Let_def mips_multiplication_unit_def)
  have "length (v_dst i) = 2" using d(3) by (simp add: wf_datapath_def)
  then have "v_dst ?k = [fst (mips_multiplication_s x y), snd (mips_multiplication_s x y)]"
    unfolding k(1) mips_multiplication_unit_def pair_at_width_def Let_def
    by (cases "v_dst i"; cases "tl (v_dst i)") (auto simp: src0_def src1_def)
  moreover have "uint (snd (mips_multiplication_s x y)) * 2 ^ 32 + uint (fst (mips_multiplication_s x y))
      = (sint x * sint y) mod 2 ^ 64"
    using mips_multiplication_s_eq [of x y "fst (mips_multiplication_s x y)" "snd (mips_multiplication_s x y)"] by simp
  ultimately have r: "result_pair ?k = (sint x * sint y) mod 2 ^ 64"
    by (simp add: result_pair_def word_pair_def)
  have "operation ?k = operation i" using static_eqD(6) [OF se] by simp
  moreover have "dst ?k = [mips_lo, mips_hi]" using static_eq_mips_fields(1) [OF se] d(1) by simp
  ultimately show ?thesis
    using write_dst_accumulates [OF _ assms(2) _ _ refl, of ?k] d(2) k(2) assms(4) r
    by (auto simp: get_accumulation_type_def mod_simps)
qed

theorem madd_msub_end_to_end_witness:
  "\<exists>i :: 32 mips_instr. mips_instr V_32 little 0x70220000 0 = Some i
    \<and> (\<exists>rf'. write_dst mips_class (execute (i\<lparr>v_src := [- 3, 5, 0]\<rparr>)) (new_rf mips_class) = Some rf'
      \<and> hi_lo rf' = 2 ^ 64 - 15)"
proof -
  obtain i :: "32 mips_instr" where i: "mips_instr V_32 little 0x70220000 0 = Some i"
    using mips_instr_Some [where 'a = 32] by blast
  have e: "get_table_entry 0x70220000 = entry ''madd'' mips_madd OUT_R_ACCUM 0 (CHR ''N'') Imm_NO [R_RS, R_RT] [R_LO, R_HI] MIPS_32_Instr"
    by (simp add: get_table_entry_def Let_def table_find_def isaMapMIPS32_def)
  have "executor i = mips_madd" "operation i = OUT_R_ACCUM"
    using mips_instr_fields(1,3) [OF i] by (simp_all add: e entry_def supported_masks)
  moreover have "hi_lo (new_rf mips_class :: 32 word list) = 0"
    by (simp add: hi_lo_def word_pair_def new_rf_def mips_reg_nums)
  ultimately show ?thesis
    using madd_msub_end_to_end [OF i mips_rf.wf_new, of "- 3" 5 0] i by auto
qed

end
