(* ===== verification/Riscv_Decode.thy ===== *)
theory Riscv_Decode
  imports Alu_Primitives Riscv_Register
begin

text \<open>
  The fields, immediates and registers of a RISC-V instruction word, from
  simulator/risc_v/riscv_decoder.h. The kind of an immediate is a character, for the compressed
  instructions one of the named codes of \<open>ImmediateType\<close>. A failing assertion is \<open>None\<close>.
\<close>

section \<open>Kinds of registers and immediates\<close>

datatype riscv_reg =
    S_RS1 | S_RS2 | S_RS2_CMP | S_RD | S_RS1_3BIT | S_RS2_3BIT | S_RD_3BIT | S_CSR | S_SEPC | S_MEPC
  | S_ZERO | S_SP | S_RA

definition C_LWSP :: char where "C_LWSP = CHR 0x21"
definition C_LDSP :: char where "C_LDSP = CHR 0x22"
definition C_LQSP :: char where "C_LQSP = CHR 0x23"
definition C_SWSP :: char where "C_SWSP = CHR 0x24"
definition C_SDSP :: char where "C_SDSP = CHR 0x25"
definition C_SQSP :: char where "C_SQSP = CHR 0x26"
definition C_LW :: char where "C_LW = CHR 0x27"
definition C_LD :: char where "C_LD = CHR 0x28"
definition C_LQ :: char where "C_LQ = CHR 0x29"
definition C_I :: char where "C_I = CHR 0x2A"
definition C_J :: char where "C_J = CHR 0x2B"
definition C_S :: char where "C_S = CHR 0x2D"
definition C_B :: char where "C_B = CHR 0x2E"
definition C_ADDI4SPN :: char where "C_ADDI4SPN = CHR 0x2F"
definition C_ADDI16SP :: char where "C_ADDI16SP = CHR 0x30"

lemmas immediate_types =
  C_LWSP_def C_LDSP_def C_LQSP_def C_SWSP_def C_SDSP_def C_SQSP_def C_LW_def C_LD_def C_LQ_def C_I_def C_J_def C_S_def C_B_def C_ADDI4SPN_def C_ADDI16SP_def

section \<open>Fields\<close>

definition riscv_mask :: "uint32 \<Rightarrow> uint32 \<Rightarrow> uint32" where
  "riscv_mask bytes msk = drop_bit (count_trailing_zeroes 32 msk) (bytes AND msk)"

record riscv_decoder =
  rv_bytes :: uint32
  rv_sz :: uint32
  I_imm :: uint32
  S_imm4_0 :: uint32
  S_imm11_5 :: uint32
  B_imm11 :: uint32
  B_imm4_1 :: uint32
  B_imm10_5 :: uint32
  B_imm12 :: uint32
  U_imm :: uint32
  J_imm19_12 :: uint32
  J_imm11 :: uint32
  J_imm10_1 :: uint32
  J_imm20 :: uint32
  csr_imm :: uint32
  CI_imm_1 :: uint32
  CI_imm_2 :: uint32
  CSS_imm :: uint32
  CIW_imm :: uint32
  CL_imm_1 :: uint32
  CL_imm_2 :: uint32
  CJ_imm :: uint32

definition riscv_instr_decoder :: "uint32 \<Rightarrow> riscv_decoder" where
  "riscv_instr_decoder w =
     \<lparr>rv_bytes = riscv_mask w 0b11111111111111111111111111111111,
      rv_sz = riscv_mask w 0b00000000000000000000000000000011,
      I_imm = riscv_mask w 0b11111111111100000000000000000000,
      S_imm4_0 = riscv_mask w 0b00000000000000000000111110000000,
      S_imm11_5 = riscv_mask w 0b11111110000000000000000000000000,
      B_imm11 = riscv_mask w 0b00000000000000000000000010000000,
      B_imm4_1 = riscv_mask w 0b00000000000000000000111100000000,
      B_imm10_5 = riscv_mask w 0b01111110000000000000000000000000,
      B_imm12 = riscv_mask w 0b10000000000000000000000000000000,
      U_imm = riscv_mask w 0b11111111111111111111000000000000,
      J_imm19_12 = riscv_mask w 0b00000000000011111111000000000000,
      J_imm11 = riscv_mask w 0b00000000000100000000000000000000,
      J_imm10_1 = riscv_mask w 0b01111111111000000000000000000000,
      J_imm20 = riscv_mask w 0b10000000000000000000000000000000,
      csr_imm = riscv_mask w 0b00000000000011111000000000000000,
      CI_imm_1 = riscv_mask w 0b0001000000000000,
      CI_imm_2 = riscv_mask w 0b0000000001111100,
      CSS_imm = riscv_mask w 0b0001111110000000,
      CIW_imm = riscv_mask w 0b0001111111100000,
      CL_imm_1 = riscv_mask w 0b0001110000000000,
      CL_imm_2 = riscv_mask w 0b0000000001100000,
      CJ_imm = riscv_mask w 0b0001111111111100\<rparr>"

section \<open>Immediates\<close>

definition get_B_immediate :: "riscv_decoder \<Rightarrow> uint32" where
  "get_B_immediate d =
     push_bit 1 (B_imm4_1 d)
     OR push_bit 5 (B_imm10_5 d)
     OR push_bit 11 (B_imm11 d)
     OR push_bit 12 (B_imm12 d)"

definition get_J_immediate :: "riscv_decoder \<Rightarrow> uint32" where
  "get_J_immediate d =
     push_bit 1 (J_imm10_1 d)
     OR push_bit 11 (J_imm11 d)
     OR push_bit 12 (J_imm19_12 d)
     OR push_bit 20 (J_imm20 d)"

definition get_C_LWSP_immediate :: "riscv_decoder \<Rightarrow> uint32" where
  "get_C_LWSP_immediate d =
     push_bit 5 (riscv_mask (CI_imm_1 d) 0b1)
     OR push_bit 2 (riscv_mask (CI_imm_2 d) 0b11100)
     OR push_bit 6 (riscv_mask (CI_imm_2 d) 0b00011)"

definition get_C_LDSP_immediate :: "riscv_decoder \<Rightarrow> uint32" where
  "get_C_LDSP_immediate d =
     push_bit 5 (riscv_mask (CI_imm_1 d) 0b1)
     OR push_bit 3 (riscv_mask (CI_imm_2 d) 0b11000)
     OR push_bit 6 (riscv_mask (CI_imm_2 d) 0b00111)"

definition get_C_LQSP_immediate :: "riscv_decoder \<Rightarrow> uint32" where
  "get_C_LQSP_immediate d =
     push_bit 5 (riscv_mask (CI_imm_1 d) 0b1)
     OR push_bit 4 (riscv_mask (CI_imm_2 d) 0b10000)
     OR push_bit 6 (riscv_mask (CI_imm_2 d) 0b01111)"

definition get_C_SWSP_immediate :: "riscv_decoder \<Rightarrow> uint32" where
  "get_C_SWSP_immediate d =
     push_bit 2 (riscv_mask (CSS_imm d) 0b111100)
     OR push_bit 6 (riscv_mask (CSS_imm d) 0b000011)"

definition get_C_SDSP_immediate :: "riscv_decoder \<Rightarrow> uint32" where
  "get_C_SDSP_immediate d =
     push_bit 3 (riscv_mask (CSS_imm d) 0b111000)
     OR push_bit 6 (riscv_mask (CSS_imm d) 0b000111)"

definition get_C_SQSP_immediate :: "riscv_decoder \<Rightarrow> uint32" where
  "get_C_SQSP_immediate d =
     push_bit 4 (riscv_mask (CSS_imm d) 0b110000)
     OR push_bit 6 (riscv_mask (CSS_imm d) 0b001111)"

definition get_C_LW_immediate :: "riscv_decoder \<Rightarrow> uint32" where
  "get_C_LW_immediate d =
     push_bit 2 (riscv_mask (CL_imm_2 d) 0b10)
     OR push_bit 6 (riscv_mask (CL_imm_2 d) 0b01)
     OR push_bit 3 (riscv_mask (CL_imm_1 d) 0b111)"

definition get_C_LD_immediate :: "riscv_decoder \<Rightarrow> uint32" where
  "get_C_LD_immediate d =
     push_bit 3 (riscv_mask (CL_imm_1 d) 0b111)
     OR push_bit 6 (riscv_mask (CL_imm_2 d) 0b11)"

definition get_C_LQ_immediate :: "riscv_decoder \<Rightarrow> uint32" where
  "get_C_LQ_immediate d =
     push_bit 4 (riscv_mask (CL_imm_1 d) 0b110)
     OR push_bit 8 (riscv_mask (CL_imm_1 d) 0b001)
     OR push_bit 6 (riscv_mask (CL_imm_2 d) 0b11)"

definition get_C_I_immediate :: "riscv_decoder \<Rightarrow> uint32" where
  "get_C_I_immediate d =
     push_bit 5 (riscv_mask (CI_imm_1 d) 0b1)
     OR (riscv_mask (CI_imm_2 d) 0b11111)"

definition get_C_J_immediate :: "riscv_decoder \<Rightarrow> uint32" where
  "get_C_J_immediate d =
     push_bit 11 (riscv_mask (CJ_imm d) 0b10000000000)
     OR push_bit 4 (riscv_mask (CJ_imm d) 0b01000000000)
     OR push_bit 8 (riscv_mask (CJ_imm d) 0b00110000000)
     OR push_bit 10 (riscv_mask (CJ_imm d) 0b00001000000)
     OR push_bit 6 (riscv_mask (CJ_imm d) 0b00000100000)
     OR push_bit 7 (riscv_mask (CJ_imm d) 0b00000010000)
     OR push_bit 1 (riscv_mask (CJ_imm d) 0b00000001110)
     OR push_bit 5 (riscv_mask (CJ_imm d) 0b00000000001)"

definition get_C_B_immediate :: "riscv_decoder \<Rightarrow> uint32" where
  "get_C_B_immediate d =
     push_bit 8 (riscv_mask (CL_imm_1 d) 0b100)
     OR push_bit 3 (riscv_mask (CL_imm_1 d) 0b011)
     OR push_bit 6 (riscv_mask (CI_imm_2 d) 0b11000)
     OR push_bit 1 (riscv_mask (CI_imm_2 d) 0b00110)
     OR push_bit 5 (riscv_mask (CI_imm_2 d) 0b00001)"

definition get_C_ADDI4SPN_immediate :: "riscv_decoder \<Rightarrow> uint32" where
  "get_C_ADDI4SPN_immediate d =
     push_bit 4 (riscv_mask (CIW_imm d) 0b11000000)
     OR push_bit 6 (riscv_mask (CIW_imm d) 0b00111100)
     OR push_bit 2 (riscv_mask (CIW_imm d) 0b00000010)
     OR push_bit 3 (riscv_mask (CIW_imm d) 0b00000001)"

definition get_C_ADDI16SP_immediate :: "riscv_decoder \<Rightarrow> uint32" where
  "get_C_ADDI16SP_immediate d =
     push_bit 9 (riscv_mask (CI_imm_1 d) 0b1)
     OR push_bit 4 (riscv_mask (CI_imm_2 d) 0b10000)
     OR push_bit 6 (riscv_mask (CI_imm_2 d) 0b01000)
     OR push_bit 7 (riscv_mask (CI_imm_2 d) 0b00110)
     OR push_bit 5 (riscv_mask (CI_imm_2 d) 0b00001)"

definition get_compressed_immediate_value :: "riscv_decoder \<Rightarrow> char \<Rightarrow> uint32 option" where
  "get_compressed_immediate_value d t =
     (if t = C_LWSP then Some (get_C_LWSP_immediate d)
      else if t = C_LDSP then Some (get_C_LDSP_immediate d)
      else if t = C_LQSP then Some (get_C_LQSP_immediate d)
      else if t = C_SWSP then Some (get_C_SWSP_immediate d)
      else if t = C_SDSP then Some (get_C_SDSP_immediate d)
      else if t = C_SQSP then Some (get_C_SQSP_immediate d)
      else if t = C_LW then Some (get_C_LW_immediate d)
      else if t = C_LD then Some (get_C_LD_immediate d)
      else if t = C_LQ then Some (get_C_LQ_immediate d)
      else if t = C_J then Some (get_C_J_immediate d)
      else if t = C_B then Some (get_C_B_immediate d)
      else if t = C_ADDI4SPN then Some (get_C_ADDI4SPN_immediate d)
      else if t = C_ADDI16SP then Some (get_C_ADDI16SP_immediate d)
      else if t = C_S \<or> t = C_I then Some (get_C_I_immediate d)
      else None)"

definition riscv_immediate_value :: "riscv_decoder \<Rightarrow> char \<Rightarrow> uint32 option" where
  "riscv_immediate_value d t =
     (if t = CHR ''I'' then Some (I_imm d)
      else if t = CHR ''5'' then Some (I_imm d AND bitmask 5)
      else if t = CHR ''6'' then Some (I_imm d AND bitmask 6)
      else if t = CHR ''7'' then Some (I_imm d AND bitmask 7)
      else if t = CHR ''B'' then Some (get_B_immediate d)
      else if t = CHR ''S'' then Some (S_imm4_0 d OR push_bit 5 (S_imm11_5 d))
      else if t = CHR ''U'' then Some (U_imm d)
      else if t = CHR ''J'' then Some (get_J_immediate d)
      else if t = CHR ''C'' then Some (csr_imm d)
      else if t = CHR '' '' then Some 0
      else get_compressed_immediate_value d t)"

definition riscv_immediate :: "char \<Rightarrow> uint32 \<Rightarrow> 'a::len word" where
  "riscv_immediate t v =
     (if t = CHR ''5'' \<or> t = CHR ''6'' \<or> t = CHR ''7''
      then ucast v AND bitmask (log_bitwidth LENGTH('a))
      else if t = CHR ''I'' \<or> t = CHR ''B'' \<or> t = CHR ''S'' then sign_extension (ucast v) 12
      else if t = CHR ''U'' \<or> t = CHR ''J'' then sign_extension (ucast v) 20
      else if t = C_I then sign_extension (ucast v) 6
      else if t = C_J then sign_extension (ucast v) 12
      else if t = C_B then sign_extension (ucast v) 9
      else if t = C_ADDI16SP then sign_extension (ucast v) 10
      else ucast v)"

section \<open>Registers\<close>

text \<open>The array of registers that the constructor fills, as a function of its index.\<close>

fun riscv_get_register :: "csr_list \<Rightarrow> uint32 \<Rightarrow> riscv_reg \<Rightarrow> riscv_register" where
  "riscv_get_register csrs w S_ZERO = riscv_zero"
| "riscv_get_register csrs w S_SP = riscv_from_cpu_index 2"
| "riscv_get_register csrs w S_RA = riscv_from_cpu_index 1"
| "riscv_get_register csrs w S_SEPC = from_csr_index csrs 0x141"
| "riscv_get_register csrs w S_MEPC = from_csr_index csrs 0x341"
| "riscv_get_register csrs w S_RD = riscv_from_cpu_index (unat (riscv_mask w 0b00000000000000000000111110000000))"
| "riscv_get_register csrs w S_RS1 = riscv_from_cpu_index (unat (riscv_mask w 0b00000000000011111000000000000000))"
| "riscv_get_register csrs w S_RS2 = riscv_from_cpu_index (unat (riscv_mask w 0b00000001111100000000000000000000))"
| "riscv_get_register csrs w S_CSR = from_csr_index csrs (unat (riscv_mask w 0b11111111111100000000000000000000))"
| "riscv_get_register csrs w S_RS2_CMP = riscv_from_cpu_index (unat (riscv_mask w 0b0000000001111100))"
| "riscv_get_register csrs w S_RD_3BIT = from_cpu_popular_index (unat (riscv_mask w 0b0000000000011100))"
| "riscv_get_register csrs w S_RS1_3BIT = from_cpu_popular_index (unat (riscv_mask w 0b0000001110000000))"
| "riscv_get_register csrs w S_RS2_3BIT = from_cpu_popular_index (unat (riscv_mask w 0b0000000000011100))"

section \<open>The masks select contiguous fields\<close>

text \<open>A mask of adjacent bits selects them.\<close>

lemma riscv_mask_field:
  assumes "0 < n" "k + n \<le> 32"
  shows "riscv_mask w (push_bit k (mask n)) = take_bit n (drop_bit k w)"
proof -
  have "count_trailing_zeroes 32 (push_bit k (mask n) :: uint32) = k"
    using count_trailing_zeroes_field [where 'a = 32, OF assms(1)] assms(2) by simp
  then show ?thesis
    using assms(2) by (auto simp: riscv_mask_def bit_simps intro!: bit_word_eqI)
qed

lemma field_of_mask:
  "m = push_bit k (mask n) \<Longrightarrow> 0 < n \<and> k + n \<le> 32 \<Longrightarrow> riscv_mask w m = take_bit n (drop_bit k w)"
  using riscv_mask_field by simp

lemma riscv_fields [simp]:
  "rv_bytes (riscv_instr_decoder w) = w"
  "rv_sz (riscv_instr_decoder w) = take_bit 2 w"
  "I_imm (riscv_instr_decoder w) = take_bit 12 (drop_bit 20 w)"
  "S_imm4_0 (riscv_instr_decoder w) = take_bit 5 (drop_bit 7 w)"
  "S_imm11_5 (riscv_instr_decoder w) = take_bit 7 (drop_bit 25 w)"
  "B_imm11 (riscv_instr_decoder w) = take_bit 1 (drop_bit 7 w)"
  "B_imm4_1 (riscv_instr_decoder w) = take_bit 4 (drop_bit 8 w)"
  "B_imm10_5 (riscv_instr_decoder w) = take_bit 6 (drop_bit 25 w)"
  "B_imm12 (riscv_instr_decoder w) = take_bit 1 (drop_bit 31 w)"
  "U_imm (riscv_instr_decoder w) = take_bit 20 (drop_bit 12 w)"
  "J_imm19_12 (riscv_instr_decoder w) = take_bit 8 (drop_bit 12 w)"
  "J_imm11 (riscv_instr_decoder w) = take_bit 1 (drop_bit 20 w)"
  "J_imm10_1 (riscv_instr_decoder w) = take_bit 10 (drop_bit 21 w)"
  "J_imm20 (riscv_instr_decoder w) = take_bit 1 (drop_bit 31 w)"
  "csr_imm (riscv_instr_decoder w) = take_bit 5 (drop_bit 15 w)"
  "CI_imm_1 (riscv_instr_decoder w) = take_bit 1 (drop_bit 12 w)"
  "CI_imm_2 (riscv_instr_decoder w) = take_bit 5 (drop_bit 2 w)"
  "CSS_imm (riscv_instr_decoder w) = take_bit 6 (drop_bit 7 w)"
  "CIW_imm (riscv_instr_decoder w) = take_bit 8 (drop_bit 5 w)"
  "CL_imm_1 (riscv_instr_decoder w) = take_bit 3 (drop_bit 10 w)"
  "CL_imm_2 (riscv_instr_decoder w) = take_bit 2 (drop_bit 5 w)"
  "CJ_imm (riscv_instr_decoder w) = take_bit 11 (drop_bit 2 w)"
  unfolding riscv_instr_decoder_def riscv_decoder.simps
  subgoal by (subst field_of_mask [of _ 0 32]) (simp_all add: mask_eq_exp_minus_1 take_bit_word_eq_self)
  subgoal by (subst field_of_mask [of _ 0 2]) (simp_all add: mask_eq_exp_minus_1)
  by (rule field_of_mask; simp add: mask_eq_exp_minus_1 push_bit_eq_mult)+

section \<open>The layouts of the instruction set manual\<close>

text \<open>
  The reference: for every kind of immediate, the runs of its bits, as the first bit in the
  immediate, the first bit in the instruction word and the number of bits.
\<close>

definition imm_layout :: "(char \<times> (nat \<times> nat \<times> nat) list) list" where
  "imm_layout =
     [(CHR ''I'', [(0, 20, 12)]), (CHR ''5'', [(0, 20, 5)]), (CHR ''6'', [(0, 20, 6)]),
      (CHR ''7'', [(0, 20, 7)]), (CHR ''S'', [(0, 7, 5), (5, 25, 7)]),
      (CHR ''B'', [(12, 31, 1), (5, 25, 6), (1, 8, 4), (11, 7, 1)]),
      (CHR ''U'', [(0, 12, 20)]),
      (CHR ''J'', [(20, 31, 1), (1, 21, 10), (11, 20, 1), (12, 12, 8)]),
      (CHR ''C'', [(0, 15, 5)]), (CHR '' '', []),
      (C_LWSP, [(5, 12, 1), (2, 4, 3), (6, 2, 2)]),
      (C_LDSP, [(5, 12, 1), (3, 5, 2), (6, 2, 3)]),
      (C_LQSP, [(5, 12, 1), (4, 6, 1), (6, 2, 4)]),
      (C_SWSP, [(2, 9, 4), (6, 7, 2)]),
      (C_SDSP, [(3, 10, 3), (6, 7, 3)]),
      (C_SQSP, [(4, 11, 2), (6, 7, 4)]),
      (C_LW, [(3, 10, 3), (2, 6, 1), (6, 5, 1)]),
      (C_LD, [(3, 10, 3), (6, 5, 2)]),
      (C_LQ, [(4, 11, 2), (8, 10, 1), (6, 5, 2)]),
      (C_J, [(11, 12, 1), (4, 11, 1), (8, 9, 2), (10, 8, 1), (6, 7, 1), (7, 6, 1), (1, 3, 3), (5, 2, 1)]),
      (C_B, [(8, 12, 1), (3, 10, 2), (6, 5, 2), (1, 3, 2), (5, 2, 1)]),
      (C_ADDI4SPN, [(4, 11, 2), (6, 7, 4), (2, 6, 1), (3, 5, 1)]),
      (C_ADDI16SP, [(9, 12, 1), (4, 6, 1), (6, 5, 1), (7, 3, 2), (5, 2, 1)]),
      (C_I, [(5, 12, 1), (0, 2, 5)]), (C_S, [(5, 12, 1), (0, 2, 5)])]"

fun assemble :: "(nat \<times> nat \<times> nat) list \<Rightarrow> uint32 \<Rightarrow> uint32" where
  "assemble [] w = 0"
| "assemble ((n, k, len) # l) w = push_bit n (take_bit len (drop_bit k w)) OR assemble l w"

text \<open>A field of a field is a field.\<close>

lemma field_of_field:
  "a + b \<le> c \<Longrightarrow> take_bit a (drop_bit b (take_bit c (w :: 'a::len word))) = take_bit a (drop_bit b w)"
  by (rule bit_word_eqI) (auto simp: bit_simps)

lemma mask_of_field:
  "riscv_mask w 0b1 = take_bit 1 (drop_bit 0 w)" "riscv_mask w 0b11100 = take_bit 3 (drop_bit 2 w)"
  "riscv_mask w 0b11 = take_bit 2 (drop_bit 0 w)" "riscv_mask w 0b11000 = take_bit 2 (drop_bit 3 w)"
  "riscv_mask w 0b111 = take_bit 3 (drop_bit 0 w)" "riscv_mask w 0b10000 = take_bit 1 (drop_bit 4 w)"
  "riscv_mask w 0b1111 = take_bit 4 (drop_bit 0 w)" "riscv_mask w 0b111100 = take_bit 4 (drop_bit 2 w)"
  "riscv_mask w 0b111000 = take_bit 3 (drop_bit 3 w)" "riscv_mask w 0b110000 = take_bit 2 (drop_bit 4 w)"
  "riscv_mask w 0b10 = take_bit 1 (drop_bit 1 w)" "riscv_mask w 0b110 = take_bit 2 (drop_bit 1 w)"
  "riscv_mask w 0b11111 = take_bit 5 (drop_bit 0 w)" "riscv_mask w 0b10000000000 = take_bit 1 (drop_bit 10 w)"
  "riscv_mask w 0b1000000000 = take_bit 1 (drop_bit 9 w)" "riscv_mask w 0b110000000 = take_bit 2 (drop_bit 7 w)"
  "riscv_mask w 0b1000000 = take_bit 1 (drop_bit 6 w)" "riscv_mask w 0b100000 = take_bit 1 (drop_bit 5 w)"
  "riscv_mask w 0b1110 = take_bit 3 (drop_bit 1 w)" "riscv_mask w 0b100 = take_bit 1 (drop_bit 2 w)"
  "riscv_mask w 0b11000000 = take_bit 2 (drop_bit 6 w)" "riscv_mask w 0b1000 = take_bit 1 (drop_bit 3 w)"
  by (rule field_of_mask; simp add: mask_eq_exp_minus_1 push_bit_eq_mult)+

lemma immediate_value_layout:
  "list_all (\<lambda>(t, l). riscv_immediate_value (riscv_instr_decoder w) t = Some (assemble l w)) imm_layout"
proof -
  note defs = get_B_immediate_def get_J_immediate_def get_C_LWSP_immediate_def get_C_LDSP_immediate_def
    get_C_LQSP_immediate_def get_C_SWSP_immediate_def get_C_SDSP_immediate_def get_C_SQSP_immediate_def
    get_C_LW_immediate_def get_C_LD_immediate_def get_C_LQ_immediate_def get_C_I_immediate_def
    get_C_J_immediate_def get_C_B_immediate_def get_C_ADDI4SPN_immediate_def get_C_ADDI16SP_immediate_def
  show ?thesis
    by (simp add: imm_layout_def riscv_immediate_value_def get_compressed_immediate_value_def immediate_types
          bitmask_eq_mask take_bit_eq_mask [symmetric] del: take_bit_of_Suc_0)
      (simp only: defs riscv_fields mask_of_field field_of_field drop_bit_drop_bit drop_bit_0 id_apply
        take_bit_take_bit min_def arith_simps rel_simps if_True if_False one_plus_numeral refl simp_thms,
        simp add: or.assoc or.commute or.left_commute)
qed

text \<open>C32: Every immediate of the RISC-V decoder, compressed or not, is the arrangement of the bits of
  the instruction word that the instruction set manual draws for its format.\<close>
theorem riscv_immediate_layout:
  "list_all (\<lambda>(t, l). riscv_immediate_value (riscv_instr_decoder w) t = Some (assemble l w)) imm_layout"
  by (rule immediate_value_layout)

end
