(* ===== verification/Riscv_Tables.thy ===== *)
theory Riscv_Tables
  imports Riscv_Decode Operation
begin

text \<open>
  The instruction table of simulator/risc_v/riscv_instr.cpp: the executor of every instruction,
  under the name it has there, and the list of entries. The match and mask words of an
  instruction come from the header riscv.opcode.gen.h, which is generated from the
  riscv-opcodes project when the simulator is built; they are the parameter \<open>opcodes\<close>, a function
  of the instruction's name. Executors and the table depend on the width of the registers, \<open>w\<close>.
\<close>

section \<open>Executors\<close>

definition do_nothing :: execute_fn where "do_nothing = Control_fn X_unknown_instruction"
definition execute_lui :: execute_fn where "execute_lui = Arith_fn (X_upper_immediate 12)"
definition execute_auipc :: execute_fn where "execute_auipc = Arith_fn X_auipc"
definition execute_jal :: execute_fn where "execute_jal = Control_fn (X_jump_and_link J_j)"
definition execute_jalr :: execute_fn where "execute_jalr = Control_fn (X_jump_and_link J_riscv_jr)"
definition execute_beq :: execute_fn where "execute_beq = Control_fn (X_branch P_eq)"
definition execute_bne :: execute_fn where "execute_bne = Control_fn (X_branch P_ne)"
definition execute_blt :: execute_fn where "execute_blt = Control_fn (X_branch P_lt)"
definition execute_bge :: execute_fn where "execute_bge = Control_fn (X_branch P_ge)"
definition execute_bltu :: execute_fn where "execute_bltu = Control_fn (X_branch P_ltu)"
definition execute_bgeu :: execute_fn where "execute_bgeu = Control_fn (X_branch P_geu)"
definition execute_load :: execute_fn where "execute_load = Address_fn X_addr"
definition execute_store :: execute_fn where "execute_store = Address_fn X_store_addr"
definition execute_addi :: "nat \<Rightarrow> execute_fn" where "execute_addi w = Arith_fn (X_riscv_addition_imm w)"
definition execute_addiw :: execute_fn where "execute_addiw = Arith_fn (X_riscv_addition_imm 32)"
definition execute_addid :: execute_fn where "execute_addid = Arith_fn (X_riscv_addition_imm 64)"
definition execute_slti :: execute_fn where "execute_slti = Logic_fn (X_set P_lti)"
definition execute_sltiu :: execute_fn where "execute_sltiu = Logic_fn (X_set P_ltiu)"
definition execute_xori :: execute_fn where "execute_xori = Logic_fn X_xori"
definition execute_ori :: execute_fn where "execute_ori = Logic_fn X_ori"
definition execute_andi :: execute_fn where "execute_andi = Logic_fn X_andi"
definition execute_slli :: "nat \<Rightarrow> execute_fn" where "execute_slli w = Shift_fn (X_sll w)"
definition execute_slliw :: execute_fn where "execute_slliw = Shift_fn (X_sll 32)"
definition execute_sllid :: execute_fn where "execute_sllid = Shift_fn (X_sll 64)"
definition execute_srli :: "nat \<Rightarrow> execute_fn" where "execute_srli w = Shift_fn (X_srl w)"
definition execute_srliw :: execute_fn where "execute_srliw = Shift_fn (X_srl 32)"
definition execute_srlid :: execute_fn where "execute_srlid = Shift_fn (X_srl 64)"
definition execute_srai :: "nat \<Rightarrow> execute_fn" where "execute_srai w = Shift_fn (X_sra w)"
definition execute_sraiw :: execute_fn where "execute_sraiw = Shift_fn (X_sra 32)"
definition execute_sraid :: execute_fn where "execute_sraid = Shift_fn (X_sra 64)"
definition execute_add :: "nat \<Rightarrow> execute_fn" where "execute_add w = Arith_fn (X_riscv_addition w)"
definition execute_addw :: execute_fn where "execute_addw = Arith_fn (X_riscv_addition 32)"
definition execute_sub :: "nat \<Rightarrow> execute_fn" where "execute_sub w = Arith_fn (X_riscv_subtraction w)"
definition execute_subw :: execute_fn where "execute_subw = Arith_fn (X_riscv_subtraction 32)"
definition execute_sll :: "nat \<Rightarrow> execute_fn" where "execute_sll w = Shift_fn (X_sllv w)"
definition execute_sllw :: execute_fn where "execute_sllw = Shift_fn (X_sllv 32)"
definition execute_slt :: execute_fn where "execute_slt = Logic_fn (X_set P_lt)"
definition execute_sltu :: execute_fn where "execute_sltu = Logic_fn (X_set P_ltu)"
definition execute_xor :: execute_fn where "execute_xor = Logic_fn X_xorv"
definition execute_srl :: "nat \<Rightarrow> execute_fn" where "execute_srl w = Shift_fn (X_srlv w)"
definition execute_srlw :: execute_fn where "execute_srlw = Shift_fn (X_srlv 32)"
definition execute_sra :: "nat \<Rightarrow> execute_fn" where "execute_sra w = Shift_fn (X_srav w)"
definition execute_sraw :: execute_fn where "execute_sraw = Shift_fn (X_srav 32)"
definition execute_or :: execute_fn where "execute_or = Logic_fn X_orv"
definition execute_and :: execute_fn where "execute_and = Logic_fn X_andv"
definition execute_ecall :: execute_fn where "execute_ecall = Control_fn X_syscall"
definition execute_ebreak :: execute_fn where "execute_ebreak = Control_fn X_breakpoint"
definition execute_uret :: execute_fn where "execute_uret = Control_fn (X_jump_and_link J_riscv_jr)"
definition execute_sret :: execute_fn where "execute_sret = Control_fn (X_jump_and_link J_riscv_jr)"
definition execute_mret :: execute_fn where "execute_mret = Control_fn (X_jump_and_link J_riscv_jr)"
definition execute_wfi :: execute_fn where "execute_wfi = do_nothing"
definition execute_fence :: execute_fn where "execute_fence = Address_fn X_addr"
definition execute_csrrw :: execute_fn where "execute_csrrw = Control_fn X_csrrw"
definition execute_csrrs :: execute_fn where "execute_csrrs = Control_fn X_csrrs"
definition execute_csrrc :: execute_fn where "execute_csrrc = do_nothing"
definition execute_csrrwi :: execute_fn where "execute_csrrwi = Control_fn X_csrrwi"
definition execute_csrrsi :: execute_fn where "execute_csrrsi = do_nothing"
definition execute_csrrci :: execute_fn where "execute_csrrci = do_nothing"
definition execute_mul :: "nat \<Rightarrow> execute_fn" where "execute_mul w = Mult_fn (X_riscv_mult_l w)"
definition execute_mulh :: "nat \<Rightarrow> execute_fn" where "execute_mulh w = Mult_fn (X_riscv_mult_h_ss w)"
definition execute_mulhsu :: "nat \<Rightarrow> execute_fn" where "execute_mulhsu w = Mult_fn (X_riscv_mult_h_su w)"
definition execute_mulhu :: "nat \<Rightarrow> execute_fn" where "execute_mulhu w = Mult_fn (X_riscv_mult_h_uu w)"
definition execute_div :: "nat \<Rightarrow> execute_fn" where "execute_div w = Mult_fn (X_riscv_div True w)"
definition execute_divu :: "nat \<Rightarrow> execute_fn" where "execute_divu w = Mult_fn (X_riscv_div False w)"
definition execute_rem :: "nat \<Rightarrow> execute_fn" where "execute_rem w = Mult_fn (X_riscv_rem True w)"
definition execute_remu :: "nat \<Rightarrow> execute_fn" where "execute_remu w = Mult_fn (X_riscv_rem False w)"
definition execute_bfp :: execute_fn where "execute_bfp = Bit_fn X_bit_field_place"
definition execute_clmul :: "nat \<Rightarrow> execute_fn" where "execute_clmul w = Bit_fn (X_clmul w)"
definition execute_clz :: "nat \<Rightarrow> execute_fn" where "execute_clz w = Bit_fn (X_clz w)"
definition execute_ctz :: "nat \<Rightarrow> execute_fn" where "execute_ctz w = Bit_fn (X_ctz w)"
definition execute_gorc :: "nat \<Rightarrow> execute_fn" where "execute_gorc w = Bit_fn (X_gorc w)"
definition execute_gorci :: execute_fn where "execute_gorci = Bit_fn X_gorci"
definition execute_grev :: execute_fn where "execute_grev = Bit_fn X_grev"
definition execute_max :: execute_fn where "execute_max = Logic_fn X_max"
definition execute_maxu :: execute_fn where "execute_maxu = Logic_fn X_maxu"
definition execute_min :: execute_fn where "execute_min = Logic_fn X_min"
definition execute_minu :: execute_fn where "execute_minu = Logic_fn X_minu"
definition execute_orn :: execute_fn where "execute_orn = Logic_fn X_orn"
definition execute_pack :: "nat \<Rightarrow> execute_fn" where "execute_pack w = Bit_fn (X_pack w)"
definition execute_packu :: "nat \<Rightarrow> execute_fn" where "execute_packu w = Bit_fn (X_packu w)"
definition execute_pcnt :: "nat \<Rightarrow> execute_fn" where "execute_pcnt w = Bit_fn (X_pcnt w)"
definition execute_rol :: execute_fn where "execute_rol = Shift_fn X_rol"
definition execute_ror :: execute_fn where "execute_ror = Shift_fn X_ror"
definition execute_rori :: execute_fn where "execute_rori = Shift_fn X_rori"
definition execute_sbext :: "nat \<Rightarrow> execute_fn" where "execute_sbext w = Bit_fn (X_sbext w)"
definition execute_sbinv :: "nat \<Rightarrow> execute_fn" where "execute_sbinv w = Bit_fn (X_sbinv w)"
definition execute_shfl :: execute_fn where "execute_shfl = Bit_fn X_riscv_shfl"
definition execute_slo :: "nat \<Rightarrow> execute_fn" where "execute_slo w = Shift_fn (X_slo w)"
definition execute_sloi :: "nat \<Rightarrow> execute_fn" where "execute_sloi w = Shift_fn (X_sloi w)"
definition execute_sro :: "nat \<Rightarrow> execute_fn" where "execute_sro w = Shift_fn (X_sro w)"
definition execute_sroi :: execute_fn where "execute_sroi = Shift_fn X_sroi"
definition execute_unshfl :: execute_fn where "execute_unshfl = Bit_fn X_riscv_unshfl"
definition execute_xnor :: execute_fn where "execute_xnor = Logic_fn X_xnor"

lemmas riscv_executors =
  do_nothing_def execute_lui_def execute_auipc_def execute_jal_def execute_jalr_def
  execute_beq_def execute_bne_def execute_blt_def execute_bge_def execute_bltu_def
  execute_bgeu_def execute_load_def execute_store_def execute_addi_def execute_addiw_def
  execute_addid_def execute_slti_def execute_sltiu_def execute_xori_def execute_ori_def
  execute_andi_def execute_slli_def execute_slliw_def execute_sllid_def execute_srli_def
  execute_srliw_def execute_srlid_def execute_srai_def execute_sraiw_def execute_sraid_def
  execute_add_def execute_addw_def execute_sub_def execute_subw_def execute_sll_def
  execute_sllw_def execute_slt_def execute_sltu_def execute_xor_def execute_srl_def
  execute_srlw_def execute_sra_def execute_sraw_def execute_or_def execute_and_def
  execute_ecall_def execute_ebreak_def execute_uret_def execute_sret_def execute_mret_def
  execute_wfi_def execute_fence_def execute_csrrw_def execute_csrrs_def execute_csrrc_def
  execute_csrrwi_def execute_csrrsi_def execute_csrrci_def execute_mul_def execute_mulh_def
  execute_mulhsu_def execute_mulhu_def execute_div_def execute_divu_def execute_rem_def
  execute_remu_def execute_bfp_def execute_clmul_def execute_clz_def execute_ctz_def
  execute_gorc_def execute_gorci_def execute_grev_def execute_max_def execute_maxu_def
  execute_min_def execute_minu_def execute_orn_def execute_pack_def execute_packu_def
  execute_pcnt_def execute_rol_def execute_ror_def execute_rori_def execute_sbext_def
  execute_sbinv_def execute_shfl_def execute_slo_def execute_sloi_def execute_sro_def
  execute_sroi_def execute_unshfl_def execute_xnor_def

section \<open>Entries\<close>

record autogenerated_entry =
  ins_name :: string
  ins_match :: uint32
  ins_mask :: uint32

type_synonym opcodes = "string \<Rightarrow> uint32 \<times> uint32"

definition insn :: "opcodes \<Rightarrow> string \<Rightarrow> autogenerated_entry" where
  "insn opc n = \<lparr>ins_name = n, ins_match = fst (opc n), ins_mask = snd (opc n)\<rparr>"

definition instr_invalid :: autogenerated_entry where
  "instr_invalid = \<lparr>ins_name = ''unknown'', ins_match = 0x0, ins_mask = 0xffff\<rparr>"

definition check_mask :: "autogenerated_entry \<Rightarrow> uint32 \<Rightarrow> bool" where
  "check_mask e bytes \<longleftrightarrow> bytes AND ins_mask e = ins_match e"

record riscv_entry =
  rv_subset :: char
  rv_insn :: autogenerated_entry
  rv_function :: execute_fn
  rv_type :: operation_type
  rv_imm_type :: char
  rv_imm_print_type :: imm
  rv_src :: "riscv_reg list"
  rv_dst :: "riscv_reg list"
  rv_mem_size :: uint32
  rv_bit_width :: uint32

definition rv_entry ::
  "char \<Rightarrow> autogenerated_entry \<Rightarrow> execute_fn \<Rightarrow> operation_type \<Rightarrow> char \<Rightarrow> imm \<Rightarrow> riscv_reg list
   \<Rightarrow> riscv_reg list \<Rightarrow> uint32 \<Rightarrow> uint32 \<Rightarrow> riscv_entry" where
  "rv_entry sub ins f ty t p s d sz bw = \<lparr>rv_subset = sub, rv_insn = ins, rv_function = f, rv_type = ty,
     rv_imm_type = t, rv_imm_print_type = p, rv_src = s, rv_dst = d, rv_mem_size = sz, rv_bit_width = bw\<rparr>"

definition rv_all :: uint32 where "rv_all = 32 OR 64 OR 128"

text \<open>The member initialisers of an entry make it the invalid instruction.\<close>

definition invalid_instr :: riscv_entry where
  "invalid_instr = rv_entry (CHR ''I'') instr_invalid do_nothing OUT_ARITHM (CHR '' '') Imm_NO
     [S_ZERO, S_ZERO] [S_ZERO] 0 rv_all"

definition check_print_dst :: "riscv_entry \<Rightarrow> nat \<Rightarrow> bool" where
  "check_print_dst e k \<longleftrightarrow> (let r = rv_dst e ! k in r \<noteq> S_ZERO \<and> r \<noteq> S_MEPC \<and> r \<noteq> S_SEPC \<and> r \<noteq> S_RA)"

definition check_print_src :: "riscv_entry \<Rightarrow> nat \<Rightarrow> bool" where
  "check_print_src e k \<longleftrightarrow>
     (let r = rv_src e ! k
      in if rv_subset e = CHR ''C'' \<and> r = rv_dst e ! 0 then False
         else r \<noteq> S_ZERO \<and> r \<noteq> S_SEPC \<and> r \<noteq> S_MEPC \<and> r \<noteq> S_CSR)"

definition check_mask_and_type :: "nat \<Rightarrow> riscv_entry \<Rightarrow> uint32 \<Rightarrow> bool" where
  "check_mask_and_type w e bytes \<longleftrightarrow> check_mask (rv_insn e) bytes \<and> of_nat w AND rv_bit_width e \<noteq> 0"

section \<open>The table\<close>

definition cmd_desc_I :: "opcodes \<Rightarrow> nat \<Rightarrow> riscv_entry list" where
  "cmd_desc_I opc w = [
     invalid_instr,
     rv_entry (CHR ''I'') (insn opc ''lui'') execute_lui OUT_ARITHM (CHR ''U'') Imm_LOGIC [S_ZERO, S_ZERO] [S_RD] 0 rv_all,
     rv_entry (CHR ''I'') (insn opc ''auipc'') execute_auipc OUT_ARITHM (CHR ''U'') Imm_LOGIC [S_ZERO, S_ZERO] [S_RD] 0 rv_all,
     rv_entry (CHR ''I'') (insn opc ''jal'') execute_jal OUT_J_JUMP (CHR ''J'') Imm_ARITH [S_ZERO, S_ZERO] [S_RD] 0 rv_all,
     rv_entry (CHR ''I'') (insn opc ''jalr'') execute_jalr OUT_R_JUMP (CHR ''I'') Imm_LOGIC [S_RS1, S_ZERO] [S_RD] 0 rv_all,
     rv_entry (CHR ''I'') (insn opc ''beq'') execute_beq OUT_BRANCH (CHR ''B'') Imm_ARITH [S_RS1, S_RS2] [S_ZERO] 0 rv_all,
     rv_entry (CHR ''I'') (insn opc ''bne'') execute_bne OUT_BRANCH (CHR ''B'') Imm_ARITH [S_RS1, S_RS2] [S_ZERO] 0 rv_all,
     rv_entry (CHR ''I'') (insn opc ''blt'') execute_blt OUT_BRANCH (CHR ''B'') Imm_ARITH [S_RS1, S_RS2] [S_ZERO] 0 rv_all,
     rv_entry (CHR ''I'') (insn opc ''bge'') execute_bge OUT_BRANCH (CHR ''B'') Imm_ARITH [S_RS1, S_RS2] [S_ZERO] 0 rv_all,
     rv_entry (CHR ''I'') (insn opc ''bltu'') execute_bltu OUT_BRANCH (CHR ''B'') Imm_ARITH [S_RS1, S_RS2] [S_ZERO] 0 rv_all,
     rv_entry (CHR ''I'') (insn opc ''bgeu'') execute_bgeu OUT_BRANCH (CHR ''B'') Imm_ARITH [S_RS1, S_RS2] [S_ZERO] 0 rv_all,
     rv_entry (CHR ''I'') (insn opc ''lb'') execute_load OUT_LOAD (CHR ''I'') Imm_ADDR [S_RS1, S_ZERO] [S_RD] 1 rv_all,
     rv_entry (CHR ''I'') (insn opc ''lh'') execute_load OUT_LOAD (CHR ''I'') Imm_ADDR [S_RS1, S_ZERO] [S_RD] 2 rv_all,
     rv_entry (CHR ''I'') (insn opc ''lw'') execute_load OUT_LOAD (CHR ''I'') Imm_ADDR [S_RS1, S_ZERO] [S_RD] 4 rv_all,
     rv_entry (CHR ''I'') (insn opc ''ld'') execute_load OUT_LOAD (CHR ''I'') Imm_ADDR [S_RS1, S_ZERO] [S_RD] 8 (64 OR 128),
     rv_entry (CHR ''I'') (insn opc ''lbu'') execute_load OUT_LOADU (CHR ''I'') Imm_ADDR [S_RS1, S_ZERO] [S_RD] 1 rv_all,
     rv_entry (CHR ''I'') (insn opc ''lhu'') execute_load OUT_LOADU (CHR ''I'') Imm_ADDR [S_RS1, S_ZERO] [S_RD] 2 rv_all,
     rv_entry (CHR ''I'') (insn opc ''lwu'') execute_load OUT_LOADU (CHR ''I'') Imm_ADDR [S_RS1, S_ZERO] [S_RD] 4 rv_all,
     rv_entry (CHR ''I'') (insn opc ''sb'') execute_store OUT_STORE (CHR ''S'') Imm_ADDR [S_RS1, S_RS2] [S_ZERO] 1 rv_all,
     rv_entry (CHR ''I'') (insn opc ''sh'') execute_store OUT_STORE (CHR ''S'') Imm_ADDR [S_RS1, S_RS2] [S_ZERO] 2 rv_all,
     rv_entry (CHR ''I'') (insn opc ''sw'') execute_store OUT_STORE (CHR ''S'') Imm_ADDR [S_RS1, S_RS2] [S_ZERO] 4 rv_all,
     rv_entry (CHR ''I'') (insn opc ''sd'') execute_store OUT_STORE (CHR ''S'') Imm_ADDR [S_RS1, S_RS2] [S_ZERO] 8 (64 OR 128),
     rv_entry (CHR ''I'') (insn opc ''addi'') (execute_addi w) OUT_ARITHM (CHR ''I'') Imm_ARITH [S_RS1, S_ZERO] [S_RD] 0 rv_all,
     rv_entry (CHR ''I'') (insn opc ''slli'') (execute_slli w) OUT_ARITHM (CHR ''7'') Imm_ARITH [S_RS1, S_ZERO] [S_RD] 0 rv_all,
     rv_entry (CHR ''I'') (insn opc ''srli'') (execute_srli w) OUT_ARITHM (CHR ''7'') Imm_ARITH [S_RS1, S_ZERO] [S_RD] 0 rv_all,
     rv_entry (CHR ''I'') (insn opc ''srai'') (execute_srai w) OUT_ARITHM (CHR ''7'') Imm_ARITH [S_RS1, S_ZERO] [S_RD] 0 rv_all,
     rv_entry (CHR ''I'') (insn opc ''addiw'') execute_addiw OUT_ARITHM (CHR ''I'') Imm_ARITH [S_RS1, S_ZERO] [S_RD] 0 (64 OR 128),
     rv_entry (CHR ''I'') (insn opc ''slliw'') execute_slliw OUT_ARITHM (CHR ''5'') Imm_ARITH [S_RS1, S_ZERO] [S_RD] 0 (64 OR 128),
     rv_entry (CHR ''I'') (insn opc ''srliw'') execute_srliw OUT_ARITHM (CHR ''5'') Imm_ARITH [S_RS1, S_ZERO] [S_RD] 0 (64 OR 128),
     rv_entry (CHR ''I'') (insn opc ''sraiw'') execute_sraiw OUT_ARITHM (CHR ''5'') Imm_ARITH [S_RS1, S_ZERO] [S_RD] 0 (64 OR 128),
     rv_entry (CHR ''I'') (insn opc ''addid'') execute_addid OUT_ARITHM (CHR ''I'') Imm_ARITH [S_RS1, S_ZERO] [S_RD] 0 128,
     rv_entry (CHR ''I'') (insn opc ''sllid'') execute_sllid OUT_ARITHM (CHR ''6'') Imm_ARITH [S_RS1, S_ZERO] [S_RD] 0 128,
     rv_entry (CHR ''I'') (insn opc ''srlid'') execute_srlid OUT_ARITHM (CHR ''6'') Imm_ARITH [S_RS1, S_ZERO] [S_RD] 0 128,
     rv_entry (CHR ''I'') (insn opc ''sraid'') execute_sraid OUT_ARITHM (CHR ''6'') Imm_ARITH [S_RS1, S_ZERO] [S_RD] 0 128,
     rv_entry (CHR ''I'') (insn opc ''slti'') execute_slti OUT_ARITHM (CHR ''I'') Imm_ARITH [S_RS1, S_ZERO] [S_RD] 0 rv_all,
     rv_entry (CHR ''I'') (insn opc ''sltiu'') execute_sltiu OUT_ARITHM (CHR ''I'') Imm_ARITH [S_RS1, S_ZERO] [S_RD] 0 rv_all,
     rv_entry (CHR ''I'') (insn opc ''xori'') execute_xori OUT_ARITHM (CHR ''I'') Imm_LOGIC [S_RS1, S_ZERO] [S_RD] 0 rv_all,
     rv_entry (CHR ''I'') (insn opc ''ori'') execute_ori OUT_ARITHM (CHR ''I'') Imm_LOGIC [S_RS1, S_ZERO] [S_RD] 0 rv_all,
     rv_entry (CHR ''I'') (insn opc ''andi'') execute_andi OUT_ARITHM (CHR ''I'') Imm_LOGIC [S_RS1, S_ZERO] [S_RD] 0 rv_all,
     rv_entry (CHR ''I'') (insn opc ''add'') (execute_add w) OUT_ARITHM (CHR '' '') Imm_NO [S_RS1, S_RS2] [S_RD] 0 rv_all,
     rv_entry (CHR ''I'') (insn opc ''sub'') (execute_sub w) OUT_ARITHM (CHR '' '') Imm_NO [S_RS1, S_RS2] [S_RD] 0 rv_all,
     rv_entry (CHR ''I'') (insn opc ''sll'') (execute_sll w) OUT_ARITHM (CHR '' '') Imm_NO [S_RS1, S_RS2] [S_RD] 0 rv_all,
     rv_entry (CHR ''I'') (insn opc ''sra'') (execute_sra w) OUT_ARITHM (CHR '' '') Imm_NO [S_RS1, S_RS2] [S_RD] 0 rv_all,
     rv_entry (CHR ''I'') (insn opc ''srl'') (execute_srl w) OUT_ARITHM (CHR '' '') Imm_NO [S_RS1, S_RS2] [S_RD] 0 rv_all,
     rv_entry (CHR ''I'') (insn opc ''addw'') execute_addw OUT_ARITHM (CHR '' '') Imm_NO [S_RS1, S_RS2] [S_RD] 0 (64 OR 128),
     rv_entry (CHR ''I'') (insn opc ''subw'') execute_subw OUT_ARITHM (CHR '' '') Imm_NO [S_RS1, S_RS2] [S_RD] 0 (64 OR 128),
     rv_entry (CHR ''I'') (insn opc ''sllw'') execute_sllw OUT_ARITHM (CHR '' '') Imm_NO [S_RS1, S_RS2] [S_RD] 0 (64 OR 128),
     rv_entry (CHR ''I'') (insn opc ''sraw'') execute_sraw OUT_ARITHM (CHR '' '') Imm_NO [S_RS1, S_RS2] [S_RD] 0 (64 OR 128),
     rv_entry (CHR ''I'') (insn opc ''srlw'') execute_srlw OUT_ARITHM (CHR '' '') Imm_NO [S_RS1, S_RS2] [S_RD] 0 (64 OR 128),
     rv_entry (CHR ''I'') (insn opc ''slt'') execute_slt OUT_ARITHM (CHR '' '') Imm_NO [S_RS1, S_RS2] [S_RD] 0 rv_all,
     rv_entry (CHR ''I'') (insn opc ''sltu'') execute_sltu OUT_ARITHM (CHR '' '') Imm_NO [S_RS1, S_RS2] [S_RD] 0 rv_all,
     rv_entry (CHR ''I'') (insn opc ''and'') execute_and OUT_ARITHM (CHR '' '') Imm_NO [S_RS1, S_RS2] [S_RD] 0 rv_all,
     rv_entry (CHR ''I'') (insn opc ''xor'') execute_xor OUT_ARITHM (CHR '' '') Imm_NO [S_RS1, S_RS2] [S_RD] 0 rv_all,
     rv_entry (CHR ''I'') (insn opc ''or'') execute_or OUT_ARITHM (CHR '' '') Imm_NO [S_RS1, S_RS2] [S_RD] 0 rv_all,
     rv_entry (CHR ''I'') (insn opc ''ecall'') execute_ecall OUT_TRAP (CHR '' '') Imm_NO [S_ZERO, S_ZERO] [S_ZERO] 0 rv_all,
     rv_entry (CHR ''I'') (insn opc ''ebreak'') execute_ebreak OUT_TRAP (CHR '' '') Imm_NO [S_ZERO, S_ZERO] [S_ZERO] 0 rv_all,
     rv_entry (CHR ''I'') (insn opc ''sret'') execute_sret OUT_R_JUMP (CHR '' '') Imm_NO [S_SEPC, S_ZERO] [S_ZERO] 0 rv_all,
     rv_entry (CHR ''I'') (insn opc ''mret'') execute_mret OUT_R_JUMP (CHR '' '') Imm_NO [S_MEPC, S_ZERO] [S_ZERO] 0 rv_all,
     rv_entry (CHR ''I'') (insn opc ''csrrw'') execute_csrrw OUT_ARITHM (CHR '' '') Imm_NO [S_RS1, S_CSR] [S_CSR, S_RD] 0 rv_all,
     rv_entry (CHR ''I'') (insn opc ''csrrs'') execute_csrrs OUT_ARITHM (CHR '' '') Imm_NO [S_RS1, S_CSR] [S_CSR, S_RD] 0 rv_all,
     rv_entry (CHR ''I'') (insn opc ''csrrwi'') execute_csrrwi OUT_ARITHM (CHR ''C'') Imm_LOGIC [S_ZERO, S_CSR] [S_CSR, S_RD] 0 rv_all,
     rv_entry (CHR ''I'') (insn opc ''fence'') execute_fence OUT_LOAD (CHR ''I'') Imm_ADDR [S_RS1, S_ZERO] [S_ZERO] 0 rv_all,
     rv_entry (CHR ''I'') (insn opc ''fence_i'') execute_fence OUT_LOAD (CHR ''I'') Imm_ADDR [S_RS1, S_ZERO] [S_ZERO] 0 rv_all]"

definition cmd_desc_M :: "opcodes \<Rightarrow> nat \<Rightarrow> riscv_entry list" where
  "cmd_desc_M opc w = [
     rv_entry (CHR ''M'') (insn opc ''mul'') (execute_mul w) OUT_ARITHM (CHR '' '') Imm_NO [S_RS1, S_RS2] [S_RD] 0 rv_all,
     rv_entry (CHR ''M'') (insn opc ''mulh'') (execute_mulh w) OUT_ARITHM (CHR '' '') Imm_NO [S_RS1, S_RS2] [S_RD] 0 rv_all,
     rv_entry (CHR ''M'') (insn opc ''mulhsu'') (execute_mulhsu w) OUT_ARITHM (CHR '' '') Imm_NO [S_RS1, S_RS2] [S_RD] 0 rv_all,
     rv_entry (CHR ''M'') (insn opc ''mulhu'') (execute_mulhu w) OUT_ARITHM (CHR '' '') Imm_NO [S_RS1, S_RS2] [S_RD] 0 rv_all,
     rv_entry (CHR ''M'') (insn opc ''div'') (execute_div w) OUT_ARITHM (CHR '' '') Imm_NO [S_RS1, S_RS2] [S_RD] 0 rv_all,
     rv_entry (CHR ''M'') (insn opc ''divu'') (execute_divu w) OUT_ARITHM (CHR '' '') Imm_NO [S_RS1, S_RS2] [S_RD] 0 rv_all,
     rv_entry (CHR ''M'') (insn opc ''rem'') (execute_rem w) OUT_ARITHM (CHR '' '') Imm_NO [S_RS1, S_RS2] [S_RD] 0 rv_all,
     rv_entry (CHR ''M'') (insn opc ''remu'') (execute_remu w) OUT_ARITHM (CHR '' '') Imm_NO [S_RS1, S_RS2] [S_RD] 0 rv_all]"

definition cmd_desc_C :: "opcodes \<Rightarrow> nat \<Rightarrow> riscv_entry list" where
  "cmd_desc_C opc w = [
     rv_entry (CHR ''C'') (insn opc ''c_ebreak'') execute_ebreak OUT_BREAK (CHR '' '') Imm_NO [S_ZERO, S_ZERO] [S_ZERO] 0 rv_all,
     rv_entry (CHR ''C'') (insn opc ''c_nop'') execute_or OUT_ARITHM (CHR '' '') Imm_NO [S_ZERO, S_ZERO] [S_ZERO] 0 rv_all,
     rv_entry (CHR ''C'') (insn opc ''c_j'') execute_jal OUT_BRANCH C_J Imm_JUMP_REL [S_ZERO, S_ZERO] [S_ZERO] 0 rv_all,
     rv_entry (CHR ''C'') (insn opc ''c_jal'') execute_jal OUT_BRANCH C_J Imm_JUMP_REL [S_ZERO, S_ZERO] [S_RA] 0 32,
     rv_entry (CHR ''C'') (insn opc ''c_jr'') execute_jalr OUT_BRANCH (CHR '' '') Imm_NO [S_RD, S_ZERO] [S_ZERO] 0 rv_all,
     rv_entry (CHR ''C'') (insn opc ''c_jalr'') execute_jalr OUT_BRANCH (CHR '' '') Imm_NO [S_RD, S_ZERO] [S_RA] 0 rv_all,
     rv_entry (CHR ''C'') (insn opc ''c_beqz'') execute_beq OUT_BRANCH C_B Imm_ARITH [S_RS1_3BIT, S_ZERO] [S_ZERO] 0 rv_all,
     rv_entry (CHR ''C'') (insn opc ''c_bnez'') execute_bne OUT_BRANCH C_B Imm_ARITH [S_RS1_3BIT, S_ZERO] [S_ZERO] 0 rv_all,
     rv_entry (CHR ''C'') (insn opc ''c_lwsp'') execute_load OUT_LOAD C_LWSP Imm_ADDR [S_SP, S_ZERO] [S_RD] 4 rv_all,
     rv_entry (CHR ''C'') (insn opc ''c_ldsp'') execute_load OUT_LOAD C_LDSP Imm_ADDR [S_SP, S_ZERO] [S_RD] 8 (64 OR 128),
     rv_entry (CHR ''C'') (insn opc ''c_lqsp'') execute_load OUT_LOAD C_LQSP Imm_ADDR [S_SP, S_ZERO] [S_RD] 16 128,
     rv_entry (CHR ''C'') (insn opc ''c_lw'') execute_load OUT_LOAD C_LW Imm_ADDR [S_RS1_3BIT, S_ZERO] [S_RD_3BIT] 4 rv_all,
     rv_entry (CHR ''C'') (insn opc ''c_ld'') execute_load OUT_LOAD C_LD Imm_ADDR [S_RS1_3BIT, S_ZERO] [S_RD_3BIT] 8 (64 OR 128),
     rv_entry (CHR ''C'') (insn opc ''c_lq'') execute_load OUT_LOAD C_LQ Imm_ADDR [S_RS1_3BIT, S_ZERO] [S_RD_3BIT] 16 128,
     rv_entry (CHR ''C'') (insn opc ''c_swsp'') execute_store OUT_STORE C_SWSP Imm_ADDR [S_SP, S_RS2_CMP] [S_ZERO] 4 rv_all,
     rv_entry (CHR ''C'') (insn opc ''c_sdsp'') execute_store OUT_STORE C_SDSP Imm_ADDR [S_SP, S_RS2_CMP] [S_ZERO] 8 (64 OR 128),
     rv_entry (CHR ''C'') (insn opc ''c_sqsp'') execute_store OUT_STORE C_SQSP Imm_ADDR [S_SP, S_RS2_CMP] [S_ZERO] 16 128,
     rv_entry (CHR ''C'') (insn opc ''c_sw'') execute_store OUT_STORE C_LW Imm_ADDR [S_RS1_3BIT, S_RS2_3BIT] [S_ZERO] 4 rv_all,
     rv_entry (CHR ''C'') (insn opc ''c_sd'') execute_store OUT_STORE C_LD Imm_ADDR [S_RS1_3BIT, S_RS2_3BIT] [S_ZERO] 8 (64 OR 128),
     rv_entry (CHR ''C'') (insn opc ''c_sq'') execute_store OUT_STORE C_LQ Imm_ADDR [S_RS1_3BIT, S_RS2_3BIT] [S_ZERO] 16 128,
     rv_entry (CHR ''C'') (insn opc ''c_addi16sp'') (execute_addi w) OUT_ARITHM C_ADDI16SP Imm_ARITH [S_SP, S_ZERO] [S_SP] 0 rv_all,
     rv_entry (CHR ''C'') (insn opc ''c_addi'') (execute_addi w) OUT_ARITHM C_I Imm_ARITH [S_RD, S_ZERO] [S_RD] 0 rv_all,
     rv_entry (CHR ''C'') (insn opc ''c_srli'') (execute_srli w) OUT_ARITHM C_S Imm_ARITH [S_RS1_3BIT, S_ZERO] [S_RS1_3BIT] 0 rv_all,
     rv_entry (CHR ''C'') (insn opc ''c_srai'') (execute_srai w) OUT_ARITHM C_S Imm_ARITH [S_RS1_3BIT, S_ZERO] [S_RS1_3BIT] 0 rv_all,
     rv_entry (CHR ''C'') (insn opc ''c_slli'') (execute_slli w) OUT_ARITHM C_S Imm_ARITH [S_RD, S_ZERO] [S_RD] 0 rv_all,
     rv_entry (CHR ''C'') (insn opc ''c_addi4spn'') (execute_addi w) OUT_ARITHM C_ADDI4SPN Imm_ARITH [S_SP, S_ZERO] [S_RD_3BIT] 0 (32 OR 64),
     rv_entry (CHR ''C'') (insn opc ''c_addiw'') execute_addiw OUT_ARITHM C_I Imm_ARITH [S_RD, S_ZERO] [S_RD] 0 (64 OR 128),
     rv_entry (CHR ''C'') (insn opc ''c_li'') (execute_addi w) OUT_ARITHM C_I Imm_ARITH [S_ZERO, S_ZERO] [S_RD] 0 rv_all,
     rv_entry (CHR ''C'') (insn opc ''c_lui'') execute_lui OUT_ARITHM C_I Imm_LOGIC [S_ZERO, S_ZERO] [S_RD] 0 rv_all,
     rv_entry (CHR ''C'') (insn opc ''c_andi'') execute_andi OUT_ARITHM C_I Imm_ARITH [S_RS1_3BIT, S_ZERO] [S_RS1_3BIT] 0 rv_all,
     rv_entry (CHR ''C'') (insn opc ''c_sub'') (execute_sub w) OUT_ARITHM (CHR '' '') Imm_NO [S_RS1_3BIT, S_RS2_3BIT] [S_RS1_3BIT] 0 rv_all,
     rv_entry (CHR ''C'') (insn opc ''c_addw'') execute_addw OUT_ARITHM (CHR '' '') Imm_NO [S_RS1_3BIT, S_RS2_3BIT] [S_RS1_3BIT] 0 (64 OR 128),
     rv_entry (CHR ''C'') (insn opc ''c_subw'') execute_subw OUT_ARITHM (CHR '' '') Imm_NO [S_RS1_3BIT, S_RS2_3BIT] [S_RS1_3BIT] 0 (64 OR 128),
     rv_entry (CHR ''C'') (insn opc ''c_mv'') execute_or OUT_ARITHM (CHR '' '') Imm_NO [S_ZERO, S_RS2_CMP] [S_RD] 0 rv_all,
     rv_entry (CHR ''C'') (insn opc ''c_add'') (execute_add w) OUT_ARITHM (CHR '' '') Imm_NO [S_RD, S_RS2_CMP] [S_RD] 0 rv_all,
     rv_entry (CHR ''C'') (insn opc ''c_xor'') execute_xor OUT_ARITHM (CHR '' '') Imm_NO [S_RS1_3BIT, S_RS2_3BIT] [S_RS1_3BIT] 0 rv_all,
     rv_entry (CHR ''C'') (insn opc ''c_or'') execute_or OUT_ARITHM (CHR '' '') Imm_NO [S_RS1_3BIT, S_RS2_3BIT] [S_RS1_3BIT] 0 rv_all,
     rv_entry (CHR ''C'') (insn opc ''c_and'') execute_and OUT_ARITHM (CHR '' '') Imm_NO [S_RS1_3BIT, S_RS2_3BIT] [S_RS1_3BIT] 0 rv_all]"

definition cmd_desc_B :: "opcodes \<Rightarrow> nat \<Rightarrow> riscv_entry list" where
  "cmd_desc_B opc w = [
     rv_entry (CHR ''B'') (insn opc ''slo'') (execute_slo w) OUT_ARITHM (CHR '' '') Imm_NO [S_RS1, S_RS2] [S_RD] 0 (32 OR 64),
     rv_entry (CHR ''B'') (insn opc ''sro'') (execute_sro w) OUT_ARITHM (CHR '' '') Imm_NO [S_RS1, S_RS2] [S_RD] 0 (32 OR 64),
     rv_entry (CHR ''B'') (insn opc ''orn'') execute_orn OUT_ARITHM (CHR '' '') Imm_NO [S_RS1, S_RS2] [S_RD] 0 (32 OR 64),
     rv_entry (CHR ''B'') (insn opc ''sbinv'') (execute_sbinv w) OUT_ARITHM (CHR '' '') Imm_NO [S_RS1, S_RS2] [S_RD] 0 (32 OR 64),
     rv_entry (CHR ''B'') (insn opc ''sbext'') (execute_sbext w) OUT_ARITHM (CHR '' '') Imm_NO [S_RS1, S_RS2] [S_RD] 0 (32 OR 64),
     rv_entry (CHR ''B'') (insn opc ''pack'') (execute_pack w) OUT_ARITHM (CHR '' '') Imm_NO [S_RS1, S_RS2] [S_RD] 0 (32 OR 64),
     rv_entry (CHR ''B'') (insn opc ''packu'') (execute_packu w) OUT_ARITHM (CHR '' '') Imm_NO [S_RS1, S_RS2] [S_RD] 0 (32 OR 64),
     rv_entry (CHR ''B'') (insn opc ''xnor'') execute_xnor OUT_ARITHM (CHR '' '') Imm_NO [S_RS1, S_RS2] [S_RD] 0 (32 OR 64),
     rv_entry (CHR ''B'') (insn opc ''bfp'') execute_bfp OUT_ARITHM (CHR '' '') Imm_NO [S_RS1, S_RS2] [S_RD] 0 (32 OR 64),
     rv_entry (CHR ''B'') (insn opc ''grev'') execute_grev OUT_ARITHM (CHR '' '') Imm_NO [S_RS1, S_RS2] [S_RD] 0 (32 OR 64),
     rv_entry (CHR ''B'') (insn opc ''pcnt'') (execute_pcnt w) OUT_ARITHM (CHR '' '') Imm_NO [S_RS1, S_RS2] [S_RD] 0 (32 OR 64),
     rv_entry (CHR ''B'') (insn opc ''clz'') (execute_clz w) OUT_ARITHM (CHR '' '') Imm_NO [S_RS1, S_ZERO] [S_RD] 0 (32 OR 64),
     rv_entry (CHR ''B'') (insn opc ''ctz'') (execute_ctz w) OUT_ARITHM (CHR '' '') Imm_NO [S_RS1, S_ZERO] [S_RD] 0 (32 OR 64),
     rv_entry (CHR ''B'') (insn opc ''rol'') execute_rol OUT_ARITHM (CHR '' '') Imm_NO [S_RS1, S_RS2] [S_RD] 0 (32 OR 64),
     rv_entry (CHR ''B'') (insn opc ''ror'') execute_ror OUT_ARITHM (CHR '' '') Imm_NO [S_RS1, S_RS2] [S_RD] 0 (32 OR 64),
     rv_entry (CHR ''B'') (insn opc ''clmul'') (execute_clmul w) OUT_ARITHM (CHR '' '') Imm_NO [S_RS1, S_RS2] [S_RD] 0 (32 OR 64),
     rv_entry (CHR ''B'') (insn opc ''max'') execute_max OUT_ARITHM (CHR '' '') Imm_NO [S_RS1, S_RS2] [S_RD] 0 (32 OR 64),
     rv_entry (CHR ''B'') (insn opc ''maxu'') execute_maxu OUT_ARITHM (CHR '' '') Imm_NO [S_RS1, S_RS2] [S_RD] 0 (32 OR 64),
     rv_entry (CHR ''B'') (insn opc ''min'') execute_min OUT_ARITHM (CHR '' '') Imm_NO [S_RS1, S_RS2] [S_RD] 0 (32 OR 64),
     rv_entry (CHR ''B'') (insn opc ''minu'') execute_minu OUT_ARITHM (CHR '' '') Imm_NO [S_RS1, S_RS2] [S_RD] 0 (32 OR 64),
     rv_entry (CHR ''B'') (insn opc ''gorc'') (execute_gorc w) OUT_ARITHM (CHR '' '') Imm_NO [S_RS1, S_RS2] [S_RD] 0 (32 OR 64),
     rv_entry (CHR ''B'') (insn opc ''gorci'') execute_gorci OUT_ARITHM (CHR ''7'') Imm_ARITH [S_RS1, S_ZERO] [S_RD] 0 (32 OR 64),
     rv_entry (CHR ''B'') (insn opc ''unshfl'') execute_unshfl OUT_ARITHM (CHR '' '') Imm_NO [S_RS1, S_RS2] [S_RD] 0 rv_all,
     rv_entry (CHR ''B'') (insn opc ''rori'') execute_rori OUT_ARITHM (CHR ''7'') Imm_ARITH [S_RS1, S_ZERO] [S_RD] 0 (32 OR 64),
     rv_entry (CHR ''B'') (insn opc ''shfl'') execute_shfl OUT_ARITHM (CHR '' '') Imm_NO [S_RS1, S_RS2] [S_RD] 0 (32 OR 64),
     rv_entry (CHR ''B'') (insn opc ''sloi'') (execute_sloi w) OUT_ARITHM (CHR ''7'') Imm_ARITH [S_RS1, S_ZERO] [S_RD] 0 (32 OR 64),
     rv_entry (CHR ''B'') (insn opc ''sroi'') execute_sroi OUT_ARITHM (CHR ''7'') Imm_ARITH [S_RS1, S_ZERO] [S_RD] 0 (32 OR 64)]"

definition cmd_desc :: "opcodes \<Rightarrow> nat \<Rightarrow> riscv_entry list" where
  "cmd_desc opc w = cmd_desc_I opc w @ cmd_desc_M opc w @ cmd_desc_C opc w @ cmd_desc_B opc w"

lemmas cmd_desc_tables = cmd_desc_I_def cmd_desc_M_def cmd_desc_C_def cmd_desc_B_def

section \<open>Lookup\<close>

definition find_entry :: "opcodes \<Rightarrow> nat \<Rightarrow> uint32 \<Rightarrow> riscv_entry" where
  "find_entry opc w bytes =
     (case find (\<lambda>e. check_mask_and_type w e bytes) (cmd_desc opc w) of None \<Rightarrow> invalid_instr | Some e \<Rightarrow> e)"

definition find_entry_by_name :: "opcodes \<Rightarrow> nat \<Rightarrow> string \<Rightarrow> riscv_entry" where
  "find_entry_by_name opc w name =
     (case find (\<lambda>e. ins_name (rv_insn e) = name) (cmd_desc opc w) of None \<Rightarrow> invalid_instr | Some e \<Rightarrow> e)"

end
