(* ===== verification/Riscv_Instr.thy ===== *)
theory Riscv_Instr
  imports Riscv_Tables Alu Register_File Endian
begin

text \<open>
  The RISC-V instruction, from simulator/risc_v/riscv_instr.h and riscv_instr.cpp: decoding a
  word into an instruction. The lists of control registers and of opcodes come from generated
  headers and are parameters. A failing assertion or \<open>at\<close> is \<open>None\<close>; the theorem
  \<open>riscv_decode_total\<close> shows that no word gives it.
\<close>

section \<open>The instruction\<close>

record (overloaded) 'a riscv_instr = "('a::len, riscv_register) base_instruction" +
  rv_raw :: uint32

definition new_riscv_instr :: "Addr \<Rightarrow> uint32 \<Rightarrow> 'a::len riscv_instr" where
  "new_riscv_instr pc w =
     base_instruction.extend (new_base_instruction pc (pc + 4) X_do_nothing riscv_zero) \<lparr>rv_raw = w\<rparr>"

text \<open>The positions of a \<open>bitset\<close> from \<open>k\<close> on for which \<open>P\<close> holds are set.\<close>

fun set_where :: "(nat \<Rightarrow> bool) \<Rightarrow> nat \<Rightarrow> nat \<Rightarrow> bool list \<Rightarrow> bool list" where
  "set_where P k 0 bs = bs"
| "set_where P k (Suc n) bs = set_where P (Suc k) n (if P k then bs[k := True] else bs)"

definition riscv_init :: "riscv_entry \<Rightarrow> 'a::len riscv_instr \<Rightarrow> 'a riscv_instr" where
  "riscv_init e i =
     (let i = (if rv_subset e = CHR ''C'' then i\<lparr>new_PC := PC i + 2\<rparr> else i);
          i = i\<lparr>imm_print_type := rv_imm_print_type e\<rparr>;
          i = i\<lparr>mem_size := rv_mem_size e\<rparr>;
          i = i\<lparr>operation := rv_type e\<rparr>;
          i = i\<lparr>executor := rv_function e\<rparr>;
          i = i\<lparr>opname := ins_name (rv_insn e)\<rparr>;
          i = i\<lparr>print_dst := set_where (check_print_dst e) 0 (length (rv_dst e)) (print_dst i)\<rparr>
      in i\<lparr>print_src := set_where (check_print_src e) 0 (length (rv_src e)) (print_src i)\<rparr>)"

definition riscv_init_target :: "'a::len riscv_instr \<Rightarrow> 'a riscv_instr" where
  "riscv_init_target i =
     (if is_branch i then i\<lparr>target := PC i + sign_extension (ucast (v_imm i)) 12\<rparr>
      else if is_direct_jump i then i\<lparr>target := PC i + sign_extension (ucast (v_imm i)) 20\<rparr>
      else i)"

fun riscv_fill ::
  "csr_list \<Rightarrow> uint32 \<Rightarrow> nat \<Rightarrow> riscv_reg list \<Rightarrow> riscv_register list \<Rightarrow> riscv_register list option" where
  "riscv_fill csrs w k [] regs = Some regs"
| "riscv_fill csrs w k (t # ts) regs =
     (if k < length regs then riscv_fill csrs w (Suc k) ts (regs[k := riscv_get_register csrs w t]) else None)"

definition riscv_instr :: "opcodes \<Rightarrow> csr_list \<Rightarrow> uint32 \<Rightarrow> Addr \<Rightarrow> 'a::len riscv_instr option" where
  "riscv_instr opc csrs bytes pc =
     (let entry = find_entry opc LENGTH('a) bytes;
          i = riscv_init entry (new_riscv_instr pc bytes);
          d = riscv_instr_decoder bytes
      in case riscv_immediate_value d (rv_imm_type entry) of None \<Rightarrow> None
         | Some v \<Rightarrow>
       let i = i\<lparr>v_imm := riscv_immediate (rv_imm_type entry) v\<rparr>
       in case riscv_fill csrs bytes 0 (rv_src entry) (src i) of None \<Rightarrow> None
         | Some srcs \<Rightarrow>
       case riscv_fill csrs bytes 0 (rv_dst entry) (dst i) of None \<Rightarrow> None
         | Some dsts \<Rightarrow> Some (riscv_init_target (i\<lparr>src := srcs, dst := dsts\<rparr>)))"

definition riscv_instr_by_name :: "opcodes \<Rightarrow> string \<Rightarrow> uint32 \<Rightarrow> Addr \<Rightarrow> 'a::len riscv_instr" where
  "riscv_instr_by_name opc name immediate pc =
     (let entry = find_entry_by_name opc LENGTH('a) name;
          i = riscv_init entry (new_riscv_instr pc (of_nat NO_VAL32));
          i = i\<lparr>v_imm := riscv_immediate (rv_imm_type entry) immediate\<rparr>
      in riscv_init_target i)"

definition riscv_is_same_bytes :: "'a::len riscv_instr \<Rightarrow> uint32 \<Rightarrow> bool" where
  "riscv_is_same_bytes i bytes \<longleftrightarrow> bytes = rv_raw i"

definition riscv_is_same :: "'a::len riscv_instr \<Rightarrow> 'a riscv_instr \<Rightarrow> bool" where
  "riscv_is_same i rhs \<longleftrightarrow> PC i = PC rhs \<and> riscv_is_same_bytes i (rv_raw rhs)"

definition riscv_is_same_checker :: "'a::len riscv_instr \<Rightarrow> 'a riscv_instr \<Rightarrow> bool" where
  "riscv_is_same_checker i rhs \<longleftrightarrow> riscv_is_same i rhs \<and> sequence_id i = sequence_id rhs
     \<and> (riscv_is_zero (dst i ! 0) \<or> v_dst i ! 0 = v_dst rhs ! 0)
     \<and> (riscv_is_zero (dst i ! 1) \<or> v_dst i ! 1 = v_dst rhs ! 1)"

definition riscv_is_nop :: "'a::len riscv_instr \<Rightarrow> bool" where
  "riscv_is_nop i \<longleftrightarrow> rv_raw i = 0"

definition riscv_dump_bytes :: "'a::len riscv_instr \<Rightarrow> byte list" where
  "riscv_dump_bytes i = unpack_array little (rv_raw i)"

section \<open>Every entry is well formed\<close>

definition wf_riscv_entry :: "riscv_entry \<Rightarrow> bool" where
  "wf_riscv_entry e \<longleftrightarrow> length (rv_src e) = 2 \<and> rv_dst e \<noteq> [] \<and> length (rv_dst e) \<le> 2
     \<and> rv_imm_type e \<in> fst ` set imm_layout
     \<and> (rv_mem_size e \<noteq> 0 \<longrightarrow> rv_type e \<in> {OUT_LOAD, OUT_LOADU, OUT_STORE})
     \<and> (rv_type e = OUT_BRANCH \<longrightarrow> rv_imm_type e \<in> {CHR ''B'', C_B, C_J, CHR '' ''})
     \<and> (rv_type e = OUT_J_JUMP \<longrightarrow> rv_imm_type e = CHR ''J'')
     \<and> rv_type e \<noteq> OUT_BRANCH_LIKELY"

lemma wf_riscv_entry_rv_entry:
  "wf_riscv_entry (rv_entry sub ins f ty t p s d sz bw) \<longleftrightarrow> length s = 2 \<and> d \<noteq> [] \<and> length d \<le> 2
     \<and> t \<in> fst ` set imm_layout \<and> (sz \<noteq> 0 \<longrightarrow> ty \<in> {OUT_LOAD, OUT_LOADU, OUT_STORE})
     \<and> (ty = OUT_BRANCH \<longrightarrow> t \<in> {CHR ''B'', C_B, C_J, CHR '' ''})
     \<and> (ty = OUT_J_JUMP \<longrightarrow> t = CHR ''J'') \<and> ty \<noteq> OUT_BRANCH_LIKELY"
  by (simp add: wf_riscv_entry_def rv_entry_def)

lemma imm_layout_types:
  "list_all (\<lambda>t. t \<in> fst ` set imm_layout)
     [CHR ''I'', CHR ''5'', CHR ''6'', CHR ''7'', CHR ''S'', CHR ''B'', CHR ''U'', CHR ''J'', CHR ''C'', CHR '' '',
      C_LWSP, C_LDSP, C_LQSP, C_SWSP, C_SDSP, C_SQSP, C_LW, C_LD, C_LQ, C_J, C_B, C_ADDI4SPN, C_ADDI16SP, C_I, C_S]"
  by (simp add: imm_layout_def)

lemmas imm_kinds = imm_layout_types [simplified]

lemma wf_invalid_instr: "wf_riscv_entry invalid_instr"
  by (simp add: invalid_instr_def wf_riscv_entry_rv_entry imm_kinds)

lemma wf_cmd_desc_I: "list_all wf_riscv_entry (cmd_desc_I opc w)"
  by (simp add: cmd_desc_I_def wf_invalid_instr wf_riscv_entry_rv_entry imm_kinds)

lemma wf_cmd_desc_M: "list_all wf_riscv_entry (cmd_desc_M opc w)"
  by (simp add: cmd_desc_M_def wf_riscv_entry_rv_entry imm_kinds)

lemma wf_cmd_desc_C: "list_all wf_riscv_entry (cmd_desc_C opc w)"
  by (simp add: cmd_desc_C_def wf_riscv_entry_rv_entry imm_kinds)

lemma wf_cmd_desc_B: "list_all wf_riscv_entry (cmd_desc_B opc w)"
  by (simp add: cmd_desc_B_def wf_riscv_entry_rv_entry imm_kinds)

lemma wf_cmd_desc: "\<forall>e \<in> set (cmd_desc opc w). wf_riscv_entry e"
  using wf_cmd_desc_I wf_cmd_desc_M wf_cmd_desc_C wf_cmd_desc_B by (auto simp: cmd_desc_def list_all_iff)

text \<open>A statement about every entry that a lookup can give.\<close>

lemma find_entry_all:
  assumes "\<forall>e \<in> set (cmd_desc opc w). check_mask_and_type w e bytes \<longrightarrow> P e" "P invalid_instr"
  shows "P (find_entry opc w bytes)"
  using assms by (auto simp: find_entry_def split: option.splits dest: find_SomeD)

lemma wf_find_entry: "wf_riscv_entry (find_entry opc w bytes)"
  by (rule find_entry_all) (blast intro: wf_cmd_desc [THEN bspec], rule wf_invalid_instr)

section \<open>Decoding never fails\<close>

lemma riscv_immediate_value_total:
  assumes "t \<in> fst ` set imm_layout"
  shows "\<exists>l. (t, l) \<in> set imm_layout \<and> riscv_immediate_value (riscv_instr_decoder w) t = Some (assemble l w)"
  using assms immediate_value_layout [of w] by (fastforce simp: list_all_iff)

text \<open>A register of the decoder is one of the file, unless it is a control register whose number is
  not in the list.\<close>

definition csr_number :: "uint32 \<Rightarrow> riscv_reg \<Rightarrow> nat option" where
  "csr_number w t = (if t = S_CSR then Some (unat (take_bit 12 (drop_bit 20 w)))
     else if t = S_SEPC then Some 0x141 else if t = S_MEPC then Some 0x341 else None)"

lemma decoded_riscv_register:
  "valid_reg (riscv_class csrs) (riscv_get_register csrs w t)
    \<longleftrightarrow> (case csr_number w t of None \<Rightarrow> True | Some n \<Rightarrow> n \<in> snd ` set csrs)"
  "riscv_num (riscv_get_register csrs w t) \<le> riscv_MAX_REG csrs"
proof -
  have csr: "riscv_num (from_csr_index csrs n) < riscv_MAX_REG csrs \<longleftrightarrow> n \<in> snd ` set csrs" for n
    using from_csr_index_cases [of csrs n] by (auto simp: riscv_is_valid_def)
  have m: "(0b111110000000 :: uint32) = push_bit 7 (mask 5)" "(0b11111000000000000000 :: uint32) = push_bit 15 (mask 5)"
    "(0b1111100000000000000000000 :: uint32) = push_bit 20 (mask 5)"
    "(0b11111111111100000000000000000000 :: uint32) = push_bit 20 (mask 12)"
    "(0b1111100 :: uint32) = push_bit 2 (mask 5)" "(0b11100 :: uint32) = push_bit 2 (mask 3)"
    "(0b1110000000 :: uint32) = push_bit 7 (mask 3)"
    by (simp_all add: mask_eq_exp_minus_1 push_bit_eq_mult)
  have "riscv_mask w (push_bit k (mask n)) = take_bit n (drop_bit k w)" if "0 < n \<and> k + n \<le> 32" for k n
    using that by (simp add: riscv_mask_field)
  note f = this [of 5 7] this [of 5 15] this [of 5 20] this [of 12 20] this [of 5 2] this [of 3 2] this [of 3 7]
  have "unat (take_bit 5 x) < 32" "unat (take_bit 3 x) < 8" for x :: uint32
    by (simp_all add: unat_take_bit)
  note b = this [of "drop_bit 7 w"] this [of "drop_bit 15 w"] this [of "drop_bit 20 w"] this [of "drop_bit 2 w"]
  show "valid_reg (riscv_class csrs) (riscv_get_register csrs w t)
    \<longleftrightarrow> (case csr_number w t of None \<Rightarrow> True | Some n \<Rightarrow> n \<in> snd ` set csrs)"
    using b f
    by (cases t) (simp_all add: valid_reg_def riscv_class_def csr_number_def csr m riscv_zero_def
        riscv_from_cpu_index_def from_cpu_popular_index_def popular_reg_shift_def, simp_all add: riscv_MAX_REG_def)
  show "riscv_num (riscv_get_register csrs w t) \<le> riscv_MAX_REG csrs"
    using b f from_csr_index_cases(2) [of csrs]
    by (cases t) (simp_all add: m riscv_zero_def
        riscv_from_cpu_index_def from_cpu_popular_index_def popular_reg_shift_def, simp_all add: riscv_MAX_REG_def)
qed

lemma riscv_fill_total:
  assumes "k + length ts \<le> length regs"
  shows "\<exists>regs'. riscv_fill csrs w k ts regs = Some regs' \<and> length regs' = length regs
    \<and> set regs' \<subseteq> set regs \<union> riscv_get_register csrs w ` set ts"
  using assms
proof (induction ts arbitrary: k regs)
  case (Cons t ts)
  have k: "k < length regs" using Cons.prems by simp
  obtain regs' where "riscv_fill csrs w (Suc k) ts (regs[k := riscv_get_register csrs w t]) = Some regs'"
    "length regs' = length regs"
    "set regs' \<subseteq> set (regs[k := riscv_get_register csrs w t]) \<union> riscv_get_register csrs w ` set ts"
    using Cons.IH [of "Suc k" "regs[k := riscv_get_register csrs w t]"] Cons.prems by auto
  moreover have "set (regs[k := riscv_get_register csrs w t]) \<subseteq> insert (riscv_get_register csrs w t) (set regs)"
    by (rule set_update_subset_insert)
  ultimately show ?case using k by auto
qed simp

lemma riscv_init_fields [simp]:
  "v_src (riscv_init e i) = v_src i" "v_dst (riscv_init e i) = v_dst i" "src (riscv_init e i) = src i"
  "dst (riscv_init e i) = dst i" "PC (riscv_init e i) = PC i" "rv_raw (riscv_init e i) = rv_raw i"
  "operation (riscv_init e i) = rv_type e" "mem_size (riscv_init e i) = rv_mem_size e"
  "executor (riscv_init e i) = rv_function e" "trap (riscv_init e i) = trap i"
  "complete (riscv_init e i) = complete i" "wmask (riscv_init e i) = wmask i"
  "new_PC (riscv_init e i) = (if rv_subset e = CHR ''C'' then PC i + 2 else new_PC i)"
  by (simp_all add: riscv_init_def Let_def)

lemma riscv_init_target_fields [simp]:
  "v_src (riscv_init_target i) = v_src i" "v_dst (riscv_init_target i) = v_dst i" "src (riscv_init_target i) = src i"
  "dst (riscv_init_target i) = dst i" "PC (riscv_init_target i) = PC i" "rv_raw (riscv_init_target i) = rv_raw i"
  "operation (riscv_init_target i) = operation i" "mem_size (riscv_init_target i) = mem_size i"
  "executor (riscv_init_target i) = executor i" "trap (riscv_init_target i) = trap i"
  "new_PC (riscv_init_target i) = new_PC i" "wmask (riscv_init_target i) = wmask i"
  "v_imm (riscv_init_target i) = v_imm i"
  by (simp_all add: riscv_init_target_def)

lemma new_riscv_instr_fields [simp]:
  "v_src (new_riscv_instr pc w) = [of_nat NO_VAL32, of_nat NO_VAL32, of_nat NO_VAL32]"
  "v_dst (new_riscv_instr pc w) = [of_nat NO_VAL32, of_nat NO_VAL32]"
  "src (new_riscv_instr pc w) = [riscv_zero, riscv_zero, riscv_zero]"
  "dst (new_riscv_instr pc w) = [riscv_zero, riscv_zero]"
  "PC (new_riscv_instr pc w) = pc" "new_PC (new_riscv_instr pc w) = pc + 4"
  "rv_raw (new_riscv_instr pc w) = w" "trap (new_riscv_instr pc w) = NO_TRAP"
  "wmask (new_riscv_instr pc w) = all_ones"
  by (simp_all add: new_riscv_instr_def new_base_instruction_def new_operation_def operation.extend_def
      base_instruction.extend_def)

text \<open>The decoder as one equation.\<close>

lemma riscv_instr_Some:
  "\<exists>srcs dsts l. length srcs = 3 \<and> length dsts = 2
    \<and> set srcs \<subseteq> insert riscv_zero (range (riscv_get_register csrs bytes))
    \<and> set dsts \<subseteq> insert riscv_zero (range (riscv_get_register csrs bytes))
    \<and> (rv_imm_type (find_entry opc LENGTH('a) bytes), l) \<in> set imm_layout
    \<and> riscv_instr opc csrs bytes pc = Some (riscv_init_target
        ((riscv_init (find_entry opc LENGTH('a) bytes) (new_riscv_instr pc bytes :: 'a::len riscv_instr))
          \<lparr>v_imm := riscv_immediate (rv_imm_type (find_entry opc LENGTH('a) bytes)) (assemble l bytes),
           src := srcs, dst := dsts\<rparr>))"
proof -
  let ?e = "find_entry opc LENGTH('a) bytes"
  have wf: "length (rv_src ?e) = 2" "length (rv_dst ?e) \<le> 2" "rv_imm_type ?e \<in> fst ` set imm_layout"
    using wf_find_entry [of opc "LENGTH('a)" bytes] by (simp_all add: wf_riscv_entry_def)
  obtain l where l: "(rv_imm_type ?e, l) \<in> set imm_layout"
    "riscv_immediate_value (riscv_instr_decoder bytes) (rv_imm_type ?e) = Some (assemble l bytes)"
    using riscv_immediate_value_total [OF wf(3)] by blast
  obtain srcs where s: "riscv_fill csrs bytes 0 (rv_src ?e) [riscv_zero, riscv_zero, riscv_zero] = Some srcs"
    "length srcs = 3" "set srcs \<subseteq> insert riscv_zero (range (riscv_get_register csrs bytes))"
    using riscv_fill_total [of 0 "rv_src ?e" "[riscv_zero, riscv_zero, riscv_zero]" csrs bytes] wf(1) by fastforce
  obtain dsts where d: "riscv_fill csrs bytes 0 (rv_dst ?e) [riscv_zero, riscv_zero] = Some dsts"
    "length dsts = 2" "set dsts \<subseteq> insert riscv_zero (range (riscv_get_register csrs bytes))"
    using riscv_fill_total [of 0 "rv_dst ?e" "[riscv_zero, riscv_zero]" csrs bytes] wf(2) by fastforce
  show ?thesis
    by (intro exI [of _ srcs] exI [of _ dsts] exI [of _ l]) (simp add: l s d riscv_instr_def Let_def)
qed

text \<open>Every word decodes, for any table of opcodes and list of control registers, at any width:
  no assertion fails, the arrays have their lengths, the next address is that of the following
  halfword for a compressed instruction and of the following word for the rest, and every
  register is one of the file. Only a control register whose number is not in the list, in the
  word or of the two that hold the return addresses, is the register past the end.\<close>
lemma riscv_decode_total:
  "\<exists>i :: 'a::len riscv_instr. riscv_instr opc csrs bytes pc = Some i \<and> wf_datapath i
    \<and> length (src i) = 3 \<and> length (dst i) = 2 \<and> rv_raw i = bytes \<and> PC i = pc \<and> trap i = NO_TRAP
    \<and> new_PC i = pc + (if rv_subset (find_entry opc LENGTH('a) bytes) = CHR ''C'' then 2 else 4)
    \<and> set (src i) \<union> set (dst i) \<subseteq> Collect (valid_reg (riscv_class csrs))
        \<union> (if {0x141, 0x341, unat (I_imm (riscv_instr_decoder bytes))} \<subseteq> snd ` set csrs then {}
           else {RISCVRegister (riscv_MAX_REG csrs)})"
proof -
  let ?ok = "Collect (valid_reg (riscv_class csrs))
        \<union> (if {0x141, 0x341, unat (I_imm (riscv_instr_decoder bytes))} \<subseteq> snd ` set csrs then {}
           else {RISCVRegister (riscv_MAX_REG csrs)})"
  have "riscv_get_register csrs bytes t \<in> ?ok" for t
  proof (cases "valid_reg (riscv_class csrs) (riscv_get_register csrs bytes t)")
    case False
    then have "riscv_get_register csrs bytes t = RISCVRegister (riscv_MAX_REG csrs)"
      using decoded_riscv_register(2) [of csrs bytes t]
      by (cases "riscv_get_register csrs bytes t") (simp add: valid_reg_def riscv_class_def)
    moreover have "\<not> {0x141, 0x341, unat (take_bit 12 (drop_bit 20 bytes))} \<subseteq> snd ` set csrs"
      using False decoded_riscv_register(1) [of csrs bytes t]
      by (auto simp: csr_number_def split: option.splits if_splits)
    ultimately show ?thesis by auto
  qed simp
  moreover have "riscv_zero \<in> ?ok"
    by (simp add: valid_reg_def riscv_class_def riscv_zero_def riscv_MAX_REG_def)
  ultimately have ok: "insert riscv_zero (range (riscv_get_register csrs bytes)) \<subseteq> ?ok" by blast
  obtain srcs dsts and i :: "'a riscv_instr" and l where r: "length srcs = 3" "length dsts = 2"
    "set srcs \<subseteq> insert riscv_zero (range (riscv_get_register csrs bytes))"
    "set dsts \<subseteq> insert riscv_zero (range (riscv_get_register csrs bytes))"
    and i: "riscv_instr opc csrs bytes pc = Some i" "i = riscv_init_target
        ((riscv_init (find_entry opc LENGTH('a) bytes) (new_riscv_instr pc bytes :: 'a riscv_instr))
          \<lparr>v_imm := riscv_immediate (rv_imm_type (find_entry opc LENGTH('a) bytes)) (assemble l bytes),
           src := srcs, dst := dsts\<rparr>)"
    using riscv_instr_Some [of csrs bytes opc pc, where 'a = 'a] by blast
  have "set (src i) \<union> set (dst i) \<subseteq> ?ok"
    using order.trans [OF r(3) ok] order.trans [OF r(4) ok] by (simp add: i(2) del: riscv_fields)
  moreover have "wf_datapath i \<and> length (src i) = 3 \<and> length (dst i) = 2 \<and> rv_raw i = bytes \<and> PC i = pc
      \<and> trap i = NO_TRAP \<and> new_PC i = pc + (if rv_subset (find_entry opc LENGTH('a) bytes) = CHR ''C'' then 2 else 4)"
    by (simp add: i(2) r wf_datapath_def)
  ultimately show ?thesis using i(1) by blast
qed

section \<open>Widths\<close>

lemma riscv_width_table:
  "list_all (\<lambda>e. execute_width (rv_function e) \<le> 32 \<or> execute_width (rv_function e) = w
     \<or> execute_width (rv_function e) = 64 \<and> rv_bit_width e = 128) (cmd_desc opc w)"
  by (simp add: cmd_desc_def cmd_desc_tables invalid_instr_def rv_entry_def riscv_executors)

lemma riscv_find_width:
  assumes "w \<in> {32, 64, 128}"
  shows "execute_width (rv_function (find_entry opc w bytes)) \<le> w
    \<and> (find_entry opc w bytes = invalid_instr \<or> check_mask_and_type w (find_entry opc w bytes) bytes)"
proof (rule find_entry_all)
  show "\<forall>e \<in> set (cmd_desc opc w). check_mask_and_type w e bytes \<longrightarrow> execute_width (rv_function e) \<le> w
    \<and> (e = invalid_instr \<or> check_mask_and_type w e bytes)"
    using riscv_width_table [of w opc] assms by (auto simp: list_all_iff check_mask_and_type_def)
qed (simp add: invalid_instr_def rv_entry_def do_nothing_def)

text \<open>C26: On registers of 32, 64 or 128 bits, a decoded RISC-V instruction never works at a width its
  registers do not have: either an entry for that width matches the word, or the instruction
  only raises the unknown instruction trap.\<close>
theorem riscv_width_gate:
  assumes "LENGTH('a) \<in> {32, 64, 128}" "riscv_instr opc csrs bytes pc = Some (i :: 'a::len riscv_instr)"
  shows "execute_width (executor i) \<le> LENGTH('a)
    \<and> (check_mask_and_type LENGTH('a) (find_entry opc LENGTH('a) bytes) bytes
       \<or> execute i = i\<lparr>trap := UNKNOWN_INSTRUCTION, complete := True\<rparr>)"
proof -
  have "executor i = rv_function (find_entry opc LENGTH('a) bytes)"
    using riscv_instr_Some [of csrs bytes opc pc, where 'a = 'a] assms(2) by auto
  then show ?thesis
    using riscv_find_width [OF assms(1), of opc bytes]
    by (auto simp: invalid_instr_def rv_entry_def do_nothing_def execute_def unknown_instruction_def Let_def)
qed

text \<open>The opcode table of the witnesses, with the words of two instructions; the rest match nothing.\<close>

definition example_opcodes :: opcodes where
  "example_opcodes n = (if n = ''beq'' then (0x63, 0x707f) else if n = ''ld'' then (0x3003, 0x707f) else (1, 0))"

lemma example_table:
  "list_all (\<lambda>e. \<not> check_mask_and_type 32 e 0x3003) (cmd_desc example_opcodes 32)"
  by (simp add: cmd_desc_def cmd_desc_tables invalid_instr_def instr_invalid_def rv_entry_def insn_def
      example_opcodes_def check_mask_and_type_def check_mask_def rv_all_def)

lemma riscv_width_gate_witness:
  "\<exists>i :: 32 riscv_instr. riscv_instr example_opcodes [] 0x00003003 0 = Some i
    \<and> execute i = i\<lparr>trap := UNKNOWN_INSTRUCTION, complete := True\<rparr>"
proof -
  obtain i :: "32 riscv_instr" where i: "riscv_instr example_opcodes [] 0x00003003 0 = Some i"
    using riscv_instr_Some [where 'a = 32] by blast
  have "find (\<lambda>e. check_mask_and_type 32 e 0x3003) (cmd_desc example_opcodes 32) = None"
    using example_table unfolding find_None_all list_all_iff .
  then have "find_entry example_opcodes 32 0x3003 = invalid_instr" by (simp only: find_entry_def option.case)
  then have "\<not> check_mask_and_type 32 (find_entry example_opcodes 32 0x3003) 0x3003"
    by (simp add: invalid_instr_def instr_invalid_def rv_entry_def check_mask_and_type_def check_mask_def)
  with riscv_width_gate [OF _ i] i show ?thesis by auto
qed

section \<open>Branch targets\<close>

lemma sign_extension_twice:
  assumes "0 < n" "n \<le> m" "m \<le> LENGTH('a)" "m \<le> 64"  "n \<le> 32"
  shows "sign_extension (ucast (sign_extension (ucast (x :: uint32)) n :: 'a::len word) :: Addr) m
    = word_of_int (signed_take_bit (n - 1) (uint x))"
proof (rule bit_word_eqI)
  fix k assume k: "k < LENGTH(64)"
  have "min (min k (m - Suc 0)) (n - Suc 0) = min k (n - Suc 0)" "min k (m - Suc 0) < LENGTH('a)" "min k (m - Suc 0) < 64"
    "min k (n - Suc 0) < LENGTH('a)" "min k (n - Suc 0) < 32" "n - 1 = n - Suc 0"
    using assms by linarith+
  with k assms
  show "bit (sign_extension (ucast (sign_extension (ucast x) n :: 'a word) :: Addr) m) k
      = bit (word_of_int (signed_take_bit (n - 1) (uint x)) :: Addr) k"
    by (simp add: bit_sign_extension bit_ucast_iff bit_word_of_int_iff bit_signed_take_bit_iff bit_uint_iff min.commute)
qed

lemma riscv_target:
  assumes "riscv_instr opc csrs bytes pc = Some (i :: 'a::len riscv_instr)" "20 \<le> LENGTH('a)"
    "(t, l) \<in> set imm_layout" "t = rv_imm_type (find_entry opc LENGTH('a) bytes)"
  shows "is_branch i \<Longrightarrow> t = CHR ''B'' \<Longrightarrow> target i = pc + word_of_int (signed_take_bit 11 (uint (assemble l bytes)))"
    "is_branch i \<Longrightarrow> t = C_J \<Longrightarrow> target i = pc + word_of_int (signed_take_bit 11 (uint (assemble l bytes)))"
    "is_branch i \<Longrightarrow> t = C_B \<Longrightarrow> target i = pc + word_of_int (signed_take_bit 8 (uint (assemble l bytes)))"
    "is_direct_jump i \<Longrightarrow> t = CHR ''J'' \<Longrightarrow> target i = pc + word_of_int (signed_take_bit 19 (uint (assemble l bytes)))"
proof -
  have "list_all (\<lambda>(t, l). list_all (\<lambda>(t', l'). t = t' \<longrightarrow> l = l') imm_layout) imm_layout"
    by (simp add: imm_layout_def immediate_types)
  then have unique: "(t, l') \<in> set imm_layout \<Longrightarrow> l' = l" for l'
    using assms(3) by (fastforce simp: list_all_iff)
  obtain srcs dsts where i: "i = riscv_init_target
        ((riscv_init (find_entry opc LENGTH('a) bytes) (new_riscv_instr pc bytes :: 'a::len riscv_instr))
          \<lparr>v_imm := riscv_immediate t (assemble l bytes), src := srcs, dst := dsts\<rparr>)"
    using riscv_instr_Some [of csrs bytes opc pc, where 'a = 'a] assms(1) unique unfolding assms(4) by auto
  have "is_branch i \<Longrightarrow> target i = pc + sign_extension (ucast (riscv_immediate t (assemble l bytes) :: 'a word)) 12"
    "is_direct_jump i \<Longrightarrow> target i = pc + sign_extension (ucast (riscv_immediate t (assemble l bytes) :: 'a word)) 20"
    by (auto simp: i riscv_init_target_def operation_predicates)
  moreover have "sign_extension (ucast (sign_extension (ucast x) n :: 'a word) :: Addr) m
    = word_of_int (signed_take_bit (n - 1) (uint x))" if "0 < n \<and> n \<le> m \<and> m \<le> 20" for n m and x :: uint32
    by (rule sign_extension_twice) (use that assms(2) in auto)
  ultimately show "is_branch i \<Longrightarrow> t = CHR ''B'' \<Longrightarrow> target i = pc + word_of_int (signed_take_bit 11 (uint (assemble l bytes)))"
    "is_branch i \<Longrightarrow> t = C_J \<Longrightarrow> target i = pc + word_of_int (signed_take_bit 11 (uint (assemble l bytes)))"
    "is_branch i \<Longrightarrow> t = C_B \<Longrightarrow> target i = pc + word_of_int (signed_take_bit 8 (uint (assemble l bytes)))"
    "is_direct_jump i \<Longrightarrow> t = CHR ''J'' \<Longrightarrow> target i = pc + word_of_int (signed_take_bit 19 (uint (assemble l bytes)))"
    by (simp_all add: riscv_immediate_def immediate_types)
qed

text \<open>The offset of a branch or jump in the instruction set: the immediate with its sign bit.\<close>

definition isa_offset :: "char \<Rightarrow> nat \<Rightarrow> uint32 \<Rightarrow> Addr" where
  "isa_offset t sign bytes = (case map_of imm_layout t of None \<Rightarrow> 0
     | Some l \<Rightarrow> word_of_int (signed_take_bit sign (uint (assemble l bytes))))"

lemma imm_layout_unique: "(t, l) \<in> set imm_layout \<Longrightarrow> map_of imm_layout t = Some l"
proof (rule map_of_is_SomeI)
  show "distinct (map fst imm_layout)" by (simp add: imm_layout_def immediate_types)
qed

lemma isa_offset_eq: "(t, l) \<in> set imm_layout \<Longrightarrow>
    isa_offset t sign bytes = word_of_int (signed_take_bit sign (uint (assemble l bytes)))"
  by (simp add: isa_offset_def imm_layout_unique)

lemma bit_assemble:
  "bit (assemble l w) n \<longleftrightarrow> n < 32 \<and> (\<exists>(m, k, len) \<in> set l. m \<le> n \<and> n - m < len \<and> bit w (k + (n - m)))"
  by (induction l w rule: assemble.induct) (auto simp: bit_simps)

text \<open>Extending from one bit lower is right exactly if the two bits agree.\<close>

lemma extension_one_lower:
  assumes "Suc n < 32"
  shows "(word_of_int (signed_take_bit n (uint (x :: uint32))) :: Addr) = word_of_int (signed_take_bit (Suc n) (uint x))
    \<longleftrightarrow> bit x n = bit x (Suc n)"
proof -
  have b: "bit (word_of_int (signed_take_bit m (uint x)) :: Addr) k \<longleftrightarrow> k < 64 \<and> bit x (min k m)" for m k
    by (simp add: bit_word_of_int_iff bit_signed_take_bit_iff bit_uint_iff)
      (use bit_imp_le_length [of x "min k m"] in \<open>auto simp: min.commute\<close>)
  show ?thesis
  proof
    assume "(word_of_int (signed_take_bit n (uint x)) :: Addr) = word_of_int (signed_take_bit (Suc n) (uint x))"
    then show "bit x n = bit x (Suc n)"
      using b [of n "Suc n"] b [of "Suc n" "Suc n"] assms by (simp add: min_def)
  next
    assume eq: "bit x n = bit x (Suc n)"
    show "(word_of_int (signed_take_bit n (uint x)) :: Addr) = word_of_int (signed_take_bit (Suc n) (uint x))"
    proof (rule bit_word_eqI)
      fix k assume "k < LENGTH(64)"
      show "bit (word_of_int (signed_take_bit n (uint x)) :: Addr) k
        = bit (word_of_int (signed_take_bit (Suc n) (uint x)) :: Addr) k"
        unfolding b using eq by (cases "k \<le> n") (auto simp: min_def not_le le_Suc_eq)
    qed
  qed
qed

lemma riscv_target_offsets:
  fixes i :: "'a::len riscv_instr"
  assumes "riscv_instr opc csrs bytes pc = Some i" "20 \<le> LENGTH('a)"
    "t = rv_imm_type (find_entry opc LENGTH('a) bytes)"
  shows "is_branch i \<Longrightarrow> t = C_J \<Longrightarrow> target i = pc + isa_offset C_J 11 bytes"
    "is_branch i \<Longrightarrow> t = C_B \<Longrightarrow> target i = pc + isa_offset C_B 8 bytes"
    "is_branch i \<Longrightarrow> t = CHR ''B'' \<Longrightarrow>
       (target i = pc + isa_offset (CHR ''B'') 12 bytes \<longleftrightarrow> bit bytes 31 = bit bytes 7)"
    "is_direct_jump i \<Longrightarrow> t = CHR ''J'' \<Longrightarrow>
       (target i = pc + isa_offset (CHR ''J'') 20 bytes \<longleftrightarrow> bit bytes 31 = bit bytes 19)"
proof -
  note t = riscv_target [OF assms(1,2) _ assms(3)]
  have l: "(C_J, the (map_of imm_layout C_J)) \<in> set imm_layout" "(C_B, the (map_of imm_layout C_B)) \<in> set imm_layout"
    by (simp_all add: imm_layout_def immediate_types)
  have B: "(CHR ''B'', [(12, 31, 1), (5, 25, 6), (1, 8, 4), (11, 7, 1)]) \<in> set imm_layout" (is "(_, ?B) \<in> _")
    and J: "(CHR ''J'', [(20, 31, 1), (1, 21, 10), (11, 20, 1), (12, 12, 8)]) \<in> set imm_layout" (is "(_, ?J) \<in> _")
    by (simp_all add: imm_layout_def)
  show "is_branch i \<Longrightarrow> t = C_J \<Longrightarrow> target i = pc + isa_offset C_J 11 bytes"
    "is_branch i \<Longrightarrow> t = C_B \<Longrightarrow> target i = pc + isa_offset C_B 8 bytes"
    using t(2) t(3) l isa_offset_eq by simp_all
  have bits: "bit (assemble ?B bytes) 11 = bit bytes 7" "bit (assemble ?B bytes) 12 = bit bytes 31"
    "bit (assemble ?J bytes) 19 = bit bytes 19" "bit (assemble ?J bytes) 20 = bit bytes 31"
    by (simp_all add: bit_assemble del: assemble.simps)
  show "target i = pc + isa_offset (CHR ''B'') 12 bytes \<longleftrightarrow> bit bytes 31 = bit bytes 7"
    if "is_branch i" "t = CHR ''B''"
    using t(1) [of ?B] B that extension_one_lower [of 11 "assemble ?B bytes"] bits by (auto simp: isa_offset_eq)
  show "target i = pc + isa_offset (CHR ''J'') 20 bytes \<longleftrightarrow> bit bytes 31 = bit bytes 19"
    if "is_direct_jump i" "t = CHR ''J''"
    using t(4) [of ?J] J that extension_one_lower [of 19 "assemble ?J bytes"] bits by (auto simp: isa_offset_eq)
qed

text \<open>C23: Compressed branches and jumps go to the address the instruction set gives. The offsets of
  the uncompressed ones have 13 and 21 bits but are extended from 12 and 20: the target is the
  right one exactly when the top two bits of the offset agree.\<close>
theorem riscv_branch_targets:
  fixes i :: "'a::len riscv_instr"
  assumes "riscv_instr opc csrs bytes pc = Some i" "20 \<le> LENGTH('a)"
    "t = rv_imm_type (find_entry opc LENGTH('a) bytes)"
  shows "(is_branch i \<and> t = C_J \<longrightarrow> target i = pc + isa_offset C_J 11 bytes)
    \<and> (is_branch i \<and> t = C_B \<longrightarrow> target i = pc + isa_offset C_B 8 bytes)
    \<and> (is_branch i \<and> t = CHR ''B'' \<longrightarrow>
       (target i = pc + isa_offset (CHR ''B'') 12 bytes \<longleftrightarrow> bit bytes 31 = bit bytes 7))
    \<and> (is_direct_jump i \<and> t = CHR ''J'' \<longrightarrow>
       (target i = pc + isa_offset (CHR ''J'') 20 bytes \<longleftrightarrow> bit bytes 31 = bit bytes 19))"
  using riscv_target_offsets [OF assms] by blast

lemma example_beq_found: "find_entry example_opcodes 32 0x80000063 =
    rv_entry (CHR ''I'') (insn example_opcodes ''beq'') execute_beq OUT_BRANCH (CHR ''B'') Imm_ARITH [S_RS1, S_RS2] [S_ZERO] 0 rv_all"
proof -
  have "find (\<lambda>e. check_mask_and_type 32 e 0x80000063) (cmd_desc example_opcodes 32) = Some
    (rv_entry (CHR ''I'') (insn example_opcodes ''beq'') execute_beq OUT_BRANCH (CHR ''B'') Imm_ARITH [S_RS1, S_RS2] [S_ZERO] 0 rv_all)"
    by (simp add: cmd_desc_def cmd_desc_tables invalid_instr_def instr_invalid_def rv_entry_def insn_def
        example_opcodes_def check_mask_and_type_def check_mask_def rv_all_def)
  then show ?thesis by (simp only: find_entry_def option.case)
qed

lemma riscv_branch_targets_witness:
  "\<exists>i :: 32 riscv_instr. riscv_instr example_opcodes [] 0x80000063 0x10000 = Some i
    \<and> target i \<noteq> 0x10000 + isa_offset (CHR ''B'') 12 0x80000063"
proof -
  obtain i :: "32 riscv_instr" where i: "riscv_instr example_opcodes [] 0x80000063 0x10000 = Some i"
    using riscv_instr_Some [where 'a = 32] by blast
  then have "is_branch i"
    using riscv_instr_Some [of "[]" "0x80000063" example_opcodes "0x10000", where 'a = 32]
    by (auto simp: operation_predicates example_beq_found rv_entry_def)
  moreover have "bit (0x80000063 :: uint32) 31 \<noteq> bit (0x80000063 :: uint32) 7"
    by simp
  ultimately show ?thesis
    using riscv_branch_targets [OF i _ refl] i by (auto simp: example_beq_found rv_entry_def)
qed

end
