(* ===== verification/Replacement.thy ===== *)
theory Replacement
  imports Macro
begin

text \<open>
  The replacement policies of simulator/infra/replacement: least recently used, on a list of
  ways, and its approximation by a binary tree of flags in an array. A node's children are at
  twice its position plus one and two, and the leaves after the last flag are the ways. The
  locale \<open>replacement_policy\<close> states what a cache relies on.
\<close>

datatype replacement_error =
    NotPowerOfTwo | InvertedAccess | UndefinedPolicy string

section \<open>LRU\<close>

text \<open>
  The vector of iterators points to the node of every way, and a node's value is its way:
  moving the node of \<open>way\<close> is moving the value \<open>way\<close>.
\<close>

type_synonym lru = "nat list"

definition new_lru :: "nat \<Rightarrow> lru" where
  "new_lru ways = fold (\<lambda>i l. i # l) [0..<ways] []"

definition lru_touch :: "nat \<Rightarrow> lru \<Rightarrow> lru" where
  "lru_touch way l = way # remove1 way l"

definition lru_set_to_erase :: "nat \<Rightarrow> lru \<Rightarrow> lru" where
  "lru_set_to_erase way l = remove1 way l @ [way]"

definition lru_update :: "lru \<Rightarrow> nat \<times> lru" where
  "lru_update l = (let lru_elem = last l in (lru_elem, lru_touch lru_elem l))"

section \<open>Pseudo-LRU\<close>

datatype flag = Left | Right

record plru =
  plru_nodes :: "flag list"
  plru_ways :: nat

definition new_plru :: "uint64 \<Rightarrow> replacement_error + plru" where
  "new_plru ways =
     (if \<not> is_power_of_two ways then Inl NotPowerOfTwo
      else Inr \<lparr>plru_nodes = replicate (unat ways - 1) Left, plru_ways = unat ways\<rparr>)"

definition get_next_node :: "flag list \<Rightarrow> nat \<Rightarrow> nat" where
  "get_next_node nodes node = node * 2 + (if nodes ! node = Left then 1 else 2)"

definition get_direction_to_prev_node :: "nat \<Rightarrow> flag" where
  "get_direction_to_prev_node node = (if node mod 2 \<noteq> 0 then Left else Right)"

definition reverse_node :: "nat \<Rightarrow> flag list \<Rightarrow> flag list" where
  "reverse_node node nodes = nodes[node := (if nodes ! node = Left then Right else Left)]"

function touch_loop :: "nat \<Rightarrow> flag list \<Rightarrow> flag list" where
  "touch_loop node nodes =
     (if node \<noteq> 0
      then let parent = (node - 1) div 2;
               nodes = (if get_direction_to_prev_node node = nodes ! parent then reverse_node parent nodes else nodes)
           in touch_loop parent nodes
      else nodes)"
  by pat_completeness auto
termination by (relation "measure fst") auto

function find_leaf :: "flag list \<Rightarrow> nat \<Rightarrow> nat" where
  "find_leaf nodes node = (if node < length nodes then find_leaf nodes (get_next_node nodes node) else node)"
  by pat_completeness auto
termination by (relation "measure (\<lambda>(nodes, node). length nodes - node)") (auto simp: get_next_node_def)

declare touch_loop.simps [simp del] find_leaf.simps [simp del]

definition plru_touch :: "nat \<Rightarrow> plru \<Rightarrow> plru" where
  "plru_touch way p = p\<lparr>plru_nodes := touch_loop (way + length (plru_nodes p)) (plru_nodes p)\<rparr>"

definition plru_update :: "plru \<Rightarrow> nat \<times> plru" where
  "plru_update p =
     (let node = find_leaf (plru_nodes p) 0; way = node - length (plru_nodes p)
      in (way, plru_touch way p))"

section \<open>The policy by its name\<close>

datatype replacement = LRU lru | PseudoLRU plru

definition create_cache_replacement :: "string \<Rightarrow> uint64 \<Rightarrow> replacement_error + replacement" where
  "create_cache_replacement name ways =
     (if name = ''LRU'' then Inr (LRU (new_lru (unat ways)))
      else if name = ''pseudo-LRU''
      then (case new_plru ways of Inl e \<Rightarrow> Inl e | Inr p \<Rightarrow> Inr (PseudoLRU p))
      else Inl (UndefinedPolicy name))"

fun repl_touch :: "nat \<Rightarrow> replacement \<Rightarrow> replacement" where
  "repl_touch way (LRU l) = LRU (lru_touch way l)"
| "repl_touch way (PseudoLRU p) = PseudoLRU (plru_touch way p)"

fun repl_set_to_erase :: "nat \<Rightarrow> replacement \<Rightarrow> replacement_error + replacement" where
  "repl_set_to_erase way (LRU l) = Inr (LRU (lru_set_to_erase way l))"
| "repl_set_to_erase way (PseudoLRU p) = Inl InvertedAccess"

fun repl_update :: "replacement \<Rightarrow> nat \<times> replacement" where
  "repl_update (LRU l) = map_prod id LRU (lru_update l)"
| "repl_update (PseudoLRU p) = map_prod id PseudoLRU (plru_update p)"

fun get_ways :: "replacement \<Rightarrow> nat" where
  "get_ways (LRU l) = length l"
| "get_ways (PseudoLRU p) = plru_ways p"

section \<open>What a cache relies on\<close>

locale replacement_policy =
  fixes rtouch :: "nat \<Rightarrow> 's \<Rightarrow> 's"
    and rupdate :: "'s \<Rightarrow> nat \<times> 's"
    and ok :: "nat \<Rightarrow> 's \<Rightarrow> bool"
  assumes ok_touch: "ok n s \<Longrightarrow> w < n \<Longrightarrow> ok n (rtouch w s)"
    and victim_bound: "ok n s \<Longrightarrow> fst (rupdate s) < n"
    and update_touches: "ok n s \<Longrightarrow> snd (rupdate s) = rtouch (fst (rupdate s)) s"
    and touch_protects: "ok n s \<Longrightarrow> w < n \<Longrightarrow> 1 < n \<Longrightarrow> fst (rupdate (rtouch w s)) \<noteq> w"
begin

lemma ok_update: "ok n s \<Longrightarrow> ok n (snd (rupdate s))"
  by (simp add: update_touches ok_touch victim_bound)

text \<open>The victim of an update is not the victim of the next.\<close>

lemma victims_differ: "ok n s \<Longrightarrow> 1 < n \<Longrightarrow> fst (rupdate (snd (rupdate s))) \<noteq> fst (rupdate s)"
  by (simp add: update_touches touch_protects victim_bound)

end

section \<open>LRU meets the contract\<close>

lemma new_lru_eq: "new_lru n = rev [0..<n]"
  by (induction n) (simp_all add: new_lru_def)

definition lru_ok :: "nat \<Rightarrow> lru \<Rightarrow> bool" where
  "lru_ok n l \<longleftrightarrow> distinct l \<and> set l = {..<n} \<and> 0 < n"

lemma lru_touch_ok: "lru_ok n l \<Longrightarrow> w < n \<Longrightarrow> lru_ok n (lru_touch w l)"
  by (auto simp: lru_ok_def lru_touch_def)

lemma new_lru_ok: "0 < n \<Longrightarrow> lru_ok n (new_lru n)"
  by (auto simp: lru_ok_def new_lru_eq)

lemma lru_update_eq [simp]: "lru_update l = (last l, lru_touch (last l) l)"
  by (simp add: lru_update_def Let_def)

lemma lru_victim:
  assumes "lru_ok n l"
  shows "last l < n"
proof -
  have s: "set l = {..<n}" "0 \<in> {..<n}" using assms by (simp_all add: lru_ok_def)
  then have "l \<noteq> []" by (metis emptyE list.set(1))
  then have "last l \<in> {..<n}" unfolding s(1) [symmetric] by (rule last_in_set)
  then show ?thesis by simp
qed

lemma lru_protects:
  assumes l: "lru_ok n l" and w: "w < n" "1 < n"
  shows "last (lru_touch w l) \<noteq> w"
proof -
  have s: "set (remove1 w l) = {..<n} - {w}" "w \<notin> set (remove1 w l)" using l by (simp_all add: lru_ok_def)
  have "(if w = 0 then 1 else 0) \<in> {..<n} - {w}" using w by simp
  then have "remove1 w l \<noteq> []" using s(1) by (metis emptyE list.set(1))
  moreover from this have "last (remove1 w l) \<noteq> w" using s(2) last_in_set by metis
  ultimately show ?thesis by (simp add: lru_touch_def)
qed

interpretation lru: replacement_policy lru_touch lru_update lru_ok
  by unfold_locales (simp_all add: lru_touch_ok lru_victim lru_protects)

text \<open>The recency order: the list is the history without repetitions, latest first.\<close>

lemma remdups_append_single: "remdups (xs @ [x]) = remove1 x (remdups xs) @ [x]"
  by (induction xs) (auto simp: remove1_append remove1_idem)

lemma lru_touches: "fold lru_touch ts (rev (remdups xs)) = rev (remdups (xs @ ts))"
proof (induction ts arbitrary: xs)
  case (Cons t ts)
  have "remove1 t (rev (remdups xs)) = rev (remove1 t (remdups xs))"
    by (simp add: distinct_remove1_removeAll removeAll_filter_not_eq rev_filter)
  then have "lru_touch t (rev (remdups xs)) = rev (remdups (xs @ [t]))"
    by (simp add: lru_touch_def remdups_append_single)
  then show ?case using Cons.IH [of "xs @ [t]"] by simp
qed simp

text \<open>C33: LRU evicts the least recently used way: after any sequence of touches of a new policy, the
  list of ways is the history, begun with the ways in order and ended with the last touch,
  with only the latest use of every way, and the victim is the one whose latest use is oldest.\<close>
theorem lru_recency:
  "fold lru_touch ts (new_lru n) = rev (remdups ([0..<n] @ ts))
    \<and> fst (lru_update (fold lru_touch ts (new_lru (Suc n)))) = hd (remdups ([0..<Suc n] @ ts))"
proof -
  have "fold lru_touch ts (new_lru n) = rev (remdups ([0..<n] @ ts))" for n
    using lru_touches [of ts "[0..<n]"] by (simp add: new_lru_eq distinct_remdups_id)
  moreover have "remdups ([0..<Suc n] @ ts) \<noteq> []" by simp
  ultimately show ?thesis by (simp add: last_rev)
qed

section \<open>The tree of pseudo-LRU\<close>

text \<open>
  Positions are numbered from one, as in a binary heap: the flag of position \<open>q\<close> is node
  \<open>q - 1\<close>, its children are \<open>2 * q\<close> and \<open>2 * q + 1\<close>, and the leaf of a way is the position
  \<open>way + ways\<close>. The ancestors of a leaf are its quotients by powers of two.
\<close>

definition points_right :: "flag list \<Rightarrow> nat \<Rightarrow> bool" where
  "points_right f q \<longleftrightarrow> f ! (q - 1) = Right"

definition plru_ok :: "nat \<Rightarrow> plru \<Rightarrow> bool" where
  "plru_ok n p \<longleftrightarrow> plru_ways p = n \<and> (\<exists>k. n = 2 ^ k) \<and> length (plru_nodes p) = n - 1"

lemma touch_loop_0 [simp]: "touch_loop 0 f = f"
  by (simp add: touch_loop.simps)

lemma length_touch_loop [simp]: "length (touch_loop node f) = length f"
proof (induction node f rule: touch_loop.induct)
  case (1 node f)
  then show ?case by (subst touch_loop.simps) (simp add: Let_def reverse_node_def)
qed

text \<open>One round of the loop makes the parent point away from the child.\<close>

lemma touch_loop_step:
  assumes "1 < q" "q div 2 \<le> length f"
  shows "touch_loop (q - 1) f = touch_loop (q div 2 - 1) (f[q div 2 - 1 := (if even q then Right else Left)])"
proof -
  have i: "(q - 1 - 1) div 2 = q div 2 - 1" "q div 2 - 1 < length f" using assms by linarith+
  have e: "(q - 1) mod 2 \<noteq> 0 \<longleftrightarrow> even q" using assms(1) by presburger
  have d: "get_direction_to_prev_node (q - 1) = (if even q then Left else Right)"
    using e by (simp add: get_direction_to_prev_node_def)
  have u: "f[q div 2 - 1 := (if even q then Right else Left)]
      = (if get_direction_to_prev_node (q - 1) = f ! (q div 2 - 1) then reverse_node (q div 2 - 1) f else f)"
    unfolding d reverse_node_def
    using i(2) by (cases "f ! (q div 2 - 1)"; cases "even q") (simp_all add: list_update_same_conv)
  have "q - 1 \<noteq> 0" using assms(1) by simp
  then show ?thesis
    unfolding u by (subst touch_loop.simps) (simp only: Let_def i(1) if_True not_False_eq_True)
qed

lemma touch_loop_other:
  assumes "q div 2 \<le> length f" "0 < r" "\<And>i. 0 < i \<Longrightarrow> q div 2 ^ i \<noteq> r"
  shows "touch_loop (q - 1) f ! (r - 1) = f ! (r - 1)"
  using assms
proof (induction q arbitrary: f rule: less_induct)
  case (less q)
  show ?case
  proof (cases "1 < q")
    case True
    let ?f = "f[q div 2 - 1 := (if even q then Right else Left)]"
    have "q div 2 div 2 ^ i \<noteq> r" for i
      using less.prems(3) [of "Suc i"] by (simp add: div_mult2_eq)
    moreover have "q div 2 \<noteq> r" using less.prems(3) [of 1] by simp
    ultimately show ?thesis
      using less.IH [of "q div 2" ?f] True less.prems(1,2)
      by (subst touch_loop_step) (auto simp: nth_list_update_neq)
  qed (use less in simp)
qed

text \<open>After a touch, every ancestor points away from the path.\<close>

lemma touch_loop_ancestor:
  assumes "q div 2 \<le> length f" "0 < i" "0 < q div 2 ^ i"
  shows "points_right (touch_loop (q - 1) f) (q div 2 ^ i) \<longleftrightarrow> even (q div 2 ^ (i - 1))"
  using assms
proof (induction i arbitrary: q f)
  case (Suc i)
  let ?f = "f[q div 2 - 1 := (if even q then Right else Left)]"
  have q: "1 < q" "0 < q div 2"
  proof -
    have "q div 2 ^ Suc i \<le> q div 2" by (simp add: div_mult2_eq)
    then show "0 < q div 2" using Suc.prems(3) by linarith
    then show "1 < q" by linarith
  qed
  show ?case
  proof (cases "i = 0")
    case True
    have "touch_loop (q div 2 - 1) ?f ! (q div 2 - 1) = ?f ! (q div 2 - 1)"
    proof (rule touch_loop_other)
      show "q div 2 div 2 ^ j \<noteq> q div 2" if "0 < j" for j
      proof -
        have "q div 2 div 2 ^ j < q div 2" using one_less_power [of "2 :: nat" j] that q(2) by (intro div_less_dividend) simp_all
        then show ?thesis by simp
      qed
    qed (use Suc.prems(1) q in auto)
    then show ?thesis
      using True Suc.prems(1) q by (subst touch_loop_step) (simp_all add: points_right_def)
  next
    case False
    then obtain j where j: "i = Suc j" by (cases i) auto
    have e: "q div 2 ^ Suc i = q div 2 div 2 ^ i" "q div 2 ^ (Suc i - 1) = q div 2 div 2 ^ (i - 1)"
      by (simp_all only: power_Suc div_mult2_eq diff_Suc_1 j)
    have "points_right (touch_loop (q div 2 - 1) ?f) (q div 2 div 2 ^ i) \<longleftrightarrow> even (q div 2 div 2 ^ (i - 1))"
      using Suc.prems False e by (intro Suc.IH) simp_all
    then show ?thesis
      unfolding e using Suc.prems(1) q by (subst touch_loop_step)
  qed
qed simp

text \<open>The path of the flags ends at the victim.\<close>

definition on_path :: "flag list \<Rightarrow> nat \<Rightarrow> bool" where
  "on_path f q \<longleftrightarrow> (\<forall>i > 0. 0 < q div 2 ^ i \<longrightarrow> (points_right f (q div 2 ^ i) \<longleftrightarrow> odd (q div 2 ^ (i - 1))))"

lemma on_path_next:
  assumes "on_path f q" "0 < q"
  shows "on_path f (get_next_node f (q - 1) + 1)"
proof -
  let ?p = "2 * q + (if points_right f q then 1 else 0)"
  have nxt: "get_next_node f (q - 1) + 1 = ?p"
    using assms(2) by (cases "f ! (q - 1)") (auto simp: get_next_node_def points_right_def)
  have "?p div 2 = q" by simp
  then have d: "?p div 2 ^ Suc i = q div 2 ^ i" for i by (simp only: power_Suc div_mult2_eq)
  have "points_right f (?p div 2 ^ i) \<longleftrightarrow> odd (?p div 2 ^ (i - 1))" if i: "0 < i" "0 < ?p div 2 ^ i" for i
  proof -
    obtain j where j: "i = Suc j" using i(1) by (cases i) auto
    show ?thesis
    proof (cases j)
      case 0
      then show ?thesis using j d [of 0] by simp
    next
      case (Suc l)
      then have "points_right f (q div 2 ^ Suc l) \<longleftrightarrow> odd (q div 2 ^ l)"
        using assms(1) i j d [of "Suc l"] unfolding on_path_def by (metis diff_Suc_1 zero_less_Suc)
      then show ?thesis using j Suc d [of "Suc l"] d [of l] by (metis diff_Suc_1)
    qed
  qed
  then show ?thesis unfolding nxt on_path_def by blast
qed

lemma find_leaf_path:
  assumes "on_path f q" "0 < q" "q \<le> 2 * length f + 1"
  shows "on_path f (find_leaf f (q - 1) + 1) \<and> length f \<le> find_leaf f (q - 1)
    \<and> find_leaf f (q - 1) \<le> 2 * length f"
  using assms
proof (induction "length f - (q - 1)" arbitrary: q rule: less_induct)
  case less
  show ?case
  proof (cases "q - 1 < length f")
    case True
    let ?p = "get_next_node f (q - 1) + 1"
    have "?p \<le> 2 * length f + 1" "q < ?p" using True by (auto simp: get_next_node_def)
    moreover from this have "length f - (?p - 1) < length f - (q - 1)" 
      using True less.prems(2) by linarith
    ultimately show ?thesis
      using less.hyps [of ?p] on_path_next [OF less.prems(1,2)] True by (subst (1 2 3) find_leaf.simps) simp
  next
    case False
    then have "find_leaf f (q - 1) = q - 1" by (subst find_leaf.simps) simp
    then show ?thesis using less.prems False by simp
  qed
qed

section \<open>Pseudo-LRU meets the contract\<close>

lemma plru_update_eq: "plru_update p = (find_leaf (plru_nodes p) 0 - length (plru_nodes p),
    plru_touch (find_leaf (plru_nodes p) 0 - length (plru_nodes p)) p)"
  by (simp add: plru_update_def Let_def)

lemma plru_touch_ok: "plru_ok n p \<Longrightarrow> plru_ok n (plru_touch w p)"
  by (auto simp: plru_ok_def plru_touch_def)

lemma plru_victim:
  assumes "plru_ok n p"
  shows "fst (plru_update p) < n" "on_path (plru_nodes p) (fst (plru_update p) + n)"
proof -
  let ?f = "plru_nodes p"
  have n: "length ?f = n - 1" "0 < n" using assms by (auto simp: plru_ok_def)
  have "(1 :: nat) div 2 ^ i = 0" if "0 < i" for i
    using one_less_power [of "2 :: nat" i] that by simp
  then have "on_path ?f 1" by (simp add: on_path_def)
  then have l: "on_path ?f (find_leaf ?f 0 + 1)" "length ?f \<le> find_leaf ?f 0" "find_leaf ?f 0 \<le> 2 * length ?f"
    using find_leaf_path [of ?f 1] by simp_all
  have "fst (plru_update p) + n = find_leaf ?f 0 + 1"
    using n l(2) by (simp add: plru_update_eq)
  then show "fst (plru_update p) < n" "on_path ?f (fst (plru_update p) + n)"
    using n l by simp_all
qed

text \<open>The levels at which the flags point to a leaf. A leaf is the victim when all of them do.\<close>

definition pointing :: "flag list \<Rightarrow> nat \<Rightarrow> nat set" where
  "pointing f q = {i. 0 < i \<and> 0 < q div 2 ^ i \<and> (points_right f (q div 2 ^ i) \<longleftrightarrow> odd (q div 2 ^ (i - 1)))}"

lemma leaf_levels:
  fixes q :: nat
  assumes "q \<in> {2 ^ k..<2 * 2 ^ k}"
  shows "0 < q div 2 ^ i \<longleftrightarrow> i \<le> k"
proof
  assume "0 < q div 2 ^ i"
  then have "2 ^ i \<le> q" by (simp add: div_greater_zero_iff)
  also have "q < 2 ^ Suc k" using assms by simp
  finally have "i < Suc k" using power_less_imp_less_exp [of 2 i "Suc k"] by simp
  then show "i \<le> k" by simp
next
  assume "i \<le> k"
  then have "(2 :: nat) ^ i \<le> 2 ^ k" by (rule power_increasing) simp
  also have "2 ^ k \<le> q" using assms by simp
  finally show "0 < q div 2 ^ i" by (simp add: div_greater_zero_iff)
qed

lemma pointing_levels: "q \<in> {2 ^ k..<2 * 2 ^ k} \<Longrightarrow> pointing f q \<subseteq> {1..k}"
  by (auto simp: pointing_def leaf_levels)

lemma on_path_pointing: "q \<in> {2 ^ k..<2 * 2 ^ k} \<Longrightarrow> on_path f q \<Longrightarrow> pointing f q = {1..k}"
  by (auto simp: pointing_def on_path_def leaf_levels)

lemma same_level:
  fixes q r :: nat
  assumes "q \<in> {2 ^ k..<2 * 2 ^ k}" "r \<in> {2 ^ k..<2 * 2 ^ k}" "q div 2 ^ i = r div 2 ^ j" "0 < r div 2 ^ j"
  shows "i = j"
proof -
  have level: "2 ^ (k - i) \<le> q div 2 ^ i \<and> q div 2 ^ i < 2 * 2 ^ (k - i)"
    if q: "q \<in> {2 ^ k..<2 * 2 ^ k}" and i: "i \<le> k" for q i :: nat
  proof -
    have k: "(2 :: nat) ^ k = 2 ^ (k - i) * 2 ^ i" using i by (simp add: power_add [symmetric])
    show ?thesis
    proof
      show "2 ^ (k - i) \<le> q div 2 ^ i" using q k by (simp add: less_eq_div_iff_mult_less_eq)
      show "q div 2 ^ i < 2 * 2 ^ (k - i)" using q k by (intro less_mult_imp_div_less) (simp add: mult.assoc)
    qed
  qed
  have ij: "i \<le> k" "j \<le> k" using leaf_levels [OF assms(1)] leaf_levels [OF assms(2)] assms(3,4) by metis+
  have "2 ^ (k - i) < (2 :: nat) ^ Suc (k - j)" "2 ^ (k - j) < (2 :: nat) ^ Suc (k - i)"
    using level [OF assms(1) ij(1)] level [OF assms(2) ij(2)] assms(3) by simp_all
  then have "k - i < Suc (k - j)" "k - j < Suc (k - i)"
    using power_less_imp_less_exp [of "2 :: nat"] by (metis one_less_numeral_iff semiring_norm(76))+
  then show ?thesis using ij by linarith
qed

text \<open>A touch clears the path of its leaf, and turns at most one flag towards another leaf.\<close>

lemma touch_clears:
  assumes "length f = 2 ^ k - 1" "q \<in> {2 ^ k..<2 * 2 ^ k}"
  shows "pointing (touch_loop (q - 1) f) q = {}"
proof -
  have "q div 2 \<le> length f" using assms by auto
  from touch_loop_ancestor [OF this] show ?thesis by (auto simp: pointing_def)
qed

lemma touch_turns_one:
  assumes "length f = 2 ^ k - 1" "q \<in> {2 ^ k..<2 * 2 ^ k}" "r \<in> {2 ^ k..<2 * 2 ^ k}"
  shows "card (pointing (touch_loop (q - 1) f) r) \<le> card (pointing f r) + 1"
proof -
  let ?f = "touch_loop (q - 1) f"
  have half: "q div 2 \<le> length f" using assms by auto
  have turned: "q div 2 ^ i = r div 2 ^ i \<and> q div 2 ^ (i - 1) \<noteq> r div 2 ^ (i - 1)"
    if i: "i \<in> pointing ?f r - pointing f r" for i
  proof -
    have i: "0 < i" "0 < r div 2 ^ i" "points_right ?f (r div 2 ^ i) \<longleftrightarrow> odd (r div 2 ^ (i - 1))"
      "\<not> (points_right f (r div 2 ^ i) \<longleftrightarrow> odd (r div 2 ^ (i - 1)))"
      using i by (auto simp: pointing_def)
    have "\<exists>j > 0. q div 2 ^ j = r div 2 ^ i"
    proof (rule ccontr)
      assume "\<not> (\<exists>j > 0. q div 2 ^ j = r div 2 ^ i)"
      then have "?f ! (r div 2 ^ i - 1) = f ! (r div 2 ^ i - 1)"
        using i(2) half by (intro touch_loop_other) metis+
      with i(3,4) show False by (simp add: points_right_def)
    qed
    then obtain j where "q div 2 ^ j = r div 2 ^ i" by blast
    with same_level [OF assms(2,3) this i(2)] have a: "q div 2 ^ i = r div 2 ^ i" by simp
    then have "points_right ?f (r div 2 ^ i) \<longleftrightarrow> even (q div 2 ^ (i - 1))"
      using touch_loop_ancestor [OF half i(1)] i(2) by simp
    with i(3) a show ?thesis by auto
  qed
  have unique: "i = j" if "i \<in> pointing ?f r - pointing f r" "j \<in> pointing ?f r - pointing f r" for i j
  proof (rule ccontr)
    have no: "False" if "i < j" "q div 2 ^ i = r div 2 ^ i" "q div 2 ^ (j - 1) \<noteq> r div 2 ^ (j - 1)" for i j
    proof -
      have "j - 1 = i + (j - 1 - i)" using that(1) by simp
      then show False using that(2,3) by (metis div_mult2_eq power_add)
    qed
    assume "i \<noteq> j"
    then show False using no [of i j] no [of j i] turned that by (metis linorder_neqE_nat)
  qed
  have fin: "finite (pointing f r)" "finite (pointing ?f r)"
    using pointing_levels [OF assms(3)] finite_subset by blast+
  have "card (pointing ?f r) \<le> card (pointing f r \<union> (pointing ?f r - pointing f r))"
    using fin by (intro card_mono) auto
  also have "\<dots> \<le> card (pointing f r) + card (pointing ?f r - pointing f r)" by (rule card_Un_le)
  also have "card (pointing ?f r - pointing f r) \<le> 1"
    using unique fin by (simp add: card_le_Suc0_iff_eq)
  finally show ?thesis by simp
qed

text \<open>The victim is not a way touched fewer touches ago than the tree has levels.\<close>

lemma plru_leaf: "plru_ok (2 ^ k) p \<Longrightarrow> w < 2 ^ k \<Longrightarrow>
    w + length (plru_nodes p) = w + 2 ^ k - 1 \<and> w + 2 ^ k \<in> {2 ^ k..<2 * 2 ^ k}"
  by (auto simp: plru_ok_def)

lemma plru_touch_pointing:
  assumes "plru_ok (2 ^ k) p" "v < 2 ^ k" "w < 2 ^ k"
  shows "pointing (plru_nodes (plru_touch w p)) (w + 2 ^ k) = {}"
    "card (pointing (plru_nodes (plru_touch v p)) (w + 2 ^ k)) \<le> card (pointing (plru_nodes p) (w + 2 ^ k)) + 1"
proof -
  have len: "length (plru_nodes p) = 2 ^ k - 1" using assms(1) by (simp add: plru_ok_def)
  show "pointing (plru_nodes (plru_touch w p)) (w + 2 ^ k) = {}"
    using touch_clears [OF len, of "w + 2 ^ k"] plru_leaf [OF assms(1,3)] by (simp add: plru_touch_def)
  show "card (pointing (plru_nodes (plru_touch v p)) (w + 2 ^ k)) \<le> card (pointing (plru_nodes p) (w + 2 ^ k)) + 1"
    using touch_turns_one [OF len, of "v + 2 ^ k" "w + 2 ^ k"] plru_leaf [OF assms(1,2)] plru_leaf [OF assms(1,3)]
    by (simp add: plru_touch_def)
qed

lemma plru_touches_pointing:
  assumes "plru_ok (2 ^ k) p" "set ts \<subseteq> {..<2 ^ k}" "w < 2 ^ k"
  shows "plru_ok (2 ^ k) (fold plru_touch ts p)
    \<and> card (pointing (plru_nodes (fold plru_touch ts p)) (w + 2 ^ k)) \<le> card (pointing (plru_nodes p) (w + 2 ^ k)) + length ts"
  using assms
proof (induction ts arbitrary: p)
  case (Cons t ts)
  then show ?case
    using Cons.IH [of "plru_touch t p"] plru_touch_ok [of "2 ^ k" p t] plru_touch_pointing(2) [of k p t w] by fastforce
qed simp

lemma plru_protects:
  assumes "plru_ok (2 ^ k) p" "w < 2 ^ k" "set ts \<subseteq> {..<2 ^ k}" "length ts < k"
  shows "fst (plru_update (fold plru_touch ts (plru_touch w p))) \<noteq> w"
proof
  let ?p = "fold plru_touch ts (plru_touch w p)"
  assume victim: "fst (plru_update ?p) = w"
  have ok: "plru_ok (2 ^ k) (plru_touch w p)" using assms(1) by (rule plru_touch_ok)
  have "on_path (plru_nodes ?p) (w + 2 ^ k)"
    using plru_victim(2) [of "2 ^ k" ?p] plru_touches_pointing [OF ok assms(3,2)] victim by simp
  then have "pointing (plru_nodes ?p) (w + 2 ^ k) = {1..k}"
    by (rule on_path_pointing [rotated]) (use assms(2) in simp)
  then have "k \<le> length ts"
    using plru_touches_pointing [OF ok assms(3,2)] plru_touch_pointing(1) [OF assms(1,2,2)] by simp
  with assms(4) show False by simp
qed

interpretation plru: replacement_policy plru_touch plru_update plru_ok
proof
  show "plru_ok n p \<Longrightarrow> plru_ok n (plru_touch w p)" for n p w by (rule plru_touch_ok)
  show "plru_ok n p \<Longrightarrow> fst (plru_update p) < n" for n p by (rule plru_victim(1))
  show "snd (plru_update p) = plru_touch (fst (plru_update p)) p" for p by (simp add: plru_update_eq)
  fix n p w
  assume "plru_ok n p" "w < n" "1 < n"
  moreover from this obtain k where "n = 2 ^ k" by (auto simp: plru_ok_def)
  ultimately show "fst (plru_update (plru_touch w p)) \<noteq> w"
    using plru_protects [of k p w "[]"] by (cases k) auto
qed

text \<open>C28: Pseudo-LRU protects a way: in a tree of \<open>k\<close> levels, a way that was touched is not the victim
  until at least \<open>k\<close> more touches have been made, whichever they are.\<close>
theorem pseudo_lru_lifetime:
  assumes "plru_ok (2 ^ k) p" "w < 2 ^ k" "set ts \<subseteq> {..<2 ^ k}" "length ts < k"
  shows "fst (plru_update (fold plru_touch ts (plru_touch w p))) \<noteq> w"
  using assms by (rule plru_protects)

lemma pseudo_lru_lifetime_witness:
  "fst (plru_update (fold plru_touch [0, 3] (plru_touch 5 \<lparr>plru_nodes = replicate 7 Left, plru_ways = 8\<rparr>))) \<noteq> 5"
proof -
  have "plru_ok (2 ^ 3) \<lparr>plru_nodes = replicate 7 Left, plru_ways = 8\<rparr>"
    using exI [of "\<lambda>k. (8 :: nat) = 2 ^ k" 3] by (simp add: plru_ok_def)
  from pseudo_lru_lifetime [OF this, of 5 "[0, 3]"] show ?thesis by simp
qed

section \<open>Either policy\<close>

fun repl_ok :: "nat \<Rightarrow> replacement \<Rightarrow> bool" where
  "repl_ok n (LRU l) \<longleftrightarrow> lru_ok n l"
| "repl_ok n (PseudoLRU p) \<longleftrightarrow> plru_ok n p"

interpretation repl: replacement_policy repl_touch repl_update repl_ok
proof
  fix n s w
  assume ok: "repl_ok n s"
  then show "fst (repl_update s) < n" "snd (repl_update s) = repl_touch (fst (repl_update s)) s"
    using lru.victim_bound lru.update_touches plru.victim_bound plru.update_touches by (cases s; auto)+
  assume "w < n"
  then show "repl_ok n (repl_touch w s)"
    using ok lru.ok_touch plru.ok_touch by (cases s) auto
  show "1 < n \<Longrightarrow> fst (repl_update (repl_touch w s)) \<noteq> w"
    using ok \<open>w < n\<close> lru.touch_protects plru.touch_protects by (cases s) auto
qed

text \<open>The policies are created well formed.\<close>

lemma create_ok:
  assumes "create_cache_replacement name n = Inr s" "0 < unat n"
  shows "repl_ok (unat n) s"
proof (cases "name = ''LRU''")
  case True
  then show ?thesis using assms by (auto simp: create_cache_replacement_def new_lru_ok)
next
  case False
  then have p: "is_power_of_two n" "s = PseudoLRU \<lparr>plru_nodes = replicate (unat n - 1) Left, plru_ways = unat n\<rparr>"
    using assms(1) by (auto simp: create_cache_replacement_def new_plru_def split: if_splits)
  from p(1) obtain k where k: "k < LENGTH(64)" "n = 2 ^ k" unfolding is_power_of_two_iff by blast
  then have "unat n = 2 ^ k" by (simp only: unat_pow2)
  with p(2) show ?thesis by (auto simp: plru_ok_def)
qed

end
