(* ===== verification/Cache_Tag_Array.thy ===== *)
theory Cache_Tag_Array
  imports Alu_Primitives Replacement
begin

text \<open>
  The cache tag arrays of simulator/infra/cache/cache_tag_array.cpp: the ideal ones, and the
  set-associative one with its geometry, its checks of the parameters, a table of tags for
  every set and a replacement policy for every set. The hash tables are maps, with the keys the
  code reserves for empty and deleted slots rejected on insertion as the table's assertions do.
\<close>

datatype cache_error =
    InvalidSize string | Replacement replacement_error | DivisionByZero | ReservedKey

section \<open>Hash tables\<close>

type_synonym lookup_table = "Addr \<rightharpoonup> int"

definition impossible_key :: Addr where
  "impossible_key = 0x7FFFFFFF"

definition table_insert :: "Addr \<Rightarrow> int \<Rightarrow> lookup_table \<Rightarrow> cache_error + lookup_table" where
  "table_insert k w h =
     (if k = impossible_key \<or> k = impossible_key - 1 then Inl ReservedKey
      else Inr (if h k = None then h(k \<mapsto> w) else h))"

definition table_find :: "lookup_table \<Rightarrow> Addr \<Rightarrow> bool \<times> int" where
  "table_find h k = (case h k of None \<Rightarrow> (False, -1) | Some w \<Rightarrow> (True, w))"

text \<open>\<open>narrow_cast<int32>\<close> of a size.\<close>

definition narrow_int32 :: "nat \<Rightarrow> int" where
  "narrow_int32 n = sint (word_of_nat n :: 32 word)"

section \<open>The infinite array\<close>

record infinite_array =
  inf_tags :: "Addr list"
  inf_lookup :: lookup_table

definition new_infinite :: infinite_array where
  "new_infinite = \<lparr>inf_tags = [], inf_lookup = Map.empty\<rparr>"

definition infinite_read_no_touch :: "infinite_array \<Rightarrow> Addr \<Rightarrow> bool \<times> int" where
  "infinite_read_no_touch c addr = table_find (inf_lookup c) addr"

definition infinite_write :: "infinite_array \<Rightarrow> Addr \<Rightarrow> cache_error + int \<times> infinite_array" where
  "infinite_write c addr =
     (let result = infinite_read_no_touch c addr
      in if fst result then Inr (snd result, c)
         else let way = narrow_int32 (length (inf_tags c))
              in case table_insert addr way (inf_lookup c) of
                   Inl e \<Rightarrow> Inl e
                 | Inr h \<Rightarrow> Inr (way, \<lparr>inf_tags = inf_tags c @ [addr], inf_lookup = h\<rparr>))"

section \<open>Geometry\<close>

text \<open>The products of the sizes are those of \<open>uint32\<close>: they wrap.\<close>

record geometry =
  size_in_bytes :: uint32
  num_ways :: uint32
  line_size :: uint32
  addr_size_in_bits :: uint32

definition check_geometry :: "geometry \<Rightarrow> cache_error option" where
  "check_geometry g =
     (if size_in_bytes g = 0 then Some (InvalidSize ''Cache size should be greater than zero'')
      else if num_ways g = 0 then Some (InvalidSize ''Num of ways should be greater than zero'')
      else if line_size g = 0 then Some (InvalidSize ''Size of the line should be greater than zero'')
      else if addr_size_in_bits g = 0 then Some (InvalidSize ''Address size should be greater than zero'')
      else if addr_size_in_bits g > 32 then Some (InvalidSize ''Address size should be less or equal than 32'')
      else if size_in_bytes g < num_ways g * line_size g
      then Some (InvalidSize ''Cache size should be greaterthan the number of ways multiplied by line size'')
      else if \<not> is_power_of_two (size_in_bytes g) then Some (InvalidSize ''Cache size should be a power of 2'')
      else if \<not> is_power_of_two (line_size g) then Some (InvalidSize ''Block size should be a power of 2'')
      else if line_size g * num_ways g = 0 then Some DivisionByZero
      else if size_in_bytes g mod (line_size g * num_ways g) \<noteq> 0 then Some (InvalidSize ''Cache size should be multiple of'')
      else None)"

definition line_bits :: "geometry \<Rightarrow> nat" where
  "line_bits g = count_trailing_zeroes 32 (line_size g)"

definition sets :: "geometry \<Rightarrow> uint32" where
  "sets g = size_in_bytes g div (num_ways g * line_size g)"

definition set_bits :: "geometry \<Rightarrow> nat" where
  "set_bits g = count_trailing_zeroes 32 (sets g) + line_bits g"

definition cache_addr_mask :: "geometry \<Rightarrow> Addr" where
  "cache_addr_mask g = bitmask (unat (addr_size_in_bits g))"

definition cache_set :: "geometry \<Rightarrow> Addr \<Rightarrow> uint32" where
  "cache_set g addr = ucast (drop_bit (line_bits g) (addr AND cache_addr_mask g) AND ucast (sets g - 1))"

definition cache_tag :: "geometry \<Rightarrow> Addr \<Rightarrow> Addr" where
  "cache_tag g addr = drop_bit (set_bits g) (addr AND cache_addr_mask g)"

section \<open>The set-associative array\<close>

record tag_entry =
  is_valid :: bool
  entry_tag :: Addr

record simple_array =
  geo :: geometry
  tags :: "tag_entry list list"
  lookup_helper :: "lookup_table list"
  replacement_info :: "replacement list"

fun create_all :: "nat \<Rightarrow> string \<Rightarrow> uint64 \<Rightarrow> replacement_error + replacement list" where
  "create_all 0 policy n = Inr []"
| "create_all (Suc m) policy n =
     (case create_cache_replacement policy n of
        Inl e \<Rightarrow> Inl e
      | Inr r \<Rightarrow> map_sum id ((#) r) (create_all m policy n))"

definition new_simple :: "geometry \<Rightarrow> string \<Rightarrow> cache_error + simple_array" where
  "new_simple g policy =
     (case check_geometry g of
        Some e \<Rightarrow> Inl e
      | None \<Rightarrow>
          (case create_all (unat (sets g)) policy (ucast (num_ways g)) of
             Inl e \<Rightarrow> Inl (Replacement e)
           | Inr rs \<Rightarrow>
               Inr \<lparr>geo = g,
                    tags = replicate (unat (sets g)) (replicate (unat (num_ways g)) \<lparr>is_valid = False, entry_tag = 0\<rparr>),
                    lookup_helper = replicate (unat (sets g)) Map.empty,
                    replacement_info = rs\<rparr>))"

definition simple_read_no_touch :: "simple_array \<Rightarrow> Addr \<Rightarrow> bool \<times> int" where
  "simple_read_no_touch c addr =
     table_find (lookup_helper c ! unat (cache_set (geo c) addr)) (cache_tag (geo c) addr)"

definition simple_read :: "simple_array \<Rightarrow> Addr \<Rightarrow> (bool \<times> int) \<times> simple_array" where
  "simple_read c addr =
     (let lookup_result = simple_read_no_touch c addr; num_set = unat (cache_set (geo c) addr)
      in (lookup_result,
          if fst lookup_result
          then c\<lparr>replacement_info := (replacement_info c)[num_set :=
                   repl_touch (nat (snd lookup_result)) (replacement_info c ! num_set)]\<rparr>
          else c))"

definition simple_write :: "simple_array \<Rightarrow> Addr \<Rightarrow> cache_error + int \<times> simple_array" where
  "simple_write c addr =
     (let new_tag = cache_tag (geo c) addr;
          num_set = unat (cache_set (geo c) addr);
          (victim, r) = repl_update (replacement_info c ! num_set);
          way = narrow_int32 victim;
          entry = tags c ! num_set ! nat way;
          old_tag = entry_tag entry;
          helper = (if is_valid entry then (lookup_helper c ! num_set)(old_tag := None) else lookup_helper c ! num_set)
      in case table_insert new_tag way helper of
           Inl e \<Rightarrow> Inl e
         | Inr helper \<Rightarrow>
             Inr (way,
                  c\<lparr>replacement_info := (replacement_info c)[num_set := r],
                    lookup_helper := (lookup_helper c)[num_set := helper],
                    tags := (tags c)[num_set := (tags c ! num_set)[nat way := \<lparr>is_valid = True, entry_tag = new_tag\<rparr>]]\<rparr>))"

section \<open>The array by its name\<close>

datatype tag_array = AlwaysHit | Infinite infinite_array | Simple simple_array

definition create_tag_array :: "string \<Rightarrow> uint32 \<Rightarrow> uint32 \<Rightarrow> uint32 \<Rightarrow> uint32 \<Rightarrow> cache_error + tag_array" where
  "create_tag_array type bytes ways line addr_bits =
     (if type = ''always_hit'' then Inr AlwaysHit
      else if type = ''infinite'' then Inr (Infinite new_infinite)
      else map_sum id Simple (new_simple
             \<lparr>size_in_bytes = bytes, num_ways = ways, line_size = line, addr_size_in_bits = addr_bits\<rparr> type))"

fun array_set :: "tag_array \<Rightarrow> Addr \<Rightarrow> uint32" where
  "array_set AlwaysHit addr = 0"
| "array_set (Infinite c) addr = 0"
| "array_set (Simple c) addr = cache_set (geo c) addr"

fun array_tag :: "tag_array \<Rightarrow> Addr \<Rightarrow> Addr" where
  "array_tag AlwaysHit addr = addr"
| "array_tag (Infinite c) addr = addr"
| "array_tag (Simple c) addr = cache_tag (geo c) addr"

fun array_read_no_touch :: "tag_array \<Rightarrow> Addr \<Rightarrow> bool \<times> int" where
  "array_read_no_touch AlwaysHit addr = (True, -1)"
| "array_read_no_touch (Infinite c) addr = infinite_read_no_touch c addr"
| "array_read_no_touch (Simple c) addr = simple_read_no_touch c addr"

fun array_read :: "tag_array \<Rightarrow> Addr \<Rightarrow> (bool \<times> int) \<times> tag_array" where
  "array_read AlwaysHit addr = ((True, -1), AlwaysHit)"
| "array_read (Infinite c) addr = (infinite_read_no_touch c addr, Infinite c)"
| "array_read (Simple c) addr = map_prod id Simple (simple_read c addr)"

fun array_write :: "tag_array \<Rightarrow> Addr \<Rightarrow> cache_error + int \<times> tag_array" where
  "array_write AlwaysHit addr = Inr (-1, AlwaysHit)"
| "array_write (Infinite c) addr = map_sum id (map_prod id Infinite) (infinite_write c addr)"
| "array_write (Simple c) addr = map_sum id (map_prod id Simple) (simple_write c addr)"

definition lookup :: "tag_array \<Rightarrow> Addr \<Rightarrow> bool \<times> tag_array" where
  "lookup c addr = map_prod fst id (array_read c addr)"


section \<open>Geometry: the set and the tag are the number of the line\<close>

definition line_of :: "geometry \<Rightarrow> Addr \<Rightarrow> nat" where
  "line_of g addr = unat (addr AND cache_addr_mask g) div unat (line_size g)"

lemma check_geometryD:
  assumes "check_geometry g = None"
  shows "num_ways g \<noteq> 0" "line_size g \<noteq> 0" "num_ways g * line_size g \<noteq> 0"
    "is_power_of_two (size_in_bytes g)" "is_power_of_two (line_size g)"
    "num_ways g * line_size g \<le> size_in_bytes g" "size_in_bytes g mod (num_ways g * line_size g) = 0"
  using assms by (auto simp: check_geometry_def not_less mult.commute split: if_splits)

lemma power_of_twoE:
  assumes "is_power_of_two (n :: 'a::len word)"
  obtains k where "k < LENGTH('a)" "n = 2 ^ k" "unat n = 2 ^ k"
  using assms unat_pow2 unfolding is_power_of_two_iff by blast

lemma dvd_pow2: "(p :: nat) dvd 2 ^ s \<Longrightarrow> \<exists>q \<le> s. p = 2 ^ q"
proof (induction s arbitrary: p)
  case (Suc s)
  show ?case
  proof (cases "even p")
    case True
    then obtain r where r: "p = 2 * r" by (elim evenE)
    with Suc.prems have "r dvd 2 ^ s" by simp
    then obtain q where "q \<le> s" "r = 2 ^ q" using Suc.IH by blast
    then show ?thesis using r by (intro exI [of _ "Suc q"]) simp
  next
    case False
    then have "coprime p 2" by simp
    with Suc.prems have "p dvd 2 ^ s" by (simp add: coprime_dvd_mult_right_iff)
    then show ?thesis using Suc.IH le_SucI by blast
  qed
qed simp

lemma ctz_pow2: "k < 32 \<Longrightarrow> count_trailing_zeroes 32 (2 ^ k :: uint32) = k"
  using count_trailing_zeroes_field [where 'a = 32, of 1 k] by (simp add: push_bit_eq_mult)

lemma unat_sets: "unat (sets g) = unat (size_in_bytes g) div unat (num_ways g * line_size g)"
  by (simp add: sets_def unat_div_distrib)

lemma geometry_bits:
  assumes "check_geometry g = None"
  obtains m where "m + line_bits g < 32" "set_bits g = m + line_bits g" "unat (sets g) = 2 ^ m" "sets g = 2 ^ m"
    "unat (line_size g) = 2 ^ line_bits g"
proof -
  note g = check_geometryD [OF assms]
  obtain s where s: "s < 32" "unat (size_in_bytes g) = 2 ^ s" using g(4) by (elim power_of_twoE) simp
  obtain l where l: "l < 32" "line_size g = 2 ^ l" "unat (line_size g) = 2 ^ l" using g(5) by (elim power_of_twoE) simp
  let ?p = "unat (num_ways g * line_size g)"
  have p: "?p dvd 2 ^ s" using g(7) s(2) by (metis dvd_eq_mod_eq_0 unat_mod_distrib unsigned_0)
  then obtain q where q: "?p = 2 ^ q" "q \<le> s" using dvd_pow2 by blast
  have "2 ^ l dvd (2 :: nat) ^ LENGTH(32)" using l(1) by (intro le_imp_power_dvd) simp
  then have "2 ^ l dvd (unat (num_ways g) * 2 ^ l) mod 2 ^ LENGTH(32)" by (rule dvd_mod [OF dvd_triv_right])
  then have "2 ^ l dvd ?p" by (simp only: unat_word_ariths(2) l(3))
  then have lq: "l \<le> q" unfolding q(1) by (simp add: power_dvd_imp_le)
  have m: "unat (sets g) = 2 ^ (s - q)" using q s by (simp add: unat_sets power_diff)
  then have m2: "sets g = 2 ^ (s - q)" using word_of_unatI [of "sets g"] by simp
  have lb: "line_bits g = l" using l by (simp add: line_bits_def ctz_pow2)
  moreover have "set_bits g = (s - q) + l" using m2 lb s(1) by (simp add: set_bits_def ctz_pow2)
  moreover have "(s - q) + l < 32" using lq q(2) s(1) by simp
  ultimately show ?thesis using that [of "s - q"] m m2 l(3) by simp
qed

lemma cache_set_less: "check_geometry g = None \<Longrightarrow> unat (cache_set g addr) < unat (sets g)"
proof -
  assume g: "check_geometry g = None"
  obtain m where "unat (sets g) = 2 ^ m" using g by (elim geometry_bits)
  then have "sets g \<noteq> 0" by auto
  let ?x = "drop_bit (line_bits g) (addr AND cache_addr_mask g) AND ucast (sets g - 1)"
  have "?x \<le> ucast (sets g - 1)" by (rule word_and_le1)
  then have "unat ?x \<le> unat (sets g - 1)" by (simp add: word_le_nat_alt unat_ucast_up)
  moreover have "unat (cache_set g addr) \<le> unat ?x" by (simp add: cache_set_def unsigned_ucast_eq take_bit_eq_mod)
  moreover have "unat (sets g - 1) < unat (sets g)" using \<open>sets g \<noteq> 0\<close> by (simp add: unat_minus_one unat_gt_0)
  ultimately show ?thesis by linarith
qed

lemma same_line:
  assumes "check_geometry g = None"
  shows "cache_set g a = cache_set g b \<and> cache_tag g a = cache_tag g b \<longleftrightarrow> line_of g a = line_of g b"
proof -
  obtain m where m: "m + line_bits g < 32" "set_bits g = m + line_bits g" "sets g = 2 ^ m"
    "unat (sets g) = 2 ^ m" "unat (line_size g) = 2 ^ line_bits g"
    using assms by (elim geometry_bits)
  have line: "line_of g x = unat (drop_bit (line_bits g) (x AND cache_addr_mask g))" for x
    by (simp add: line_of_def m unat_drop_bit del: drop_bit_and)
  have cs: "unat (cache_set g x) = line_of g x mod 2 ^ m" for x
  proof -
    let ?d = "drop_bit (line_bits g) (x AND cache_addr_mask g)"
    have "(2 ^ m - 1 :: uint32) = mask m" by (simp add: mask_eq_exp_minus_1)
    moreover have "(ucast (mask m :: uint32) :: Addr) = mask m"
      using m(1) by (auto simp: bit_simps intro!: bit_word_eqI)
    ultimately have "cache_set g x = ucast (take_bit m ?d)"
      by (simp add: cache_set_def m take_bit_eq_mask del: drop_bit_and)
    also have "unat \<dots> = unat (take_bit m ?d) mod 2 ^ 32" by (simp add: unsigned_ucast_eq take_bit_eq_mod)
    also have "\<dots> = unat (take_bit m ?d)"
    proof -
      have "unat (take_bit m ?d) < 2 ^ m" using m(1) by (subst unat_take_bit) simp_all
      also have "(2 :: nat) ^ m < 2 ^ 32" using m(1) by (intro power_strict_increasing) simp_all
      finally show ?thesis by simp
    qed
    also have "\<dots> = line_of g x mod 2 ^ m" using m(1) by (simp add: unat_take_bit line del: drop_bit_and)
    finally show ?thesis .
  qed
  have ct: "unat (cache_tag g x) = line_of g x div 2 ^ m" for x
    unfolding line cache_tag_def m(2) unat_drop_bit by (metis add.commute div_mult2_eq power_add)
  have "cache_set g a = cache_set g b \<longleftrightarrow> line_of g a mod 2 ^ m = line_of g b mod 2 ^ m"
    "cache_tag g a = cache_tag g b \<longleftrightarrow> line_of g a div 2 ^ m = line_of g b div 2 ^ m"
    unfolding cs [symmetric] ct [symmetric] by (simp_all add: word_unat_eq_iff)
  then show ?thesis by (metis div_mult_mod_eq)
qed

section \<open>The invariant of the set-associative array\<close>

text \<open>
  In every set the hash table is the inverse of the valid tags, and the policy has as many
  ways as the set.
\<close>

definition helper_ok :: "nat \<Rightarrow> tag_entry list \<Rightarrow> lookup_table \<Rightarrow> bool" where
  "helper_ok n es h \<longleftrightarrow> length es = n
     \<and> (\<forall>t w. h t = Some w \<longleftrightarrow> (\<exists>v < n. w = int v \<and> is_valid (es ! v) \<and> entry_tag (es ! v) = t))"

definition simple_ok :: "simple_array \<Rightarrow> bool" where
  "simple_ok c \<longleftrightarrow>
     check_geometry (geo c) = None \<and> unat (num_ways (geo c)) \<le> 2 ^ 31
     \<and> length (tags c) = unat (sets (geo c)) \<and> length (lookup_helper c) = unat (sets (geo c))
     \<and> length (replacement_info c) = unat (sets (geo c))
     \<and> (\<forall>s < unat (sets (geo c)). helper_ok (unat (num_ways (geo c))) (tags c ! s) (lookup_helper c ! s)
           \<and> repl_ok (unat (num_ways (geo c))) (replacement_info c ! s))"

lemma simple_okD:
  assumes "simple_ok c"
  shows "check_geometry (geo c) = None" "unat (num_ways (geo c)) \<le> 2 ^ 31"
    "length (tags c) = unat (sets (geo c))" "length (lookup_helper c) = unat (sets (geo c))"
    "length (replacement_info c) = unat (sets (geo c))"
    "helper_ok (unat (num_ways (geo c))) (tags c ! unat (cache_set (geo c) a)) (lookup_helper c ! unat (cache_set (geo c) a))"
    "repl_ok (unat (num_ways (geo c))) (replacement_info c ! unat (cache_set (geo c) a))"
  using assms cache_set_less [of "geo c" a] by (simp_all add: simple_ok_def)

lemma narrow_int32_eq: "n < 2 ^ 31 \<Longrightarrow> narrow_int32 n = int n"
  by (simp add: narrow_int32_def signed_of_nat signed_take_bit_int_eq_self)

lemma helper_ok_bound: "helper_ok n es h \<Longrightarrow> h t = Some w \<Longrightarrow> 0 \<le> w \<and> nat w < n"
  by (auto simp: helper_ok_def)

lemma helper_ok_new: "helper_ok n (replicate n \<lparr>is_valid = False, entry_tag = 0\<rparr>) Map.empty"
  by (auto simp: helper_ok_def)

text \<open>A miss replaces the tag of the victim.\<close>

lemma helper_ok_replace:
  assumes h: "helper_ok n es h" and v: "v < n" and t: "h t = None"
  shows "helper_ok n (es[v := \<lparr>is_valid = True, entry_tag = t\<rparr>])
    ((if is_valid (es ! v) then h(entry_tag (es ! v) := None) else h)(t \<mapsto> int v))"
proof -
  let ?h = "if is_valid (es ! v) then h(entry_tag (es ! v) := None) else h"
  have l: "length es = n" and inv: "\<And>t w. h t = Some w \<longleftrightarrow> (\<exists>v < n. w = int v \<and> is_valid (es ! v) \<and> entry_tag (es ! v) = t)"
    using h by (auto simp: helper_ok_def)
  have none: "\<not> (u < n \<and> is_valid (es ! u) \<and> entry_tag (es ! u) = t)" for u
    using inv [of t "int u"] t by auto
  have "(?h(t \<mapsto> int v)) x = Some w
      \<longleftrightarrow> (\<exists>u < n. w = int u \<and> is_valid (es[v := \<lparr>is_valid = True, entry_tag = t\<rparr>] ! u)
            \<and> entry_tag (es[v := \<lparr>is_valid = True, entry_tag = t\<rparr>] ! u) = x)" for x w
  proof (cases "x = t")
    case True
    then show ?thesis using v l none by (auto simp: nth_list_update)
  next
    case False
    have "?h x = Some w \<longleftrightarrow> (\<exists>u < n. w = int u \<and> u \<noteq> v \<and> is_valid (es ! u) \<and> entry_tag (es ! u) = x)"
    proof (cases "is_valid (es ! v) \<and> entry_tag (es ! v) = x")
      case True
      then have "h x = Some (int v)" using inv v by auto
      then have "w = int u \<Longrightarrow> u < n \<Longrightarrow> is_valid (es ! u) \<Longrightarrow> entry_tag (es ! u) = x \<Longrightarrow> u = v" for u
        using inv [of x "int u"] by auto
      then show ?thesis using True by auto
    next
      case no: False
      then have "?h x = h x" by auto
      then show ?thesis using inv [of x w] no by auto
    qed
    then show ?thesis using False v l by (auto simp: nth_list_update)
  qed
  then show ?thesis using l by (simp add: helper_ok_def)
qed

lemma create_all_ok:
  assumes "create_all m policy n = Inr rs" "0 < unat n"
  shows "length rs = m \<and> (\<forall>s < m. repl_ok (unat n) (rs ! s))"
  using assms(1)
proof (induction m arbitrary: rs)
  case (Suc m)
  then obtain r qs where r: "create_cache_replacement policy n = Inr r" "create_all m policy n = Inr qs" "rs = r # qs"
    by (cases "create_all m policy n") (auto split: sum.splits)
  show ?case using Suc.IH [OF r(2)] create_ok [OF r(1) assms(2)] r(3) by (auto simp: nth_Cons' less_Suc_eq_0_disj)
qed simp

lemma new_simple_ok:
  assumes "new_simple g policy = Inr c" "unat (num_ways g) \<le> 2 ^ 31"
  shows "simple_ok c"
proof -
  have g: "check_geometry g = None" using assms(1) by (auto simp: new_simple_def split: option.splits)
  then have "0 < unat (num_ways g)" using check_geometryD(1) by (simp add: unat_gt_0)
  then have n: "unat (ucast (num_ways g) :: uint64) = unat (num_ways g)" "0 < unat (ucast (num_ways g) :: uint64)"
    by (simp_all add: unat_ucast_up)
  from assms(1) g obtain rs where rs: "create_all (unat (sets g)) policy (ucast (num_ways g)) = Inr rs"
    "c = \<lparr>geo = g, tags = replicate (unat (sets g)) (replicate (unat (num_ways g)) \<lparr>is_valid = False, entry_tag = 0\<rparr>),
          lookup_helper = replicate (unat (sets g)) Map.empty, replacement_info = rs\<rparr>"
    by (auto simp: new_simple_def split: sum.splits)
  show ?thesis using create_all_ok [OF rs(1) n(2)] assms(2) g by (simp add: rs(2) simple_ok_def helper_ok_new n(1))
qed

section \<open>Reads and writes\<close>

lemma simple_ok_touch:
  assumes "simple_ok c" "repl_ok (unat (num_ways (geo c))) r"
  shows "simple_ok (c\<lparr>replacement_info := (replacement_info c)[s := r]\<rparr>)"
proof -
  have "repl_ok (unat (num_ways (geo c))) ((replacement_info c)[s := r] ! i)" if "i < unat (sets (geo c))" for i
    using assms that by (cases "i = s") (simp_all add: simple_ok_def)
  then show ?thesis using assms(1) by (simp add: simple_ok_def)
qed

lemma simple_read_ok: "simple_ok c \<Longrightarrow> simple_ok (snd (simple_read c a))"
proof -
  assume c: "simple_ok c"
  note d = simple_okD [OF c]
  have "repl_ok (unat (num_ways (geo c))) (repl_touch (nat (snd (simple_read_no_touch c a))) (replacement_info c ! unat (cache_set (geo c) a)))"
    if "fst (simple_read_no_touch c a)"
    using that helper_ok_bound [OF d(6)] repl.ok_touch [OF d(7)]
    by (auto simp: simple_read_no_touch_def table_find_def split: option.splits)
  then show ?thesis using simple_ok_touch [OF c] by (simp add: simple_read_def Let_def c)
qed

lemma simple_read_contents [simp]:
  "simple_read_no_touch (snd (simple_read c a)) b = simple_read_no_touch c b"
  "geo (snd (simple_read c a)) = geo c"
  by (simp_all add: simple_read_def Let_def simple_read_no_touch_def)

text \<open>The way that a write takes.\<close>

definition victim_way :: "simple_array \<Rightarrow> Addr \<Rightarrow> nat" where
  "victim_way c a = fst (repl_update (replacement_info c ! unat (cache_set (geo c) a)))"

lemma victim_way_less: "simple_ok c \<Longrightarrow> victim_way c a < unat (num_ways (geo c))"
  unfolding victim_way_def by (rule repl.victim_bound) (erule simple_okD(7))

lemma narrow_victim: "simple_ok c \<Longrightarrow> narrow_int32 (victim_way c a) = int (victim_way c a)"
  using victim_way_less [of c a] simple_okD(2) [of c] by (simp add: narrow_int32_eq)

lemma simple_ok_update:
  assumes c: "simple_ok c" and s: "s < unat (sets (geo c))"
    and h: "helper_ok (unat (num_ways (geo c))) es h" and r: "repl_ok (unat (num_ways (geo c))) r"
  shows "simple_ok (c\<lparr>replacement_info := (replacement_info c)[s := r],
      lookup_helper := (lookup_helper c)[s := h], tags := (tags c)[s := es]\<rparr>)" (is "simple_ok ?c")
proof -
  have "helper_ok (unat (num_ways (geo c))) (tags ?c ! i) (lookup_helper ?c ! i)
      \<and> repl_ok (unat (num_ways (geo c))) (replacement_info ?c ! i)" if "i < unat (sets (geo c))" for i
    using c h r s that by (cases "i = s") (simp_all add: simple_ok_def)
  then show ?thesis using c by (simp add: simple_ok_def)
qed

lemma simple_write_miss:
  assumes c: "simple_ok c" and miss: "\<not> fst (simple_read_no_touch c a)" and w: "simple_write c a = Inr (way, c')"
  shows "way = int (victim_way c a) \<and> simple_ok c' \<and> geo c' = geo c
    \<and> simple_read_no_touch c' b =
        (if line_of (geo c) b = line_of (geo c) a then (True, way)
         else if cache_set (geo c) b = cache_set (geo c) a \<and> simple_read_no_touch c b = (True, way) then (False, -1)
         else simple_read_no_touch c b)"
proof -
  let ?s = "unat (cache_set (geo c) a)" and ?t = "cache_tag (geo c) a" and ?v = "victim_way c a"
    and ?n = "unat (num_ways (geo c))"
  note d = simple_okD [OF c]
  let ?es = "tags c ! ?s" and ?h = "lookup_helper c ! ?s"
  let ?h' = "(if is_valid (?es ! ?v) then ?h(entry_tag (?es ! ?v) := None) else ?h)"
  have t: "?h ?t = None" using miss by (simp add: simple_read_no_touch_def table_find_def split: option.splits)
  then have t': "?h' ?t = None" by simp
  have s: "?s < unat (sets (geo c))" using d(1) by (rule cache_set_less)
  have v: "?v < ?n" using c by (rule victim_way_less)
  obtain r where u: "repl_update (replacement_info c ! ?s) = (?v, r)"
    unfolding victim_way_def by (cases "repl_update (replacement_info c ! ?s)") simp
  have r: "repl_ok ?n r" using repl.ok_update [OF d(7), of a] u by simp
  have c': "way = int ?v" "c' = c\<lparr>replacement_info := (replacement_info c)[?s := r],
      lookup_helper := (lookup_helper c)[?s := ?h'(?t \<mapsto> int ?v)],
      tags := (tags c)[?s := ?es[?v := \<lparr>is_valid = True, entry_tag = ?t\<rparr>]]\<rparr>"
    using w t' unfolding simple_write_def Let_def u prod.case narrow_victim [OF c] nat_int
    by (auto simp: table_insert_def split: if_splits)
  have h: "helper_ok ?n (?es[?v := \<lparr>is_valid = True, entry_tag = ?t\<rparr>]) (?h'(?t \<mapsto> int ?v))"
    using d(6) v t by (rule helper_ok_replace)
  have ok: "simple_ok c'"
    unfolding c'(2) using c s h r by (rule simple_ok_update)
  have b: "simple_read_no_touch c' b = table_find ((if cache_set (geo c) b = cache_set (geo c) a then ?h'(?t \<mapsto> int ?v)
      else lookup_helper c ! unat (cache_set (geo c) b))) (cache_tag (geo c) b)"
    using s d(4) by (auto simp: c'(2) simple_read_no_touch_def nth_list_update word_unat_eq_iff)
  have evicted: "is_valid (?es ! ?v) \<and> entry_tag (?es ! ?v) = x \<longleftrightarrow> ?h x = Some (int ?v)" for x
    using d(6) [of a] v by (auto simp: helper_ok_def)
  have find: "table_find ?h' x = (if ?h x = Some (int ?v) then (False, -1) else table_find ?h x)" for x
    using evicted [of x] by (auto simp: table_find_def split: option.splits)
  have hit: "table_find ?h x = (True, int ?v) \<longleftrightarrow> ?h x = Some (int ?v)" for x
    by (auto simp: table_find_def split: option.splits)
  show ?thesis
  proof (intro conjI)
    show "simple_read_no_touch c' b =
        (if line_of (geo c) b = line_of (geo c) a then (True, way)
         else if cache_set (geo c) b = cache_set (geo c) a \<and> simple_read_no_touch c b = (True, way) then (False, -1)
         else simple_read_no_touch c b)"
      unfolding b same_line [OF d(1), symmetric]
      using find [of "cache_tag (geo c) b"] hit [of "cache_tag (geo c) b"] c'(1)
      by (auto simp: table_find_def simple_read_no_touch_def)
  qed (use c' ok in simp_all)
qed

text \<open>A write fails only on a reserved tag.\<close>

lemma simple_write_defined:
  assumes "cache_tag (geo c) a \<noteq> impossible_key" "cache_tag (geo c) a \<noteq> impossible_key - 1"
  shows "\<exists>way c'. simple_write c a = Inr (way, c')"
  using assms by (simp add: simple_write_def Let_def table_insert_def split: prod.splits)

text \<open>A fixed cache for the witnesses: eight sets of two ways of four bytes.\<close>

definition small_geometry :: geometry where
  "small_geometry = \<lparr>size_in_bytes = 64, num_ways = 2, line_size = 4, addr_size_in_bits = 32\<rparr>"

definition small_cache :: simple_array where
  "small_cache = \<lparr>geo = small_geometry,
     tags = replicate 8 (replicate 2 \<lparr>is_valid = False, entry_tag = 0\<rparr>),
     lookup_helper = replicate 8 Map.empty, replacement_info = replicate 8 (LRU [1, 0])\<rparr>"

lemma small_sets: "sets small_geometry = 8" "line_bits small_geometry = 2" "set_bits small_geometry = 5"
  "cache_addr_mask small_geometry = mask 32" "check_geometry small_geometry = None"
  unfolding sets_def line_bits_def set_bits_def cache_addr_mask_def check_geometry_def
  by (simp_all add: small_geometry_def is_power_of_two_def mask_simps count_trailing_zeroes_def upt_rec)

lemma small_fields: "num_ways small_geometry = 2" "line_size small_geometry = 4" "geo small_cache = small_geometry"
  by (simp_all add: small_geometry_def small_cache_def)

lemma create_all_replicate: "create_cache_replacement policy n = Inr r \<Longrightarrow> create_all m policy n = Inr (replicate m r)"
  by (induction m) simp_all

lemma small_new: "new_simple small_geometry ''LRU'' = Inr small_cache"
proof -
  have "create_cache_replacement ''LRU'' 2 = Inr (LRU [1, 0])"
    by (simp add: create_cache_replacement_def new_lru_def upt_rec)
  then have "create_all 8 ''LRU'' 2 = Inr (replicate 8 (LRU [1, 0]))" by (rule create_all_replicate)
  then show ?thesis
    by (simp add: new_simple_def small_sets small_fields small_cache_def)
qed

lemma small_empty: "simple_read_no_touch small_cache a = (False, -1)"
  using cache_set_less [OF small_sets(5), of a]
  by (simp add: simple_read_no_touch_def small_cache_def table_find_def small_sets)

lemma small_ok: "simple_ok small_cache"
  using new_simple_ok [OF small_new] by (simp add: small_geometry_def)

text \<open>C5: A miss is served: creating an array gives one whose hash tables are the inverses of its valid tags,
  and on such an array a write of an absent line, which can fail only on the two reserved tags,
  keeps that invariant, makes exactly the addresses of that line hit in the victim's way, drops the
  line that was there, and leaves every other line as it was.\<close>
theorem cache_write_miss:
  assumes "simple_ok c" "\<not> fst (simple_read_no_touch c a)"
    and "cache_tag (geo c) a \<noteq> impossible_key" "cache_tag (geo c) a \<noteq> impossible_key - 1"
  shows "\<exists>way c'. simple_write c a = Inr (int way, c') \<and> simple_ok c' \<and> geo c' = geo c \<and> way < unat (num_ways (geo c))
    \<and> (\<forall>b. simple_read_no_touch c' b =
        (if line_of (geo c) b = line_of (geo c) a then (True, int way)
         else if cache_set (geo c) b = cache_set (geo c) a \<and> simple_read_no_touch c b = (True, int way) then (False, -1)
         else simple_read_no_touch c b))"
proof -
  obtain way c' where w: "simple_write c a = Inr (way, c')" using simple_write_defined assms(3,4) by blast
  from simple_write_miss [OF assms(1,2) this] w victim_way_less [OF assms(1)] show ?thesis by blast
qed

lemma cache_write_miss_witness:
  "\<exists>way c'. simple_write small_cache 100 = Inr (int way, c') \<and> simple_ok c' \<and> geo c' = geo small_cache
    \<and> way < unat (num_ways (geo small_cache))
    \<and> (\<forall>b. simple_read_no_touch c' b =
        (if line_of (geo small_cache) b = line_of (geo small_cache) 100 then (True, int way)
         else if cache_set (geo small_cache) b = cache_set (geo small_cache) 100
            \<and> simple_read_no_touch small_cache b = (True, int way) then (False, -1)
         else simple_read_no_touch small_cache b))"
proof (rule cache_write_miss [OF small_ok])
  show "cache_tag (geo small_cache) 100 \<noteq> impossible_key" "cache_tag (geo small_cache) 100 \<noteq> impossible_key - 1"
    unfolding cache_tag_def small_fields small_sets by (simp_all add: impossible_key_def mask_numeral)
qed (simp add: small_empty)

text \<open>The line used last survives: after a hit, the next miss evicts another line, for either policy.\<close>
lemma cache_recent_survives:
  assumes "simple_ok c" "1 < unat (num_ways (geo c))" "simple_read c a = ((True, w), c1)"
    and "\<not> fst (simple_read_no_touch c1 b)" "simple_write c1 b = Inr (v, c2)"
  shows "simple_read_no_touch c2 a = (True, w)"
proof -
  have c1: "c1 = snd (simple_read c a)" using assms(3) by simp
  have ok: "simple_ok c1" unfolding c1 using assms(1) by (rule simple_read_ok)
  have geo: "geo c1 = geo c" and r: "simple_read_no_touch c1 a = (True, w)"
    using assms(3) simple_read_contents [of c a] unfolding c1 by (simp_all add: simple_read_def Let_def)
  note d = simple_okD [OF assms(1)]
  have line: "line_of (geo c1) a \<noteq> line_of (geo c1) b"
    using r assms(4) same_line [OF d(1), of a b] unfolding geo [symmetric] by (auto simp: simple_read_no_touch_def)
  have w: "nat w < unat (num_ways (geo c))" "0 \<le> w"
    using r [unfolded c1 simple_read_contents] helper_ok_bound [OF d(6)]
    by (auto simp: simple_read_no_touch_def table_find_def split: option.splits)
  have "victim_way c1 b \<noteq> nat w" if same: "cache_set (geo c1) a = cache_set (geo c1) b"
  proof -
    have "replacement_info c1 ! unat (cache_set (geo c) a) = repl_touch (nat w) (replacement_info c ! unat (cache_set (geo c) a))"
      using assms(3) d(5) cache_set_less [OF d(1)] by (auto simp: simple_read_def Let_def)
    then show ?thesis
      using repl.touch_protects [OF d(7) w(1) assms(2), of a] same unfolding victim_way_def geo by simp
  qed
  then show ?thesis
    using simple_write_miss [OF ok assms(4,5), of a] line r w(2) by auto
qed

lemma small_write:
  obtains c' where "simple_ok c'" "geo c' = small_geometry"
    "simple_read_no_touch c' 100 = (True, 0)" "simple_read_no_touch c' 228 = (False, -1)"
proof -
  have "cache_tag small_geometry 100 = 3" unfolding cache_tag_def small_sets by (simp add: mask_numeral)
  then obtain way c' where w: "simple_write small_cache 100 = Inr (way, c')"
    using simple_write_defined [of small_cache 100] by (auto simp: small_fields impossible_key_def)
  have "victim_way small_cache 100 = 0"
    using cache_set_less [OF small_sets(5), of 100]
    by (simp add: victim_way_def small_fields small_sets) (simp add: small_cache_def)
  moreover have "line_of small_geometry 228 \<noteq> line_of small_geometry 100"
    by (simp add: line_of_def small_fields small_sets mask_numeral)
  ultimately show ?thesis
    using simple_write_miss [OF small_ok _ w, of 100] simple_write_miss [OF small_ok _ w, of 228] that [of c']
    by (simp add: small_empty small_fields)
qed

lemma cache_recent_survives_witness:
  "\<exists>c w c1 v c2. simple_read c 100 = ((True, w), c1) \<and> simple_write c1 228 = Inr (v, c2) \<and> simple_read_no_touch c2 100 = (True, w)"
proof -
  obtain c where c: "simple_ok c" "geo c = small_geometry" "simple_read_no_touch c 100 = (True, 0)"
    "simple_read_no_touch c 228 = (False, -1)" by (rule small_write)
  define c1 where "c1 = snd (simple_read c 100)"
  have r: "simple_read c 100 = ((True, 0), c1)" using c(3) by (simp add: c1_def simple_read_def Let_def)
  have miss: "\<not> fst (simple_read_no_touch c1 228)" using c(4) by (simp add: c1_def)
  have "cache_tag (geo c1) 228 = 7" unfolding cache_tag_def c1_def simple_read_contents c(2) small_sets by (simp add: mask_numeral)
  then obtain v c2 where w: "simple_write c1 228 = Inr (v, c2)"
    using simple_write_defined [of c1 228] by (auto simp: impossible_key_def)
  have "1 < unat (num_ways (geo c))" by (simp add: c(2) small_fields)
  from cache_recent_survives [OF c(1) this r miss w] r w show ?thesis by blast
qed

end
