(* ===== verification/Bp_Entry.thy ===== *)
theory Bp_Entry
  imports Macro
begin

text \<open>
  The direction predictors of simulator/modules/fetch/bpu/bpentry.h: one constant, one by the
  sign of the jump, one bit, a saturating counter of two bits, and a table of such counters
  indexed by the last outcomes. The bounds-checked accesses of the table are options, and the
  locale \<open>direction_predictor\<close> is what the branch target buffer needs of an entry.
\<close>

section \<open>One bit and two bits\<close>

datatype one_bit = OneBitNT | OneBitT

definition one_bit_default :: one_bit where
  "one_bit_default = OneBitNT"

definition one_bit_is_taken :: "one_bit \<Rightarrow> bool" where
  "one_bit_is_taken state \<longleftrightarrow> state = OneBitT"

definition one_bit_update :: "bool \<Rightarrow> one_bit \<Rightarrow> one_bit" where
  "one_bit_update is_taken state = (if is_taken then OneBitT else OneBitNT)"

datatype two_bit = NT | WNT | WT | T

definition two_bit_default :: two_bit where
  "two_bit_default = WNT"

fun two_bit_update :: "bool \<Rightarrow> two_bit \<Rightarrow> two_bit" where
  "two_bit_update True NT = WNT"
| "two_bit_update True WNT = WT"
| "two_bit_update True WT = T"
| "two_bit_update True T = T"
| "two_bit_update False NT = NT"
| "two_bit_update False WNT = NT"
| "two_bit_update False WT = WNT"
| "two_bit_update False T = WT"

definition two_bit_is_taken :: "two_bit \<Rightarrow> bool" where
  "two_bit_is_taken v \<longleftrightarrow> v = WT \<or> v = T"

section \<open>Two levels\<close>

text \<open>\<open>d\<close> is the template's \<open>DEPTH\<close>.\<close>

record adaptive =
  state_table :: "two_bit list"
  current_pattern :: uint32

definition new_adaptive :: "nat \<Rightarrow> adaptive" where
  "new_adaptive d = \<lparr>state_table = replicate (unat (bitmask d :: uint64) + 1) two_bit_default, current_pattern = 0\<rparr>"

definition pattern_update :: "nat \<Rightarrow> bool \<Rightarrow> uint32 \<Rightarrow> uint32" where
  "pattern_update d is_taken v =
     (let v = push_bit 1 v; v = v AND bitmask d
      in if is_taken then v OR 1 else v)"

definition adaptive_is_taken :: "adaptive \<Rightarrow> bool option" where
  "adaptive_is_taken e =
     (let i = unat (current_pattern e)
      in if i < length (state_table e) then Some (two_bit_is_taken (state_table e ! i)) else None)"

definition adaptive_update :: "nat \<Rightarrow> bool \<Rightarrow> adaptive \<Rightarrow> adaptive option" where
  "adaptive_update d is_taken e =
     (let i = unat (current_pattern e)
      in if i < length (state_table e)
         then Some \<lparr>state_table = (state_table e)[i := two_bit_update is_taken (state_table e ! i)],
                    current_pattern = pattern_update d is_taken (current_pattern e)\<rparr>
         else None)"

definition adaptive_reset :: "adaptive \<Rightarrow> adaptive" where
  "adaptive_reset e = \<lparr>state_table = map (\<lambda>elem. two_bit_default) (state_table e), current_pattern = 0\<rparr>"

section \<open>The entry of a buffer\<close>

text \<open>The instances of the template class that the factory makes.\<close>

datatype bp_entry =
    AlwaysOneDirection bool | BackwardJumps | OneBit one_bit | TwoBit two_bit | Adaptive2 adaptive

fun entry_is_taken :: "bp_entry \<Rightarrow> Addr \<Rightarrow> Addr \<Rightarrow> bool option" where
  "entry_is_taken (AlwaysOneDirection direction) pc target = Some direction"
| "entry_is_taken BackwardJumps pc target = Some (target < pc)"
| "entry_is_taken (OneBit state) pc target = Some (one_bit_is_taken state)"
| "entry_is_taken (TwoBit state) pc target = Some (two_bit_is_taken state)"
| "entry_is_taken (Adaptive2 e) pc target = adaptive_is_taken e"

fun entry_update :: "bool \<Rightarrow> bp_entry \<Rightarrow> bp_entry option" where
  "entry_update is_taken (AlwaysOneDirection direction) = Some (AlwaysOneDirection direction)"
| "entry_update is_taken BackwardJumps = Some BackwardJumps"
| "entry_update is_taken (OneBit state) = Some (OneBit (one_bit_update is_taken state))"
| "entry_update is_taken (TwoBit state) = Some (TwoBit (two_bit_update is_taken state))"
| "entry_update is_taken (Adaptive2 e) = map_option Adaptive2 (adaptive_update 2 is_taken e)"

fun entry_reset :: "bp_entry \<Rightarrow> bp_entry" where
  "entry_reset (AlwaysOneDirection direction) = AlwaysOneDirection direction"
| "entry_reset BackwardJumps = BackwardJumps"
| "entry_reset (OneBit state) = OneBit one_bit_default"
| "entry_reset (TwoBit state) = TwoBit two_bit_default"
| "entry_reset (Adaptive2 e) = Adaptive2 (adaptive_reset e)"

section \<open>What a buffer relies on\<close>

text \<open>
  A sound entry never fails, stays sound, and is the same entry after a reset, whatever it saw.
  \<open>fresh\<close> is that entry.
\<close>

locale direction_predictor =
  fixes is_taken :: "'e \<Rightarrow> Addr \<Rightarrow> Addr \<Rightarrow> bool option"
    and update :: "bool \<Rightarrow> 'e \<Rightarrow> 'e option"
    and reset :: "'e \<Rightarrow> 'e"
    and fresh :: 'e
    and ok :: "'e \<Rightarrow> bool"
  assumes fresh_ok: "ok fresh"
    and predicts: "ok e \<Longrightarrow> is_taken e pc target \<noteq> None"
    and update_ok: "ok e \<Longrightarrow> \<exists>e'. update b e = Some e' \<and> ok e'"
    and reset_fresh: "ok e \<Longrightarrow> reset e = fresh"
begin

text \<open>An entry trained by a sequence of outcomes.\<close>

fun train :: "bool list \<Rightarrow> 'e \<Rightarrow> 'e option" where
  "train [] e = Some e"
| "train (b # bs) e = Option.bind (update b e) (train bs)"

lemma train_ok: "ok e \<Longrightarrow> \<exists>e'. train bs e = Some e' \<and> ok e'"
proof (induction bs arbitrary: e)
  case (Cons b bs)
  then obtain e1 where "update b e = Some e1" "ok e1" using update_ok by blast
  then show ?case using Cons.IH by simp
qed simp

lemma reset_forgets: "ok e \<Longrightarrow> train bs e = Some e' \<Longrightarrow> reset e' = reset e"
  using train_ok [of e bs] reset_fresh by auto

lemma retrain: "ok e \<Longrightarrow> train bs (reset e) = train bs fresh"
  by (simp add: reset_fresh)

end

section \<open>The adaptive entry stays in its table\<close>

definition adaptive_ok :: "nat \<Rightarrow> adaptive \<Rightarrow> bool" where
  "adaptive_ok d e \<longleftrightarrow> length (state_table e) = 2 ^ d \<and> unat (current_pattern e) < 2 ^ d"

lemma unat_bitmask: "d \<le> 32 \<Longrightarrow> unat (bitmask d :: uint64) + 1 = 2 ^ d"
  by (simp add: mask_simps unat_mask)

lemma pattern_update_unat:
  assumes "0 < d" "d \<le> 32"
  shows "unat (pattern_update d b v) = (2 * unat v + of_bool b) mod 2 ^ d"
proof -
  have t: "push_bit 1 v AND bitmask d = take_bit d (push_bit 1 v)"
    by (simp add: mask_simps take_bit_eq_mask)
  obtain k where k: "d = Suc k" using assms(1) by (cases d) auto
  have p: "unat (push_bit 1 v) = (2 * unat v) mod 2 ^ 32"
    by (simp add: push_bit_eq_mult unat_word_ariths mult.commute)
  have dvd: "(2 :: nat) ^ d dvd 2 ^ 32" using assms(2) by (rule le_imp_power_dvd)
  have "unat (take_bit d (push_bit 1 v)) = unat (push_bit 1 v) mod 2 ^ d"
    using assms(2) by (intro unat_take_bit) simp
  also have "\<dots> = (2 * unat v) mod 2 ^ d" unfolding p by (rule mod_mod_cancel [OF dvd])
  finally have u: "unat (take_bit d (push_bit 1 v)) = 2 * (unat v mod 2 ^ k)" by (simp add: k)
  have or1: "w OR 1 = w + 1" if "\<not> bit w 0" for w :: uint32
    using that by (subst disjunctive_add) (auto simp: bit_1_iff bit_simps intro: gr0I)
  have "\<not> bit (take_bit d (push_bit 1 v)) 0"
    by (simp only: bit_take_bit_iff bit_push_bit_iff) simp
  then have "pattern_update d b v = take_bit d (push_bit 1 v) + of_bool b"
    by (cases b) (simp_all only: or1 not_False_eq_True pattern_update_def Let_def t if_True if_False of_bool_eq add_0_right)
  moreover have "2 * (unat v mod 2 ^ k) + of_bool b < 2 ^ LENGTH(32)"
  proof -
    have "unat v mod 2 ^ k < 2 ^ k" by simp
    also have "(2 :: nat) ^ k \<le> 2 ^ 31" using k assms(2) by (intro power_increasing) simp_all
    finally show ?thesis by (simp add: of_bool_def)
  qed
  ultimately have "unat (pattern_update d b v) = 2 * (unat v mod 2 ^ k) + of_bool b"
    by (cases b) (simp_all only: unat_word_ariths u of_bool_eq unsigned_0 unsigned_1 mod_less)
  also have "\<dots> = (2 * unat v + of_bool b) mod 2 ^ d"
    unfolding k power_Suc mod_mult2_eq by simp
  finally show ?thesis .
qed

lemma new_adaptive_ok: "d \<le> 32 \<Longrightarrow> adaptive_ok d (new_adaptive d)"
  by (simp add: adaptive_ok_def new_adaptive_def unat_bitmask del: One_nat_def)

lemma adaptive_update_ok:
  assumes "adaptive_ok d e" "0 < d" "d \<le> 32"
  shows "adaptive_update d b e = Some \<lparr>state_table = (state_table e)[unat (current_pattern e) :=
        two_bit_update b (state_table e ! unat (current_pattern e))],
      current_pattern = pattern_update d b (current_pattern e)\<rparr>"
    "adaptive_ok d (the (adaptive_update d b e))"
  using assms by (simp_all add: adaptive_ok_def adaptive_update_def Let_def pattern_update_unat)

section \<open>The classes of the factory\<close>

datatype bp_class =
    BPEntryAlwaysTaken | BPEntryAlwaysNotTaken | BPEntryBackwardJumps | BPEntryOneBit | BPEntryTwoBit | BPEntryAdaptive2

fun new_entry :: "bp_class \<Rightarrow> bp_entry" where
  "new_entry BPEntryAlwaysTaken = AlwaysOneDirection True"
| "new_entry BPEntryAlwaysNotTaken = AlwaysOneDirection False"
| "new_entry BPEntryBackwardJumps = BackwardJumps"
| "new_entry BPEntryOneBit = OneBit one_bit_default"
| "new_entry BPEntryTwoBit = TwoBit two_bit_default"
| "new_entry BPEntryAdaptive2 = Adaptive2 (new_adaptive 2)"

text \<open>The entries of a class.\<close>

fun entry_ok :: "bp_class \<Rightarrow> bp_entry \<Rightarrow> bool" where
  "entry_ok k (AlwaysOneDirection b) \<longleftrightarrow> k = (if b then BPEntryAlwaysTaken else BPEntryAlwaysNotTaken)"
| "entry_ok k BackwardJumps \<longleftrightarrow> k = BPEntryBackwardJumps"
| "entry_ok k (OneBit s) \<longleftrightarrow> k = BPEntryOneBit"
| "entry_ok k (TwoBit s) \<longleftrightarrow> k = BPEntryTwoBit"
| "entry_ok k (Adaptive2 e) \<longleftrightarrow> k = BPEntryAdaptive2 \<and> adaptive_ok 2 e"

lemma adaptive_reset_new: "adaptive_ok d e \<Longrightarrow> d \<le> 32 \<Longrightarrow> adaptive_reset e = new_adaptive d"
  by (simp add: adaptive_ok_def adaptive_reset_def new_adaptive_def unat_bitmask map_replicate_const del: One_nat_def)

interpretation entry: direction_predictor entry_is_taken entry_update entry_reset "new_entry k" "entry_ok k" for k
proof
  show "entry_ok k (new_entry k)" by (cases k) (simp_all add: new_adaptive_ok)
  fix e b pc target
  assume "entry_ok k e"
  then show "entry_is_taken e pc target \<noteq> None" "\<exists>e'. entry_update b e = Some e' \<and> entry_ok k e'"
    using adaptive_update_ok [of 2] by (cases e; force simp: adaptive_is_taken_def adaptive_ok_def)+
  show "entry_reset e = new_entry k"
    using \<open>entry_ok k e\<close> by (cases e) (auto simp: adaptive_reset_new)
qed

section \<open>The counter\<close>

definition count :: "bool \<Rightarrow> nat \<Rightarrow> nat" where
  "count b c = (if b then min 3 (c + 1) else c - 1)"

fun two_bit_value :: "two_bit \<Rightarrow> nat" where
  "two_bit_value NT = 0"
| "two_bit_value WNT = 1"
| "two_bit_value WT = 2"
| "two_bit_value T = 3"

lemma two_bit_counts: "two_bit_value (two_bit_update b s) = count b (two_bit_value s)"
  by (cases b; cases s) (simp_all add: count_def)

lemma counts_from_default: "two_bit_value (fold two_bit_update bs two_bit_default) = fold count bs 1"
proof -
  have "two_bit_value (fold two_bit_update bs s) = fold count bs (two_bit_value s)" for s
    by (induction bs arbitrary: s) (simp_all add: two_bit_counts)
  from this [of two_bit_default] show ?thesis by (simp add: two_bit_default_def)
qed

lemma two_bit_is_taken_value: "two_bit_is_taken s \<longleftrightarrow> 2 \<le> two_bit_value s"
  by (cases s) (simp_all add: two_bit_is_taken_def)

text \<open>The two-bit predictor is a counter saturating at zero and three, begun at one, that predicts taken
  from two on: two equal outcomes make it predict that outcome, and after three the first
  contrary one does not change the prediction.\<close>
lemma two_bit_saturating_counter:
  "two_bit_value (fold two_bit_update bs two_bit_default) = fold count bs 1
    \<and> two_bit_is_taken s = (2 \<le> two_bit_value s)
    \<and> two_bit_is_taken (fold two_bit_update [b, b] s) = b
    \<and> two_bit_is_taken (fold two_bit_update [b, b, b, \<not> b] s) = b"
  unfolding counts_from_default two_bit_is_taken_value
  by (cases s; cases b) simp_all

section \<open>The two levels\<close>

definition history :: "nat \<Rightarrow> bool list \<Rightarrow> nat" where
  "history d bs = fold (\<lambda>b v. 2 * v + of_bool b) bs 0 mod 2 ^ d"

definition followers :: "nat \<Rightarrow> nat \<Rightarrow> bool list \<Rightarrow> bool list" where
  "followers d p bs = map ((!) bs) (filter (\<lambda>i. history d (take i bs) = p) [0..<length bs])"

fun adaptive_train :: "nat \<Rightarrow> bool list \<Rightarrow> adaptive \<Rightarrow> adaptive option" where
  "adaptive_train d [] e = Some e"
| "adaptive_train d (b # bs) e = Option.bind (adaptive_update d b e) (adaptive_train d bs)"

lemma adaptive_train_append: "adaptive_train d (xs @ ys) e = Option.bind (adaptive_train d xs e) (adaptive_train d ys)"
proof (induction xs arbitrary: e)
  case (Cons x xs)
  then show ?case by (cases "adaptive_update d x e") simp_all
qed simp

lemma history_snoc: "history d (bs @ [b]) = (2 * history d bs + of_bool b) mod 2 ^ d"
  unfolding history_def by (simp add: mod_add_left_eq [symmetric, of "2 * _"] mod_mult_right_eq)

lemma followers_snoc: "followers d p (bs @ [b]) = followers d p bs @ (if history d bs = p then [b] else [])"
proof -
  have "filter (\<lambda>i. history d (take i (bs @ [b])) = p) [0..<length bs] = filter (\<lambda>i. history d (take i bs) = p) [0..<length bs]"
    by (rule filter_cong) simp_all
  moreover have "map ((!) (bs @ [b])) (filter P [0..<length bs]) = map ((!) bs) (filter P [0..<length bs])" for P
    by (rule map_cong) (simp_all add: nth_append)
  ultimately show ?thesis by (simp add: followers_def)
qed

lemma history_less: "history d bs < 2 ^ d"
  by (simp add: history_def)

lemma adaptive_train_followers:
  assumes "0 < d" "d \<le> 32"
  shows "\<exists>e. adaptive_train d bs (new_adaptive d) = Some e \<and> unat (current_pattern e) = history d bs
    \<and> state_table e = map (\<lambda>p. fold two_bit_update (followers d p bs) two_bit_default) [0..<2 ^ d]"
proof (induction bs rule: rev_induct)
  case Nil
  have "replicate (2 ^ d) c = map (\<lambda>p. c) [0..<2 ^ d]" for c :: two_bit
    by (simp add: map_replicate_const)
  then show ?case
    using unat_bitmask [OF assms(2)] by (simp add: new_adaptive_def history_def followers_def del: One_nat_def)
next
  case (snoc b bs)
  let ?t = "\<lambda>bs. map (\<lambda>p. fold two_bit_update (followers d p bs) two_bit_default) [0..<2 ^ d]"
  obtain e where e: "adaptive_train d bs (new_adaptive d) = Some e" "unat (current_pattern e) = history d bs"
    "state_table e = ?t bs" using snoc by blast
  let ?e = "\<lparr>state_table = (?t bs)[history d bs := two_bit_update b (?t bs ! history d bs)],
      current_pattern = pattern_update d b (current_pattern e)\<rparr>"
  have "adaptive_update d b e = Some ?e"
    using history_less [of d bs] by (simp add: adaptive_update_def e Let_def)
  then have "adaptive_train d (bs @ [b]) (new_adaptive d) = Some ?e"
    by (simp add: adaptive_train_append e(1))
  moreover have "unat (pattern_update d b (current_pattern e)) = history d (bs @ [b])"
    using assms by (simp add: pattern_update_unat e(2) history_snoc)
  moreover have "(?t bs)[history d bs := two_bit_update b (?t bs ! history d bs)] = ?t (bs @ [b])"
    using history_less [of d bs] by (auto simp: followers_snoc nth_list_update intro!: nth_equalityI)
  ultimately show ?case by simp
qed

text \<open>C20: The adaptive predictor, of any depth up to 32, never leaves its table, and after any sequence of
  outcomes predicts what a two-bit counter would that had seen only the outcomes which
  followed the same last \<open>d\<close> outcomes as the present ones.\<close>
theorem adaptive_two_levels:
  assumes "0 < d" "d \<le> 32"
  shows "\<exists>e. adaptive_train d bs (new_adaptive d) = Some e
    \<and> adaptive_is_taken e = Some (2 \<le> fold count (followers d (history d bs) bs) 1)"
proof -
  obtain e where e: "adaptive_train d bs (new_adaptive d) = Some e" "unat (current_pattern e) = history d bs"
    "state_table e = map (\<lambda>p. fold two_bit_update (followers d p bs) two_bit_default) [0..<2 ^ d]"
    using adaptive_train_followers [OF assms] by blast
  have "adaptive_is_taken e = Some (two_bit_is_taken (fold two_bit_update (followers d (history d bs) bs) two_bit_default))"
    using history_less [of d bs] by (simp add: adaptive_is_taken_def e Let_def)
  then show ?thesis using e(1) counts_from_default two_bit_is_taken_value by simp
qed

lemma adaptive_two_levels_witness:
  "\<exists>e. adaptive_train 2 [True, False, True, False, True] (new_adaptive 2) = Some e
    \<and> adaptive_is_taken e = Some (2 \<le> fold count (followers 2 (history 2 [True, False, True, False, True])
        [True, False, True, False, True]) 1)"
  by (rule adaptive_two_levels) simp_all

end
