(* ===== verification/Bpu.thy ===== *)
theory Bpu
  imports Bp_Entry Cache_Tag_Array
begin

text \<open>
  The branch target buffer of simulator/modules/fetch/bpu/bpu.cpp and bpu.h: direction entries
  and targets in arrays of ways and sets, found through a cache tag array, and the factory by
  name. An access outside the arrays, which in C++ has no defined result, is an error value.
\<close>

datatype bp_error =
    BPInvalidMode string | CacheError cache_error | OutOfRange | EntryError | ZeroWays

section \<open>The interface\<close>

record bp_interface =
  bp_pc :: Addr
  bp_is_taken :: bool
  bp_target :: Addr
  bp_is_hit :: bool

section \<open>The buffer\<close>

record bp =
  directions :: "bp_entry list list"
  targets :: "Addr list list"
  bp_tags :: tag_array

definition at2 :: "'a list list \<Rightarrow> int \<Rightarrow> nat \<Rightarrow> bp_error + 'a" where
  "at2 xss way n =
     (if 0 \<le> way \<and> nat way < length xss \<and> n < length (xss ! nat way) then Inr (xss ! nat way ! n)
      else Inl OutOfRange)"

definition put2 :: "'a list list \<Rightarrow> int \<Rightarrow> nat \<Rightarrow> 'a \<Rightarrow> 'a list list" where
  "put2 xss way n x = xss[nat way := (xss ! nat way)[n := x]]"

fun chain :: "bp_error + 'a \<Rightarrow> ('a \<Rightarrow> bp_error + 'b) \<Rightarrow> bp_error + 'b" where
  "chain (Inl e) f = Inl e"
| "chain (Inr x) f = f x"

definition checked :: "'a option \<Rightarrow> bp_error + 'a" where
  "checked v = (case v of None \<Rightarrow> Inl EntryError | Some x \<Rightarrow> Inr x)"

definition new_bp :: "bp_class \<Rightarrow> string \<Rightarrow> uint32 \<Rightarrow> uint32 \<Rightarrow> uint32 \<Rightarrow> bp_error + bp" where
  "new_bp k lru size_in_entries ways branch_ip_size_in_bits =
     (if ways = 0 then Inl ZeroWays
      else let n = unat (size_in_entries div ways)
           in case create_tag_array lru size_in_entries ways 4 branch_ip_size_in_bits of
                Inl (InvalidSize msg) \<Rightarrow> Inl (BPInvalidMode msg)
              | Inl e \<Rightarrow> Inl (CacheError e)
              | Inr t \<Rightarrow> Inr \<lparr>directions = replicate (unat ways) (replicate n (new_entry k)),
                               targets = replicate (unat ways) (replicate n 0), bp_tags = t\<rparr>)"

definition is_way_taken :: "bp \<Rightarrow> int \<Rightarrow> Addr \<Rightarrow> Addr \<Rightarrow> bp_error + bool" where
  "is_way_taken b way pc target =
     chain (at2 (directions b) way (unat (array_set (bp_tags b) pc))) (\<lambda>e. checked (entry_is_taken e pc target))"

definition is_taken :: "bp \<Rightarrow> Addr \<Rightarrow> bp_error + bool" where
  "is_taken b pc =
     (let (is_hit, way) = array_read_no_touch (bp_tags b) pc
      in if is_hit
         then chain (at2 (targets b) way (unat (array_set (bp_tags b) pc))) (is_way_taken b way pc)
         else Inr False)"

definition is_hit :: "bp \<Rightarrow> Addr \<Rightarrow> bool" where
  "is_hit b pc = fst (array_read_no_touch (bp_tags b) pc)"

definition get_target :: "bp \<Rightarrow> Addr \<Rightarrow> bp_error + Addr" where
  "get_target b pc =
     (let (is_hit, way) = array_read_no_touch (bp_tags b) pc
      in if is_hit
         then chain (at2 (targets b) way (unat (array_set (bp_tags b) pc)))
                (\<lambda>target. chain (is_way_taken b way pc target)
                   (\<lambda>taken. Inr (if taken then target else pc + 4)))
         else Inr (pc + 4))"

definition get_bp_info :: "bp \<Rightarrow> Addr \<Rightarrow> bp_error + bp_interface" where
  "get_bp_info b pc =
     (if is_hit b pc
      then chain (is_taken b pc) (\<lambda>taken. chain (get_target b pc)
             (\<lambda>target. Inr \<lparr>bp_pc = pc, bp_is_taken = taken, bp_target = target, bp_is_hit = True\<rparr>))
      else Inr \<lparr>bp_pc = pc, bp_is_taken = False, bp_target = pc + 4, bp_is_hit = False\<rparr>)"

definition train_and_store :: "bp_interface \<Rightarrow> int \<Rightarrow> nat \<Rightarrow> bp \<Rightarrow> bp_error + bp" where
  "train_and_store bp_upd way n b =
     chain (at2 (directions b) way n) (\<lambda>entry.
       chain (checked (entry_update (bp_is_taken bp_upd) entry)) (\<lambda>entry.
         chain (at2 (targets b) way n) (\<lambda>old.
           Inr (b\<lparr>directions := put2 (directions b) way n entry,
                   targets := put2 (targets b) way n (bp_target bp_upd)\<rparr>))))"

definition update :: "bp_interface \<Rightarrow> bp \<Rightarrow> bp_error + bp" where
  "update bp_upd b =
     (let n = unat (array_set (bp_tags b) (bp_pc bp_upd));
          ((is_hit, way), ts) = array_read (bp_tags b) (bp_pc bp_upd)
      in if is_hit then train_and_store bp_upd way n (b\<lparr>bp_tags := ts\<rparr>)
         else case array_write ts (bp_pc bp_upd) of
                Inl e \<Rightarrow> Inl (CacheError e)
              | Inr (way, ts) \<Rightarrow>
                  chain (at2 (directions b) way n) (\<lambda>entry.
                    train_and_store bp_upd way n
                      (b\<lparr>bp_tags := ts, directions := put2 (directions b) way n (entry_reset entry)\<rparr>)))"

section \<open>The factory\<close>

definition bp_map :: "(string \<times> bp_class) list" where
  "bp_map = [(''always_taken'', BPEntryAlwaysTaken), (''always_not_taken'', BPEntryAlwaysNotTaken),
     (''backward_jumps'', BPEntryBackwardJumps), (''saturating_one_bit'', BPEntryOneBit),
     (''saturating_two_bits'', BPEntryTwoBit), (''adaptive_two_levels'', BPEntryAdaptive2)]"

definition print_map :: string where
  "print_map = ''Supported branch prediction modes:'' @ CHR 0x0A # concat (map (\<lambda>n. CHR 0x09 # n @ [CHR 0x0A])
     [''adaptive_two_levels'', ''always_not_taken'', ''always_taken'', ''backward_jumps'',
      ''saturating_one_bit'', ''saturating_two_bits''])"

definition create_bp :: "string \<Rightarrow> string \<Rightarrow> uint32 \<Rightarrow> uint32 \<Rightarrow> uint32 \<Rightarrow> bp_error + bp" where
  "create_bp name lru size_in_entries ways branch_ip_size_in_bits =
     (case map_of bp_map name of
        Some k \<Rightarrow> new_bp k lru size_in_entries ways branch_ip_size_in_bits
      | None \<Rightarrow> Inl (BPInvalidMode (name @ CHR 0x0A # print_map)))"

definition create_configured_bp :: "string \<Rightarrow> string \<Rightarrow> uint32 \<Rightarrow> uint32 \<Rightarrow> bp_error + bp" where
  "create_configured_bp bp_mode bp_lru bp_size bp_ways = create_bp bp_mode bp_lru bp_size bp_ways 32"

section \<open>The invariant of a buffer over a set-associative array\<close>

definition grid :: "nat \<Rightarrow> nat \<Rightarrow> 'a list list \<Rightarrow> bool" where
  "grid ways n xss \<longleftrightarrow> length xss = ways \<and> (\<forall>w < ways. length (xss ! w) = n)"

definition bp_ok :: "bp_class \<Rightarrow> simple_array \<Rightarrow> bp \<Rightarrow> bool" where
  "bp_ok k c b \<longleftrightarrow> bp_tags b = Simple c \<and> simple_ok c
     \<and> (\<exists>n. unat (sets (geo c)) \<le> n \<and> grid (unat (num_ways (geo c))) n (directions b) \<and> grid (unat (num_ways (geo c))) n (targets b)
          \<and> (\<forall>w < unat (num_ways (geo c)). \<forall>i < n. entry_ok k (directions b ! w ! i)))"

lemma at2_grid: "grid ways n xss \<Longrightarrow> w < ways \<Longrightarrow> i < n \<Longrightarrow> at2 xss (int w) i = Inr (xss ! w ! i)"
  by (simp add: at2_def grid_def)

lemma grid_put2 [simp]: "grid ways n xss \<Longrightarrow> grid ways n (put2 xss w i x)"
proof -
  assume g: "grid ways n xss"
  have "length (put2 xss w i x ! v) = n" if "v < ways" for v
    using g that by (cases "v = nat w") (simp_all add: grid_def put2_def)
  then show ?thesis using g by (simp add: grid_def put2_def)
qed

lemma put2_put2 [simp]: "put2 (put2 xss w i x) w i y = put2 xss w i y"
  by (cases "nat w < length xss") (simp_all add: put2_def list_update_beyond)

lemma put2_nth:
  "grid ways n xss \<Longrightarrow> w < ways \<Longrightarrow> i < n \<Longrightarrow> v < ways \<Longrightarrow>
    put2 xss (int w) i x ! v ! l = (if v = w \<and> l = i then x else xss ! v ! l)"
  by (auto simp: grid_def put2_def nth_list_update)

text \<open>What a buffer knows of an address: its entry and its target.\<close>

definition slot :: "bp \<Rightarrow> nat \<Rightarrow> nat \<Rightarrow> bp_entry \<times> Addr" where
  "slot b w i = (directions b ! w ! i, targets b ! w ! i)"

definition look :: "simple_array \<Rightarrow> bp \<Rightarrow> Addr \<Rightarrow> (bp_entry \<times> Addr) option" where
  "look c b pc =
     (let (hit, w) = simple_read_no_touch c pc
      in if hit then Some (slot b (nat w) (unat (cache_set (geo c) pc))) else None)"

lemma read_cases:
  assumes "simple_ok c"
  obtains "simple_read_no_touch c pc = (False, -1)"
  | w where "simple_read_no_touch c pc = (True, int w)" "w < unat (num_ways (geo c))"
proof (cases "(lookup_helper c ! unat (cache_set (geo c) pc)) (cache_tag (geo c) pc)")
  case None
  then show ?thesis using that(1) by (simp add: simple_read_no_touch_def table_find_def)
next
  case (Some w)
  then have "0 \<le> w \<and> nat w < unat (num_ways (geo c))"
    using helper_ok_bound [OF simple_okD(6) [OF assms]] by blast
  then show ?thesis using that(2) [of "nat w"] Some by (simp add: simple_read_no_touch_def table_find_def)
qed

text \<open>Two lines of a set are not in one way.\<close>

lemma read_inj:
  assumes "simple_ok c" "simple_read_no_touch c p = (True, w)" "simple_read_no_touch c q = (True, w)"
    "cache_set (geo c) p = cache_set (geo c) q"
  shows "line_of (geo c) p = line_of (geo c) q"
proof -
  let ?h = "lookup_helper c ! unat (cache_set (geo c) q)" and ?es = "tags c ! unat (cache_set (geo c) q)"
  have "?h (cache_tag (geo c) p) = Some w" "?h (cache_tag (geo c) q) = Some w"
    using assms(2-4) by (auto simp: simple_read_no_touch_def table_find_def split: option.splits)
  then have "cache_tag (geo c) p = cache_tag (geo c) q"
    using simple_okD(6) [OF assms(1), of q] unfolding helper_ok_def by fastforce
  then show ?thesis using same_line [OF simple_okD(1) [OF assms(1)]] assms(4) by blast
qed

lemma look_entry_ok:
  assumes "bp_ok k c b" "look c b pc = Some (e, target)"
  shows "entry_ok k e"
proof -
  have c: "simple_ok c" using assms(1) by (simp add: bp_ok_def)
  obtain n where n: "unat (sets (geo c)) \<le> n" "\<forall>w < unat (num_ways (geo c)). \<forall>i < n. entry_ok k (directions b ! w ! i)"
    using assms(1) by (auto simp: bp_ok_def)
  have s: "unat (cache_set (geo c) pc) < n" using cache_set_less [OF simple_okD(1) [OF c]] n(1) by (rule less_le_trans)
  show ?thesis using c
  proof (cases rule: read_cases [of c pc])
    case (2 w)
    then show ?thesis using assms(2) n(2) s by (auto simp: look_def slot_def)
  qed (use assms(2) in \<open>simp add: look_def\<close>)
qed

lemma get_bp_info_look:
  assumes "bp_ok k c b"
  shows "get_bp_info b pc = Inr (case look c b pc of
      None \<Rightarrow> \<lparr>bp_pc = pc, bp_is_taken = False, bp_target = pc + 4, bp_is_hit = False\<rparr>
    | Some (e, target) \<Rightarrow> (let p = the (entry_is_taken e pc target)
        in \<lparr>bp_pc = pc, bp_is_taken = p, bp_target = (if p then target else pc + 4), bp_is_hit = True\<rparr>))"
proof -
  have c: "simple_ok c" and t: "bp_tags b = Simple c" using assms by (simp_all add: bp_ok_def)
  obtain n where n: "unat (sets (geo c)) \<le> n" "grid (unat (num_ways (geo c))) n (directions b)"
    "grid (unat (num_ways (geo c))) n (targets b)"
    "\<forall>w < unat (num_ways (geo c)). \<forall>i < n. entry_ok k (directions b ! w ! i)"
    using assms by (auto simp: bp_ok_def)
  have s: "unat (cache_set (geo c) pc) < n" using cache_set_less [OF simple_okD(1) [OF c]] n(1) by (rule less_le_trans)
  show ?thesis using c
  proof (cases rule: read_cases [of c pc])
    case 1
    then show ?thesis by (simp add: get_bp_info_def is_hit_def look_def t)
  next
    case (2 w)
    let ?e = "directions b ! w ! unat (cache_set (geo c) pc)" and ?t = "targets b ! w ! unat (cache_set (geo c) pc)"
    obtain p where p: "entry_is_taken ?e pc ?t = Some p"
      using entry.predicts [of k ?e pc ?t] n(4) 2(2) s by blast
    have "is_way_taken b (int w) pc ?t = Inr p"
      using p at2_grid [OF n(2) 2(2) s] by (simp add: is_way_taken_def t checked_def)
    then show ?thesis
      using 2 p at2_grid [OF n(3) 2(2) s]
      by (simp add: get_bp_info_def is_hit_def is_taken_def get_target_def look_def slot_def t Let_def)
  qed
qed

text \<open>Training the entry of a way and a set, on a buffer whose arrays may lag behind the tags.\<close>

lemma train_and_store_slot:
  assumes d: "grid ways n (directions b)" and t: "grid ways n (targets b)" and w: "w < ways" "i < n"
    and e: "entry_update (bp_is_taken upd) (directions b ! w ! i) = Some e'"
  shows "train_and_store upd (int w) i b = Inr (b\<lparr>directions := put2 (directions b) (int w) i e',
      targets := put2 (targets b) (int w) i (bp_target upd)\<rparr>)"
  using at2_grid [OF d w] at2_grid [OF t w] e by (simp add: train_and_store_def checked_def)

lemma bp_ok_train:
  assumes b: "bp_ok k c b" and c': "simple_ok c'" "geo c' = geo c"
    and w: "w < unat (num_ways (geo c))" and e: "entry_ok k e'"
  shows "bp_ok k c' (b\<lparr>bp_tags := Simple c', directions := put2 (directions b) (int w) i e', targets := put2 (targets b) (int w) i x\<rparr>)"
proof -
  let ?ways = "unat (num_ways (geo c))"
  obtain n where n: "unat (sets (geo c)) \<le> n" "grid ?ways n (directions b)" "grid ?ways n (targets b)"
    "\<forall>w < ?ways. \<forall>i < n. entry_ok k (directions b ! w ! i)"
    using b by (auto simp: bp_ok_def)
  have "entry_ok k (put2 (directions b) (int w) i e' ! v ! l)" if "v < ?ways" "l < n" for v l
  proof (cases "i < n")
    case True
    then show ?thesis using put2_nth [OF n(2) w True that(1)] n(4) e that by simp
  next
    case False
    then have "length (directions b ! w) \<le> i" using n(2) w by (simp add: grid_def)
    then have "put2 (directions b) (int w) i e' = directions b" by (simp add: put2_def list_update_beyond)
    then show ?thesis using n(4) that by simp
  qed
  then show ?thesis using c' n(1-3) by (auto simp: bp_ok_def)
qed

lemma update_look:
  assumes b: "bp_ok k c b"
    and keys: "cache_tag (geo c) (bp_pc upd) \<noteq> impossible_key" "cache_tag (geo c) (bp_pc upd) \<noteq> impossible_key - 1"
  shows "\<exists>b' c' e'. update upd b = Inr b' \<and> bp_ok k c' b' \<and> geo c' = geo c
    \<and> entry_update (bp_is_taken upd) (case look c b (bp_pc upd) of None \<Rightarrow> new_entry k | Some (e, target) \<Rightarrow> e) = Some e'
    \<and> (\<forall>q. look c' b' q = (if line_of (geo c) q = line_of (geo c) (bp_pc upd) then Some (e', bp_target upd)
           else if is_hit b' q then look c b q else None))"
proof -
  let ?pc = "bp_pc upd" and ?ways = "unat (num_ways (geo c))" and ?s = "\<lambda>q. unat (cache_set (geo c) q)"
  have c: "simple_ok c" and t: "bp_tags b = Simple c" using b by (simp_all add: bp_ok_def)
  obtain n where n: "unat (sets (geo c)) \<le> n" "grid ?ways n (directions b)" "grid ?ways n (targets b)"
    "\<forall>w < ?ways. \<forall>i < n. entry_ok k (directions b ! w ! i)"
    using b by (auto simp: bp_ok_def)
  have s: "?s q < n" for q using cache_set_less [OF simple_okD(1) [OF c]] n(1) by (rule less_le_trans)
  let ?old = "case look c b ?pc of None \<Rightarrow> new_entry k | Some (e, target) \<Rightarrow> e"
  have old: "entry_ok k ?old"
    using c
  proof (cases rule: read_cases [of c ?pc])
    case 1
    then show ?thesis using entry.fresh_ok by (simp add: look_def)
  next
    case (2 w)
    then show ?thesis using n(4) s by (simp add: look_def slot_def)
  qed
  then obtain e' where e': "entry_update (bp_is_taken upd) ?old = Some e'" "entry_ok k e'"
    using entry.update_ok by blast
  text \<open>Both cases end with the same arrays, over an array of tags in which the line hits.\<close>
  have fin: ?thesis
    if u: "update upd b = Inr (b\<lparr>bp_tags := Simple c', directions := put2 (directions b) (int w) (?s ?pc) e',
        targets := put2 (targets b) (int w) (?s ?pc) (bp_target upd)\<rparr>)"
      and c': "simple_ok c'" "geo c' = geo c" and w: "w < ?ways"
      and hit: "simple_read_no_touch c' ?pc = (True, int w)"
      and kept: "\<And>q. line_of (geo c) q \<noteq> line_of (geo c) ?pc \<Longrightarrow> fst (simple_read_no_touch c' q) \<Longrightarrow>
        simple_read_no_touch c' q = simple_read_no_touch c q" for c' w
  proof -
    let ?b = "b\<lparr>bp_tags := Simple c', directions := put2 (directions b) (int w) (?s ?pc) e',
        targets := put2 (targets b) (int w) (?s ?pc) (bp_target upd)\<rparr>"
    have slots: "slot ?b v (?s q) = (if v = w \<and> ?s q = ?s ?pc then (e', bp_target upd) else slot b v (?s q))" if "v < ?ways" for v q
      using put2_nth [OF n(2) w s that] put2_nth [OF n(3) w s that] by (simp add: slot_def)
    have "look c' ?b q = (if line_of (geo c) q = line_of (geo c) ?pc then Some (e', bp_target upd)
           else if is_hit ?b q then look c b q else None)" for q
    proof (cases "line_of (geo c) q = line_of (geo c) ?pc")
      case True
      then have "cache_set (geo c) q = cache_set (geo c) ?pc" "cache_tag (geo c) q = cache_tag (geo c) ?pc"
        using same_line [OF simple_okD(1) [OF c]] by blast+
      then have "simple_read_no_touch c' q = (True, int w)" using hit by (simp add: simple_read_no_touch_def c'(2))
      then show ?thesis using True slots [OF w, of q] \<open>cache_set (geo c) q = cache_set (geo c) ?pc\<close>
        by (simp add: look_def c'(2))
    next
      case False
      show ?thesis using c'(1)
      proof (cases rule: read_cases [of c' q])
        case 1
        then show ?thesis using False by (simp add: look_def is_hit_def)
      next
        case (2 v)
        then have r: "simple_read_no_touch c q = (True, int v)" using kept [OF False] by simp
        have "\<not> (v = w \<and> ?s q = ?s ?pc)"
          using read_inj [OF c'(1), of q "int w" ?pc] 2(1) hit False by (auto simp: c'(2) word_unat_eq_iff)
        moreover have "v < ?ways" using 2(2) by (simp add: c'(2))
        ultimately have "slot ?b v (?s q) = slot b v (?s q)" using slots by (simp only: if_False)
        then show ?thesis using False 2 r by (simp add: look_def is_hit_def c'(2))
      qed
    qed
    moreover have "bp_ok k c' ?b" using b c' w e'(2) by (rule bp_ok_train)
    ultimately show ?thesis using u c'(2) e'(1) by (intro exI [of _ ?b] exI [of _ c'] exI [of _ e'] conjI allI)
  qed
  show ?thesis using c
  proof (cases rule: read_cases [of c ?pc])
    case (2 w)
    obtain c1 where r: "simple_read c ?pc = ((True, int w), c1)"
      using 2(1) by (simp add: simple_read_def Let_def)
    have c1: "simple_ok c1" "geo c1 = geo c" "simple_read_no_touch c1 q = simple_read_no_touch c q" for q
      using simple_read_ok [OF c, of ?pc] simple_read_contents [of c ?pc] r by simp_all
    have "entry_update (bp_is_taken upd) (directions b ! w ! ?s ?pc) = Some e'"
      using e'(1) 2(1) by (simp add: look_def slot_def)
    then have tr: "train_and_store upd (int w) (?s ?pc) (b\<lparr>bp_tags := Simple c1\<rparr>) =
        Inr (b\<lparr>bp_tags := Simple c1, directions := put2 (directions b) (int w) (?s ?pc) e',
          targets := put2 (targets b) (int w) (?s ?pc) (bp_target upd)\<rparr>)"
      using train_and_store_slot [of ?ways n "b\<lparr>bp_tags := Simple c1\<rparr>" w "?s ?pc" upd e'] n(2,3) 2(2) s by simp
    have "update upd b = Inr (b\<lparr>bp_tags := Simple c1, directions := put2 (directions b) (int w) (?s ?pc) e',
        targets := put2 (targets b) (int w) (?s ?pc) (bp_target upd)\<rparr>)"
      unfolding tr [symmetric] by (simp add: update_def t r)
    then show ?thesis
      by (rule fin) (use c1 2 in simp_all)
  next
    case 1
    have r: "simple_read c ?pc = ((False, -1), c)" using 1 by (simp add: simple_read_def Let_def)
    obtain way c' where wr: "simple_write c ?pc = Inr (way, c')" using simple_write_defined keys by blast
    have miss: "\<not> fst (simple_read_no_touch c ?pc)" using 1 by simp
    define w where "w = victim_way c ?pc"
    note m = simple_write_miss [OF c miss wr]
    have w: "way = int w" "w < ?ways" using m victim_way_less [OF c] by (simp_all add: w_def)
    have fresh: "entry_reset (directions b ! w ! ?s ?pc) = new_entry k"
      using entry.reset_fresh n(4) w(2) s by blast
    let ?d = "put2 (directions b) (int w) (?s ?pc) (new_entry k)"
    let ?b = "b\<lparr>bp_tags := Simple c', directions := ?d\<rparr>"
    have "?d ! w ! ?s ?pc = new_entry k" using put2_nth [OF n(2) w(2) s w(2)] by simp
    then have e: "entry_update (bp_is_taken upd) (directions ?b ! w ! ?s ?pc) = Some e'"
      using e'(1) 1 by (simp add: look_def)
    have g: "grid ?ways n (directions ?b)" "grid ?ways n (targets ?b)" using n(2,3) by simp_all
    note tr = train_and_store_slot [where upd = upd, OF g w(2) s e]
    have "update upd b = train_and_store upd (int w) (?s ?pc) ?b"
      by (simp add: update_def t r wr w(1) at2_grid [OF n(2) w(2) s] fresh Let_def)
    then have "update upd b = Inr (b\<lparr>bp_tags := Simple c', directions := put2 (directions b) (int w) (?s ?pc) e',
        targets := put2 (targets b) (int w) (?s ?pc) (bp_target upd)\<rparr>)"
      unfolding tr by simp
    then show ?thesis
    proof (rule fin)
      show "simple_ok c'" "geo c' = geo c" using m by blast+
      show "w < ?ways" by (rule w(2))
      show "simple_read_no_touch c' ?pc = (True, int w)" using m [of ?pc] w(1) by simp
      fix q
      assume "line_of (geo c) q \<noteq> line_of (geo c) ?pc" "fst (simple_read_no_touch c' q)"
      then show "simple_read_no_touch c' q = simple_read_no_touch c q" using m [of q] by (auto split: if_splits)
    qed
  qed
qed

text \<open>A buffer is created sound when the size of a way does not wrap.\<close>

lemma new_bp_ok:
  assumes "new_bp k lru size_in_entries ways bits = Inr b" "unat ways < 2 ^ 30" "lru \<noteq> ''always_hit''" "lru \<noteq> ''infinite''"
  shows "\<exists>c. bp_ok k c b \<and> unat (sets (geo c)) * unat ways * 4 = unat size_in_entries"
proof -
  let ?g = "\<lparr>size_in_bytes = size_in_entries, num_ways = ways, line_size = 4, addr_size_in_bits = bits\<rparr>"
  have w: "ways \<noteq> 0" using assms(1) by (auto simp: new_bp_def)
  have t: "create_tag_array lru size_in_entries ways 4 bits = map_sum id Simple (new_simple ?g lru)"
    using assms(3,4) by (simp only: create_tag_array_def if_False)
  obtain c where c: "new_simple ?g lru = Inr c"
    using assms(1) w by (cases "new_simple ?g lru") (auto simp: new_bp_def t Let_def split: cache_error.splits)
  then have b: "b = \<lparr>directions = replicate (unat ways) (replicate (unat (size_in_entries div ways)) (new_entry k)),
      targets = replicate (unat ways) (replicate (unat (size_in_entries div ways)) 0), bp_tags = Simple c\<rparr>"
    using assms(1) w by (simp add: new_bp_def t Let_def)
  have g: "geo c = ?g" using c by (auto simp: new_simple_def split: option.splits sum.splits)
  have ok: "simple_ok c" by (rule new_simple_ok [OF c]) (use assms(2) in simp)
  have p: "unat (ways * 4) = unat ways * 4" using assms(2) by (simp add: unat_word_ariths)
  have "size_in_entries mod (ways * 4) = 0"
    using check_geometryD(7) [OF simple_okD(1) [OF ok]] by (simp add: g)
  then have "unat size_in_entries mod (unat ways * 4) = 0" using p by (metis unat_mod_distrib unsigned_0)
  moreover have sets: "unat (sets (geo c)) = unat size_in_entries div (unat ways * 4)" by (simp add: g unat_sets p)
  ultimately have "unat (sets (geo c)) * unat ways * 4 = unat size_in_entries" by (metis add_0_right div_mult_mod_eq mult.assoc)
  moreover have "unat (sets (geo c)) \<le> unat (size_in_entries div ways)"
    unfolding sets by (simp add: unat_div_distrib div_mult2_eq)
  moreover have "entry_ok k (new_entry k)" by (rule entry.fresh_ok)
  ultimately show ?thesis using ok b by (auto simp: bp_ok_def grid_def g)
qed

text \<open>C6: The buffer learns a branch: an update, which can fail only on a reserved tag, keeps the buffer
  sound, trains the line's entry, or a fresh one after a miss, with the outcome, and from then
  on the line predicts by that entry, with the new target when taken and the next instruction
  otherwise; every other line still present predicts as before.\<close>
theorem bpu_learns:
  assumes "bp_ok k c b" "cache_tag (geo c) (bp_pc upd) \<noteq> impossible_key" "cache_tag (geo c) (bp_pc upd) \<noteq> impossible_key - 1"
  shows "\<exists>b' c' e' p. update upd b = Inr b' \<and> bp_ok k c' b' \<and> geo c' = geo c
    \<and> entry_update (bp_is_taken upd) (case look c b (bp_pc upd) of None \<Rightarrow> new_entry k | Some (e, target) \<Rightarrow> e) = Some e'
    \<and> entry_is_taken e' (bp_pc upd) (bp_target upd) = Some p
    \<and> get_bp_info b' (bp_pc upd) = Inr \<lparr>bp_pc = bp_pc upd, bp_is_taken = p,
        bp_target = (if p then bp_target upd else bp_pc upd + 4), bp_is_hit = True\<rparr>
    \<and> (\<forall>q. line_of (geo c) q \<noteq> line_of (geo c) (bp_pc upd) \<and> is_hit b' q \<longrightarrow> get_bp_info b' q = get_bp_info b q)"
proof -
  obtain b' c' e' where u: "update upd b = Inr b'" "bp_ok k c' b'" "geo c' = geo c"
    "entry_update (bp_is_taken upd) (case look c b (bp_pc upd) of None \<Rightarrow> new_entry k | Some (e, target) \<Rightarrow> e) = Some e'"
    "\<And>q. look c' b' q = (if line_of (geo c) q = line_of (geo c) (bp_pc upd) then Some (e', bp_target upd)
       else if is_hit b' q then look c b q else None)"
    using update_look [OF assms] by blast
  note info = get_bp_info_look [OF u(2)] get_bp_info_look [OF assms(1)]
  obtain p where p: "entry_is_taken e' (bp_pc upd) (bp_target upd) = Some p"
    using look_entry_ok [OF u(2), of "bp_pc upd"] entry.predicts u(5) by fastforce
  have "get_bp_info b' (bp_pc upd) = Inr \<lparr>bp_pc = bp_pc upd, bp_is_taken = p,
      bp_target = (if p then bp_target upd else bp_pc upd + 4), bp_is_hit = True\<rparr>"
    unfolding info u(5) by (simp add: p Let_def)
  moreover have "get_bp_info b' q = get_bp_info b q"
    if "line_of (geo c) q \<noteq> line_of (geo c) (bp_pc upd) \<and> is_hit b' q" for q
    unfolding info u(5) using that by simp
  ultimately show ?thesis using u(1-4) p by blast
qed

definition small_bp :: bp where
  "small_bp = \<lparr>directions = replicate 2 (replicate 8 (TwoBit WNT)), targets = replicate 2 (replicate 8 0), bp_tags = Simple small_cache\<rparr>"

lemma small_bp_ok: "bp_ok BPEntryTwoBit small_cache small_bp"
  using small_ok by (auto simp: bp_ok_def small_bp_def small_fields small_sets grid_def intro!: exI [of _ 8])

lemma bpu_learns_witness:
  "\<exists>b'. update \<lparr>bp_pc = 100, bp_is_taken = True, bp_target = 60, bp_is_hit = False\<rparr> small_bp = Inr b'
    \<and> get_bp_info b' 100 = Inr \<lparr>bp_pc = 100, bp_is_taken = True, bp_target = 60, bp_is_hit = True\<rparr>"
proof -
  let ?u = "\<lparr>bp_pc = 100, bp_is_taken = True, bp_target = 60, bp_is_hit = False\<rparr>"
  have "cache_tag (geo small_cache) (bp_pc ?u) \<noteq> impossible_key" "cache_tag (geo small_cache) (bp_pc ?u) \<noteq> impossible_key - 1"
    unfolding cache_tag_def small_fields small_sets by (simp_all add: impossible_key_def mask_numeral)
  from bpu_learns [OF small_bp_ok this] show ?thesis
    by (auto simp: look_def small_empty two_bit_default_def two_bit_is_taken_def)
qed

end
