(* ===== verification/Arena.thy ===== *)
theory Arena
  imports Prelude
begin

text \<open>
  The storage of simulator/infra/arena.h, which constructs and destroys objects in place. A
  cell is \<open>None\<close> where no object lives, so a use of a dead object or a construction over a
  live one, both undefined in C++, can be told from a correct use.
\<close>

type_synonym 'a arena = "'a option list"

definition allocate :: "nat \<Rightarrow> 'a arena" where
  "allocate n = replicate n None"

definition arena_emplace :: "nat \<Rightarrow> 'a \<Rightarrow> 'a arena \<Rightarrow> 'a arena" where
  "arena_emplace position x storage = storage[position := Some x]"

definition arena_destroy :: "nat \<Rightarrow> 'a arena \<Rightarrow> 'a arena" where
  "arena_destroy position storage = storage[position := None]"

definition arena_at :: "'a arena \<Rightarrow> nat \<Rightarrow> 'a option" where
  "arena_at storage position = (if position < length storage then storage ! position else None)"

end
