(* ===== verification/Port_Queue.thy ===== *)
theory Port_Queue
  imports Arena
begin

text \<open>
  The bounded queue of simulator/infra/ports/port_queue/port_queue.h: a ring buffer on an
  arena with a front, a back and a count. The locale \<open>fifo\<close> is the contract of a queue, and
  the ring buffer meets it.
\<close>

section \<open>The queue\<close>

record 'a port_queue =
  arena :: "'a arena"
  p_front :: nat
  p_back :: nat
  occupied :: nat
  capacity :: nat

definition advance_ptr :: "nat \<Rightarrow> nat \<Rightarrow> nat" where
  "advance_ptr cap p = (if p + 1 = cap then 0 else p + 1)"

definition pq_empty :: "'a port_queue \<Rightarrow> bool" where
  "pq_empty q \<longleftrightarrow> occupied q = 0"

definition pq_full :: "'a port_queue \<Rightarrow> bool" where
  "pq_full q \<longleftrightarrow> occupied q = capacity q"

definition pq_pop :: "'a port_queue \<Rightarrow> 'a port_queue" where
  "pq_pop q = q\<lparr>arena := arena_destroy (p_front q) (arena q),
     p_front := advance_ptr (capacity q) (p_front q), occupied := occupied q - 1\<rparr>"

function pq_clear :: "'a port_queue \<Rightarrow> 'a port_queue" where
  "pq_clear q = (if \<not> pq_empty q then pq_clear (pq_pop q) else q)"
  by pat_completeness auto
termination by (relation "measure occupied") (auto simp: pq_empty_def pq_pop_def)

declare pq_clear.simps [simp del]

definition pq_resize :: "nat \<Rightarrow> 'a port_queue \<Rightarrow> 'a port_queue" where
  "pq_resize n q = (pq_clear q)\<lparr>arena := allocate n, p_front := 0, p_back := 0, occupied := 0, capacity := n\<rparr>"

definition pq_emplace :: "'a \<Rightarrow> 'a port_queue \<Rightarrow> 'a port_queue" where
  "pq_emplace x q = q\<lparr>arena := arena_emplace (p_back q) x (arena q),
     p_back := advance_ptr (capacity q) (p_back q), occupied := occupied q + 1\<rparr>"

definition pq_front :: "'a port_queue \<Rightarrow> 'a option" where
  "pq_front q = arena_at (arena q) (p_front q)"

definition new_port_queue :: "'a port_queue" where
  "new_port_queue = \<lparr>arena = [], p_front = 0, p_back = 0, occupied = 0, capacity = 0\<rparr>"

section \<open>The contract of a queue\<close>

locale fifo =
  fixes ok :: "'q \<Rightarrow> bool"
    and contents :: "'q \<Rightarrow> 'a list"
    and room :: "'q \<Rightarrow> nat"
    and push :: "'a \<Rightarrow> 'q \<Rightarrow> 'q"
    and pop :: "'q \<Rightarrow> 'q"
    and front :: "'q \<Rightarrow> 'a option"
    and is_empty :: "'q \<Rightarrow> bool"
  assumes push: "ok q \<Longrightarrow> length (contents q) < room q \<Longrightarrow>
        ok (push x q) \<and> contents (push x q) = contents q @ [x] \<and> room (push x q) = room q"
    and pop: "ok q \<Longrightarrow> contents q = x # xs \<Longrightarrow> ok (pop q) \<and> contents (pop q) = xs \<and> room (pop q) = room q"
    and front: "ok q \<Longrightarrow> contents q = x # xs \<Longrightarrow> front q = Some x"
    and is_empty: "ok q \<Longrightarrow> is_empty q \<longleftrightarrow> contents q = []"
    and bounded: "ok q \<Longrightarrow> length (contents q) \<le> room q"
begin

lemma push_all:
  "ok q \<Longrightarrow> length (contents q) + length xs \<le> room q \<Longrightarrow>
    ok (fold push xs q) \<and> contents (fold push xs q) = contents q @ xs \<and> room (fold push xs q) = room q"
proof (induction xs arbitrary: q)
  case (Cons x xs)
  then show ?case using push [of q x] Cons.IH [of "push x q"] by simp
qed simp

lemma pop_all:
  "ok q \<Longrightarrow> n \<le> length (contents q) \<Longrightarrow>
    ok ((pop ^^ n) q) \<and> contents ((pop ^^ n) q) = drop n (contents q) \<and> room ((pop ^^ n) q) = room q"
proof (induction n arbitrary: q)
  case (Suc n)
  then obtain x xs where c: "contents q = x # xs" by (cases "contents q") auto
  then show ?case using pop [OF Suc.prems(1) c] Suc.IH [of "pop q"] Suc.prems(2) by (simp add: funpow_swap1)
qed simp

text \<open>A queue that is never popped empty gives back what was put in.\<close>

lemma push_pop_all:
  assumes "ok q" "length (contents q) + length xs \<le> room q"
  shows "contents ((pop ^^ length (contents q)) (fold push xs q)) = xs"
  using push_all [OF assms] pop_all [of "fold push xs q" "length (contents q)"] by simp

end

section \<open>The ring buffer meets it\<close>

definition cell :: "'a port_queue \<Rightarrow> nat \<Rightarrow> nat" where
  "cell q i = (p_front q + i) mod capacity q"

definition pq_contents :: "'a port_queue \<Rightarrow> 'a list" where
  "pq_contents q = map (\<lambda>i. the (arena q ! cell q i)) [0..<occupied q]"

text \<open>An object lives in a cell exactly when it is in the occupied part of the ring.\<close>

definition pq_ok :: "'a port_queue \<Rightarrow> bool" where
  "pq_ok q \<longleftrightarrow> 0 < capacity q \<and> length (arena q) = capacity q \<and> p_front q < capacity q
     \<and> occupied q \<le> capacity q \<and> p_back q = cell q (occupied q)
     \<and> (\<forall>i < capacity q. arena q ! cell q i \<noteq> None \<longleftrightarrow> i < occupied q)"

lemma advance_ptr_mod: "p < cap \<Longrightarrow> advance_ptr cap p = Suc p mod cap"
  by (simp add: advance_ptr_def)

lemma cell_less [simp]: "0 < capacity q \<Longrightarrow> cell q i < capacity q"
  by (simp add: cell_def)

lemma cell_inj:
  assumes "cell q i = cell q j" "i < capacity q" "j < capacity q"
  shows "i = j"
proof -
  have "i = j" if "i \<le> j" "cell q i = cell q j" "j < capacity q" for i j
  proof -
    have "capacity q dvd (p_front q + j) - (p_front q + i)"
      using that(1,2) mod_eq_dvd_iff_nat [of "p_front q + i" "p_front q + j" "capacity q"] by (simp add: cell_def)
    then have "capacity q dvd j - i" by simp
    moreover have "j - i < capacity q" using that(3) by simp
    ultimately have "j - i = 0" using dvd_imp_le [of "capacity q" "j - i"] by linarith
    then show ?thesis using that(1) by simp
  qed
  then show ?thesis using assms by (metis linear)
qed

lemma length_pq_contents [simp]: "length (pq_contents q) = occupied q"
  by (simp add: pq_contents_def)

lemma emplace_ok:
  assumes q: "pq_ok q" and room: "occupied q < capacity q"
  shows "pq_ok (pq_emplace x q)" "pq_contents (pq_emplace x q) = pq_contents q @ [x]" "capacity (pq_emplace x q) = capacity q"
proof -
  let ?q = "pq_emplace x q"
  have d: "0 < capacity q" "length (arena q) = capacity q" "p_front q < capacity q" "p_back q = cell q (occupied q)"
    "\<And>i. i < capacity q \<Longrightarrow> arena q ! cell q i \<noteq> None \<longleftrightarrow> i < occupied q"
    using q by (simp_all add: pq_ok_def)
  have cell: "cell ?q i = cell q i" for i by (simp add: cell_def pq_emplace_def)
  have at: "arena ?q ! cell q i = (if i = occupied q then Some x else arena q ! cell q i)" if "i < capacity q" for i
    using that room d(1,2,4) cell_inj [of q i "occupied q"]
    by (auto simp: pq_emplace_def arena_emplace_def nth_list_update)
  have "advance_ptr (capacity q) (p_back q) = cell ?q (occupied q + 1)"
    using d(1) by (simp add: advance_ptr_mod d(4) cell) (simp add: cell_def mod_Suc_eq)
  moreover have "arena ?q ! cell ?q i \<noteq> None \<longleftrightarrow> i < occupied q + 1" if "i < capacity q" for i
    using that at d(5) by (cases "i = occupied q") (simp_all add: cell less_Suc_eq)
  ultimately show "pq_ok ?q"
    using d(1-3) room by (simp add: pq_ok_def) (simp add: pq_emplace_def arena_emplace_def)
  have occ: "occupied ?q = Suc (occupied q)" by (simp add: pq_emplace_def)
  show "pq_contents ?q = pq_contents q @ [x]"
    using at room by (simp add: pq_contents_def occ cell)
  show "capacity ?q = capacity q" by (simp add: pq_emplace_def)
qed

lemma pop_ok:
  assumes q: "pq_ok q" and c: "pq_contents q = x # xs"
  shows "pq_ok (pq_pop q)" "pq_contents (pq_pop q) = xs" "capacity (pq_pop q) = capacity q"
    "pq_front q = Some x"
proof -
  let ?q = "pq_pop q"
  have d: "0 < capacity q" "length (arena q) = capacity q" "p_front q < capacity q" "p_back q = cell q (occupied q)"
    "occupied q \<le> capacity q" "\<And>i. i < capacity q \<Longrightarrow> arena q ! cell q i \<noteq> None \<longleftrightarrow> i < occupied q"
    using q by (simp_all add: pq_ok_def)
  have occ: "0 < occupied q" using c length_pq_contents [of q] by simp
  have cell0: "cell q 0 = p_front q" using d(3) by (simp add: cell_def)
  have cell: "cell ?q i = cell q (Suc i)" for i
    using d(3) by (simp add: cell_def pq_pop_def advance_ptr_mod mod_add_left_eq)
  have at: "arena ?q ! cell q i = (if i = 0 then None else arena q ! cell q i)" if "i < capacity q" for i
    using that d(1-3) cell_inj [of q i 0] cell0
    by (auto simp: pq_pop_def arena_destroy_def nth_list_update)
  have wrap: "cell q (capacity q) = cell q 0" by (simp add: cell_def)
  have live: "arena ?q ! cell ?q i \<noteq> None \<longleftrightarrow> i < occupied q - 1" if "i < capacity q" for i
  proof (cases "Suc i < capacity q")
    case True
    then show ?thesis using at [of "Suc i"] d(6) [of "Suc i"] by (auto simp: cell)
  next
    case False
    then have "Suc i = capacity q" using that by simp
    then show ?thesis using at [of 0] d(1,5) wrap by (simp add: cell)
  qed
  have "p_back q = cell ?q (occupied q - 1)" using occ by (simp add: d(4) cell)
  moreover have "advance_ptr (capacity q) (p_front q) < capacity q" using d(1,3) by (simp add: advance_ptr_mod)
  ultimately show "pq_ok ?q"
    using d(1-3,5) live by (simp add: pq_ok_def) (simp add: pq_pop_def arena_destroy_def)
  have l: "[0..<occupied q] = 0 # map Suc [0..<occupied q - 1]"
    using occ by (simp add: upt_conv_Cons map_Suc_upt)
  have "pq_contents q = the (arena q ! p_front q) # map (\<lambda>i. the (arena q ! cell q (Suc i))) [0..<occupied q - 1]"
    by (simp add: pq_contents_def l cell0 comp_def)
  moreover have "pq_contents ?q = map (\<lambda>i. the (arena q ! cell q (Suc i))) [0..<occupied q - 1]"
    using at d(5) by (simp add: pq_contents_def cell) (simp add: pq_pop_def)
  ultimately show "pq_contents ?q = xs" and x: "pq_front q = Some x"
    using c d(2,3) d(6) [of 0] occ cell0 d(1) by (auto simp: pq_front_def arena_at_def)
  show "capacity ?q = capacity q" by (simp add: pq_pop_def)
qed

interpretation pq: fifo pq_ok pq_contents capacity pq_emplace pq_pop pq_front pq_empty
proof
  fix q :: "'a port_queue" and x xs
  assume q: "pq_ok q"
  show "length (pq_contents q) < capacity q \<Longrightarrow>
      pq_ok (pq_emplace x q) \<and> pq_contents (pq_emplace x q) = pq_contents q @ [x] \<and> capacity (pq_emplace x q) = capacity q"
    using emplace_ok [OF q] by simp
  show "pq_contents q = x # xs \<Longrightarrow> pq_ok (pq_pop q) \<and> pq_contents (pq_pop q) = xs \<and> capacity (pq_pop q) = capacity q"
    "pq_contents q = x # xs \<Longrightarrow> pq_front q = Some x"
    using pop_ok [OF q] by blast+
  show "pq_empty q \<longleftrightarrow> pq_contents q = []" by (simp add: pq_empty_def pq_contents_def)
  show "length (pq_contents q) \<le> capacity q" using q by (simp add: pq_ok_def)
qed

lemma resize_ok: "0 < n \<Longrightarrow> pq_ok (pq_resize n q) \<and> pq_contents (pq_resize n q) = [] \<and> capacity (pq_resize n q) = n"
  by (simp add: pq_resize_def pq_ok_def pq_contents_def allocate_def cell_def)

text \<open>A queue that is full exactly has no room, and clearing empties it.\<close>

lemma full_room: "pq_ok q \<Longrightarrow> pq_full q \<longleftrightarrow> length (pq_contents q) = capacity q"
  by (simp add: pq_full_def)

lemma clear_empty: "pq_ok q \<Longrightarrow> pq_ok (pq_clear q) \<and> pq_contents (pq_clear q) = [] \<and> capacity (pq_clear q) = capacity q"
proof (induction q rule: pq_clear.induct)
  case (1 q)
  show ?case
  proof (cases "pq_contents q")
    case Nil
    then have "pq_clear q = q" using pq.is_empty [OF 1(2)] by (subst pq_clear.simps) simp
    then show ?thesis using 1(2) Nil by simp
  next
    case (Cons x xs)
    then show ?thesis
      using 1 pq.pop [OF 1(2) Cons] pq.is_empty [OF 1(2)] by (subst (1 2 3) pq_clear.simps) simp
  qed
qed

end
