(* ===== verification/Ports.thy ===== *)
theory Ports
  imports Port_Queue
begin

text \<open>
  The ports between the modules of the cycle-accurate model, from simulator/infra/ports/ports.h,
  ports.cpp and timing.h: a writer copies every item to its readers, a reader delivers it
  \<open>latency\<close> cycles later and drops what was not read in its cycle. Exceptions and the debug
  assertion on the order of cycles are error values.
\<close>

datatype port_error =
    NoData string | Overloaded string | NoWritePort string | TwoWritePorts string | NoReadPorts string
  | AssertionFailed

section \<open>Cycles and latencies\<close>

type_synonym Cycle = uint64
type_synonym Latency = uint64

definition add_latency :: "Cycle \<Rightarrow> Latency \<Rightarrow> Cycle" where
  "add_latency c l = c + l"

definition update_last_cycle :: "Cycle \<Rightarrow> Cycle \<Rightarrow> port_error + Cycle" where
  "update_last_cycle cycle last_cycle = (if last_cycle \<le> cycle then Inr cycle else Inl AssertionFailed)"

section \<open>Reading\<close>

record 'a read_port =
  read_key :: string
  latency :: Latency
  read_last_cycle :: Cycle
  queue :: "('a \<times> Cycle) port_queue"

definition new_read_port :: "string \<Rightarrow> Latency \<Rightarrow> 'a read_port" where
  "new_read_port key l = \<lparr>read_key = key, latency = l, read_last_cycle = 0, queue = new_port_queue\<rparr>"

definition read_port_init :: "uint32 \<Rightarrow> 'a read_port \<Rightarrow> 'a read_port" where
  "read_port_init bandwidth p = p\<lparr>queue := pq_resize (unat ((latency p + 1) * ucast bandwidth)) (queue p)\<rparr>"

function drop_stale :: "Cycle \<Rightarrow> ('a \<times> Cycle) port_queue \<Rightarrow> ('a \<times> Cycle) port_queue" where
  "drop_stale cycle q =
     (if \<not> pq_empty q \<and> (case pq_front q of None \<Rightarrow> False | Some (x, c) \<Rightarrow> c < cycle)
      then drop_stale cycle (pq_pop q) else q)"
  by pat_completeness auto
termination by (relation "measure (\<lambda>(c, q). occupied q)") (auto simp: pq_empty_def pq_pop_def)

declare drop_stale.simps [simp del]

definition cleanup_stale_data :: "Cycle \<Rightarrow> 'a read_port \<Rightarrow> port_error + 'a read_port" where
  "cleanup_stale_data cycle p =
     (case update_last_cycle cycle (read_last_cycle p) of
        Inl e \<Rightarrow> Inl e
      | Inr c \<Rightarrow> Inr (p\<lparr>read_last_cycle := c, queue := drop_stale cycle (queue p)\<rparr>))"

definition is_ready :: "Cycle \<Rightarrow> 'a read_port \<Rightarrow> port_error + bool \<times> 'a read_port" where
  "is_ready cycle p =
     (case cleanup_stale_data cycle p of
        Inl e \<Rightarrow> Inl e
      | Inr p \<Rightarrow> Inr (\<not> pq_empty (queue p) \<and> map_option snd (pq_front (queue p)) = Some cycle, p))"

definition read_port :: "Cycle \<Rightarrow> 'a read_port \<Rightarrow> port_error + 'a \<times> 'a read_port" where
  "read_port cycle p =
     (case is_ready cycle p of
        Inl e \<Rightarrow> Inl e
      | Inr (False, p) \<Rightarrow> Inl (NoData (read_key p))
      | Inr (True, p) \<Rightarrow> Inr (fst (the (pq_front (queue p))), p\<lparr>queue := pq_pop (queue p)\<rparr>))"

definition emplaceData :: "'a \<Rightarrow> Cycle \<Rightarrow> 'a read_port \<Rightarrow> port_error + 'a read_port" where
  "emplaceData what cycle p =
     (let cycle_to_read = add_latency cycle (latency p)
      in case cleanup_stale_data cycle p of
           Inl e \<Rightarrow> Inl e
         | Inr p \<Rightarrow> Inr (p\<lparr>queue := pq_emplace (what, cycle_to_read) (queue p)\<rparr>))"

section \<open>Writing\<close>

record 'a write_port =
  write_key :: string
  write_last_cycle :: Cycle
  write_counter :: uint32
  initialized_bandwidth :: uint32
  installed_bandwidth :: uint32
  fanout :: nat
  destinations :: "'a read_port list"

definition new_write_port :: "string \<Rightarrow> uint32 \<Rightarrow> 'a write_port" where
  "new_write_port key bw = \<lparr>write_key = key, write_last_cycle = 0, write_counter = 0,
     initialized_bandwidth = 0, installed_bandwidth = bw, fanout = 0, destinations = []\<rparr>"

definition base_init :: "'a read_port list \<Rightarrow> 'a write_port \<Rightarrow> port_error + 'a write_port" where
  "base_init readers w =
     (if readers = [] then Inl (NoReadPorts (write_key w))
      else Inr (w\<lparr>fanout := length readers, initialized_bandwidth := installed_bandwidth w\<rparr>))"

definition increment_write_counter :: "Cycle \<Rightarrow> 'a write_port \<Rightarrow> port_error + 'a write_port" where
  "increment_write_counter cycle w =
     (let counter = (if write_last_cycle w = cycle then write_counter w + 1 else 0)
      in case update_last_cycle cycle (write_last_cycle w) of
           Inl e \<Rightarrow> Inl e
         | Inr c \<Rightarrow>
             if initialized_bandwidth w < counter then Inl (Overloaded (write_key w))
             else Inr (w\<lparr>write_counter := counter, write_last_cycle := c\<rparr>))"

fun emplace_all :: "'a \<Rightarrow> Cycle \<Rightarrow> 'a read_port list \<Rightarrow> port_error + 'a read_port list" where
  "emplace_all what cycle [] = Inr []"
| "emplace_all what cycle (p # ps) =
     (case emplaceData what cycle p of Inl e \<Rightarrow> Inl e | Inr p \<Rightarrow> map_sum id ((#) p) (emplace_all what cycle ps))"

definition basic_write :: "'a \<Rightarrow> Cycle \<Rightarrow> 'a write_port \<Rightarrow> port_error + 'a write_port" where
  "basic_write what cycle w =
     (case emplace_all what cycle (tl (destinations w)) of
        Inl e \<Rightarrow> Inl e
      | Inr ps \<Rightarrow> map_sum id (\<lambda>p. w\<lparr>destinations := p # ps\<rparr>) (emplaceData what cycle (hd (destinations w))))"

definition write_to_port :: "'a \<Rightarrow> Cycle \<Rightarrow> 'a write_port \<Rightarrow> port_error + 'a write_port" where
  "write_to_port what cycle w =
     (case increment_write_counter cycle w of Inl e \<Rightarrow> Inl e | Inr w \<Rightarrow> basic_write what cycle w)"

section \<open>The map of ports\<close>

text \<open>One cluster of the map: the writer and the readers that share a key.\<close>

record 'a cluster =
  writer :: "'a write_port option"
  readers :: "'a read_port list"

type_synonym 'a port_map = "string \<rightharpoonup> 'a cluster"

definition get_cluster :: "'a port_map \<Rightarrow> string \<Rightarrow> 'a cluster" where
  "get_cluster pm key = (case pm key of None \<Rightarrow> \<lparr>writer = None, readers = []\<rparr> | Some c \<Rightarrow> c)"

definition add_write_port :: "'a write_port \<Rightarrow> 'a port_map \<Rightarrow> port_error + 'a port_map" where
  "add_write_port w pm =
     (let c = get_cluster pm (write_key w)
      in if writer c \<noteq> None then Inl (TwoWritePorts (write_key w))
         else Inr (pm(write_key w \<mapsto> c\<lparr>writer := Some w\<rparr>)))"

definition add_read_port :: "'a read_port \<Rightarrow> 'a port_map \<Rightarrow> 'a port_map" where
  "add_read_port r pm =
     (let c = get_cluster pm (read_key r) in pm(read_key r \<mapsto> c\<lparr>readers := readers c @ [r]\<rparr>))"

text \<open>Initialising a cluster connects the writer to its readers, which it then owns.\<close>

definition init_cluster :: "string \<Rightarrow> 'a cluster \<Rightarrow> port_error + 'a write_port" where
  "init_cluster key c =
     (case writer c of
        None \<Rightarrow> Inl (NoWritePort key)
      | Some w \<Rightarrow>
          (case base_init (readers c) w of
             Inl e \<Rightarrow> Inl e
           | Inr w \<Rightarrow> Inr (w\<lparr>destinations := map (read_port_init (initialized_bandwidth w)) (readers c)\<rparr>)))"

section \<open>The queue of a reader\<close>

definition stale :: "Cycle \<Rightarrow> 'a \<times> Cycle \<Rightarrow> bool" where
  "stale cycle d \<longleftrightarrow> snd d < cycle"

lemma drop_stale_contents:
  "pq_ok q \<Longrightarrow> pq_ok (drop_stale c q) \<and> pq_contents (drop_stale c q) = dropWhile (stale c) (pq_contents q)
    \<and> capacity (drop_stale c q) = capacity q"
proof (induction c q rule: drop_stale.induct)
  case (1 c q)
  show ?case
  proof (cases "pq_contents q")
    case Nil
    then have "drop_stale c q = q" using pq.is_empty [OF 1(2)] by (subst drop_stale.simps) simp
    then show ?thesis using 1(2) Nil by simp
  next
    case (Cons d ds)
    have e: "\<not> pq_empty q" using pq.is_empty [OF 1(2)] Cons by simp
    obtain x t where d: "d = (x, t)" by (cases d)
    have f: "pq_front q = Some (x, t)" using pq.front [OF 1(2) Cons] d by simp
    show ?thesis
    proof (cases "stale c d")
      case True
      then have "drop_stale c q = drop_stale c (pq_pop q)"
        using e f by (subst drop_stale.simps) (simp add: stale_def d)
      then show ?thesis
        using 1(1) e f True pq.pop [OF 1(2) Cons] Cons by (simp add: stale_def d)
    next
      case False
      then have "drop_stale c q = q"
        using f by (subst drop_stale.simps) (simp add: stale_def d)
      then show ?thesis using 1(2) Cons False by simp
    qed
  qed
qed

text \<open>A reader of a latency and a capacity, with its pending items, last used in a cycle.\<close>

definition holds :: "Latency \<Rightarrow> nat \<Rightarrow> Cycle \<Rightarrow> ('a \<times> Cycle) list \<Rightarrow> 'a read_port \<Rightarrow> bool" where
  "holds l cap last_cycle ds p \<longleftrightarrow> pq_ok (queue p) \<and> pq_contents (queue p) = ds \<and> capacity (queue p) = cap
     \<and> latency p = l \<and> read_last_cycle p = last_cycle"

lemma init_holds:
  "0 < unat ((l + 1) * ucast bw) \<Longrightarrow> holds l (unat ((l + 1) * ucast bw)) 0 [] (read_port_init bw (new_read_port key l))"
  by (simp add: holds_def read_port_init_def new_read_port_def resize_ok)

lemma cleanup_holds:
  assumes "holds l cap last_cycle ds p" "last_cycle \<le> c"
  shows "\<exists>p'. cleanup_stale_data c p = Inr p' \<and> holds l cap c (dropWhile (stale c) ds) p'"
  using assms drop_stale_contents [of "queue p" c]
  by (auto simp: cleanup_stale_data_def update_last_cycle_def holds_def)

lemma emplaceData_holds:
  assumes "holds l cap last_cycle ds p" "last_cycle \<le> c" "length (dropWhile (stale c) ds) < cap"
  shows "\<exists>p'. emplaceData x c p = Inr p' \<and> holds l cap c (dropWhile (stale c) ds @ [(x, c + l)]) p'"
proof -
  obtain p' where p': "cleanup_stale_data c p = Inr p'" "holds l cap c (dropWhile (stale c) ds) p'"
    using cleanup_holds [OF assms(1,2)] by blast
  then show ?thesis
    using pq.push [of "queue p'" "(x, c + l)"] assms(1,3)
    by (simp add: emplaceData_def add_latency_def holds_def Let_def)
qed

lemma is_ready_holds:
  assumes "holds l cap last_cycle ds p" "last_cycle \<le> c"
  shows "\<exists>p'. is_ready c p = Inr ((case dropWhile (stale c) ds of [] \<Rightarrow> False | d # _ \<Rightarrow> snd d = c), p')
    \<and> holds l cap c (dropWhile (stale c) ds) p'"
proof -
  obtain p' where p': "cleanup_stale_data c p = Inr p'" "holds l cap c (dropWhile (stale c) ds) p'"
    using cleanup_holds [OF assms] by blast
  define es where "es = dropWhile (stale c) ds"
  have q: "pq_ok (queue p')" "pq_contents (queue p') = es" using p' by (simp_all add: holds_def es_def)
  show ?thesis
    unfolding es_def [symmetric]
  proof (cases es)
    case Nil
    then show "\<exists>p'. is_ready c p = Inr ((case es of [] \<Rightarrow> False | d # _ \<Rightarrow> snd d = c), p') \<and> holds l cap c es p'"
      using p' [folded es_def] pq.is_empty [OF q(1)] q(2) by (simp add: is_ready_def)
  next
    case (Cons d ds')
    then show "\<exists>p'. is_ready c p = Inr ((case es of [] \<Rightarrow> False | d # _ \<Rightarrow> snd d = c), p') \<and> holds l cap c es p'"
      using p' [folded es_def] pq.is_empty [OF q(1)] pq.front [OF q(1), of d ds'] q(2) by (simp add: is_ready_def)
  qed
qed

lemma read_port_holds:
  assumes "holds l cap last_cycle ds p" "last_cycle \<le> c" "dropWhile (stale c) ds = (x, c) # ds'"
  shows "\<exists>p'. read_port c p = Inr (x, p') \<and> holds l cap c ds' p'"
proof -
  obtain p' where p': "is_ready c p = Inr (True, p')" "holds l cap c ((x, c) # ds') p'"
    using is_ready_holds [OF assms(1,2)] assms(3) by auto
  then show ?thesis
    using pq.pop [of "queue p'" "(x, c)" ds'] pq.front [of "queue p'" "(x, c)" ds']
    by (auto simp: read_port_def holds_def)
qed

section \<open>Schedules\<close>

text \<open>The items of a cycle, of the cycles of a schedule in order, and reads in one cycle.\<close>

fun write_items :: "'a list \<Rightarrow> Cycle \<Rightarrow> 'a read_port \<Rightarrow> port_error + 'a read_port" where
  "write_items [] c p = Inr p"
| "write_items (x # xs) c p = (case emplaceData x c p of Inl e \<Rightarrow> Inl e | Inr p \<Rightarrow> write_items xs c p)"

fun write_schedule :: "('a list \<times> Cycle) list \<Rightarrow> 'a read_port \<Rightarrow> port_error + 'a read_port" where
  "write_schedule [] p = Inr p"
| "write_schedule ((xs, c) # ws) p = (case write_items xs c p of Inl e \<Rightarrow> Inl e | Inr p \<Rightarrow> write_schedule ws p)"

fun read_items :: "nat \<Rightarrow> Cycle \<Rightarrow> 'a read_port \<Rightarrow> port_error + 'a list \<times> 'a read_port" where
  "read_items 0 c p = Inr ([], p)"
| "read_items (Suc n) c p =
     (case read_port c p of Inl e \<Rightarrow> Inl e | Inr (x, p) \<Rightarrow> map_sum id (map_prod ((#) x) id) (read_items n c p))"

lemma dropWhile_snoc_fix: "\<not> P y \<Longrightarrow> dropWhile P (dropWhile P xs @ [y]) = dropWhile P xs @ [y]"
  by (induction xs) auto

lemma write_items_holds:
  assumes "holds l cap last_cycle ds p" "last_cycle \<le> c" "c \<le> c + l" "xs \<noteq> []"
    "length (dropWhile (stale c) ds) + length xs \<le> cap"
  shows "\<exists>p'. write_items xs c p = Inr p' \<and> holds l cap c (dropWhile (stale c) ds @ map (\<lambda>x. (x, c + l)) xs) p'"
  using assms
proof (induction xs arbitrary: p ds last_cycle)
  case (Cons x xs)
  let ?ds = "dropWhile (stale c) ds @ [(x, c + l)]"
  obtain p' where p': "emplaceData x c p = Inr p'" "holds l cap c ?ds p'"
    using emplaceData_holds [OF Cons.prems(1,2), of x] Cons.prems(5) by auto
  show ?case
  proof (cases "xs = []")
    case True
    then show ?thesis using p' by simp
  next
    case False
    have "\<not> stale c (x, c + l)" using Cons.prems(3) by (simp add: stale_def not_less)
    then have "dropWhile (stale c) ?ds = ?ds" by (rule dropWhile_snoc_fix)
    then show ?thesis using Cons.IH [OF p'(2)] Cons.prems(3,5) False p'(1) by simp
  qed
qed simp

lemma read_items_holds:
  assumes "holds l cap last_cycle ds p" "last_cycle \<le> c" "dropWhile (stale c) ds = map (\<lambda>x. (x, c)) xs @ rest"
  shows "\<exists>p' d. read_items (length xs) c p = Inr (xs, p') \<and> holds l cap d (if xs = [] then ds else rest) p'
    \<and> (if xs = [] then d = last_cycle else d = c)"
  using assms
proof (induction xs arbitrary: p ds last_cycle)
  case (Cons x xs)
  obtain p' where p': "read_port c p = Inr (x, p')" "holds l cap c (map (\<lambda>x. (x, c)) xs @ rest) p'"
    using read_port_holds [OF Cons.prems(1,2), of x "map (\<lambda>x. (x, c)) xs @ rest"] Cons.prems(3) by auto
  have "dropWhile (stale c) (map (\<lambda>x. (x, c)) xs @ rest) = map (\<lambda>x. (x, c)) xs @ rest"
    if "xs \<noteq> []" using that by (cases xs) (simp_all add: stale_def)
  then show ?case
    using Cons.IH [OF p'(2)] p' by (cases "xs = []") force+
qed auto

section \<open>Delivery\<close>

definition tagged :: "Latency \<Rightarrow> ('a list \<times> Cycle) list \<Rightarrow> ('a \<times> Cycle) list" where
  "tagged l ws = concat (map (\<lambda>(xs, c). map (\<lambda>x. (x, c + l)) xs) ws)"

text \<open>A schedule names cycles in order, with some items but no more than the bandwidth.\<close>

definition schedule :: "nat \<Rightarrow> Latency \<Rightarrow> ('a list \<times> Cycle) list \<Rightarrow> bool" where
  "schedule bw l ws \<longleftrightarrow> sorted_wrt (\<lambda>(xs, c) (ys, d). c < d) ws
     \<and> list_all (\<lambda>(xs, c). xs \<noteq> [] \<and> length xs \<le> bw \<and> unat c + unat l < 2 ^ 64) ws"

lemma schedule_mono: "schedule bw l ws \<Longrightarrow> (xs, c) \<in> set ws \<Longrightarrow> c \<le> c + l \<and> unat (c + l) = unat c + unat l"
  by (auto simp: schedule_def list_all_iff word_le_nat_alt unat_word_ariths)

lemma dropWhile_tagged:
  assumes "schedule bw l ws"
  shows "dropWhile (stale m) (tagged l ws) = tagged l (filter (\<lambda>(xs, c). m \<le> c + l) ws)"
  using assms
proof (induction ws)
  case (Cons w ws)
  obtain xs c where w: "w = (xs, c)" by (cases w)
  have ws: "schedule bw l ws" using Cons.prems by (simp add: schedule_def)
  show ?case
  proof (cases "m \<le> c + l")
    case False
    then have "dropWhile (stale m) (map (\<lambda>x. (x, c + l)) xs @ ds) = dropWhile (stale m) ds" for ds
      by (induction xs) (simp_all add: stale_def)
    then show ?thesis using Cons.IH [OF ws] False by (simp add: tagged_def w)
  next
    case True
    have later: "m \<le> d + l" if "(ys, d) \<in> set ws" for ys d
    proof -
      have "c < d" using Cons.prems that w by (auto simp: schedule_def)
      then have "c + l \<le> d + l"
        using schedule_mono [OF Cons.prems, of xs c] schedule_mono [OF ws that] w by (simp add: word_le_nat_alt word_less_nat_alt)
      with True show ?thesis by simp
    qed
    then have f: "filter (\<lambda>(xs, c). m \<le> c + l) ws = ws" by (auto simp: filter_id_conv)
    have "xs \<noteq> []" using Cons.prems w by (simp add: schedule_def)
    then obtain x ys where "xs = x # ys" by (cases xs) auto
    then show ?thesis using True f by (simp add: tagged_def w stale_def not_less)
  qed
qed (simp add: tagged_def)

lemma schedule_filter: "schedule bw l ws \<Longrightarrow> schedule bw l (filter P ws)"
  by (simp add: schedule_def sorted_wrt_filter list_all_iff)

text \<open>The items that are due after a cycle fit: those of as many earlier cycles as the latency.\<close>

lemma length_tagged: "schedule bw l ws \<Longrightarrow> length (tagged l ws) \<le> length ws * bw"
  by (induction ws) (auto simp: tagged_def schedule_def)

lemma schedule_window:
  assumes "schedule bw l ws" "\<And>xs c. (xs, c) \<in> set ws \<Longrightarrow> c < m \<and> m \<le> c + l"
  shows "length ws \<le> unat l"
proof -
  have d: "distinct (map (\<lambda>(xs, c). unat c) ws)"
  proof -
    have "sorted_wrt (<) (map (\<lambda>(xs, c). unat c) ws)"
      using assms(1) unfolding schedule_def sorted_wrt_map
      by (elim conjE sorted_wrt_mono_rel [rotated]) (auto simp: word_less_nat_alt)
    then show ?thesis by (simp add: strict_sorted_iff)
  qed
  have "set (map (\<lambda>(xs, c). unat c) ws) \<subseteq> {unat m - unat l..<unat m}"
    using assms(2) schedule_mono [OF assms(1)] by (fastforce simp: word_le_nat_alt word_less_nat_alt)
  then have "card (set (map (\<lambda>(xs, c). unat c) ws)) \<le> card {unat m - unat l..<unat m}"
    by (intro card_mono) simp_all
  then show ?thesis using distinct_card [OF d] by simp
qed

lemma write_schedule_append:
  "write_schedule (ws @ vs) p = (case write_schedule ws p of Inl e \<Rightarrow> Inl e | Inr p \<Rightarrow> write_schedule vs p)"
  by (induction ws arbitrary: p) (auto split: sum.splits)

lemma write_schedule_holds:
  assumes "schedule bw l ws" "holds l cap 0 [] p" "(unat l + 1) * bw \<le> cap"
  shows "\<exists>p' m. write_schedule ws p = Inr p' \<and> holds l cap m (tagged l (filter (\<lambda>(xs, c). m \<le> c + l) ws)) p'
    \<and> m = (if ws = [] then 0 else snd (last ws))"
  using assms(1)
proof (induction ws rule: rev_induct)
  case Nil
  then show ?case using assms(2) by (simp add: tagged_def)
next
  case (snoc w ws)
  obtain xs c where w: "w = (xs, c)" by (cases w)
  have ws: "schedule bw l ws" using snoc.prems by (simp add: schedule_def sorted_wrt_append)
  obtain p' m where p': "write_schedule ws p = Inr p'" "holds l cap m (tagged l (filter (\<lambda>(xs, c). m \<le> c + l) ws)) p'"
    "m = (if ws = [] then 0 else snd (last ws))"
    using snoc.IH [OF ws] by blast
  have later: "d < c" if "(ys, d) \<in> set ws" for ys d
    using snoc.prems that by (auto simp: schedule_def sorted_wrt_append w)
  have "m \<le> c"
  proof (cases "ws = []")
    case False
    then have "last ws \<in> set ws" by simp
    then show ?thesis using later [of "fst (last ws)" "snd (last ws)"] p'(3) False by simp
  qed (simp add: p'(3))
  have xs: "xs \<noteq> []" "length xs \<le> bw" "c \<le> c + l"
    using snoc.prems schedule_mono [OF snoc.prems, of xs c] by (simp_all add: schedule_def w)
  let ?pending = "filter (\<lambda>(xs, d). c \<le> d + l) ws"
  have "filter (\<lambda>(xs, d). c \<le> d + l) (filter (\<lambda>(xs, c). m \<le> c + l) ws) = ?pending"
    using \<open>m \<le> c\<close> by (auto simp: filter_filter intro!: filter_cong)
  then have drop: "dropWhile (stale c) (tagged l (filter (\<lambda>(xs, c). m \<le> c + l) ws)) = tagged l ?pending"
    using dropWhile_tagged [OF schedule_filter [OF ws]] by simp
  have "length (tagged l ?pending) \<le> length ?pending * bw"
    by (rule length_tagged [OF schedule_filter [OF ws]])
  also have "length ?pending \<le> unat l"
    using later by (intro schedule_window [OF schedule_filter [OF ws], of _ c]) auto
  finally have "length (tagged l ?pending) \<le> unat l * bw" by simp
  then have "length (tagged l ?pending) + length xs \<le> cap" using xs(2) assms(3) by simp
  then obtain p'' where "write_items xs c p' = Inr p''" "holds l cap c (tagged l ?pending @ map (\<lambda>x. (x, c + l)) xs) p''"
    using write_items_holds [OF p'(2) \<open>m \<le> c\<close> xs(3,1)] drop by auto
  then show ?case using p'(1) xs(3) by (simp add: write_schedule_append w tagged_def)
qed

definition due :: "Latency \<Rightarrow> Cycle \<Rightarrow> ('a list \<times> Cycle) list \<Rightarrow> 'a list" where
  "due l now ws = concat (map fst (filter (\<lambda>(xs, c). c + l = now) ws))"

lemma tagged_due:
  assumes "schedule bw l ws"
  shows "tagged l (filter (\<lambda>(xs, c). now \<le> c + l) ws) = map (\<lambda>x. (x, now)) (due l now ws) @ tagged l (filter (\<lambda>(xs, c). now < c + l) ws)"
  using assms
proof (induction ws)
  case (Cons w ws)
  obtain xs c where w: "w = (xs, c)" by (cases w)
  have ws: "schedule bw l ws" using Cons.prems by (simp add: schedule_def)
  show ?case
  proof (cases "now \<le> c + l")
    case False
    then show ?thesis using Cons.IH [OF ws] by (auto simp: w tagged_def due_def)
  next
    case True
    have later: "now < d + l" if "(ys, d) \<in> set ws" for ys d
    proof -
      have "c < d" using Cons.prems that w by (auto simp: schedule_def)
      then have "c + l < d + l"
        using schedule_mono [OF Cons.prems, of xs c] schedule_mono [OF ws that] w by (simp add: word_less_nat_alt)
      with True show ?thesis by simp
    qed
    then have f: "filter (\<lambda>(xs, c). now \<le> c + l) ws = ws" "filter (\<lambda>(xs, c). now < c + l) ws = ws" "filter (\<lambda>(xs, c). c + l = now) ws = []"
      by (fastforce simp: filter_id_conv filter_empty_conv)+
    have "due l now (w # ws) = (if c + l = now then xs else [])" using f(3) by (simp add: due_def w)
    then show ?thesis using True f(1,2) by (auto simp: w tagged_def)
  qed
qed (simp add: tagged_def due_def)

lemma no_head:
  assumes "\<And>d. d \<in> set ds \<Longrightarrow> now < snd d"
  shows "\<not> (case ds of [] \<Rightarrow> False | d # _ \<Rightarrow> snd d = (now :: Cycle))"
proof (cases ds)
  case (Cons d es)
  then show ?thesis using assms [of d] by simp
qed simp

lemma tagged_later:
  "\<not> (case dropWhile (stale now) (tagged l (filter (\<lambda>(xs, c). now < c + l) ws)) of [] \<Rightarrow> False | d # _ \<Rightarrow> snd d = now)"
proof -
  have "now < snd d" if "d \<in> set (tagged l (filter (\<lambda>(xs, c). now < c + l) ws))" for d
    using that by (auto simp: tagged_def)
  then have "\<And>d. d \<in> set (dropWhile (stale now) (tagged l (filter (\<lambda>(xs, c). now < c + l) ws))) \<Longrightarrow> now < snd d"
    by (blast dest: set_dropWhileD)
  then show ?thesis by (rule no_head)
qed

lemma room_init:
  assumes "0 < unat bw" "(unat l + 1) * unat bw < 2 ^ 64"
  shows "unat ((l + 1) * ucast (bw :: uint32) :: uint64) = (unat l + 1) * unat bw"
proof -
  have "unat l + 1 \<le> (unat l + 1) * unat bw" using mult_le_mono2 [of 1 "unat bw" "unat l + 1"] assms(1) by simp
  then have "unat l + 1 < 2 ^ 64" using assms(2) by linarith
  then have "unat (l + 1) = unat l + 1" by (simp add: unat_word_ariths)
  then show ?thesis using assms(2) by (simp add: unat_word_ariths unat_ucast_up)
qed



section \<open>The bandwidth of a writer\<close>

text \<open>
  The counter starts from zero in the first write of a new cycle, so a writer that has moved
  past its first cycle accepts one write more than its bandwidth. The queue of its reader has
  no room for it: the second of two items overwrites the first, and the item is then read once
  and its second copy is dead.
\<close>

definition example_writer :: "nat write_port" where
  "example_writer = (new_write_port ''A'' 1)\<lparr>initialized_bandwidth := 1, fanout := 1,
     destinations := [read_port_init 1 (new_read_port ''A'' 0)]\<rparr>"

lemma bandwidth_off_by_one:
  "(case write_to_port 10 5 example_writer of Inl e \<Rightarrow> False
    | Inr w \<Rightarrow> (case write_to_port 20 5 w of Inl e \<Rightarrow> False
    | Inr w \<Rightarrow> (let p = hd (destinations w); p' = snd (projr (read_port 5 p))
        in capacity (queue p) = 1 \<and> occupied (queue p) = 2 \<and> pq_front (queue p) = Some (20, 5)
         \<and> occupied (queue p') = 1 \<and> pq_front (queue p') = None)))"
  by code_simp

end
