(* ===== verification/Instr_Cache.thy ===== *)
theory Instr_Cache
  imports Arena Replacement
begin

text \<open>
  The cache of decoded instructions, simulator/infra/instrcache/instr_cache.h, and the
  instruction memory that uses it, simulator/func_sim/instr_memory.h. The template arguments
  are arguments: the capacity and the two keys reserved by the hash table. The hash table is a
  map, and its assertions make an operation \<open>None\<close>. The locale \<open>decoder\<close> is what the
  instruction memory needs of an instruction set.
\<close>

section \<open>The cache\<close>

record ('k, 'v) instr_cache =
  keys :: "'k list"
  pointers :: "'k \<rightharpoonup> nat"
  storage :: "'v arena"
  lru_module :: lru

definition new_instr_cache :: "nat \<Rightarrow> ('k :: zero, 'v) instr_cache" where
  "new_instr_cache cap =
     \<lparr>keys = replicate cap 0, pointers = Map.empty, storage = allocate cap,
      lru_module = fold lru_touch [0..<cap] (new_lru cap)\<rparr>"

definition ic_find :: "('k, 'v) instr_cache \<Rightarrow> 'k \<Rightarrow> bool \<times> 'v option" where
  "ic_find c key =
     (case pointers c key of
        None \<Rightarrow> (False, arena_at (storage c) (length (keys c)))
      | Some index \<Rightarrow> (True, arena_at (storage c) index))"

definition ic_touch :: "'k \<Rightarrow> ('k, 'v) instr_cache \<Rightarrow> ('k, 'v) instr_cache" where
  "ic_touch key c =
     (let index = (case pointers c key of None \<Rightarrow> 0 | Some index \<Rightarrow> index)
      in c\<lparr>pointers := (pointers c)(key \<mapsto> index), lru_module := lru_touch index (lru_module c)\<rparr>)"

definition ic_erase :: "'k :: zero \<Rightarrow> ('k, 'v) instr_cache \<Rightarrow> ('k, 'v) instr_cache" where
  "ic_erase key c =
     (case pointers c key of
        None \<Rightarrow> c
      | Some index \<Rightarrow>
          c\<lparr>storage := arena_destroy index (storage c), keys := (keys c)[index := 0],
            pointers := (pointers c)(key := None), lru_module := lru_set_to_erase index (lru_module c)\<rparr>)"

definition ic_allocate :: "'k :: zero set \<Rightarrow> 'k \<Rightarrow> 'v \<Rightarrow> ('k, 'v) instr_cache \<Rightarrow> ('k, 'v) instr_cache option" where
  "ic_allocate reserved key v c =
     (let (index, l) = lru_update (lru_module c);
          c = ic_erase (keys c ! index) (c\<lparr>lru_module := l\<rparr>);
          c = c\<lparr>storage := arena_emplace index v (storage c), keys := (keys c)[index := key]\<rparr>
      in if key \<in> reserved then None
         else Some (c\<lparr>pointers := (if pointers c key = None then (pointers c)(key \<mapsto> index) else pointers c),
                      lru_module := lru_touch index (lru_module c)\<rparr>))"

definition ic_update :: "'k :: zero set \<Rightarrow> 'k \<Rightarrow> 'v \<Rightarrow> ('k, 'v) instr_cache \<Rightarrow> ('k, 'v) instr_cache option" where
  "ic_update reserved key v c =
     (if pointers c key = None then ic_allocate reserved key v c else Some (ic_touch key c))"

section \<open>The instruction memory\<close>

text \<open>
  \<open>create\<close> is the instruction set's constructor, \<open>same\<close> the test of an instruction's bytes,
  and \<open>w\<close> the word that the memory holds at the address.
\<close>

definition imem_reserved :: "Addr set" where
  "imem_reserved = {0, - 1}"

definition cached_fetch_instr ::
    "(uint32 \<Rightarrow> Addr \<Rightarrow> 'i option) \<Rightarrow> ('i \<Rightarrow> uint32 \<Rightarrow> bool) \<Rightarrow> uint32 \<Rightarrow> Addr \<Rightarrow> (Addr, 'i) instr_cache
     \<Rightarrow> ('i \<times> (Addr, 'i) instr_cache) option" where
  "cached_fetch_instr create same w pc c =
     (let (found, v) = ic_find c pc
      in case (found, v) of
           (True, None) \<Rightarrow> None
         | (True, Some instr) \<Rightarrow>
             if same instr w then Some (instr, ic_touch pc c)
             else Option.bind (create w pc) (\<lambda>instr.
                    let c = ic_erase pc c
                    in if pc \<noteq> 0 then map_option (Pair instr) (ic_update imem_reserved pc instr c) else Some (instr, c))
         | (False, _) \<Rightarrow>
             Option.bind (create w pc) (\<lambda>instr.
               if pc \<noteq> 0 then map_option (Pair instr) (ic_update imem_reserved pc instr c) else Some (instr, c)))"

section \<open>The invariant of the cache\<close>

text \<open>Every key names the slot that names it, an object lives in exactly the named slots, and the zero key is in none.\<close>

definition ic_ok :: "nat \<Rightarrow> ('k :: zero, 'v) instr_cache \<Rightarrow> bool" where
  "ic_ok cap c \<longleftrightarrow> lru_ok cap (lru_module c) \<and> length (keys c) = cap \<and> length (storage c) = cap
     \<and> (\<forall>k i. pointers c k = Some i \<longleftrightarrow> i < cap \<and> keys c ! i = k \<and> k \<noteq> 0)
     \<and> (\<forall>i < cap. storage c ! i \<noteq> None \<longleftrightarrow> keys c ! i \<noteq> 0)"

text \<open>The cache as a map.\<close>

definition ic_map :: "('k, 'v) instr_cache \<Rightarrow> 'k \<rightharpoonup> 'v" where
  "ic_map c k = Option.bind (pointers c k) (\<lambda>i. storage c ! i)"

lemma fold_lru_touch_ok: "lru_ok n l \<Longrightarrow> set ts \<subseteq> {..<n} \<Longrightarrow> lru_ok n (fold lru_touch ts l)"
  by (induction ts arbitrary: l) (simp_all add: lru_touch_ok)

lemma lru_set_to_erase_ok: "lru_ok n l \<Longrightarrow> w < n \<Longrightarrow> lru_ok n (lru_set_to_erase w l)"
  by (auto simp: lru_ok_def lru_set_to_erase_def)

lemma new_instr_cache_ok: "0 < cap \<Longrightarrow> ic_ok cap (new_instr_cache cap)"
  by (simp add: ic_ok_def new_instr_cache_def allocate_def new_lru_ok fold_lru_touch_ok atLeast0LessThan) 

lemma ic_find_map:
  assumes "ic_ok cap c"
  shows "fst (ic_find c k) \<longleftrightarrow> ic_map c k \<noteq> None" "fst (ic_find c k) \<Longrightarrow> snd (ic_find c k) = ic_map c k"
proof -
  have "pointers c k = Some i \<Longrightarrow> i < length (storage c) \<and> storage c ! i \<noteq> None" for i
    using assms by (auto simp: ic_ok_def)
  then show "fst (ic_find c k) \<longleftrightarrow> ic_map c k \<noteq> None" "fst (ic_find c k) \<Longrightarrow> snd (ic_find c k) = ic_map c k"
    by (auto simp: ic_find_def ic_map_def arena_at_def split: option.splits)
qed

lemma ic_touch_ok:
  assumes "ic_ok cap c" "ic_map c k \<noteq> None"
  shows "ic_ok cap (ic_touch k c) \<and> ic_map (ic_touch k c) = ic_map c"
proof -
  obtain i where i: "pointers c k = Some i" using assms(2) by (cases "pointers c k") (auto simp: ic_map_def)
  then have "i < cap" using assms(1) by (simp add: ic_ok_def)
  moreover have "(pointers c)(k \<mapsto> i) = pointers c" using i by auto
  then have "ic_touch k c = c\<lparr>lru_module := lru_touch i (lru_module c)\<rparr>"
    using i by (simp add: ic_touch_def)
  ultimately show ?thesis using assms(1) by (simp add: ic_ok_def lru_touch_ok ic_map_def fun_eq_iff)
qed

lemma ic_erase_ok:
  assumes "ic_ok cap c"
  shows "ic_ok cap (ic_erase k c) \<and> ic_map (ic_erase k c) = (ic_map c)(k := None)"
proof (cases "pointers c k")
  case None
  then show ?thesis using assms by (auto simp: ic_erase_def ic_map_def)
next
  case (Some i)
  let ?c = "ic_erase k c"
  have d: "lru_ok cap (lru_module c)" "length (keys c) = cap" "length (storage c) = cap" "i < cap" "keys c ! i = k" "k \<noteq> 0"
    and p: "\<And>k i. pointers c k = Some i \<longleftrightarrow> i < cap \<and> keys c ! i = k \<and> k \<noteq> 0"
    and s: "\<And>i. i < cap \<Longrightarrow> storage c ! i \<noteq> None \<longleftrightarrow> keys c ! i \<noteq> 0"
    using assms Some by (auto simp: ic_ok_def)
  have c: "pointers ?c = (pointers c)(k := None)" "keys ?c = (keys c)[i := 0]" "storage ?c = (storage c)[i := None]"
    "lru_module ?c = lru_set_to_erase i (lru_module c)"
    using Some by (simp_all add: ic_erase_def arena_destroy_def)
  have "pointers ?c l = Some n \<longleftrightarrow> n < cap \<and> keys ?c ! n = l \<and> l \<noteq> 0" for l n
  proof (cases "n = i")
    case True
    then show ?thesis using d(2,4,5) p [of l i] by (cases "l = k") (auto simp: c)
  next
    case False
    then have "\<not> (n < cap \<and> keys c ! n = k)" using p [of k n] Some d(6) by auto
    then show ?thesis using False p [of l n] d(6) by (auto simp: c)
  qed
  moreover have "storage ?c ! n \<noteq> None \<longleftrightarrow> keys ?c ! n \<noteq> 0" if "n < cap" for n
    using s [OF that] d(2-4) by (cases "n = i") (simp_all add: c)
  moreover have "ic_map ?c l = ((ic_map c)(k := None)) l" for l
  proof (cases "pointers ?c l")
    case None
    then show ?thesis by (cases "l = k") (simp_all add: ic_map_def c)
  next
    case n: (Some n)
    then have "l \<noteq> k" "n \<noteq> i" using p [of l n] d(5) by (auto simp: c split: if_splits)
    then show ?thesis using n by (simp add: ic_map_def c)
  qed
  moreover have "lru_ok cap (lru_module ?c)" using lru_set_to_erase_ok [OF d(1,4)] by (simp add: c)
  ultimately show ?thesis using d(2,3) by (simp add: ic_ok_def fun_eq_iff) (simp add: c)
qed

lemma ic_allocate_ok:
  assumes c: "ic_ok cap c" and k: "k \<notin> reserved" "k \<noteq> 0" "pointers c k = None"
  shows "\<exists>c'. ic_allocate reserved k v c = Some c' \<and> ic_ok cap c'
    \<and> ic_map c' = (ic_map c)(keys c ! last (lru_module c) := None, k \<mapsto> v)"
proof -
  define i where "i = last (lru_module c)"
  define c1 where "c1 = ic_erase (keys c ! i) (c\<lparr>lru_module := lru_touch i (lru_module c)\<rparr>)"
  define c2 where "c2 = c1\<lparr>storage := (storage c1)[i := Some v], keys := (keys c1)[i := k],
    pointers := (pointers c1)(k \<mapsto> i), lru_module := lru_touch i (lru_module c1)\<rparr>"
  have i: "i < cap" unfolding i_def using c by (intro lru_victim) (simp add: ic_ok_def)
  have "ic_ok cap (c\<lparr>lru_module := lru_touch i (lru_module c)\<rparr>)"
    using c i by (simp add: ic_ok_def lru_touch_ok)
  from ic_erase_ok [OF this, of "keys c ! i"]
  have c1: "ic_ok cap c1" "ic_map c1 = (ic_map c)(keys c ! i := None)"
    by (simp_all add: c1_def ic_map_def fun_eq_iff)
  have zero: "keys c1 ! i = 0"
  proof (cases "keys c ! i = 0")
    case True
    then have "pointers c 0 = None" using c by (cases "pointers c 0") (auto simp: ic_ok_def)
    then show ?thesis using True by (simp add: c1_def ic_erase_def)
  next
    case False
    then have "pointers c (keys c ! i) = Some i" "length (keys c) = cap" using c i by (simp_all add: ic_ok_def)
    then show ?thesis using i by (simp add: c1_def ic_erase_def)
  qed
  have none: "pointers c1 k = None"
    using k(3) by (auto simp: c1_def ic_erase_def split: option.splits)
  have "ic_allocate reserved k v c = Some c2"
    using none k(1)
    by (simp add: ic_allocate_def i_def [symmetric] c1_def [symmetric] c2_def arena_emplace_def Let_def)
  moreover have "ic_ok cap c2"
  proof -
    have d: "lru_ok cap (lru_module c1)" "length (keys c1) = cap" "length (storage c1) = cap"
      and p: "\<And>k i. pointers c1 k = Some i \<longleftrightarrow> i < cap \<and> keys c1 ! i = k \<and> k \<noteq> 0"
      and s: "\<And>i. i < cap \<Longrightarrow> storage c1 ! i \<noteq> None \<longleftrightarrow> keys c1 ! i \<noteq> 0"
      using c1(1) by (auto simp: ic_ok_def)
    have "pointers c2 l = Some n \<longleftrightarrow> n < cap \<and> keys c2 ! n = l \<and> l \<noteq> 0" for l n
    proof (cases "n = i")
      case True
      then show ?thesis using d(2) i k(2) p [of l i] zero by (cases "l = k") (auto simp: c2_def)
    next
      case False
      then show ?thesis using p [of l n] none by (cases "l = k") (auto simp: c2_def)
    qed
    moreover have "storage c2 ! n \<noteq> None \<longleftrightarrow> keys c2 ! n \<noteq> 0" if "n < cap" for n
      using s [OF that] d(2,3) i k(2) by (cases "n = i") (simp_all add: c2_def)
    moreover have "lru_ok cap (lru_module c2)" using lru_touch_ok [OF d(1) i] by (simp add: c2_def)
    ultimately show ?thesis using d(2,3) by (simp add: ic_ok_def) (simp add: c2_def)
  qed
  moreover have "ic_map c2 l = ((ic_map c1)(k \<mapsto> v)) l" for l
  proof (cases "l = k")
    case True
    then show ?thesis using c1(1) i by (simp add: ic_map_def c2_def ic_ok_def)
  next
    case False
    have "pointers c1 l \<noteq> Some i" using c1(1) zero by (auto simp: ic_ok_def)
    then show ?thesis using False by (cases "pointers c1 l") (auto simp: ic_map_def c2_def)
  qed
  ultimately show ?thesis unfolding i_def [symmetric] c1(2) [symmetric] by (intro exI [of _ c2]) (simp add: fun_eq_iff)
qed

section \<open>The instruction memory is transparent\<close>

text \<open>Every cached instruction is a decoded one of its address.\<close>

definition faithful :: "(uint32 \<Rightarrow> Addr \<Rightarrow> 'i option) \<Rightarrow> (Addr, 'i) instr_cache \<Rightarrow> bool" where
  "faithful create c \<longleftrightarrow> (\<forall>pc i. ic_map c pc = Some i \<longrightarrow> (\<exists>w. create w pc = Some i))"

lemma faithful_new: "faithful create (new_instr_cache cap)"
  by (simp add: faithful_def ic_map_def new_instr_cache_def)

locale decoder =
  fixes create :: "uint32 \<Rightarrow> Addr \<Rightarrow> 'i option"
    and same :: "'i \<Rightarrow> uint32 \<Rightarrow> bool"
  assumes same: "create w pc = Some i \<Longrightarrow> same i w' \<longleftrightarrow> w = w'"
begin

lemma insert_faithful:
  assumes "ic_ok cap c" "faithful create c" "create w pc = Some i" "pointers c pc = None" "pc \<notin> imem_reserved"
  shows "\<exists>c'. ic_update imem_reserved pc i c = Some c' \<and> ic_ok cap c' \<and> faithful create c'"
proof -
  have "pc \<noteq> 0" using assms(5) by (simp add: imem_reserved_def)
  from ic_allocate_ok [OF assms(1,5) this assms(4), of i] obtain c' where
    "ic_allocate imem_reserved pc i c = Some c'" "ic_ok cap c'"
    "ic_map c' = (ic_map c)(keys c ! last (lru_module c) := None, pc \<mapsto> i)"
    by blast
  then show ?thesis using assms(2-4) by (auto simp: ic_update_def faithful_def)
qed

text \<open>What is found is a decoded instruction, and its bytes are the word's exactly when the word decodes to it.\<close>

lemma found:
  assumes "ic_ok cap c" "faithful create c" "fst (ic_find c pc)"
  obtains v where "ic_find c pc = (True, Some v)" "\<forall>w. same v w \<longleftrightarrow> create w pc = Some v"
    "\<forall>w. same v w \<longrightarrow> cached_fetch_instr create same w pc c = Some (v, ic_touch pc c)"
    "ic_ok cap (ic_touch pc c)" "faithful create (ic_touch pc c)"
proof -
  obtain v where v: "ic_map c pc = Some v" "snd (ic_find c pc) = Some v"
    using ic_find_map [OF assms(1), of pc] assms(3) by auto
  then have f: "ic_find c pc = (True, Some v)" using assms(3) by (metis prod.collapse)
  obtain w0 where w0: "create w0 pc = Some v" using assms(2) v(1) by (auto simp: faithful_def)
  have "same v w \<longleftrightarrow> create w pc = Some v" for w using same [OF w0, of w] w0 same [of w pc v w] by auto
  moreover have "ic_ok cap (ic_touch pc c)" "faithful create (ic_touch pc c)"
    using ic_touch_ok [OF assms(1), of pc] v(1) assms(2) by (simp_all add: faithful_def)
  ultimately show ?thesis using that f by (simp add: cached_fetch_instr_def)
qed

lemma cached_fetch:
  assumes "ic_ok cap c" "faithful create c" "create w pc = Some i" "pc \<noteq> - 1"
  shows "\<exists>c'. cached_fetch_instr create same w pc c = Some (i, c') \<and> ic_ok cap c' \<and> faithful create c'"
proof -
  have store: "\<exists>c'. (if pc \<noteq> 0 then map_option (Pair i) (ic_update imem_reserved pc i c) else Some (i, c)) = Some (i, c')
      \<and> ic_ok cap c' \<and> faithful create c'"
    if "ic_ok cap c" "faithful create c" "pointers c pc = None" for c
    using insert_faithful [OF that(1,2) assms(3) that(3)] that assms(4)
    by (cases "pc = 0") (auto simp: imem_reserved_def)
  show ?thesis
  proof (cases "fst (ic_find c pc)")
    case False
    then have "pointers c pc = None" by (auto simp: ic_find_def split: option.splits)
    from store [OF assms(1,2) this] False assms(3) show ?thesis
      by (auto simp: cached_fetch_instr_def split: prod.splits)
  next
    case True
    obtain v where v: "ic_find c pc = (True, Some v)" "\<forall>w. same v w \<longleftrightarrow> create w pc = Some v"
      "\<forall>w. same v w \<longrightarrow> cached_fetch_instr create same w pc c = Some (v, ic_touch pc c)"
      "ic_ok cap (ic_touch pc c)" "faithful create (ic_touch pc c)"
      by (rule found [OF assms(1,2) True]) blast
    show ?thesis
    proof (cases "same v w")
      case True
      then show ?thesis using v assms(3) by simp
    next
      case False
      let ?c = "ic_erase pc c"
      have "ic_ok cap ?c" "ic_map ?c = (ic_map c)(pc := None)" using ic_erase_ok [OF assms(1)] by blast+
      moreover have "pointers ?c pc = None" by (auto simp: ic_erase_def split: option.splits)
      ultimately show ?thesis
        using store [of ?c] False v(1) assms(2,3) by (auto simp: cached_fetch_instr_def faithful_def Let_def)
    qed
  qed
qed

text \<open>Without a condition on the address, the cache answers the decoded instruction or fails.\<close>

lemma cached_fetch_any:
  assumes "ic_ok cap c" "faithful create c"
  shows "cached_fetch_instr create same w pc c = None
    \<or> (\<exists>i c'. cached_fetch_instr create same w pc c = Some (i, c') \<and> create w pc = Some i \<and> ic_ok cap c' \<and> faithful create c')"
proof (cases "create w pc")
  case None
  have "cached_fetch_instr create same w pc c = None"
  proof (cases "fst (ic_find c pc)")
    case True
    obtain v where v: "ic_find c pc = (True, Some v)" "\<forall>w. same v w \<longleftrightarrow> create w pc = Some v"
      by (rule found [OF assms True]) blast
    then show ?thesis using None by (simp add: cached_fetch_instr_def)
  qed (use None in \<open>auto simp: cached_fetch_instr_def split: prod.splits\<close>)
  then show ?thesis ..
next
  case (Some i)
  show ?thesis
  proof (cases "pc = - 1")
    case False
    then show ?thesis using cached_fetch [OF assms Some] Some by blast
  next
    case True
    have store: "ic_update imem_reserved pc i c = None" if "pointers c pc = None" for c :: "(Addr, 'i) instr_cache"
      using that True by (simp add: ic_update_def ic_allocate_def imem_reserved_def split: prod.split)
    show ?thesis
    proof (cases "fst (ic_find c pc)")
      case False
      then have "pointers c pc = None" by (auto simp: ic_find_def split: option.splits)
      then show ?thesis using store False Some True by (auto simp: cached_fetch_instr_def split: prod.splits)
    next
      case hit: True
      obtain v where v: "ic_find c pc = (True, Some v)" "\<forall>w. same v w \<longleftrightarrow> create w pc = Some v"
        "\<forall>w. same v w \<longrightarrow> cached_fetch_instr create same w pc c = Some (v, ic_touch pc c)"
        "ic_ok cap (ic_touch pc c)" "faithful create (ic_touch pc c)"
        by (rule found [OF assms hit]) blast
      show ?thesis
      proof (cases "same v w")
        case True
        then show ?thesis using v by blast
      next
        case False
        have "pointers (ic_erase pc c) pc = None" by (auto simp: ic_erase_def split: option.splits)
        then show ?thesis using store False v(1) Some True by (simp add: cached_fetch_instr_def Let_def)
      qed
    qed
  qed
qed

end

text \<open>
  The two reserved keys do not include the key of an empty slot unless the caller makes zero
  one of them, as the instruction memory does. The cache of disassembled instructions does
  not: taking the next free slot then erases the entry of the key zero.
\<close>

definition zero_key_cache :: "(uint32, nat) instr_cache option" where
  "zero_key_cache = Option.bind (ic_update {- 1, - 2} 0 7 (new_instr_cache 4)) (ic_update {- 1, - 2} 5 8)"

lemma zero_key_evicted:
  "(case zero_key_cache of None \<Rightarrow> False | Some c \<Rightarrow> pointers c 0 = None \<and> pointers c 5 = Some 1 \<and> keys c ! 0 = 0)"
  by code_simp

end
