(* ===== verification/Cpu_Model.thy ===== *)
theory Cpu_Model
  imports Bpu Memory Ports
begin

text \<open>
  The interface of a simulator to drivers and kernels, \<open>CPUModel\<close> of simulator/simulator.h and
  simulator.cpp, with the target of a fetch from infra/target.h. The virtual functions are
  the record \<open>cpu_model\<close> over a state of any type; the functional and the performance simulator
  provide it. The exceptions of both are \<open>sim_error\<close>.
\<close>

section \<open>Exceptions\<close>

datatype sim_error =
    DecodeFailure | ReservedPC | RegisterOutOfRange | MemoryError mem_error | DelaySlots | BearingLost
  | BadTrap trap_error | BadInteraction | KernelError
  | PortFailure port_error | BranchPredictorError bp_error | TagArrayError cache_error | PrefetchMethodException string
  | CheckerMismatch | Deadlock | BypassOutOfRange

fun bind_sim :: "'e + 'a \<Rightarrow> ('a \<Rightarrow> 'e + 'b) \<Rightarrow> 'e + 'b" where
  "bind_sim (Inl e) f = Inl e"
| "bind_sim (Inr x) f = f x"

definition or_error :: "'e \<Rightarrow> 'a option \<Rightarrow> 'e + 'a" where
  "or_error e v = (case v of None \<Rightarrow> Inl e | Some x \<Rightarrow> Inr x)"

lemma bind_map: "bind_sim (map_sum id g r) f = bind_sim r (\<lambda>x. f (g x))"
  by (cases r) simp_all

lemma map_bind: "map_sum id g (bind_sim r f) = bind_sim r (\<lambda>x. map_sum id g (f x))"
  by (cases r) simp_all

lemma map_bind_abs: "map_sum (\<lambda>a. a) g (bind_sim r f) = bind_sim r (\<lambda>x. map_sum (\<lambda>a. a) g (f x))"
  by (cases r) simp_all

lemma bind_assoc: "bind_sim (bind_sim r f) g = bind_sim r (\<lambda>x. bind_sim (f x) g)"
  by (cases r) simp_all

lemma bind_Inr: "bind_sim r f = Inr y \<longleftrightarrow> (\<exists>x. r = Inr x \<and> f x = Inr y)"
  by (cases r) simp_all

section \<open>Targets\<close>

record target =
  address :: Addr
  target_sequence_id :: uint64
  valid :: bool

definition no_target :: target where
  "no_target = \<lparr>address = of_nat NO_VAL32, target_sequence_id = 0xfeedfacecafebeaf, valid = False\<rparr>"

definition new_target :: "Addr \<Rightarrow> uint64 \<Rightarrow> target" where
  "new_target a n = \<lparr>address = a, target_sequence_id = n, valid = True\<rparr>"

section \<open>The virtual functions\<close>

record 's cpu_model =
  set_target_of :: "target \<Rightarrow> 's \<Rightarrow> sim_error + 's"
  get_pc_of :: "'s \<Rightarrow> Addr"
  max_cpu_register :: nat
  read_cpu :: "nat \<Rightarrow> 's \<Rightarrow> sim_error + uint64"
  read_gdb :: "nat \<Rightarrow> 's \<Rightarrow> sim_error + uint64"
  read_csr :: "string \<Rightarrow> 's \<Rightarrow> sim_error + uint64"
  write_cpu :: "nat \<Rightarrow> uint64 \<Rightarrow> 's \<Rightarrow> sim_error + 's"
  write_gdb :: "nat \<Rightarrow> uint64 \<Rightarrow> 's \<Rightarrow> sim_error + 's"
  write_csr :: "string \<Rightarrow> uint64 \<Rightarrow> 's \<Rightarrow> sim_error + 's"

definition cpu_set_pc :: "'s cpu_model \<Rightarrow> Addr \<Rightarrow> 's \<Rightarrow> sim_error + 's" where
  "cpu_set_pc C a s = set_target_of C (new_target a 0) s"

text \<open>Copying registers from one model to another, from the register numbers \<open>k\<close> on.\<close>

fun duplicate_registers :: "'s cpu_model \<Rightarrow> 't cpu_model \<Rightarrow> nat \<Rightarrow> nat \<Rightarrow> 's \<Rightarrow> 't \<Rightarrow> sim_error + 't" where
  "duplicate_registers C D k 0 s t = Inr t"
| "duplicate_registers C D k (Suc n) s t =
     bind_sim (read_cpu C k s) (\<lambda>v. bind_sim (write_cpu D k v t) (\<lambda>t. duplicate_registers C D (Suc k) n s t))"

definition duplicate_all_registers_to :: "'s cpu_model \<Rightarrow> 't cpu_model \<Rightarrow> 's \<Rightarrow> 't \<Rightarrow> sim_error + 't" where
  "duplicate_all_registers_to C D s t = duplicate_registers C D 0 (max_cpu_register D) s t"

end
