(* ===== verification/Driver.thy ===== *)
theory Driver
  imports Cpu_Model Register_File
begin

text \<open>
  The exception drivers of func_sim/driver/driver.cpp, mips/mips_driver.cpp and
  risc_v/riscv_driver.cpp. A driver acts on a processor through its \<open>cpu_model\<close>; the hooked
  driver runs another and reports the trap that it was given.
\<close>

datatype driver = DriverNoOp | DriverMIPS32 | DriverRISCV32 | HookedDriver driver

definition mips_trap_pc :: Addr where "mips_trap_pc = 0x800000180"

definition noop_handle_trap :: "trap \<Rightarrow> 's \<Rightarrow> sim_error + trap \<times> 's" where
  "noop_handle_trap t s = Inr (if t = HALT then t else NO_TRAP, s)"

definition mips_handle_trap ::
  "riscv_causes \<Rightarrow> 's cpu_model \<Rightarrow> trap \<Rightarrow> Addr \<Rightarrow> 's \<Rightarrow> sim_error + trap \<times> 's" where
  "mips_handle_trap causes C t instr_pc s =
     (if t = NO_TRAP \<or> t = HALT then Inr (t, s)
      else bind_sim (read_cpu C (reg_num mips_status) s) (\<lambda>status.
        bind_sim (read_cpu C (reg_num mips_cause) s) (\<lambda>cause.
        bind_sim (case to_mips_format causes t of Inl e \<Rightarrow> Inl (BadTrap e) | Inr x \<Rightarrow> Inr x) (\<lambda>code.
          let status = status OR 2;
              cause = (cause AND NOT (push_bit 2 (bitmask 4))) OR push_bit 2 (ucast code AND bitmask 4)
          in bind_sim (write_cpu C (reg_num mips_status) status s) (\<lambda>s.
             bind_sim (write_cpu C (reg_num mips_cause) cause s) (\<lambda>s.
             bind_sim (write_cpu C (reg_num mips_epc) instr_pc s) (\<lambda>s.
             bind_sim (cpu_set_pc C mips_trap_pc s) (\<lambda>s. Inr (NO_TRAP, s)))))))))"

definition riscv_handle_trap ::
  "riscv_causes \<Rightarrow> 's cpu_model \<Rightarrow> trap \<Rightarrow> Addr \<Rightarrow> 's \<Rightarrow> sim_error + trap \<times> 's" where
  "riscv_handle_trap causes C t instr_pc s =
     bind_sim (case to_riscv_format causes t of Inl e \<Rightarrow> Inl (BadTrap e) | Inr x \<Rightarrow> Inr x) (\<lambda>code.
     bind_sim (write_csr C ''scause'' (ucast code) s) (\<lambda>s.
       if t = NO_TRAP \<or> t = HALT then Inr (t, s)
       else bind_sim (read_csr C ''stvec'' s) (\<lambda>tvec.
            bind_sim (write_csr C ''sepc'' instr_pc s) (\<lambda>s.
            bind_sim (cpu_set_pc C (trap_vector_address tvec) s) (\<lambda>s.
              Inr (if tvec = 0 then HALT else NO_TRAP, s))))))"

fun handle_trap ::
  "riscv_causes \<Rightarrow> 's cpu_model \<Rightarrow> driver \<Rightarrow> trap \<Rightarrow> Addr \<Rightarrow> 's \<Rightarrow> sim_error + trap \<times> 's" where
  "handle_trap causes C DriverNoOp t instr_pc s = noop_handle_trap t s"
| "handle_trap causes C DriverMIPS32 t instr_pc s = mips_handle_trap causes C t instr_pc s"
| "handle_trap causes C DriverRISCV32 t instr_pc s = riscv_handle_trap causes C t instr_pc s"
| "handle_trap causes C (HookedDriver drv) t instr_pc s =
     bind_sim (handle_trap causes C drv t instr_pc s) (\<lambda>(ignored, s). Inr (t, s))"

lemmas handle_trap_defs = noop_handle_trap_def mips_handle_trap_def riscv_handle_trap_def

definition create_riscv_driver :: "'s cpu_model \<Rightarrow> 's \<Rightarrow> sim_error + driver \<times> 's" where
  "create_riscv_driver C s = bind_sim (write_csr C ''stvec'' 0 s) (\<lambda>s. Inr (DriverRISCV32, s))"

end
