(* ===== verification/Kernel.thy ===== *)
theory Kernel
  imports Cpu_Model
begin

text \<open>
  The kernel's side of a system call, kernel/kernel.h and kernel.cpp, and kernel/replicant.h, which lets
  a kernel write to several processors at once. The system calls themselves are a parameter.
\<close>

section \<open>System calls\<close>

text \<open>
  A system call is a function on the kernel's own state and the simulator, which may refuse
  bad input. The dummy kernel's only answers with the system call's trap.
\<close>

datatype kernel_answer = Answer trap | BadInputValue | OtherError

definition MAX_ATTEMPTS :: nat where "MAX_ATTEMPTS = 100"

fun attempts_loop :: "('s \<Rightarrow> kernel_answer \<times> 's) \<Rightarrow> nat \<Rightarrow> 's \<Rightarrow> sim_error + trap \<times> 's" where
  "attempts_loop exec 0 s = Inl BadInteraction"
| "attempts_loop exec (Suc n) s =
     (case exec s of
        (Answer t, s) \<Rightarrow> Inr (t, s)
      | (BadInputValue, s) \<Rightarrow> attempts_loop exec n s
      | (OtherError, s) \<Rightarrow> Inl KernelError)"

definition execute_interactive :: "('s \<Rightarrow> kernel_answer \<times> 's) \<Rightarrow> 's \<Rightarrow> sim_error + trap \<times> 's" where
  "execute_interactive exec s = attempts_loop exec MAX_ATTEMPTS s"

definition dummy_kernel :: "'s \<Rightarrow> kernel_answer \<times> 's" where
  "dummy_kernel s = (Answer SYSCALL, s)"

definition handle_instruction :: "('s \<Rightarrow> kernel_answer \<times> 's) \<Rightarrow> trap \<Rightarrow> 's \<Rightarrow> sim_error + trap \<times> 's" where
  "handle_instruction exec t s = (if t \<noteq> SYSCALL then Inr (t, s) else execute_interactive exec s)"

section \<open>Several processors under one interface\<close>

text \<open>A primary processor with its replicas, which may be of another kind.\<close>

fun for_replicas :: "('t \<Rightarrow> sim_error + 't) \<Rightarrow> 't list \<Rightarrow> sim_error + 't list" where
  "for_replicas f [] = Inr []"
| "for_replicas f (t # ts) = bind_sim (f t) (\<lambda>t. bind_sim (for_replicas f ts) (\<lambda>ts. Inr (t # ts)))"

definition add_cpu_replica :: "'s cpu_model \<Rightarrow> 't cpu_model \<Rightarrow> 't \<Rightarrow> 's \<times> 't list \<Rightarrow> sim_error + 's \<times> 't list" where
  "add_cpu_replica C D t s =
     bind_sim (duplicate_all_registers_to C D (fst s) t) (\<lambda>t. Inr (fst s, snd s @ [t]))"

definition on_all :: "('s \<Rightarrow> sim_error + 's) \<Rightarrow> ('t \<Rightarrow> sim_error + 't) \<Rightarrow> 's \<times> 't list \<Rightarrow> sim_error + 's \<times> 't list" where
  "on_all f g s = bind_sim (f (fst s)) (\<lambda>p. bind_sim (for_replicas g (snd s)) (\<lambda>ts. Inr (p, ts)))"

definition cpu_replicant :: "'s cpu_model \<Rightarrow> 't cpu_model \<Rightarrow> ('s \<times> 't list) cpu_model" where
  "cpu_replicant C D =
     \<lparr>set_target_of = \<lambda>t. on_all (set_target_of C t) (set_target_of D t),
      get_pc_of = get_pc_of C \<circ> fst, max_cpu_register = max_cpu_register C,
      read_cpu = \<lambda>n. read_cpu C n \<circ> fst, read_gdb = \<lambda>n. read_gdb C n \<circ> fst, read_csr = \<lambda>n. read_csr C n \<circ> fst,
      write_cpu = \<lambda>n v. on_all (write_cpu C n v) (write_cpu D n v),
      write_gdb = \<lambda>n v. on_all (write_gdb C n v) (write_gdb D n v),
      write_csr = \<lambda>n v. on_all (write_csr C n v) (write_csr D n v)\<rparr>"

section \<open>The retries of a system call\<close>

text \<open>What a number of refused attempts leaves.\<close>

definition attempt :: "('s \<Rightarrow> kernel_answer \<times> 's) \<Rightarrow> nat \<Rightarrow> 's \<Rightarrow> 's" where
  "attempt exec k s = ((\<lambda>s. snd (exec s)) ^^ k) s"

lemma attempt_simps [simp]: "attempt exec 0 s = s" "attempt exec (Suc k) s = attempt exec k (snd (exec s))"
  by (simp_all add: attempt_def funpow_Suc_right del: funpow.simps(2))

lemma attempts_loop_find:
  "attempts_loop exec n s =
     (case find (\<lambda>k. fst (exec (attempt exec k s)) \<noteq> BadInputValue) [0..<n] of
        None \<Rightarrow> Inl BadInteraction
      | Some k \<Rightarrow> (case exec (attempt exec k s) of (Answer t, s') \<Rightarrow> Inr (t, s') | _ \<Rightarrow> Inl KernelError))"
proof (induction n arbitrary: s)
  case (Suc n)
  obtain a s' where e: "exec s = (a, s')" by (cases "exec s")
  have l: "[0..<Suc n] = 0 # map Suc [0..<n]" by (simp add: map_Suc_upt upt_conv_Cons del: upt_Suc)
  have f: "find P (map Suc xs) = map_option Suc (find (\<lambda>k. P (Suc k)) xs)" for P xs
    by (induction xs) auto
  show ?case
  proof (cases a)
    case BadInputValue
    then show ?thesis
      unfolding l using Suc.IH [of s'] by (simp add: e f split: option.split)
  qed (simp_all add: l e del: upt_Suc)
qed simp

text \<open>C34: A system call ends: it is tried until the kernel does not refuse its input, a hundred times at
  most, and the answer is that of the first attempt not refused, an exception or an error if
  there is none.\<close>
theorem system_call_retries:
  "execute_interactive exec s =
     (case find (\<lambda>k. fst (exec (attempt exec k s)) \<noteq> BadInputValue) [0..<100] of
        None \<Rightarrow> Inl BadInteraction
      | Some k \<Rightarrow> (case exec (attempt exec k s) of (Answer t, s') \<Rightarrow> Inr (t, s') | _ \<Rightarrow> Inl KernelError))"
  unfolding execute_interactive_def MAX_ATTEMPTS_def by (rule attempts_loop_find)


end
