(* ===== verification/Func_Sim.thy ===== *)
theory Func_Sim
  imports Instr_Cache Driver Kernel Mips_Instr Riscv_Instr
begin

text \<open>
  The functional simulator, simulator/func_sim/func_sim.h and func_sim.cpp: it fetches,
  executes and retires an instruction a step and follows the program counters of the delay
  slots. It provides the interface \<open>cpu_model\<close> to the drivers. An instruction set is a
  record of its operations, the memory one of its virtual functions, and the system calls of
  the kernel are a parameter. Exceptions are error values, after which the state is not used.
\<close>

section \<open>Instruction sets\<close>

record ('r, 'i) isa =
  create_instr :: "endian \<Rightarrow> uint32 \<Rightarrow> Addr \<Rightarrow> 'i option"
  instr_same_bytes :: "'i \<Rightarrow> uint32 \<Rightarrow> bool"
  instr_same_checker :: "'i \<Rightarrow> 'i \<Rightarrow> bool"
  instr_is_nop :: "'i \<Rightarrow> bool"
  instr_get_endian :: "'i \<Rightarrow> endian"
  reg_class :: "'r register_class"
  reg_from_cpu_index :: "nat \<Rightarrow> 'r"
  reg_from_csr_name :: "string \<Rightarrow> 'r"
  reg_from_gdb_index :: "nat \<Rightarrow> 'r"
  gdb_pc_index :: nat

definition mips_isa :: "mips_version \<Rightarrow> (mips_register, 'a::len mips_instr) isa" where
  "mips_isa version =
     \<lparr>create_instr = mips_instr version, instr_same_bytes = is_same_bytes, instr_same_checker = is_same_checker,
      instr_is_nop = is_nop, instr_get_endian = instr_endian, reg_class = mips_class,
      reg_from_cpu_index = from_cpu_index, reg_from_csr_name = \<lambda>name. mips_zero,
      reg_from_gdb_index = from_gdb_index, gdb_pc_index = unat mips_gdb_pc_index\<rparr>"

definition riscv_isa :: "opcodes \<Rightarrow> csr_list \<Rightarrow> (riscv_register, 'a::len riscv_instr) isa" where
  "riscv_isa opc csrs =
     \<lparr>create_instr = \<lambda>e. riscv_instr opc csrs, instr_same_bytes = riscv_is_same_bytes,
      instr_same_checker = riscv_is_same_checker,
      instr_is_nop = riscv_is_nop, instr_get_endian = \<lambda>i. little, reg_class = riscv_class csrs,
      reg_from_cpu_index = riscv_from_cpu_index, reg_from_csr_name = from_csr_name csrs,
      reg_from_gdb_index = RISCVRegister, gdb_pc_index = 37\<rparr>"

section \<open>The simulator\<close>

record ('w, 'i, 'mem) func_sim =
  rf :: "'w list"
  sim_sequence_id :: uint64
  mem :: 'mem
  imem :: "(Addr, 'i) instr_cache"
  imem_endian :: endian
  pc :: "Addr list"
  sim_delayed_slots :: nat
  nops_in_a_row :: uint64

definition INSTR_CACHE_CAPACITY :: nat where "INSTR_CACHE_CAPACITY = 8192"

definition new_func_sim :: "('r, 'i) isa \<Rightarrow> endian \<Rightarrow> 'mem \<Rightarrow> ('a::len word, 'i, 'mem) func_sim" where
  "new_func_sim I e m =
     \<lparr>rf = new_rf (reg_class I), sim_sequence_id = 0, mem = m, imem = new_instr_cache INSTR_CACHE_CAPACITY,
      imem_endian = e, pc = replicate 8 0, sim_delayed_slots = 0, nops_in_a_row = 0\<rparr>"

definition set_target :: "target \<Rightarrow> ('w, 'i, 'mem) func_sim \<Rightarrow> ('w, 'i, 'mem) func_sim" where
  "set_target t s = s\<lparr>pc := (pc s)[0 := address t], sim_delayed_slots := 0, sim_sequence_id := target_sequence_id t\<rparr>"

definition set_pc :: "Addr \<Rightarrow> ('w, 'i, 'mem) func_sim \<Rightarrow> ('w, 'i, 'mem) func_sim" where
  "set_pc a s = set_target (new_target a 0) s"

definition get_pc :: "('w, 'i, 'mem) func_sim \<Rightarrow> Addr" where
  "get_pc s = pc s ! 0"

definition read_register :: "('r, 'i) isa \<Rightarrow> 'r \<Rightarrow> ('a::len word, 'i, 'mem) func_sim \<Rightarrow> sim_error + uint64" where
  "read_register I r s = or_error RegisterOutOfRange (map_option ucast (rf_read (reg_class I) (rf s) r))"

definition write_register ::
  "('r, 'i) isa \<Rightarrow> 'r \<Rightarrow> uint64 \<Rightarrow> ('a::len word, 'i, 'mem) func_sim \<Rightarrow> sim_error + ('a word, 'i, 'mem) func_sim" where
  "write_register I r v s =
     or_error RegisterOutOfRange (map_option (\<lambda>x. s\<lparr>rf := x\<rparr>) (rf_write (reg_class I) r (ucast v) (rf s)))"

definition read_cpu_register :: "('r, 'i) isa \<Rightarrow> nat \<Rightarrow> ('a::len word, 'i, 'mem) func_sim \<Rightarrow> sim_error + uint64" where
  "read_cpu_register I n s = read_register I (reg_from_cpu_index I n) s"

definition write_cpu_register ::
  "('r, 'i) isa \<Rightarrow> nat \<Rightarrow> uint64 \<Rightarrow> ('a::len word, 'i, 'mem) func_sim \<Rightarrow> sim_error + ('a word, 'i, 'mem) func_sim" where
  "write_cpu_register I n v s = write_register I (reg_from_cpu_index I n) v s"

definition read_csr_register :: "('r, 'i) isa \<Rightarrow> string \<Rightarrow> ('a::len word, 'i, 'mem) func_sim \<Rightarrow> sim_error + uint64" where
  "read_csr_register I name s = read_register I (reg_from_csr_name I name) s"

definition write_csr_register ::
  "('r, 'i) isa \<Rightarrow> string \<Rightarrow> uint64 \<Rightarrow> ('a::len word, 'i, 'mem) func_sim \<Rightarrow> sim_error + ('a word, 'i, 'mem) func_sim" where
  "write_csr_register I name v s = write_register I (reg_from_csr_name I name) v s"

definition read_gdb_register :: "('r, 'i) isa \<Rightarrow> nat \<Rightarrow> ('a::len word, 'i, 'mem) func_sim \<Rightarrow> sim_error + uint64" where
  "read_gdb_register I n s =
     (if n = gdb_pc_index I then Inr (get_pc s) else read_register I (reg_from_gdb_index I n) s)"

definition write_gdb_register ::
  "('r, 'i) isa \<Rightarrow> nat \<Rightarrow> uint64 \<Rightarrow> ('a::len word, 'i, 'mem) func_sim \<Rightarrow> sim_error + ('a word, 'i, 'mem) func_sim" where
  "write_gdb_register I n v s =
     (if n = gdb_pc_index I then Inr (set_pc v s) else write_register I (reg_from_gdb_index I n) v s)"

definition func_cpu :: "('r, 'i) isa \<Rightarrow> ('a::len word, 'i, 'mem) func_sim cpu_model" where
  "func_cpu I =
     \<lparr>set_target_of = \<lambda>t s. Inr (set_target t s), get_pc_of = get_pc, max_cpu_register = max_reg (reg_class I),
      read_cpu = read_cpu_register I, read_gdb = read_gdb_register I, read_csr = read_csr_register I,
      write_cpu = write_cpu_register I, write_gdb = write_gdb_register I, write_csr = write_csr_register I\<rparr>"

lemma func_cpu_simps [simp]:
  "read_cpu (func_cpu I) = read_cpu_register I" "read_csr (func_cpu I) = read_csr_register I"
  "write_cpu (func_cpu I) = write_cpu_register I" "write_csr (func_cpu I) = write_csr_register I"
  "cpu_set_pc (func_cpu I) a s = Inr (set_pc a s)"
  by (simp_all add: func_cpu_def cpu_set_pc_def set_pc_def)

definition update_and_check_nop_counter ::
  "('r, 'i) isa \<Rightarrow> 'i \<Rightarrow> ('w, 'i, 'mem) func_sim \<Rightarrow> sim_error + ('w, 'i, 'mem) func_sim" where
  "update_and_check_nop_counter I i s =
     (let s = s\<lparr>nops_in_a_row := (if instr_is_nop I i then nops_in_a_row s + 1 else 0)\<rparr>
      in if nops_in_a_row s > 10 then Inl BearingLost else Inr s)"

text \<open>The program counters of the delay slots; \<open>at\<close> throws past the eighth.\<close>

fun fill_slots :: "nat \<Rightarrow> nat \<Rightarrow> Addr \<Rightarrow> Addr list \<Rightarrow> Addr list option" where
  "fill_slots 0 k current pcs = Some pcs"
| "fill_slots (Suc n) k current pcs =
     (let current = current + 4
      in if k < length pcs then fill_slots n (Suc k) current (pcs[k := current]) else None)"

fun shift_slots :: "nat \<Rightarrow> nat \<Rightarrow> Addr list \<Rightarrow> Addr list option" where
  "shift_slots 0 k pcs = Some pcs"
| "shift_slots (Suc n) k pcs =
     (if k + 1 < length pcs then shift_slots n (Suc k) (pcs[k := pcs ! (k + 1)]) else None)"

definition update_pc :: "nat \<Rightarrow> Addr \<Rightarrow> ('w, 'i, 'mem) func_sim \<Rightarrow> sim_error + ('w, 'i, 'mem) func_sim" where
  "update_pc slots new_pc s =
     or_error DelaySlots
       (case fill_slots slots 0 (pc s ! 0) (pc s) of None \<Rightarrow> None
        | Some pcs \<Rightarrow>
            if slots < length pcs
            then let pcs = pcs[slots := new_pc]
                 in if sim_delayed_slots s > 0
                    then map_option (\<lambda>pcs. s\<lparr>pc := pcs, sim_delayed_slots := sim_delayed_slots s - 1\<rparr>)
                           (shift_slots (sim_delayed_slots s) 0 pcs)
                    else Some (s\<lparr>pc := pcs, sim_delayed_slots := slots\<rparr>)
            else None)"

text \<open>Fetching through the cache of decoded instructions, and without it.\<close>

definition sim_fetch :: "('r, 'i) isa \<Rightarrow> 'mem memory_ops \<Rightarrow> (nat \<Rightarrow> byte) \<Rightarrow> ('w, 'i, 'mem) func_sim
    \<Rightarrow> sim_error + 'i \<times> ('w, 'i, 'mem) func_sim" where
  "sim_fetch I M junk s =
     (let w = read_mem M junk (imem_endian s) (mem s) (get_pc s)
      in case cached_fetch_instr (create_instr I (imem_endian s)) (instr_same_bytes I) w (get_pc s) (imem s) of
           None \<Rightarrow> Inl (if create_instr I (imem_endian s) w (get_pc s) = None then DecodeFailure else ReservedPC)
         | Some (i, c) \<Rightarrow> Inr (i, s\<lparr>imem := c\<rparr>))"

definition plain_fetch :: "('r, 'i) isa \<Rightarrow> 'mem memory_ops \<Rightarrow> (nat \<Rightarrow> byte) \<Rightarrow> ('w, 'i, 'mem) func_sim
    \<Rightarrow> sim_error + 'i \<times> ('w, 'i, 'mem) func_sim" where
  "plain_fetch I M junk s =
     (let w = read_mem M junk (imem_endian s) (mem s) (get_pc s)
      in case create_instr I (imem_endian s) w (get_pc s) of
           None \<Rightarrow> Inl DecodeFailure
         | Some i \<Rightarrow> Inr (i, s))"

text \<open>The rest of a step, after the fetch.\<close>

definition retire ::
  "('r, ('a::len, 'r, 'm) base_instruction_scheme) isa \<Rightarrow> 'mem memory_ops \<Rightarrow> (nat \<Rightarrow> byte)
   \<Rightarrow> ('a, 'r, 'm) base_instruction_scheme \<Rightarrow> ('a word, ('a, 'r, 'm) base_instruction_scheme, 'mem) func_sim
   \<Rightarrow> sim_error + ('a, 'r, 'm) base_instruction_scheme \<times> ('a word, ('a, 'r, 'm) base_instruction_scheme, 'mem) func_sim" where
  "retire I M junk i s =
     (let i = i\<lparr>sequence_id := sim_sequence_id s\<rparr>;
          s = s\<lparr>sim_sequence_id := sim_sequence_id s + 1\<rparr>
      in bind_sim (or_error RegisterOutOfRange (read_sources (reg_class I) (rf s) i)) (\<lambda>i.
           let i = execute i
           in bind_sim (case load_store M junk (instr_get_endian I i) i (mem s) of Inl e \<Rightarrow> Inl (MemoryError e) | Inr x \<Rightarrow> Inr x) (\<lambda>(i, m).
                let s = s\<lparr>mem := m\<rparr>
                in bind_sim (or_error RegisterOutOfRange (write_dst (reg_class I) i (rf s))) (\<lambda>regs.
                     let s = s\<lparr>rf := regs\<rparr>
                     in bind_sim (update_pc (unat (delayed_slots i)) (new_PC i) s) (\<lambda>s.
                          bind_sim (update_and_check_nop_counter I i s) (\<lambda>s. Inr (i, s)))))))"

definition step where
  "step I M junk s = bind_sim (sim_fetch I M junk s) (\<lambda>(i, s). retire I M junk i s)"

definition plain_step where
  "plain_step I M junk s = bind_sim (plain_fetch I M junk s) (\<lambda>(i, s). retire I M junk i s)"

section \<open>Runs\<close>

text \<open>The loop of \<open>run\<close>, over the steps left; \<open>stepper\<close> is \<open>step\<close>.\<close>

fun run_loop where
  "run_loop stepper causes I drv exec 0 k s = Inr (BREAKPOINT, k, s)"
| "run_loop stepper causes I drv exec (Suc n) k s =
     bind_sim (stepper s) (\<lambda>(i, s).
       bind_sim (handle_instruction exec (trap i) (k, s)) (\<lambda>(t, k, s).
         bind_sim (handle_trap causes (func_cpu I) drv t (PC i) s) (\<lambda>(result_trap, s).
           if result_trap \<noteq> NO_TRAP then Inr (result_trap, k, s)
           else run_loop stepper causes I drv exec n k s)))"

definition run where
  "run I M junk causes drv exec instrs_to_run k s =
     run_loop (step I M junk) causes I drv exec (unat (instrs_to_run :: uint64)) k (s\<lparr>nops_in_a_row := 0\<rparr>)"

section \<open>Delay slots\<close>

lemma update_pc_one:
  assumes "2 \<le> length (pc s)" "sim_delayed_slots s \<le> 1" "slots \<le> 1"
  shows "update_pc slots new_pc s = Inr (s\<lparr>
      pc := (if slots = 0 then (if sim_delayed_slots s = 0 then (pc s)[0 := new_pc] else (pc s)[0 := pc s ! 1])
             else (pc s)[0 := (if sim_delayed_slots s = 0 then pc s ! 0 + 4 else new_pc), 1 := new_pc]),
      sim_delayed_slots := (if sim_delayed_slots s = 0 then slots else 0)\<rparr>)"
proof -
  obtain x y ps where p: "pc s = x # y # ps"
    using assms(1) by (cases "pc s"; cases "tl (pc s)") auto
  have "slots = 0 \<or> slots = 1" "sim_delayed_slots s = 0 \<or> sim_delayed_slots s = 1" using assms(2,3) by linarith+
  then show ?thesis
    by (elim disjE) (simp_all add: update_pc_def or_error_def p Let_def One_nat_def [symmetric] del: One_nat_def, simp_all add: numeral_2_eq_2)
qed

text \<open>C22: Delay slots: after a jump with one, the simulator goes to the next word and from there to the
  jump's destination, whatever the instruction in the slot computes; a jump in the slot
  replaces that destination and has no slot of its own. Without a slot it goes where the
  instruction says.\<close>
theorem delay_slot_sequence:
  assumes "2 \<le> length (pc s)" "sim_delayed_slots s = 0"
  shows "\<exists>s1 s2 s3 s4. update_pc 0 to s = Inr s1 \<and> get_pc s1 = to \<and> sim_delayed_slots s1 = 0
    \<and> update_pc 1 to s = Inr s2 \<and> get_pc s2 = get_pc s + 4 \<and> sim_delayed_slots s2 = 1
    \<and> update_pc 0 other s2 = Inr s3 \<and> get_pc s3 = to \<and> sim_delayed_slots s3 = 0
    \<and> update_pc 1 other s2 = Inr s4 \<and> get_pc s4 = other \<and> sim_delayed_slots s4 = 0"
proof -
  have n: "pc s \<noteq> []" "0 < length (pc s)" "1 < length (pc s)" using assms(1) by auto
  let ?s2 = "s\<lparr>pc := (pc s)[0 := pc s ! 0 + 4, 1 := to], sim_delayed_slots := 1\<rparr>"
  have s2: "update_pc 1 to s = Inr ?s2" using update_pc_one [OF assms(1), of 1 to] assms(2) by simp
  have "2 \<le> length (pc ?s2)" using assms(1) by simp
  note after = update_pc_one [OF this, of 0 other] update_pc_one [OF this, of 1 other]
  show ?thesis
    using update_pc_one [OF assms(1), of 0 to] s2 after assms(2) n by (simp add: get_pc_def)
qed

lemma delay_slot_sequence_witness:
  "\<exists>s2 s3 s4 :: (uint32, 32 mips_instr, unit) func_sim.
    update_pc 1 0x400 (set_pc 0x100 (new_func_sim (mips_isa V_32) little ())) = Inr s2 \<and> get_pc s2 = 0x104
    \<and> update_pc 0 0x108 s2 = Inr s3 \<and> get_pc s3 = 0x400
    \<and> update_pc 1 0x108 s2 = Inr s4 \<and> get_pc s4 = 0x108"
proof -
  let ?s = "set_pc 0x100 (new_func_sim (mips_isa V_32) little ()) :: (uint32, 32 mips_instr, unit) func_sim"
  have "2 \<le> length (pc ?s)" "sim_delayed_slots ?s = 0" "get_pc ?s + 4 = 0x104"
    by (simp_all add: set_pc_def set_target_def new_target_def new_func_sim_def get_pc_def)
  from delay_slot_sequence [OF this(1,2), of "0x400" "0x108"] this(3) show ?thesis by metis
qed

section \<open>Too many nops\<close>

text \<open>Ten nops in a row pass, and the eleventh is an error.\<close>

lemma nop_limit:
  assumes "nops_in_a_row s \<le> 10"
  shows "update_and_check_nop_counter I i s =
    (if \<not> instr_is_nop I i then Inr (s\<lparr>nops_in_a_row := 0\<rparr>)
     else if nops_in_a_row s = 10 then Inl BearingLost
     else Inr (s\<lparr>nops_in_a_row := nops_in_a_row s + 1\<rparr>))"
proof -
  have "10 < nops_in_a_row s + 1 \<longleftrightarrow> nops_in_a_row s = 10"
    using assms by (simp add: word_less_nat_alt word_le_nat_alt word_unat_eq_iff unat_word_ariths, linarith)
  then show ?thesis by (simp add: update_and_check_nop_counter_def Let_def)
qed

section \<open>The cache of decoded instructions does not show\<close>

lemma mips_instr_raw: "mips_instr v e w a = Some (i :: 'a::len mips_instr) \<Longrightarrow> is_same_bytes i w' \<longleftrightarrow> w = w'"
  using mips_instr_Some [of w v e a, where 'a = 'a] by (auto simp: is_same_bytes_def)

lemma riscv_instr_raw: "riscv_instr opc csrs w a = Some (i :: 'a::len riscv_instr) \<Longrightarrow> riscv_is_same_bytes i w' \<longleftrightarrow> w = w'"
  using riscv_instr_Some [of csrs w opc a, where 'a = 'a] by (auto simp: riscv_is_same_bytes_def)

interpretation mips: decoder "mips_instr v e" is_same_bytes for v e
  by unfold_locales (rule mips_instr_raw)

interpretation riscv: decoder "riscv_instr opc csrs" riscv_is_same_bytes for opc csrs
  by unfold_locales (rule riscv_instr_raw)

text \<open>A simulator seen with another cache and byte order of its instruction memory: only the fetch can tell.\<close>

definition view :: "(Addr, 'i) instr_cache \<Rightarrow> endian \<Rightarrow> ('w, 'i, 'mem) func_sim \<Rightarrow> ('w, 'i, 'mem) func_sim" where
  "view c e s = s\<lparr>imem := c, imem_endian := e\<rparr>"

lemma view_simps [simp]:
  "imem (view c e s) = c" "imem_endian (view c e s) = e" "rf (view c e s) = rf s" "mem (view c e s) = mem s"
  "pc (view c e s) = pc s" "sim_delayed_slots (view c e s) = sim_delayed_slots s" "nops_in_a_row (view c e s) = nops_in_a_row s"
  "sim_sequence_id (view c e s) = sim_sequence_id s" "get_pc (view c e s) = get_pc s"
  "view c e (view c' e' s) = view c e s" "view (imem s) (imem_endian s) s = s"
  "(view c e s)\<lparr>rf := a\<rparr> = view c e (s\<lparr>rf := a\<rparr>)" "(view c e s)\<lparr>mem := m\<rparr> = view c e (s\<lparr>mem := m\<rparr>)"
  "(view c e s)\<lparr>sim_sequence_id := n\<rparr> = view c e (s\<lparr>sim_sequence_id := n\<rparr>)"
  "(view c e s)\<lparr>pc := p\<rparr> = view c e (s\<lparr>pc := p\<rparr>)" "(view c e s)\<lparr>sim_delayed_slots := d\<rparr> = view c e (s\<lparr>sim_delayed_slots := d\<rparr>)"
  "(view c e s)\<lparr>nops_in_a_row := l\<rparr> = view c e (s\<lparr>nops_in_a_row := l\<rparr>)"
  by (simp_all add: view_def get_pc_def)

lemma write_register_view: "write_register I r v (view c e s) = map_sum id (view c e) (write_register I r v s)"
  by (simp add: write_register_def or_error_def split: option.split)

lemma read_register_view: "read_register I r (view c e s) = read_register I r s"
  by (simp add: read_register_def)

lemma set_pc_view: "set_pc a (view c e s) = view c e (set_pc a s)"
  by (simp add: set_pc_def set_target_def new_target_def)

lemma update_pc_view: "update_pc n a (view c e s) = map_sum id (view c e) (update_pc n a s)"
  by (simp add: update_pc_def or_error_def Let_def comp_def option.map_comp split: option.split)

lemma nop_counter_view: "update_and_check_nop_counter I i (view c e s) = map_sum id (view c e) (update_and_check_nop_counter I i s)"
  by (simp add: update_and_check_nop_counter_def Let_def)

lemma retire_view: "retire I M junk i (view c e s) = map_sum id (map_prod id (view c e)) (retire I M junk i s)"
proof -
  have p: "bind_sim r (\<lambda>(x, y). f x y) = bind_sim r (\<lambda>p. f (fst p) (snd p))" for r and f :: "'x \<Rightarrow> 'y \<Rightarrow> sim_error + 'z"
    by (cases r) auto
  show ?thesis
    by (simp add: retire_def Let_def p map_bind bind_map update_pc_view nop_counter_view)
qed

lemma handle_trap_view: "handle_trap causes (func_cpu I) drv t a (view c e s) = map_sum id (map_prod id (view c e)) (handle_trap causes (func_cpu I) drv t a s)"
proof (induction drv)
  case (HookedDriver drv)
  then show ?case by (cases "handle_trap causes (func_cpu I) drv t a s") (simp_all add: case_prod_unfold)
next
  case DriverRISCV32
  show ?case
    by (cases "t = NO_TRAP \<or> t = HALT") (simp_all add: handle_trap_defs read_csr_register_def write_csr_register_def
      read_register_view write_register_view bind_map map_bind map_bind_abs set_pc_view Let_def)
qed (simp_all add: handle_trap_defs read_cpu_register_def write_cpu_register_def read_csr_register_def write_csr_register_def
    read_register_view write_register_view bind_map map_bind map_bind_abs set_pc_view Let_def)

text \<open>A kernel that does not look into the instruction memory, as the real ones cannot.\<close>

definition kernel_blind :: "('k \<times> ('w, 'i, 'mem) func_sim \<Rightarrow> kernel_answer \<times> 'k \<times> ('w, 'i, 'mem) func_sim) \<Rightarrow> bool" where
  "kernel_blind exec \<longleftrightarrow> (\<forall>k s c e. exec (k, view c e s) = map_prod id (map_prod id (view c e)) (exec (k, s)))"

lemma kernel_view:
  assumes "kernel_blind exec"
  shows "handle_instruction exec t (k, view c e s) = map_sum id (map_prod id (map_prod id (view c e))) (handle_instruction exec t (k, s))"
proof -
  have "attempts_loop exec n (k, view c e s) = map_sum id (map_prod id (map_prod id (view c e))) (attempts_loop exec n (k, s))" for n
  proof (induction n arbitrary: k s)
    case (Suc n)
    obtain a k' s' where x: "exec (k, s) = (a, k', s')" by (cases "exec (k, s)") auto
    then have "exec (k, view c e s) = (a, k', view c e s')" using assms by (simp add: kernel_blind_def)
    then show ?case using x Suc.IH [of k' s'] by (cases a) simp_all
  qed simp
  then show ?thesis by (simp add: handle_instruction_def execute_interactive_def)
qed

text \<open>A run without the cache, and the part of its result that a cache must not change.\<close>

definition plain_run where
  "plain_run I M junk causes drv exec instrs_to_run k s =
     run_loop (plain_step I M junk) causes I drv exec (unat (instrs_to_run :: uint64)) k (s\<lparr>nops_in_a_row := 0\<rparr>)"

definition forget_cache :: "sim_error + trap \<times> 'k \<times> ('w, 'i, 'mem) func_sim \<Rightarrow> sim_error + trap \<times> 'k \<times> ('w, 'i, 'mem) func_sim" where
  "forget_cache = map_sum id (map_prod id (map_prod id (view (new_instr_cache 0) little)))"

definition sim_ok :: "('r, 'i) isa \<Rightarrow> ('w, 'i, 'mem) func_sim \<Rightarrow> bool" where
  "sim_ok I s \<longleftrightarrow> ic_ok INSTR_CACHE_CAPACITY (imem s) \<and> faithful (create_instr I (imem_endian s)) (imem s)"

text \<open>One turn of the loop after the fetch.\<close>

definition turn where
  "turn I M junk causes drv exec k i s =
     bind_sim (retire I M junk i s) (\<lambda>(i, s).
       bind_sim (handle_instruction exec (trap i) (k, s)) (\<lambda>(t, k, s).
         bind_sim (handle_trap causes (func_cpu I) drv t (PC i) s) (\<lambda>(r, s). Inr (r, k, s))))"

lemma run_loop_turn:
  "run_loop (\<lambda>s. bind_sim (fetch s) (\<lambda>(i, s). retire I M junk i s)) causes I drv exec (Suc n) k s =
     bind_sim (fetch s) (\<lambda>(i, s). bind_sim (turn I M junk causes drv exec k i s) (\<lambda>(r, k, s).
       if r \<noteq> NO_TRAP then Inr (r, k, s)
       else run_loop (\<lambda>s. bind_sim (fetch s) (\<lambda>(i, s). retire I M junk i s)) causes I drv exec n k s))"
  by (simp add: turn_def bind_assoc case_prod_unfold cong: if_cong)

lemma step_fetch:
  "step I M junk = (\<lambda>s. bind_sim (sim_fetch I M junk s) (\<lambda>(i, s). retire I M junk i s))"
  "plain_step I M junk = (\<lambda>s. bind_sim (plain_fetch I M junk s) (\<lambda>(i, s). retire I M junk i s))"
  by (simp_all add: fun_eq_iff step_def plain_step_def)

lemma turn_view:
  assumes "kernel_blind exec"
  shows "turn I M junk causes drv exec k i (view c e s) = map_sum id (map_prod id (map_prod id (view c e))) (turn I M junk causes drv exec k i s)"
proof (cases "retire I M junk i s")
  case (Inr r)
  obtain j s1 where r: "r = (j, s1)" by (cases r)
  show ?thesis
  proof (cases "handle_instruction exec (trap j) (k, s1)")
    case h: (Inr x)
    obtain t k' s2 where x: "x = (t, k', s2)" by (cases x) auto
    show ?thesis
      using Inr r h x by (cases "handle_trap causes (func_cpu I) drv t (PC j) s2")
        (auto simp: turn_def retire_view kernel_view [OF assms] handle_trap_view)
  qed (use Inr r in \<open>simp add: turn_def retire_view kernel_view [OF assms]\<close>)
qed (simp add: turn_def retire_view)

lemma turn_keeps:
  assumes "kernel_blind exec" "turn I M junk causes drv exec k i s = Inr (r, k', s')"
  shows "imem_endian s' = imem_endian s"
proof -
  have "turn I M junk causes drv exec k i (view (imem s) (imem_endian s) s) = Inr (r, k', view (imem s) (imem_endian s) s')"
    unfolding turn_view [OF assms(1)] assms(2) by simp
  then have "s' = view (imem s) (imem_endian s) s'" using assms(2) by simp
  then show ?thesis by (metis view_simps(2))
qed

lemma plain_run_view:
  assumes blind: "kernel_blind exec"
  shows "run_loop (plain_step I M junk) causes I drv exec n k (view c (imem_endian s) s)
    = map_sum id (map_prod id (map_prod id (view c (imem_endian s)))) (run_loop (plain_step I M junk) causes I drv exec n k s)"
proof (induction n arbitrary: k s)
  case (Suc n)
  let ?e = "imem_endian s"
  show ?case
  proof (cases "plain_fetch I M junk s")
    case (Inl err)
    then have "plain_fetch I M junk (view c ?e s) = Inl err"
      by (simp add: plain_fetch_def Let_def split: option.splits)
    then show ?thesis using Inl unfolding step_fetch run_loop_turn by simp
  next
    case (Inr f)
    then obtain i where i: "plain_fetch I M junk s = Inr (i, s)" "plain_fetch I M junk (view c ?e s) = Inr (i, view c ?e s)"
      by (auto simp: plain_fetch_def Let_def split: option.splits)
    show ?thesis
    proof (cases "turn I M junk causes drv exec k i s")
      case (Inl err)
      then show ?thesis unfolding step_fetch run_loop_turn by (simp add: i turn_view [OF blind])
    next
      case (Inr x)
      obtain r k' s' where x: "x = (r, k', s')" by (cases x) auto
      with Inr have e: "imem_endian s' = ?e" using turn_keeps [OF blind] by blast
      show ?thesis
        using Suc.IH [of k' s'] Inr x unfolding e step_fetch run_loop_turn by (simp add: i turn_view [OF blind])
    qed
  qed
qed simp

lemma forget_cache_view:
  "forget_cache (map_sum id (map_prod id (map_prod id (view c e))) r) = forget_cache r"
  by (cases r) (auto simp: forget_cache_def)

lemma cached_run_loop:
  assumes lawful: "\<And>e. decoder (create_instr I e) (instr_same_bytes I)" and blind: "kernel_blind exec" and ok: "sim_ok I s"
  shows "run_loop (step I M junk) causes I drv exec n k s = Inl ReservedPC
    \<or> forget_cache (run_loop (step I M junk) causes I drv exec n k s) = forget_cache (run_loop (plain_step I M junk) causes I drv exec n k s)"
  using ok
proof (induction n arbitrary: k s)
  case (Suc n)
  let ?e = "imem_endian s"
  define w :: uint32 where "w = read_mem M junk ?e (mem s) (get_pc s)"
  have inv: "ic_ok INSTR_CACHE_CAPACITY (imem s)" "faithful (create_instr I ?e) (imem s)"
    using Suc.prems by (simp_all add: sim_ok_def)
  show ?case
  proof (cases "cached_fetch_instr (create_instr I ?e) (instr_same_bytes I) w (get_pc s) (imem s)")
    case None
    then have f: "sim_fetch I M junk s = Inl (if create_instr I ?e w (get_pc s) = None then DecodeFailure else ReservedPC)"
      by (simp add: sim_fetch_def Let_def w_def)
    show ?thesis
    proof (cases "create_instr I ?e w (get_pc s)")
      case None
      then have "plain_fetch I M junk s = Inl DecodeFailure" by (simp add: plain_fetch_def Let_def w_def)
      then show ?thesis using f None unfolding step_fetch run_loop_turn by simp
    qed (use f in \<open>simp add: step_fetch run_loop_turn del: run_loop.simps\<close>)
  next
    case (Some ic)
    then obtain i c where ic: "cached_fetch_instr (create_instr I ?e) (instr_same_bytes I) w (get_pc s) (imem s) = Some (i, c)"
      "create_instr I ?e w (get_pc s) = Some i" "ic_ok INSTR_CACHE_CAPACITY c" "faithful (create_instr I ?e) c"
      using decoder.cached_fetch_any [OF lawful inv, of w "get_pc s"] by auto
    have f: "sim_fetch I M junk s = Inr (i, view c ?e s)" "plain_fetch I M junk s = Inr (i, s)"
      using ic(1,2) by (simp_all add: sim_fetch_def plain_fetch_def Let_def w_def view_def)
    show ?thesis
    proof (cases "turn I M junk causes drv exec k i s")
      case (Inl err)
      then show ?thesis unfolding step_fetch run_loop_turn by (simp add: f turn_view [OF blind])
    next
      case (Inr x)
      obtain r k' s' where x: "x = (r, k', s')" by (cases x) auto
      have e: "imem_endian s' = ?e" using Inr x turn_keeps [OF blind] by blast
      have "sim_ok I (view c ?e s')" using ic(3,4) by (simp add: sim_ok_def)
      from Suc.IH [OF this, of k'] plain_run_view [OF blind, of I M junk causes drv n k' c s'] show ?thesis
        using Inr x unfolding e step_fetch run_loop_turn
        by (simp add: f turn_view [OF blind] forget_cache_view) (simp add: forget_cache_def)
    qed
  qed
qed simp

lemma new_func_sim_ok: "sim_ok I (new_func_sim I e m)"
  by (simp add: sim_ok_def new_func_sim_def new_instr_cache_ok faithful_new INSTR_CACHE_CAPACITY_def)

lemma mips_lawful: "decoder (create_instr (mips_isa v) e) (instr_same_bytes (mips_isa v))"
  using mips.decoder_axioms by (simp add: mips_isa_def)

lemma riscv_lawful: "decoder (create_instr (riscv_isa opc csrs) e) (instr_same_bytes (riscv_isa opc csrs))"
  using riscv.decoder_axioms by (simp add: riscv_isa_def)

text \<open>The same for RISC-V.\<close>

lemma riscv_cached_run:
  assumes "kernel_blind exec" "sim_ok (riscv_isa opc csrs) s"
  shows "run (riscv_isa opc csrs) M junk causes drv exec n k s = Inl ReservedPC
    \<or> forget_cache (run (riscv_isa opc csrs) M junk causes drv exec n k s)
      = forget_cache (plain_run (riscv_isa opc csrs) M junk causes drv exec n k s)"
  unfolding run_def plain_run_def using assms by (intro cached_run_loop riscv_lawful) (simp_all add: sim_ok_def)


definition example_sim :: "(uint32, 32 mips_instr, unit) func_sim" where
  "example_sim = set_pc 0x100 (new_func_sim (mips_isa V_32) little ())"

lemma example_sim_ok: "sim_ok (mips_isa V_32) example_sim"
  using new_func_sim_ok [of "mips_isa V_32" little "()"] by (simp add: example_sim_def set_pc_def set_target_def new_target_def sim_ok_def)


section \<open>Entering an exception\<close>

lemma ucast_back: "LENGTH('a) \<le> LENGTH('b) \<Longrightarrow> (ucast (ucast (x :: 'a::len word) :: 'b::len word) :: 'a word) = x"
  by (rule bit_word_eqI) (simp add: bit_simps)

text \<open>C25: Entering a MIPS exception: the driver notes the exception level in the status register, puts the
  low four bits of the trap's code into the cause register and leaves the rest of it, saves the
  instruction's address, and continues at the vector with no delay slot pending.\<close>
theorem mips_exception_entry:
  fixes s :: "('a::len word, 'a mips_instr, 'mem) func_sim"
  assumes "32 \<le> LENGTH('a)" "LENGTH('a) \<le> 64" "wf_rf mips_class (rf s)"
    and "t \<noteq> NO_TRAP" "t \<noteq> HALT" "to_mips_format causes t = Inr code"
  shows "handle_trap causes (func_cpu (mips_isa v)) DriverMIPS32 t a s = Inr (NO_TRAP,
    s\<lparr>rf := (rf s)[46 := rf s ! 46 OR 2,
        47 := (rf s ! 47 AND NOT (push_bit 2 (mask 4))) OR push_bit 2 (ucast code AND mask 4), 48 := ucast a],
      pc := (pc s)[0 := 0x800000180], sim_delayed_slots := 0, sim_sequence_id := 0\<rparr>)"
proof -
  have len: "length (rf s) = 98" using assms(3) by (simp add: wf_rf_def mips_class_def MAX_REG_def)
  have st: "(ucast (ucast x OR 2 :: uint64) :: 'a word) = x OR 2" for x :: "'a word"
    using assms(1,2) by (intro bit_word_eqI) (auto simp: bit_simps)
  have ca: "(ucast ((ucast x AND NOT (push_bit 2 (mask 4))) OR push_bit 2 (ucast code AND mask 4) :: uint64) :: 'a word)
      = (x AND NOT (push_bit 2 (mask 4))) OR push_bit 2 (ucast code AND mask 4)" for x :: "'a word"
    using assms(1,2) by (intro bit_word_eqI) (auto simp: bit_simps)
  show ?thesis
    using assms(4-6) len st ca
    by (simp add: mips_handle_trap_def read_cpu_register_def write_cpu_register_def read_register_def write_register_def or_error_def
        mips_isa_def mips_class_def rf_read_def rf_write_def get_value_def set_value_def mips_is_zero_def mips_registers
        mips_reg_nums set_pc_def set_target_def new_target_def mips_trap_pc_def mask_simps Let_def del: push_bit_and)
qed

lemma mips_exception_entry_witness:
  "\<exists>s. handle_trap example_causes (func_cpu (mips_isa V_32)) DriverMIPS32 SYSCALL 0x40 example_sim = Inr (NO_TRAP, s)
    \<and> rf s ! 47 = 0x20 \<and> rf s ! 48 = 0x40 \<and> get_pc s = 0x800000180"
proof -
  have rf: "rf example_sim = replicate 98 0"
    by (simp add: example_sim_def set_pc_def set_target_def new_target_def new_func_sim_def new_rf_def mips_isa_def mips_class_def MAX_REG_def)
  have "wf_rf mips_class (rf example_sim)" by (simp add: rf wf_rf_def mips_class_def MAX_REG_def)
  moreover have "to_mips_format example_causes SYSCALL = Inr 8"
    by (simp add: to_mips_format_def convert_to_def converter_def mips_exceptions)
  ultimately have h: "handle_trap example_causes (func_cpu (mips_isa V_32)) DriverMIPS32 SYSCALL 0x40 example_sim = Inr (NO_TRAP,
    example_sim\<lparr>rf := (rf example_sim)[46 := rf example_sim ! 46 OR 2,
        47 := (rf example_sim ! 47 AND NOT (push_bit 2 (mask 4))) OR push_bit 2 (ucast (8 :: uint8) AND mask 4), 48 := ucast (0x40 :: Addr)],
      pc := (pc example_sim)[0 := 0x800000180], sim_delayed_slots := 0, sim_sequence_id := 0\<rparr>)"
    by (intro mips_exception_entry) simp_all
  have "length (pc example_sim) = 8" by (simp add: example_sim_def set_pc_def set_target_def new_target_def new_func_sim_def)
  then have p: "pc example_sim \<noteq> []" by auto
  show ?thesis unfolding h by (simp add: rf get_pc_def p mask_numeral)
qed

end
