(* ===== verification/Perf_Instr.thy ===== *)
theory Perf_Instr
  imports Cpu_Model
begin

text \<open>
  The instruction in the pipeline, modules/core/perf_instr.h: an instruction of the
  functional model with the prediction that was made when it was fetched.
\<close>

record 'i perf_instr =
  func :: 'i
  bp_data :: bp_interface

definition get_bp_upd_address :: "'m operation_scheme perf_instr \<Rightarrow> Addr" where
  "get_bp_upd_address p = (if is_indirect_jump (func p) then new_PC (func p) else Operation.target (func p))"

definition get_predicted_target :: "'m operation_scheme perf_instr \<Rightarrow> target" where
  "get_predicted_target p = new_target (bp_target (bp_data p)) (sequence_id (func p) + 1)"

definition get_actual_target :: "'m operation_scheme perf_instr \<Rightarrow> target" where
  "get_actual_target p = new_target (new_PC (func p)) (sequence_id (func p) + 1)"

definition get_actual_decoded_target :: "'m operation_scheme perf_instr \<Rightarrow> target" where
  "get_actual_decoded_target p = new_target (Operation.target (func p)) (sequence_id (func p) + 1)"

definition get_bp_upd :: "'m operation_scheme perf_instr \<Rightarrow> bp_interface" where
  "get_bp_upd p = \<lparr>bp_pc = PC (func p), bp_is_taken = Operation.is_taken (func p),
     bp_target = get_bp_upd_address p, bp_is_hit = True\<rparr>"

definition is_bypassible :: "'m operation_scheme perf_instr \<Rightarrow> bool" where
  "is_bypassible p \<longleftrightarrow> \<not> is_conditional_move (func p) \<and> \<not> is_partial_load (func p) \<and> get_accumulation_type (func p) = 0"

definition is_long_arithmetic :: "'m operation_scheme perf_instr \<Rightarrow> bool" where
  "is_long_arithmetic p \<longleftrightarrow> is_divmult (func p)"

definition is_mem_stage_required :: "'m operation_scheme perf_instr \<Rightarrow> bool" where
  "is_mem_stage_required p \<longleftrightarrow> is_load (func p) \<or> is_store (func p) \<or> is_explicit_trap (func p)"

definition is_branch_stage_required :: "'m operation_scheme perf_instr \<Rightarrow> bool" where
  "is_branch_stage_required p \<longleftrightarrow> is_jump (func p)"

lemmas perf_predicates = is_bypassible_def is_long_arithmetic_def is_mem_stage_required_def is_branch_stage_required_def

text \<open>An instruction needs one of the long unit, the branch stage and the memory stage at most.\<close>

lemma stages_disjoint:
  "is_long_arithmetic p \<Longrightarrow> \<not> is_mem_stage_required p \<and> \<not> is_branch_stage_required p"
  "is_branch_stage_required p \<Longrightarrow> \<not> is_mem_stage_required p"
  by (cases "operation (func p)"; simp add: perf_predicates operation_predicates split: if_splits)+

end
