(* ===== verification/Data_Bypass.thy ===== *)
theory Data_Bypass
  imports Perf_Instr Register_File
begin

text \<open>
  The scoreboard of the decode stage, modules/decode/bypass/data_bypass.h and
  data_bypass_interface.h: for every register the stage where its newest value is, whether it can be
  taken from there, and from which port; and the rule that keeps writebacks in order. Stage
  numbers and latencies stay below 256 and are integers here. An access outside the scoreboard is
  \<open>None\<close>.
\<close>

section \<open>Stages\<close>

record register_stage =
  stage_value :: int
  bypass_direction :: nat

definition IN_RF_STAGE :: int where "IN_RF_STAGE = 255"
definition MEM_OR_BRANCH_STAGE :: int where "MEM_OR_BRANCH_STAGE = IN_RF_STAGE - 2"
definition WB_STAGE :: int where "WB_STAGE = IN_RF_STAGE - 1"

lemmas stage_numbers = IN_RF_STAGE_def MEM_OR_BRANCH_STAGE_def WB_STAGE_def

definition new_register_stage :: register_stage where
  "new_register_stage = \<lparr>stage_value = IN_RF_STAGE, bypass_direction = 0\<rparr>"

definition is_same_stage :: "int \<Rightarrow> register_stage \<Rightarrow> bool" where
  "is_same_stage v s \<longleftrightarrow> stage_value s = v"

definition stage_equal :: "register_stage \<Rightarrow> register_stage \<Rightarrow> bool" where
  "stage_equal s rhs \<longleftrightarrow> is_same_stage (stage_value rhs) s"

definition inc :: "register_stage \<Rightarrow> register_stage" where
  "inc s = s\<lparr>stage_value := stage_value s + 1\<rparr>"

definition set_to_stage :: "int \<Rightarrow> register_stage \<Rightarrow> register_stage" where
  "set_to_stage v s = s\<lparr>stage_value := v\<rparr>"

definition set_to_first_execution_stage :: "register_stage \<Rightarrow> register_stage" where
  "set_to_first_execution_stage s = (set_to_stage 0 s)\<lparr>bypass_direction := 0\<rparr>"

definition set_to_mem_stage :: "register_stage \<Rightarrow> register_stage" where
  "set_to_mem_stage s = (set_to_stage MEM_OR_BRANCH_STAGE s)\<lparr>bypass_direction := 2\<rparr>"

definition set_to_writeback :: "register_stage \<Rightarrow> register_stage" where
  "set_to_writeback s = (set_to_stage WB_STAGE s)\<lparr>bypass_direction := 3\<rparr>"

definition set_to_branch_stage :: "register_stage \<Rightarrow> register_stage" where
  "set_to_branch_stage s = (set_to_stage MEM_OR_BRANCH_STAGE s)\<lparr>bypass_direction := 4\<rparr>"

definition set_to_in_RF :: "register_stage \<Rightarrow> register_stage" where
  "set_to_in_RF s = set_to_stage IN_RF_STAGE s"

definition is_first_execution_stage :: "register_stage \<Rightarrow> bool" where
  "is_first_execution_stage s \<longleftrightarrow> is_same_stage 0 s"

definition is_mem_or_branch_stage :: "register_stage \<Rightarrow> bool" where
  "is_mem_or_branch_stage s \<longleftrightarrow> is_same_stage MEM_OR_BRANCH_STAGE s"

definition is_writeback :: "register_stage \<Rightarrow> bool" where
  "is_writeback s \<longleftrightarrow> is_same_stage WB_STAGE s"

definition stage_in_RF :: "register_stage \<Rightarrow> bool" where
  "stage_in_RF s \<longleftrightarrow> is_same_stage IN_RF_STAGE s"

lemmas stage_defs = new_register_stage_def is_same_stage_def stage_equal_def inc_def set_to_stage_def
  set_to_first_execution_stage_def set_to_mem_stage_def set_to_writeback_def set_to_branch_stage_def
  set_to_in_RF_def is_first_execution_stage_def is_mem_or_branch_stage_def is_writeback_def stage_in_RF_def

section \<open>Commands to the execute stage\<close>

record bypass_command =
  bypassing_stage :: register_stage
  last_execution_stage :: int

definition get_bypass_direction :: "bypass_command \<Rightarrow> nat" where
  "get_bypass_direction c =
     (if is_same_stage (last_execution_stage c) (bypassing_stage c) then 1
      else bypass_direction (bypassing_stage c))"

section \<open>The scoreboard\<close>

record register_info =
  current_stage :: register_stage
  ready_stage :: register_stage
  next_stage_after_first_execution_stage :: register_stage
  entry_bypassible :: bool
  is_traced :: bool

definition new_register_info :: register_info where
  "new_register_info = \<lparr>current_stage = new_register_stage, ready_stage = new_register_stage,
     next_stage_after_first_execution_stage = new_register_stage, entry_bypassible = False, is_traced = False\<rparr>"

definition set_next_stage :: "'m operation_scheme perf_instr \<Rightarrow> register_info \<Rightarrow> register_info" where
  "set_next_stage i e =
     (let s = next_stage_after_first_execution_stage e
      in e\<lparr>next_stage_after_first_execution_stage :=
          (if is_long_arithmetic i then inc (set_to_first_execution_stage s)
           else if is_branch_stage_required i then set_to_branch_stage s
           else if is_mem_stage_required i then set_to_mem_stage s
           else set_to_writeback s)\<rparr>)"

record data_bypass =
  long_alu_latency :: int
  operation_latency :: int
  writeback_bandwidth :: uint32
  scoreboard :: "register_info list"

definition new_data_bypass :: "'r register_class \<Rightarrow> int \<Rightarrow> data_bypass" where
  "new_data_bypass C lat = \<lparr>long_alu_latency = lat, operation_latency = 0, writeback_bandwidth = 1,
     scoreboard = replicate (max_reg C) new_register_info\<rparr>"

definition set_bandwidth :: "uint32 \<Rightarrow> data_bypass \<Rightarrow> data_bypass" where
  "set_bandwidth bw b = b\<lparr>writeback_bandwidth := bw\<rparr>"

definition get_entry :: "'r register_class \<Rightarrow> data_bypass \<Rightarrow> 'r \<Rightarrow> register_info option" where
  "get_entry C b r =
     (if to_rf_index C r < length (scoreboard b) then Some (scoreboard b ! to_rf_index C r) else None)"

definition get_src :: "('a::len, 'r, 'm) base_instruction_scheme perf_instr \<Rightarrow> nat \<Rightarrow> 'r option" where
  "get_src i k = (if k < length (src (func i)) then Some (src (func i) ! k) else None)"

definition get_dst :: "('a::len, 'r, 'm) base_instruction_scheme perf_instr \<Rightarrow> nat \<Rightarrow> 'r option" where
  "get_dst i k = (if k < length (dst (func i)) then Some (dst (func i) ! k) else None)"

definition src_entry ::
  "'r register_class \<Rightarrow> data_bypass \<Rightarrow> ('a::len, 'r, 'm) base_instruction_scheme perf_instr \<Rightarrow> nat \<Rightarrow> register_info option" where
  "src_entry C b i k = Option.bind (get_src i k) (get_entry C b)"

definition is_in_RF ::
  "'r register_class \<Rightarrow> data_bypass \<Rightarrow> ('a::len, 'r, 'm) base_instruction_scheme perf_instr \<Rightarrow> nat \<Rightarrow> bool option" where
  "is_in_RF C b i k = map_option (\<lambda>e. stage_in_RF (current_stage e)) (src_entry C b i k)"

definition src_bypassible ::
  "'r register_class \<Rightarrow> data_bypass \<Rightarrow> ('a::len, 'r, 'm) base_instruction_scheme perf_instr \<Rightarrow> nat \<Rightarrow> bool option" where
  "src_bypassible C b i k = map_option entry_bypassible (src_entry C b i k)"

definition get_instruction_latency :: "data_bypass \<Rightarrow> 'm operation_scheme perf_instr \<Rightarrow> int" where
  "get_instruction_latency b i =
     (if is_mem_stage_required i \<or> is_branch_stage_required i then 2
      else if is_long_arithmetic i then long_alu_latency b
      else 1)"

definition src_hazard ::
  "'r register_class \<Rightarrow> data_bypass \<Rightarrow> ('a::len, 'r, 'm) base_instruction_scheme perf_instr \<Rightarrow> nat \<Rightarrow> bool option" where
  "src_hazard C b i k =
     Option.bind (is_in_RF C b i k) (\<lambda>in_rf. map_option (\<lambda>bypassible. \<not> in_rf \<and> \<not> bypassible) (src_bypassible C b i k))"

definition is_stall ::
  "'r register_class \<Rightarrow> data_bypass \<Rightarrow> ('a::len, 'r, 'm) base_instruction_scheme perf_instr \<Rightarrow> bool option" where
  "is_stall C b i =
     (let instruction_latency = get_instruction_latency b i
      in Option.bind (src_hazard C b i 0) (\<lambda>h0.
         Option.bind (src_hazard C b i 1) (\<lambda>h1.
           Some (h0 \<or> h1 \<or> instruction_latency < operation_latency b
             \<and> int (unat (writeback_bandwidth b)) < operation_latency b))))"

definition get_bypass_command ::
  "'r register_class \<Rightarrow> data_bypass \<Rightarrow> ('a::len, 'r, 'm) base_instruction_scheme perf_instr \<Rightarrow> nat \<Rightarrow> bypass_command option" where
  "get_bypass_command C b i k =
     map_option (\<lambda>e. \<lparr>bypassing_stage = current_stage e, last_execution_stage = long_alu_latency b - 1\<rparr>) (src_entry C b i k)"

definition set_entry :: "'r register_class \<Rightarrow> 'r \<Rightarrow> (register_info \<Rightarrow> register_info) \<Rightarrow> data_bypass \<Rightarrow> data_bypass option" where
  "set_entry C r f b = map_option (\<lambda>e. b\<lparr>scoreboard := (scoreboard b)[to_rf_index C r := f e]\<rparr>) (get_entry C b r)"

definition trace_dst_entry :: "int \<Rightarrow> 'm operation_scheme perf_instr \<Rightarrow> register_info \<Rightarrow> register_info" where
  "trace_dst_entry lat i e =
     (let e = e\<lparr>current_stage := set_to_first_execution_stage (current_stage e)\<rparr>;
          e = set_next_stage i e;
          ready = (if is_long_arithmetic i then set_to_stage (lat - 1) (ready_stage e)
                   else if is_jump (func i) then set_to_branch_stage (ready_stage e)
                   else if is_load (func i) then set_to_mem_stage (ready_stage e)
                   else set_to_first_execution_stage (ready_stage e));
          ready = (if \<not> is_bypassible i then set_to_in_RF ready else ready);
          e = e\<lparr>ready_stage := ready\<rparr>
      in e\<lparr>entry_bypassible := stage_equal (current_stage e) (ready_stage e), is_traced := True\<rparr>)"

definition trace_new_dst_register where
  "trace_new_dst_register C i r b = set_entry C r (trace_dst_entry (long_alu_latency b) i) b"

text \<open>The second destination is never bypassed, but the flag of its entry is left as it was.\<close>

definition trace_dst2_entry :: "'m operation_scheme perf_instr \<Rightarrow> register_info \<Rightarrow> register_info" where
  "trace_dst2_entry i e =
     (let e = e\<lparr>current_stage := set_to_first_execution_stage (current_stage e)\<rparr>;
          e = set_next_stage i e
      in e\<lparr>ready_stage := set_to_in_RF (ready_stage e), is_traced := True\<rparr>)"

definition trace_new_dst2_register where
  "trace_new_dst2_register C i r b = set_entry C r (trace_dst2_entry i) b"

definition trace_new_instr ::
  "'r register_class \<Rightarrow> ('a::len, 'r, 'm) base_instruction_scheme perf_instr \<Rightarrow> data_bypass \<Rightarrow> data_bypass option" where
  "trace_new_instr C i b =
     Option.bind (get_dst i 0) (\<lambda>dst. Option.bind (get_dst i 1) (\<lambda>dst2.
       let b = b\<lparr>operation_latency := get_instruction_latency b i\<rparr>
       in Option.bind (if \<not> is_zero C dst then trace_new_dst_register C i dst b else Some b) (\<lambda>b.
          if \<not> is_zero C dst2 then trace_new_dst2_register C i dst2 b else Some b)))"

definition update_entry :: "int \<Rightarrow> register_info \<Rightarrow> register_info" where
  "update_entry lat e =
     (if \<not> is_traced e then e
      else if is_writeback (current_stage e) then new_register_info
      else let s = current_stage e;
               e = e\<lparr>current_stage :=
                   (if is_first_execution_stage s then next_stage_after_first_execution_stage e
                    else if is_same_stage (lat - 1) s \<or> is_mem_or_branch_stage s then set_to_writeback s
                    else inc s)\<rparr>
           in if stage_equal (current_stage e) (ready_stage e) then e\<lparr>entry_bypassible := True\<rparr> else e)"

definition update_latency :: "int \<Rightarrow> int" where
  "update_latency l = (if l \<noteq> 0 then l - 1 else l)"

definition bypass_update :: "data_bypass \<Rightarrow> data_bypass" where
  "bypass_update b = b\<lparr>scoreboard := map (update_entry (long_alu_latency b)) (scoreboard b),
     operation_latency := update_latency (operation_latency b)\<rparr>"

definition handle_flush :: "data_bypass \<Rightarrow> data_bypass" where
  "handle_flush b = b\<lparr>scoreboard := map (\<lambda>e. if is_traced e then new_register_info else e) (scoreboard b),
     operation_latency := 0\<rparr>"

section \<open>The life of a value\<close>

text \<open>
  What the scoreboard should say of a value, \<open>k\<close> cycles after its instruction entered the first
  execution stage: the instruction's latency, the time from which its value can be taken, the
  stage, and the port that carries the value.
\<close>

definition life :: "int \<Rightarrow> 'm operation_scheme perf_instr \<Rightarrow> nat" where
  "life lat i = (if is_long_arithmetic i then nat lat
     else if is_mem_stage_required i \<or> is_branch_stage_required i then 2 else 1)"

definition ready_time :: "int \<Rightarrow> 'm operation_scheme perf_instr \<Rightarrow> nat" where
  "ready_time lat i = (if is_long_arithmetic i then nat lat - 1 else if is_jump (func i) \<or> is_load (func i) then 1 else 0)"

definition value_at :: "int \<Rightarrow> 'm operation_scheme perf_instr \<Rightarrow> nat \<Rightarrow> int" where
  "value_at lat i k = (if k = life lat i then WB_STAGE else if is_long_arithmetic i then int k
     else if k = 0 then 0 else MEM_OR_BRANCH_STAGE)"

definition port_at :: "int \<Rightarrow> 'm operation_scheme perf_instr \<Rightarrow> nat \<Rightarrow> nat" where
  "port_at lat i k = (if k = life lat i then 3
     else if is_long_arithmetic i then (if k = nat lat - 1 then 1 else 0)
     else if k = 0 then 0 else if is_branch_stage_required i then 4 else 2)"

definition ready_value :: "int \<Rightarrow> 'm operation_scheme perf_instr \<Rightarrow> int" where
  "ready_value lat i = (if \<not> is_bypassible i then IN_RF_STAGE else value_at lat i (ready_time lat i))"

definition entry_at :: "int \<Rightarrow> 'm operation_scheme perf_instr \<Rightarrow> nat \<Rightarrow> register_info \<Rightarrow> bool" where
  "entry_at lat i k e \<longleftrightarrow> is_traced e \<and> stage_value (current_stage e) = value_at lat i k
     \<and> (\<not> is_same_stage (lat - 1) (current_stage e) \<longrightarrow> bypass_direction (current_stage e) = port_at lat i k)
     \<and> stage_value (ready_stage e) = ready_value lat i
     \<and> (entry_bypassible e \<longleftrightarrow> is_bypassible i \<and> ready_time lat i \<le> k)
     \<and> (k = 0 \<longrightarrow> stage_value (next_stage_after_first_execution_stage e) = value_at lat i 1
         \<and> (\<not> is_same_stage (lat - 1) (next_stage_after_first_execution_stage e)
             \<longrightarrow> bypass_direction (next_stage_after_first_execution_stage e) = port_at lat i 1))"

lemmas life_defs = life_def ready_time_def value_at_def port_at_def ready_value_def

lemma ready_at_jump_load:
  "is_long_arithmetic i \<Longrightarrow> \<not> is_jump (func i) \<and> \<not> is_load (func i)"
  "is_load (func i) \<Longrightarrow> is_mem_stage_required i"
  using stages_disjoint(1) [of i] by (auto simp: is_mem_stage_required_def is_branch_stage_required_def)

lemma entry_at_start:
  assumes "2 \<le> lat" "lat < 64"
  shows "entry_at lat i 0 (trace_dst_entry lat i e)"
proof -
  consider (long) "is_long_arithmetic i" "\<not> is_mem_stage_required i" "\<not> is_branch_stage_required i"
      "\<not> is_jump (func i)" "\<not> is_load (func i)"
    | (branch) "is_branch_stage_required i" "is_jump (func i)" "\<not> is_mem_stage_required i" "\<not> is_long_arithmetic i" "\<not> is_load (func i)"
    | (mem) "is_mem_stage_required i" "\<not> is_branch_stage_required i" "\<not> is_jump (func i)" "\<not> is_long_arithmetic i"
    | (alu) "\<not> is_mem_stage_required i" "\<not> is_branch_stage_required i" "\<not> is_jump (func i)" "\<not> is_long_arithmetic i" "\<not> is_load (func i)"
    using stages_disjoint [of i] by (auto simp: is_mem_stage_required_def is_branch_stage_required_def)
  then show ?thesis
    using assms by cases (auto simp: entry_at_def trace_dst_entry_def set_next_stage_def Let_def stage_defs stage_numbers life_defs)
qed

text \<open>One update of a traced entry that has not been written back.\<close>

definition next_stage :: "int \<Rightarrow> register_info \<Rightarrow> register_stage" where
  "next_stage lat e =
     (let s = current_stage e
      in if stage_value s = 0 then next_stage_after_first_execution_stage e
         else if stage_value s = lat - 1 \<or> stage_value s = MEM_OR_BRANCH_STAGE
           then \<lparr>stage_value = WB_STAGE, bypass_direction = 3\<rparr>
         else s\<lparr>stage_value := stage_value s + 1\<rparr>)"

lemma update_entry_to:
  assumes "is_traced e" "stage_value (current_stage e) \<noteq> WB_STAGE"
  shows "update_entry lat e = e\<lparr>current_stage := next_stage lat e,
    entry_bypassible := (entry_bypassible e \<or> stage_value (next_stage lat e) = stage_value (ready_stage e))\<rparr>"
  using assms by (simp add: update_entry_def next_stage_def Let_def stage_defs)

lemma next_stage_at:
  assumes lat: "2 \<le> lat" "lat < 64" and e: "entry_at lat i k e" and k: "k < life lat i"
  shows "stage_value (next_stage lat e) = value_at lat i (Suc k)
    \<and> (\<not> is_same_stage (lat - 1) (next_stage lat e) \<longrightarrow> bypass_direction (next_stage lat e) = port_at lat i (Suc k))"
proof (cases "k = 0")
  case True
  have "value_at lat i 0 = 0" using lat by (simp add: value_at_def life_def)
  then have "next_stage lat e = next_stage_after_first_execution_stage e"
    using e True by (simp add: entry_at_def next_stage_def)
  then show ?thesis using e True by (simp add: entry_at_def)
next
  case False
  have c: "stage_value (current_stage e) = value_at lat i k" using e by (simp add: entry_at_def)
  show ?thesis
  proof (cases "is_long_arithmetic i")
    case long: True
    then have l: "life lat i = nat lat" "k < nat lat" using k by (simp_all add: life_def)
    then have v: "value_at lat i k = int k" "int k < 63" using long lat by (simp_all add: value_at_def)
    show ?thesis
    proof (cases "int k = lat - 1")
      case True
      then have "Suc k = nat lat" by linarith
      then show ?thesis
        using c v l True False by (simp add: next_stage_def value_at_def port_at_def)
    next
      case last: False
      then have "Suc k < nat lat" using l by linarith
      then have "value_at lat i (Suc k) = int k + 1" using long l by (simp add: value_at_def)
      moreover have "port_at lat i k = 0" "int (Suc k) \<noteq> lat - 1 \<Longrightarrow> port_at lat i (Suc k) = 0"
        using long l last \<open>Suc k < nat lat\<close> by (auto simp: port_at_def)
      moreover have "bypass_direction (current_stage e) = port_at lat i k"
        using e c v last by (simp add: entry_at_def is_same_stage_def)
      ultimately show ?thesis
        using c v last False by (simp add: next_stage_def stage_numbers is_same_stage_def Let_def)
    qed
  next
    case short: False
    then have "k = 1" "life lat i = 2" using k False by (auto simp: life_def split: if_splits)
    then show ?thesis
      using c short by (simp add: next_stage_def value_at_def port_at_def stage_numbers)
  qed
qed

lemma ready_hits:
  assumes "2 \<le> lat" "lat < 64" "k < life lat i"
  shows "value_at lat i (Suc k) = ready_value lat i \<longleftrightarrow> is_bypassible i \<and> ready_time lat i = Suc k"
proof (cases "is_long_arithmetic i")
  case True
  have "nat lat - 1 < nat lat" "1 \<le> nat lat - 1" using assms by linarith+
  then show ?thesis
    using assms True by (simp add: ready_value_def value_at_def ready_time_def life_def stage_numbers) linarith
next
  case False
  then have "k = 0 \<or> k = 1 \<and> life lat i = 2" using assms(3) by (auto simp: life_def split: if_splits)
  moreover have "is_jump (func i) \<or> is_load (func i) \<Longrightarrow> life lat i = 2"
    using False ready_at_jump_load(2) [of i] by (auto simp: life_def is_branch_stage_required_def)
  ultimately show ?thesis
    using False assms by (auto simp: ready_value_def value_at_def ready_time_def life_def stage_numbers)
qed

lemma entry_at_step:
  assumes "2 \<le> lat" "lat < 64" "entry_at lat i k e" "k < life lat i"
  shows "entry_at lat i (Suc k) (update_entry lat e)"
proof -
  have "is_traced e" "stage_value (current_stage e) = value_at lat i k" using assms(3) by (simp_all add: entry_at_def)
  moreover have "value_at lat i k \<noteq> WB_STAGE"
    using assms by (auto simp: value_at_def life_def stage_numbers)
  ultimately have u: "update_entry lat e = e\<lparr>current_stage := next_stage lat e,
    entry_bypassible := (entry_bypassible e \<or> stage_value (next_stage lat e) = stage_value (ready_stage e))\<rparr>"
    by (intro update_entry_to) simp_all
  show ?thesis
    using next_stage_at [OF assms] ready_hits [OF assms(1,2,4)] assms(3)
    by (auto simp: u entry_at_def le_Suc_eq)
qed

lemma entry_at_end:
  assumes "2 \<le> lat" "lat < 64" "entry_at lat i (life lat i) e"
  shows "update_entry lat e = new_register_info"
  using assms by (simp add: entry_at_def update_entry_def stage_defs value_at_def)

lemma update_new_entry [simp]: "update_entry lat new_register_info = new_register_info"
  by (simp add: update_entry_def new_register_info_def)


lemma entry_timeline:
  assumes "2 \<le> lat" "lat < 64"
  shows "k \<le> life lat i \<Longrightarrow> entry_at lat i k ((update_entry lat ^^ k) (trace_dst_entry lat i e))"
    "life lat i < k \<Longrightarrow> (update_entry lat ^^ k) (trace_dst_entry lat i e) = new_register_info"
proof -
  show l: "k \<le> life lat i \<Longrightarrow> entry_at lat i k ((update_entry lat ^^ k) (trace_dst_entry lat i e))" for k
    by (induction k) (simp_all add: entry_at_start [OF assms] entry_at_step [OF assms])
  show "life lat i < k \<Longrightarrow> (update_entry lat ^^ k) (trace_dst_entry lat i e) = new_register_info"
  proof (induction k)
    case (Suc k)
    show ?case
    proof (cases "k = life lat i")
      case True
      then show ?thesis using l [of k] entry_at_end [OF assms] by simp
    qed (use Suc in simp)
  qed simp
qed

lemma bypass_updates:
  "long_alu_latency ((bypass_update ^^ k) b) = long_alu_latency b"
  "scoreboard ((bypass_update ^^ k) b) = map (update_entry (long_alu_latency b) ^^ k) (scoreboard b)"
  by (induction k) (simp_all add: bypass_update_def)

lemma direction_at:
  assumes "2 \<le> lat" "lat < 64" "entry_at lat i k e" "k \<le> life lat i"
  shows "get_bypass_direction \<lparr>bypassing_stage = current_stage e, last_execution_stage = lat - 1\<rparr> = port_at lat i k"
proof (cases "is_same_stage (lat - 1) (current_stage e)")
  case True
  then have v: "value_at lat i k = lat - 1" using assms(3) by (simp add: entry_at_def is_same_stage_def)
  then have "k \<noteq> life lat i" "is_long_arithmetic i" "k = nat lat - 1"
    using assms(1,2) by (auto simp: value_at_def stage_numbers split: if_splits)
  then show ?thesis using True by (simp add: get_bypass_direction_def port_at_def)
next
  case False
  then show ?thesis using assms(3) by (simp add: get_bypass_direction_def entry_at_def)
qed

text \<open>An instruction of the long unit and one that reads its result.\<close>

definition example_long :: "(32, mips_register) base_instruction perf_instr" where
  "example_long = \<lparr>func = (new_base_instruction 0 4 X_do_nothing mips_zero)
       \<lparr>operation := OUT_DIVMULT, dst := [from_cpu_index 8, mips_zero]\<rparr>,
     bp_data = \<lparr>bp_pc = 0, bp_is_taken = False, bp_target = 4, bp_is_hit = False\<rparr>\<rparr>"

definition example_use :: "(32, mips_register) base_instruction perf_instr" where
  "example_use = \<lparr>func = (new_base_instruction 4 8 X_do_nothing mips_zero)
       \<lparr>operation := OUT_ARITHM, src := [from_cpu_index 8, mips_zero, mips_zero]\<rparr>,
     bp_data = \<lparr>bp_pc = 4, bp_is_taken = False, bp_target = 8, bp_is_hit = False\<rparr>\<rparr>"

lemmas example_defs = example_long_def example_use_def new_data_bypass_def mips_class_def MAX_REG_def mips_is_zero_def
  mips_registers mips_reg_nums from_cpu_index_def

text \<open>C11: The scoreboard follows a value through the pipeline: \<open>k\<close> cycles after an instruction entered the
  first execution stage, its result counts as in the register file exactly when more cycles
  have passed than the instruction takes to its writeback, and before that can be taken exactly from the
  cycle when its stage has computed it, unless it is merged into the register, and then
  from the port of the stage where it is in that cycle.\<close>
theorem bypass_timeline:
  assumes lat: "2 \<le> long_alu_latency b" "long_alu_latency b < 64"
    and dst: "length (dst (func i)) = 2" "\<not> is_zero C (dst (func i) ! 0)" "to_rf_index C (dst (func i) ! 0) < length (scoreboard b)"
      "is_zero C (dst (func i) ! 1)"
    and src: "n < length (src (func j))" "src (func j) ! n = dst (func i) ! 0"
  defines "lat \<equiv> long_alu_latency b"
  shows "\<exists>b1. trace_new_instr C i b = Some b1
    \<and> (let b2 = (bypass_update ^^ k) b1
       in is_in_RF C b2 j n = Some (life lat i < k)
         \<and> src_bypassible C b2 j n = Some (is_bypassible i \<and> ready_time lat i \<le> k \<and> k \<le> life lat i)
         \<and> map_option get_bypass_direction (get_bypass_command C b2 j n)
             = Some (if k \<le> life lat i then port_at lat i k else 0))"
proof -
  let ?r = "to_rf_index C (dst (func i) ! 0)"
  let ?b = "b\<lparr>operation_latency := get_instruction_latency b i\<rparr>"
  let ?b1 = "?b\<lparr>scoreboard := (scoreboard b)[?r := trace_dst_entry lat i (scoreboard b ! ?r)]\<rparr>"
  have t: "trace_new_instr C i b = Some ?b1"
    using dst by (simp add: trace_new_instr_def get_dst_def trace_new_dst_register_def set_entry_def get_entry_def lat_def Let_def)
  define e where "e = (update_entry lat ^^ k) (trace_dst_entry lat i (scoreboard b ! ?r))"
  have s: "src_entry C ((bypass_update ^^ k) ?b1) j n = Some e"
    using dst(3) src by (simp add: src_entry_def get_src_def get_entry_def bypass_updates e_def lat_def)
  show ?thesis
  proof (cases "k \<le> life lat i")
    case True
    then have at: "entry_at lat i k e" using entry_timeline(1) lat by (simp add: e_def lat_def)
    then have "stage_value (current_stage e) = value_at lat i k" by (simp add: entry_at_def)
    moreover have "value_at lat i k \<noteq> IN_RF_STAGE"
      using lat True by (auto simp: value_at_def life_def stage_numbers lat_def)
    moreover have "get_bypass_direction \<lparr>bypassing_stage = current_stage e, last_execution_stage = lat - 1\<rparr> = port_at lat i k"
      using direction_at lat at True by (simp add: lat_def)
    moreover have "entry_bypassible e \<longleftrightarrow> is_bypassible i \<and> ready_time lat i \<le> k"
      using at by (simp add: entry_at_def)
    ultimately show ?thesis
      using t s True by (simp add: Let_def is_in_RF_def src_bypassible_def get_bypass_command_def stage_in_RF_def is_same_stage_def
        bypass_updates lat_def)
  next
    case False
    then have "e = new_register_info" using entry_timeline(2) [OF lat, of i k] by (simp add: e_def lat_def)
    then show ?thesis
      using t s False lat by (simp add: Let_def is_in_RF_def src_bypassible_def get_bypass_command_def get_bypass_direction_def
        new_register_info_def stage_defs bypass_updates stage_numbers lat_def)
  qed
qed

lemma bypass_timeline_witness:
  "\<exists>b1. trace_new_instr mips_class example_long (new_data_bypass mips_class 3) = Some b1
    \<and> (let b2 = (bypass_update ^^ 2) b1
       in is_in_RF mips_class b2 example_use 0 = Some False \<and> src_bypassible mips_class b2 example_use 0 = Some True
         \<and> map_option get_bypass_direction (get_bypass_command mips_class b2 example_use 0) = Some 1)"
proof -
  have l: "is_long_arithmetic example_long" "is_bypassible example_long"
    by (simp_all add: example_long_def perf_predicates operation_predicates)
  have "2 \<le> long_alu_latency (new_data_bypass mips_class 3)" "long_alu_latency (new_data_bypass mips_class 3) < 64"
    "length (dst (func example_long)) = 2" "\<not> is_zero mips_class (dst (func example_long) ! 0)"
    "to_rf_index mips_class (dst (func example_long) ! 0) < length (scoreboard (new_data_bypass mips_class 3))"
    "is_zero mips_class (dst (func example_long) ! 1)" "0 < length (src (func example_use))"
    "src (func example_use) ! 0 = dst (func example_long) ! 0"
    by (simp_all add: example_defs)
  from bypass_timeline [OF this, of 2] show ?thesis
    by (simp add: new_data_bypass_def life_def ready_time_def port_at_def l)
qed

section \<open>Writebacks in order\<close>

text \<open>
  The decode stage over some cycles from \<open>t\<close> on, with the instruction that it has in each: the
  scoreboard is updated, the instruction that left in the cycle before is entered, and the present one
  leaves unless it must stall. The result is the cycles of the writebacks of those that left.
\<close>

fun writebacks ::
  "'r register_class \<Rightarrow> int \<Rightarrow> ('a::len, 'r, 'm) base_instruction_scheme perf_instr option \<Rightarrow> data_bypass
   \<Rightarrow> ('a, 'r, 'm) base_instruction_scheme perf_instr option list \<Rightarrow> int list option" where
  "writebacks C t leaving b [] = Some []"
| "writebacks C t leaving b (c # cs) =
     Option.bind (case leaving of None \<Rightarrow> Some (bypass_update b) | Some i \<Rightarrow> trace_new_instr C i (bypass_update b)) (\<lambda>b.
       case c of
         None \<Rightarrow> writebacks C (t + 1) None b cs
       | Some i \<Rightarrow> Option.bind (is_stall C b i) (\<lambda>stall.
           if stall then writebacks C (t + 1) None b cs
           else map_option ((#) (t + 1 + get_instruction_latency b i)) (writebacks C (t + 1) (Some i) b cs)))"

lemma set_entry_Some:
  "set_entry C r f b = Some b' \<Longrightarrow> operation_latency b' = operation_latency b \<and> long_alu_latency b' = long_alu_latency b
    \<and> writeback_bandwidth b' = writeback_bandwidth b"
  by (auto simp: set_entry_def)

lemma trace_Some:
  assumes "trace_new_instr C i b = Some b'"
  shows "operation_latency b' = get_instruction_latency b i \<and> long_alu_latency b' = long_alu_latency b
    \<and> writeback_bandwidth b' = writeback_bandwidth b"
  using assms
  by (auto simp: trace_new_instr_def trace_new_dst_register_def trace_new_dst2_register_def bind_eq_Some_conv Let_def
      split: if_splits dest!: set_entry_Some)

lemma latency_cong: "long_alu_latency b' = long_alu_latency b \<Longrightarrow> get_instruction_latency b' i = get_instruction_latency b i"
  by (simp add: get_instruction_latency_def)

lemma latency_pos: "1 \<le> long_alu_latency b \<Longrightarrow> 1 \<le> get_instruction_latency b i"
  by (simp add: get_instruction_latency_def)

lemma update_latency_max: "update_latency (max 0 (w - (t - 1))) = max 0 (w - t)" for w t :: int
  by (simp add: update_latency_def max_def)

lemma writebacks_after:
  assumes "writebacks C t leaving b cs = Some ws" "1 \<le> long_alu_latency b" "writeback_bandwidth b = 1"
    and "case leaving of None \<Rightarrow> operation_latency b = max 0 (w - (t - 1)) | Some i \<Rightarrow> w = t + get_instruction_latency b i"
  shows "sorted_wrt (<) (w # ws)"
  using assms
proof (induction cs arbitrary: t leaving b w ws)
  case (Cons c cs)
  let ?start = "case leaving of None \<Rightarrow> Some (bypass_update b) | Some i \<Rightarrow> trace_new_instr C i (bypass_update b)"
  obtain b1 where b1: "?start = Some b1" using Cons.prems(1) by (cases ?start) auto
  have k: "long_alu_latency b1 = long_alu_latency b" "writeback_bandwidth b1 = 1"
    using b1 Cons.prems(3) by (auto simp: bypass_update_def split: option.splits dest!: trace_Some)
  note pos = latency_pos [OF Cons.prems(2) [folded k(1)]]
  have op: "operation_latency b1 = max 0 (w - t)"
  proof (cases leaving)
    case None
    then show ?thesis using b1 Cons.prems(4) update_latency_max by (auto simp: bypass_update_def)
  next
    case (Some i)
    then have "operation_latency b1 = get_instruction_latency (bypass_update b) i" using b1 by (auto dest: trace_Some)
    moreover have "get_instruction_latency (bypass_update b) i = get_instruction_latency b1 i" "get_instruction_latency b i = get_instruction_latency b1 i"
      using k by (auto intro!: latency_cong simp: bypass_update_def)
    ultimately show ?thesis using Some Cons.prems(4) pos [of i] by simp
  qed
  have idle: "sorted_wrt (<) (w # ws)" if "writebacks C (t + 1) None b1 cs = Some ws"
    using Cons.IH [OF that, of w] k Cons.prems(2) op by simp
  show ?case
  proof (cases c)
    case None
    then show ?thesis using Cons.prems(1) b1 idle by simp
  next
    case (Some i)
    then obtain stall where s: "is_stall C b1 i = Some stall" using Cons.prems(1) b1 by (auto simp: bind_eq_Some_conv)
    show ?thesis
    proof (cases stall)
      case True
      then show ?thesis using Cons.prems(1) b1 Some s idle by simp
    next
      case False
      then obtain vs where vs: "writebacks C (t + 1) (Some i) b1 cs = Some vs" "ws = (t + 1 + get_instruction_latency b1 i) # vs"
        using Cons.prems(1) b1 Some s by auto
      have "sorted_wrt (<) ((t + 1 + get_instruction_latency b1 i) # vs)"
        using Cons.IH [OF vs(1)] k Cons.prems(2) by simp
      moreover have "w < t + 1 + get_instruction_latency b1 i"
        using s False op k(2) pos [of i] by (auto simp: is_stall_def bind_eq_Some_conv Let_def max_def split: if_splits)
      ultimately show ?thesis using vs(2) by auto
    qed
  qed
qed simp



text \<open>
  The flag that the second destination leaves: a value that can be bypassed, then an instruction
  of the long unit that overwrites its register as second destination, as mthi and mult do, and the
  scoreboard lets the next reader take it from the port of the first execution stage at once.
\<close>

lemma second_destination_bypassed:
  assumes "is_traced e" "entry_bypassible e"
  shows "entry_bypassible (trace_dst2_entry i e)" "\<not> stage_in_RF (current_stage (trace_dst2_entry i e))"
    "bypass_direction (current_stage (trace_dst2_entry i e)) = 0"
  using assms by (simp_all add: trace_dst2_entry_def set_next_stage_def stage_defs stage_numbers Let_def)

end
