(* ===== verification/Pipeline.thy ===== *)
theory Pipeline
  imports Func_Sim Data_Bypass
begin

text \<open>
  The state of the performance simulator and its ports. modules/core/perf_sim.h holds the stages, each of which holds
  pointers to its ports; here the members of all stages are fields of one record, with the ports of
  every type of data under their keys as infra/ports/module.h registers them. A stage's work in a cycle is
  a function on this state that may fail with an exception.
\<close>

section \<open>Programs of a stage\<close>

type_synonym ('s, 'x) stage = "'s \<Rightarrow> sim_error + 'x \<times> 's"

definition ret :: "'x \<Rightarrow> ('s, 'x) stage" where
  "ret x s = Inr (x, s)"

definition fail :: "sim_error \<Rightarrow> ('s, 'x) stage" where
  "fail e s = Inl e"

definition and_then :: "('s, 'x) stage \<Rightarrow> ('x \<Rightarrow> ('s, 'y) stage) \<Rightarrow> ('s, 'y) stage" where
  "and_then m f s = bind_sim (m s) (\<lambda>(x, s). f x s)"

definition gets :: "('s \<Rightarrow> 'x) \<Rightarrow> ('s, 'x) stage" where
  "gets f s = Inr (f s, s)"

definition modify :: "('s \<Rightarrow> 's) \<Rightarrow> ('s, unit) stage" where
  "modify f s = Inr ((), f s)"

definition lift :: "sim_error + 'x \<Rightarrow> ('s, 'x) stage" where
  "lift r s = map_sum id (\<lambda>x. (x, s)) r"

definition whenever :: "bool \<Rightarrow> ('s, unit) stage \<Rightarrow> ('s, unit) stage" where
  "whenever b m = (if b then m else ret ())"

lemmas stage_simps = ret_def fail_def and_then_def gets_def modify_def lift_def whenever_def

section \<open>Ports of one type\<close>

type_synonym 'a ports = "string \<rightharpoonup> 'a write_port"

text \<open>The declarations of ports in the constructors of modules, in their order.\<close>

datatype port_decl = WP string | RP string Latency
datatype port_type = BoolPort | TargetPort | InstrPort | BpPort | CommandPort | OutputPort | TrapPort

definition decls_of :: "port_type \<Rightarrow> (port_type \<times> port_decl) list \<Rightarrow> port_decl list" where
  "decls_of t ds = map snd (filter (\<lambda>(t', d). t' = t) ds)"

definition PORT_LATENCY :: Latency where "PORT_LATENCY = 1"
definition LONG_LATENCY :: Latency where "LONG_LATENCY = 30"
definition PORT_BW :: uint32 where "PORT_BW = 1"

fun declare_ports :: "port_decl list \<Rightarrow> 'a port_map \<Rightarrow> port_error + 'a port_map" where
  "declare_ports [] pm = Inr pm"
| "declare_ports (WP key # ds) pm = bind_sim (add_write_port (new_write_port key PORT_BW) pm) (declare_ports ds)"
| "declare_ports (RP key l # ds) pm = declare_ports ds (add_read_port (new_read_port key l) pm)"

fun decl_key :: "port_decl \<Rightarrow> string" where
  "decl_key (WP key) = key"
| "decl_key (RP key l) = key"

text \<open>Initialising the map initialises the cluster of every key.\<close>

fun init_ports :: "string list \<Rightarrow> 'a port_map \<Rightarrow> port_error + 'a ports" where
  "init_ports [] pm = Inr Map.empty"
| "init_ports (key # rest) pm =
     bind_sim (init_cluster key (get_cluster pm key)) (\<lambda>w. bind_sim (init_ports rest pm) (\<lambda>ps. Inr (ps(key \<mapsto> w))))"

definition make_ports :: "port_decl list \<Rightarrow> sim_error + 'a ports" where
  "make_ports ds =
     (case bind_sim (declare_ports ds Map.empty) (init_ports (remdups (map decl_key ds))) of
        Inl e \<Rightarrow> Inl (PortFailure e) | Inr ps \<Rightarrow> Inr ps)"

text \<open>The \<open>n\<close>-th reader of a key.\<close>

definition port_failure :: "port_error + 'x \<Rightarrow> sim_error + 'x" where
  "port_failure r = map_sum PortFailure id r"

definition with_reader ::
  "('a read_port \<Rightarrow> port_error + 'x \<times> 'a read_port) \<Rightarrow> string \<Rightarrow> nat \<Rightarrow> 'a ports \<Rightarrow> sim_error + 'x \<times> 'a ports" where
  "with_reader f key n ps =
     (case ps key of
        None \<Rightarrow> Inl (PortFailure (NoWritePort key))
      | Some w \<Rightarrow>
          if n < length (destinations w)
          then bind_sim (port_failure (f (destinations w ! n))) (\<lambda>(x, p).
                 Inr (x, ps(key \<mapsto> w\<lparr>destinations := (destinations w)[n := p]\<rparr>)))
          else Inl (PortFailure (NoReadPorts key)))"

definition ports_ready :: "string \<Rightarrow> nat \<Rightarrow> Cycle \<Rightarrow> 'a ports \<Rightarrow> sim_error + bool \<times> 'a ports" where
  "ports_ready key n cycle = with_reader (is_ready cycle) key n"

definition ports_read :: "string \<Rightarrow> nat \<Rightarrow> Cycle \<Rightarrow> 'a ports \<Rightarrow> sim_error + 'a \<times> 'a ports" where
  "ports_read key n cycle = with_reader (read_port cycle) key n"

definition ports_write :: "string \<Rightarrow> 'a \<Rightarrow> Cycle \<Rightarrow> 'a ports \<Rightarrow> sim_error + unit \<times> 'a ports" where
  "ports_write key x cycle ps =
     (case ps key of
        None \<Rightarrow> Inl (PortFailure (NoWritePort key))
      | Some w \<Rightarrow> bind_sim (port_failure (write_to_port x cycle w)) (\<lambda>w. Inr ((), ps(key \<mapsto> w))))"

text \<open>Reading until nothing is left for the cycle: the last item, or what was there before.\<close>

lemma drop_stale_occupied: "occupied (drop_stale c q) \<le> occupied q"
proof (induction c q rule: drop_stale.induct)
  case (1 c q)
  then show ?case
    by (subst drop_stale.simps) (auto simp: pq_pop_def split: option.splits)
qed

lemma is_ready_occupied:
  assumes "is_ready c p = Inr (b, p')"
  shows "occupied (queue p') \<le> occupied (queue p)" "b \<Longrightarrow> 0 < occupied (queue p')"
  using assms drop_stale_occupied [of c "queue p"]
  by (auto simp: is_ready_def cleanup_stale_data_def pq_empty_def split: sum.splits)

lemma read_port_occupied:
  assumes "read_port c p = Inr (x, p')"
  shows "occupied (queue p') < occupied (queue p)"
  using assms is_ready_occupied [of c p]
  by (fastforce simp: read_port_def pq_pop_def split: sum.splits bool.splits)

function drain :: "Cycle \<Rightarrow> 'a \<Rightarrow> 'a read_port \<Rightarrow> port_error + 'a \<times> 'a read_port" where
  "drain c x p =
     (case is_ready c p of
        Inl e \<Rightarrow> Inl e
      | Inr (ready, p1) \<Rightarrow>
          if ready then (case read_port c p1 of Inl e \<Rightarrow> Inl e | Inr (y, p2) \<Rightarrow> drain c y p2) else Inr (x, p1))"
  by pat_completeness auto
termination
proof (relation "measure (\<lambda>(c, x, p). occupied (queue p))", simp)
  fix c x p r ready p1 s y p2
  assume "is_ready c p = Inr r" "(ready, p1) = r" "read_port c p1 = Inr s" "(y, p2) = s"
  then have "occupied (queue p2) < occupied (queue p)"
    using is_ready_occupied(1) [of c p ready p1] read_port_occupied [of c p1 y p2] by simp
  then show "((c, y, p2), c, x, p) \<in> measure (\<lambda>(c, x, p). occupied (queue p))" by simp
qed

declare drain.simps [simp del]

definition ports_drain :: "string \<Rightarrow> nat \<Rightarrow> Cycle \<Rightarrow> 'a \<Rightarrow> 'a ports \<Rightarrow> sim_error + 'a \<times> 'a ports" where
  "ports_drain key n cycle x = with_reader (drain cycle x) key n"

section \<open>The members of the stages\<close>

record ('w, 'i) all_ports =
  bool_ports :: "bool ports"
  target_ports :: "target ports"
  instr_ports :: "'i perf_instr ports"
  bp_ports :: "bp_interface ports"
  command_ports :: "bypass_command ports"
  output_ports :: "'w list ports"
  trap_ports :: "trap ports"

record 'i fetch_unit =
  fetch_imem :: "(Addr, 'i) instr_cache"
  fetch_endian :: endian
  fetch_bp :: bp
  fetch_tags :: tag_array
  icache_line_size :: uint32
  fetchahead_size :: uint32
  prefetch_method :: string
  is_wrong_path :: bool

record decode_unit =
  bypassing_unit :: data_bypass
  decode_num_jumps :: uint64
  decode_num_mispredictions :: uint64

record execute_unit =
  last_execution_stage_latency :: int
  flush_expiration_latency :: int

record branch_unit =
  branch_num_jumps :: uint64
  branch_num_mispredictions :: uint64

record ('w, 'i, 'mem) checker =
  checker_sim :: "('w, 'i, 'mem) func_sim"
  checker_driver :: driver
  active :: bool

record ('w, 'i, 'mem) writeback_unit =
  instrs_to_run :: uint64
  executed_instrs :: uint64
  last_writeback_cycle :: Cycle
  next_PC :: Addr
  wb_checker :: "('w, 'i, 'mem) checker"
  wb_driver :: driver

record ('w, 'i, 'mem, 'k) perf_sim =
  all_ports :: "('w, 'i) all_ports"
  perf_rf :: "'w list"
  perf_mem :: 'mem
  fetch :: "'i fetch_unit"
  decode :: decode_unit
  execution :: execute_unit
  branch :: branch_unit
  writeback :: "('w, 'i, 'mem) writeback_unit"
  perf_kernel :: 'k
  curr_cycle :: Cycle
  current_trap :: trap

section \<open>Access to the ports\<close>

definition on_ports ::
  "(('w, 'i) all_ports \<Rightarrow> 'p) \<Rightarrow> (('p \<Rightarrow> 'p) \<Rightarrow> ('w, 'i) all_ports \<Rightarrow> ('w, 'i) all_ports)
   \<Rightarrow> ('p \<Rightarrow> sim_error + 'x \<times> 'p) \<Rightarrow> (('w, 'i, 'mem, 'k) perf_sim, 'x) stage" where
  "on_ports get upd f s =
     bind_sim (f (get (all_ports s))) (\<lambda>(x, p). Inr (x, s\<lparr>all_ports := upd (\<lambda>_. p) (all_ports s)\<rparr>))"

definition bool_ready where "bool_ready key n c = on_ports bool_ports bool_ports_update (ports_ready key n c)"
definition bool_read where "bool_read key n c = on_ports bool_ports bool_ports_update (ports_read key n c)"
definition bool_write where "bool_write key x c = on_ports bool_ports bool_ports_update (ports_write key x c)"

definition target_ready where "target_ready key n c = on_ports target_ports target_ports_update (ports_ready key n c)"
definition target_read where "target_read key n c = on_ports target_ports target_ports_update (ports_read key n c)"
definition target_write where "target_write key x c = on_ports target_ports target_ports_update (ports_write key x c)"

definition instr_ready where "instr_ready key n c = on_ports instr_ports instr_ports_update (ports_ready key n c)"
definition instr_read where "instr_read key n c = on_ports instr_ports instr_ports_update (ports_read key n c)"
definition instr_write where "instr_write key x c = on_ports instr_ports instr_ports_update (ports_write key x c)"

definition bp_ready where "bp_ready key n c = on_ports bp_ports bp_ports_update (ports_ready key n c)"
definition bp_read where "bp_read key n c = on_ports bp_ports bp_ports_update (ports_read key n c)"
definition bp_write where "bp_write key x c = on_ports bp_ports bp_ports_update (ports_write key x c)"

definition command_ready where "command_ready key n c = on_ports command_ports command_ports_update (ports_ready key n c)"
definition command_read where "command_read key n c = on_ports command_ports command_ports_update (ports_read key n c)"
definition command_write where "command_write key x c = on_ports command_ports command_ports_update (ports_write key x c)"

definition output_drain where "output_drain key n c x = on_ports output_ports output_ports_update (ports_drain key n c x)"
definition output_write where "output_write key x c = on_ports output_ports output_ports_update (ports_write key x c)"

definition trap_ready where "trap_ready key n c = on_ports trap_ports trap_ports_update (ports_ready key n c)"
definition trap_read where "trap_read key n c = on_ports trap_ports trap_ports_update (ports_read key n c)"
definition trap_write where "trap_write key x c = on_ports trap_ports trap_ports_update (ports_write key x c)"

text \<open>A signal that is raised: \<open>is_ready\<close> and the value read, which is not looked at otherwise.\<close>

definition bool_signal where
  "bool_signal key n c = and_then (bool_ready key n c) (\<lambda>r. if r then bool_read key n c else ret False)"

definition either_signal where
  "either_signal m m' = and_then m (\<lambda>b. if b then ret True else m')"

section \<open>What a stage does to the state\<close>

text \<open>
  A relation between the states before and after, as what is kept or how far something has advanced, holds of a
  stage if it holds of its parts.
\<close>

definition moves :: "('s \<Rightarrow> 's \<Rightarrow> bool) \<Rightarrow> ('s, 'x) stage \<Rightarrow> bool" where
  "moves R m \<longleftrightarrow> (\<forall>s x s'. m s = Inr (x, s') \<longrightarrow> R s s')"

lemma movesD: "moves R m \<Longrightarrow> m s = Inr (x, s') \<Longrightarrow> R s s'"
  by (simp add: moves_def)

locale state_relation =
  fixes R :: "'s \<Rightarrow> 's \<Rightarrow> bool"
  assumes refl: "R s s"
    and trans: "R s s' \<Longrightarrow> R s' s'' \<Longrightarrow> R s s''"
begin

lemma moves_and_then: "moves R m \<Longrightarrow> (\<And>x. moves R (g x)) \<Longrightarrow> moves R (and_then m g)"
  by (fastforce simp: moves_def and_then_def bind_Inr intro: trans)

lemma moves_pure: "moves R (ret x)" "moves R (fail e)" "moves R (gets f)" "moves R (lift r)"
  using refl by (cases r; auto simp: moves_def stage_simps)+

lemma moves_modify: "(\<And>s. R s (f s)) \<Longrightarrow> moves R (modify f)"
  by (simp add: moves_def modify_def)

lemma moves_whenever: "moves R m \<Longrightarrow> moves R (whenever b m)"
  using refl by (simp add: moves_def whenever_def ret_def)

end

lemma moves_if: "moves R m \<Longrightarrow> moves R m' \<Longrightarrow> moves R (if b then m else m')"
  by simp

lemma moves_case_prod: "(\<And>x y. p = (x, y) \<Longrightarrow> moves R (f x y)) \<Longrightarrow> moves R (case p of (x, y) \<Rightarrow> f x y)"
  by (cases p) simp

lemma moves_Let: "moves R (f x) \<Longrightarrow> moves R (Let x f)"
  by simp

lemma moves_on_ports: "(\<And>s p. R s (s\<lparr>all_ports := p\<rparr>)) \<Longrightarrow> moves R (on_ports get upd f)"
  by (auto simp: moves_def on_ports_def bind_Inr)

lemmas port_access_defs = bool_ready_def bool_read_def bool_write_def target_ready_def target_read_def target_write_def
  instr_ready_def instr_read_def instr_write_def bp_ready_def bp_read_def bp_write_def command_ready_def command_read_def
  command_write_def output_drain_def output_write_def trap_ready_def trap_read_def trap_write_def

text \<open>The stages before writeback leave these members alone.\<close>

definition back_end :: "('w, 'i, 'mem, 'k) perf_sim \<Rightarrow> 'w list \<times> ('w, 'i, 'mem) writeback_unit \<times> 'k \<times> Cycle \<times> trap" where
  "back_end s = (perf_rf s, writeback s, perf_kernel s, curr_cycle s, current_trap s)"

definition keeps_back_end :: "('w, 'i, 'mem, 'k) perf_sim \<Rightarrow> ('w, 'i, 'mem, 'k) perf_sim \<Rightarrow> bool" where
  "keeps_back_end s s' \<longleftrightarrow> back_end s' = back_end s"

interpretation keeps: state_relation keeps_back_end
  by unfold_locales (simp_all add: keeps_back_end_def)

lemma keeps_ports: "moves keeps_back_end (on_ports get upd f)"
  by (rule moves_on_ports) (simp add: keeps_back_end_def back_end_def)

lemmas keeps_intros = keeps.moves_and_then keeps.moves_pure keeps.moves_whenever keeps_ports moves_if moves_case_prod moves_Let

lemma keeps_signals: "moves keeps_back_end (bool_signal key n c)"
  "moves keeps_back_end m \<Longrightarrow> moves keeps_back_end m' \<Longrightarrow> moves keeps_back_end (either_signal m m')"
  unfolding bool_signal_def either_signal_def port_access_defs by (intro keeps_intros; assumption?)+

end
