(* ===== verification/Fetch_Stage.thy ===== *)
theory Fetch_Stage
  imports Pipeline
begin

text \<open>
  The fetch stage, modules/fetch/fetch.cpp: it chooses the next target among those that the later
  stages, the predictor and itself ask for, looks it up in the tags of the instruction cache, waits out
  a miss, and sends the instruction with its prediction to decode. Prefetching only touches the tags.
\<close>

record pipeline_config =
  bp_mode :: string
  bp_lru :: string
  bp_size :: uint32
  bp_ways :: uint32
  instruction_cache_type :: string
  instruction_cache_size :: uint32
  instruction_cache_ways :: uint32
  instruction_cache_line_size :: uint32
  fetchahead_distance :: uint32
  config_prefetch_method :: string
  config_long_alu_latency :: uint64

text \<open>The ports that the constructor makes, in its order.\<close>

definition fetch_ports :: "(port_type \<times> port_decl) list" where
  "fetch_ports =
     [(InstrPort, WP ''FETCH_2_DECODE''), (BoolPort, RP ''DECODE_2_FETCH_STALL'' PORT_LATENCY),
      (TargetPort, RP ''BRANCH_2_FETCH_TARGET'' PORT_LATENCY), (TargetPort, WP ''TARGET''),
      (TargetPort, RP ''TARGET'' PORT_LATENCY), (TargetPort, WP ''HOLD_PC''),
      (TargetPort, RP ''HOLD_PC'' PORT_LATENCY), (TargetPort, RP ''WRITEBACK_2_FETCH_TARGET'' PORT_LATENCY),
      (BpPort, RP ''BRANCH_2_FETCH'' PORT_LATENCY), (TargetPort, WP ''LONG_LATENCY_PC_HOLDER''),
      (TargetPort, RP ''LONG_LATENCY_PC_HOLDER'' LONG_LATENCY), (BoolPort, WP ''HIT_OR_MISS''),
      (BoolPort, RP ''HIT_OR_MISS'' PORT_LATENCY), (BpPort, RP ''DECODE_2_FETCH'' PORT_LATENCY),
      (TargetPort, RP ''DECODE_2_FETCH_TARGET'' PORT_LATENCY)]"

definition new_fetch :: "pipeline_config \<Rightarrow> endian \<Rightarrow> sim_error + 'i fetch_unit" where
  "new_fetch cfg e =
     (case create_configured_bp (bp_mode cfg) (bp_lru cfg) (bp_size cfg) (bp_ways cfg) of
        Inl err \<Rightarrow> Inl (BranchPredictorError err)
      | Inr b \<Rightarrow>
          (case create_tag_array (instruction_cache_type cfg) (instruction_cache_size cfg) (instruction_cache_ways cfg)
                  (instruction_cache_line_size cfg) 32 of
             Inl err \<Rightarrow> Inl (TagArrayError err)
           | Inr t \<Rightarrow>
               let m = config_prefetch_method cfg
               in if m \<noteq> ''next-line'' \<and> m \<noteq> ''wrong-path'' \<and> m \<noteq> ''no-prefetch''
                  then Inl (PrefetchMethodException m)
                  else Inr \<lparr>fetch_imem = new_instr_cache INSTR_CACHE_CAPACITY, fetch_endian = e, fetch_bp = b,
                    fetch_tags = t, icache_line_size = instruction_cache_line_size cfg,
                    fetchahead_size = fetchahead_distance cfg, prefetch_method = m, is_wrong_path = False\<rparr>))"

section \<open>The tags and the predictor\<close>

definition tags_lookup :: "Addr \<Rightarrow> (('w, 'i, 'mem, 'k) perf_sim, bool) stage" where
  "tags_lookup a s =
     (let (hit, t) = lookup (fetch_tags (fetch s)) a in Inr (hit, s\<lparr>fetch := (fetch s)\<lparr>fetch_tags := t\<rparr>\<rparr>))"

definition tags_write :: "Addr \<Rightarrow> (('w, 'i, 'mem, 'k) perf_sim, unit) stage" where
  "tags_write a s =
     (case array_write (fetch_tags (fetch s)) a of
        Inl e \<Rightarrow> Inl (TagArrayError e)
      | Inr (way, t) \<Rightarrow> Inr ((), s\<lparr>fetch := (fetch s)\<lparr>fetch_tags := t\<rparr>\<rparr>))"

definition bp_update :: "bp_interface \<Rightarrow> (('w, 'i, 'mem, 'k) perf_sim, unit) stage" where
  "bp_update upd s =
     (case Bpu.update upd (fetch_bp (fetch s)) of
        Inl e \<Rightarrow> Inl (BranchPredictorError e)
      | Inr b \<Rightarrow> Inr ((), s\<lparr>fetch := (fetch s)\<lparr>fetch_bp := b\<rparr>\<rparr>))"

definition bp_info :: "Addr \<Rightarrow> (('w, 'i, 'mem, 'k) perf_sim, bp_interface) stage" where
  "bp_info a s =
     (case get_bp_info (fetch_bp (fetch s)) a of Inl e \<Rightarrow> Inl (BranchPredictorError e) | Inr b \<Rightarrow> Inr (b, s))"

definition set_wrong_path :: "bool \<Rightarrow> (('w, 'i, 'mem, 'k) perf_sim, unit) stage" where
  "set_wrong_path b = modify (\<lambda>s. s\<lparr>fetch := (fetch s)\<lparr>is_wrong_path := b\<rparr>\<rparr>)"

definition has_prefetch :: "string \<Rightarrow> (('w, 'i, 'mem, 'k) perf_sim, bool) stage" where
  "has_prefetch m = gets (\<lambda>s. prefetch_method (fetch s) = m)"

definition fetch_instr ::
  "('r, 'i) isa \<Rightarrow> 'mem memory_ops \<Rightarrow> (nat \<Rightarrow> byte) \<Rightarrow> Addr \<Rightarrow> (('w, 'i, 'mem, 'k) perf_sim, 'i) stage" where
  "fetch_instr I M junk a s =
     (let e = fetch_endian (fetch s);
          w = read_mem M junk e (perf_mem s) a
      in case cached_fetch_instr (create_instr I e) (instr_same_bytes I) w a (fetch_imem (fetch s)) of
           None \<Rightarrow> Inl (if create_instr I e w a = None then DecodeFailure else ReservedPC)
         | Some (i, c) \<Rightarrow> Inr (i, s\<lparr>fetch := (fetch s)\<lparr>fetch_imem := c\<rparr>\<rparr>))"

section \<open>Choosing the target\<close>

definition read_target :: "string \<Rightarrow> Cycle \<Rightarrow> (('w, 'i, 'mem, 'k) perf_sim, target) stage" where
  "read_target key c = and_then (target_ready key 0 c) (\<lambda>r. if r then target_read key 0 c else ret no_target)"

definition prefetch_wrong_path :: "Addr \<Rightarrow> (('w, 'i, 'mem, 'k) perf_sim, unit) stage" where
  "prefetch_wrong_path a =
     and_then (has_prefetch ''wrong-path'') (\<lambda>enabled.
       whenever enabled
         (and_then (set_wrong_path True) (\<lambda>_.
          and_then (tags_lookup a) (\<lambda>hit. whenever (\<not> hit) (tags_write a)))))"

definition get_target :: "Cycle \<Rightarrow> (('w, 'i, 'mem, 'k) perf_sim, target) stage" where
  "get_target c =
     and_then (bool_signal ''DECODE_2_FETCH_STALL'' 0 c) (\<lambda>is_stall.
     and_then (read_target ''WRITEBACK_2_FETCH_TARGET'' c) (\<lambda>external_target.
     and_then (read_target ''HOLD_PC'' c) (\<lambda>hold_target.
     and_then (read_target ''BRANCH_2_FETCH_TARGET'' c) (\<lambda>flushed_target.
     and_then (read_target ''DECODE_2_FETCH_TARGET'' c) (\<lambda>flushed_target_from_decode.
     and_then (read_target ''TARGET'' c) (\<lambda>branch_target.
     and_then (has_prefetch ''wrong-path'') (\<lambda>enabled.
     and_then (whenever enabled (set_wrong_path False)) (\<lambda>_.
       if valid external_target then ret external_target
       else if valid flushed_target then ret flushed_target
       else if valid flushed_target_from_decode
         then and_then (prefetch_wrong_path (address flushed_target_from_decode)) (\<lambda>_. ret flushed_target_from_decode)
       else if \<not> is_stall \<and> valid branch_target then ret branch_target
       else if valid hold_target then ret hold_target
       else ret no_target))))))))"

definition clock_bp :: "Cycle \<Rightarrow> (('w, 'i, 'mem, 'k) perf_sim, unit) stage" where
  "clock_bp c =
     and_then (bp_ready ''BRANCH_2_FETCH'' 0 c) (\<lambda>r.
     and_then (whenever r (and_then (bp_read ''BRANCH_2_FETCH'' 0 c) bp_update)) (\<lambda>_.
     and_then (bp_ready ''DECODE_2_FETCH'' 0 c) (\<lambda>r.
       whenever r (and_then (bp_read ''DECODE_2_FETCH'' 0 c) bp_update))))"

section \<open>Misses\<close>

definition clock_instr_cache :: "Cycle \<Rightarrow> (('w, 'i, 'mem, 'k) perf_sim, unit) stage" where
  "clock_instr_cache c =
     and_then (target_ready ''LONG_LATENCY_PC_HOLDER'' 0 c) (\<lambda>r.
       if r
       then and_then (target_read ''LONG_LATENCY_PC_HOLDER'' 0 c) (\<lambda>t.
            and_then (tags_write (address t)) (\<lambda>_. target_write ''HOLD_PC'' t c))
       else bool_write ''HIT_OR_MISS'' False c)"

text \<open>The first of the ports that has a target hands it to the next cycle.\<close>

fun save_first :: "string list \<Rightarrow> Cycle \<Rightarrow> (('w, 'i, 'mem, 'k) perf_sim, unit) stage" where
  "save_first [] c = ret ()"
| "save_first (key # rest) c =
     and_then (target_ready key 0 c) (\<lambda>r.
       if r then and_then (target_read key 0 c) (\<lambda>t. target_write ''TARGET'' t c) else save_first rest c)"

definition save_flush :: "Cycle \<Rightarrow> (('w, 'i, 'mem, 'k) perf_sim, unit) stage" where
  "save_flush = save_first [''BRANCH_2_FETCH_TARGET'', ''DECODE_2_FETCH_TARGET'', ''TARGET'', ''WRITEBACK_2_FETCH_TARGET'']"

definition get_cached_target :: "Cycle \<Rightarrow> (('w, 'i, 'mem, 'k) perf_sim, target) stage" where
  "get_cached_target c =
     and_then (bool_ready ''HIT_OR_MISS'' 0 c) (\<lambda>miss.
       if miss
       then and_then (save_flush c) (\<lambda>_. and_then (clock_instr_cache c) (\<lambda>_. ret no_target))
       else and_then (get_target c) (\<lambda>t.
              if \<not> valid t then ret no_target
              else and_then (tags_lookup (address t)) (\<lambda>is_hit.
                     if is_hit then ret t
                     else and_then (bool_write ''HIT_OR_MISS'' is_hit c) (\<lambda>_.
                          and_then (target_write ''LONG_LATENCY_PC_HOLDER'' t c) (\<lambda>_. ret no_target)))))"

section \<open>The cycle\<close>

definition prefetch_next_line :: "Addr \<Rightarrow> (('w, 'i, 'mem, 'k) perf_sim, unit) stage" where
  "prefetch_next_line requested_addr =
     and_then (gets (\<lambda>s. (icache_line_size (fetch s), fetchahead_size (fetch s)))) (\<lambda>(line, ahead).
       let line_bits = count_trailing_zeroes 32 line;
           offset = requested_addr AND bitmask line_bits;
           next_line_addr = requested_addr + ucast line
       in if ucast (line - ahead) \<le> offset
          then and_then (tags_lookup next_line_addr) (\<lambda>hit. whenever (\<not> hit) (tags_write next_line_addr))
          else ret ())"

definition fetch_clock ::
  "('r, ('a::len, 'r, 'm) base_instruction_scheme) isa \<Rightarrow> 'mem memory_ops \<Rightarrow> (nat \<Rightarrow> byte) \<Rightarrow> Cycle
   \<Rightarrow> (('a word, ('a, 'r, 'm) base_instruction_scheme, 'mem, 'k) perf_sim, unit) stage" where
  "fetch_clock I M junk c =
     and_then (clock_bp c) (\<lambda>_.
     and_then (get_cached_target c) (\<lambda>t.
       if \<not> valid t then ret ()
       else
         and_then (target_write ''HOLD_PC'' t c) (\<lambda>_.
         and_then (bp_info (address t)) (\<lambda>info.
         and_then (fetch_instr I M junk (address t)) (\<lambda>i.
           let instr = \<lparr>func = i\<lparr>sequence_id := target_sequence_id t\<rparr>, bp_data = info\<rparr>
           in and_then (target_write ''TARGET'' (get_predicted_target instr) c) (\<lambda>_.
              and_then (instr_write ''FETCH_2_DECODE'' instr c) (\<lambda>_.
              and_then (gets (\<lambda>s. prefetch_method (fetch s) \<noteq> ''no-prefetch'' \<and> \<not> is_wrong_path (fetch s))) (\<lambda>b.
                whenever b (prefetch_next_line (address t))))))))))"

section \<open>Fetch leaves the back end alone\<close>

lemma keeps_fetch_parts:
  "moves keeps_back_end (tags_lookup a)" "moves keeps_back_end (tags_write a)" "moves keeps_back_end (bp_update upd)"
  "moves keeps_back_end (bp_info a)" "moves keeps_back_end (fetch_instr I M junk a)" "moves keeps_back_end (set_wrong_path b)"
  "moves keeps_back_end (has_prefetch m)"
  by (auto simp: moves_def keeps_back_end_def back_end_def tags_lookup_def tags_write_def bp_update_def bp_info_def
    fetch_instr_def set_wrong_path_def has_prefetch_def modify_def gets_def Let_def split: sum.splits option.splits prod.splits)

lemma keeps_read_target: "moves keeps_back_end (read_target key c)"
  unfolding read_target_def port_access_defs by (intro keeps_intros)

lemma keeps_save_first: "moves keeps_back_end (save_first ks c)"
proof (induction ks)
  case Nil
  show ?case unfolding save_first.simps by (intro keeps_intros)
next
  case (Cons key ks)
  show ?case unfolding save_first.simps port_access_defs by (intro keeps_intros Cons.IH)
qed

lemmas keeps_fetch_intros = keeps_intros keeps_signals keeps_fetch_parts keeps_read_target keeps_save_first

lemma keeps_get_target: "moves keeps_back_end (get_target c)"
  unfolding get_target_def prefetch_wrong_path_def by (intro keeps_fetch_intros)

lemma keeps_get_cached_target: "moves keeps_back_end (get_cached_target c)"
  unfolding get_cached_target_def save_flush_def clock_instr_cache_def port_access_defs
  by (intro keeps_fetch_intros keeps_get_target)

lemma keeps_fetch_clock: "moves keeps_back_end (fetch_clock I M junk c)"
  unfolding fetch_clock_def clock_bp_def prefetch_next_line_def port_access_defs
  by (intro keeps_fetch_intros keeps_get_cached_target)

end
