(* ===== verification/Execution_Stages.thy ===== *)
theory Execution_Stages
  imports Pipeline
begin

text \<open>
  The stages between fetch and writeback: modules/decode/decode.cpp, modules/execute/execute.cpp,
  modules/mem/mem.cpp and modules/branch/branch.cpp. Decode stalls on hazards, reads the registers or tells
  execute which port to take them from, and finds mispredictions of targets it knows; execute computes and
  passes on by kind; branch finds the other mispredictions and flushes.
\<close>

section \<open>Decode\<close>

definition decode_ports :: "(port_type \<times> port_decl) list" where
  "decode_ports =
     [(InstrPort, RP ''FETCH_2_DECODE'' PORT_LATENCY), (InstrPort, RP ''DECODE_2_DECODE'' PORT_LATENCY),
      (BoolPort, RP ''BRANCH_2_ALL_FLUSH'' PORT_LATENCY), (InstrPort, RP ''DECODE_2_BYPASSING_UNIT_NOTIFY'' PORT_LATENCY),
      (BoolPort, RP ''BRANCH_2_BYPASSING_UNIT_FLUSH_NOTIFY'' PORT_LATENCY), (BoolPort, RP ''DECODE_2_FETCH_FLUSH'' PORT_LATENCY),
      (BoolPort, RP ''WRITEBACK_2_ALL_FLUSH'' PORT_LATENCY), (InstrPort, WP ''DECODE_2_EXECUTE''),
      (InstrPort, WP ''DECODE_2_DECODE''), (BoolPort, WP ''DECODE_2_FETCH_STALL''),
      (CommandPort, WP ''DECODE_2_EXECUTE_SRC1_COMMAND''), (CommandPort, WP ''DECODE_2_EXECUTE_SRC2_COMMAND''),
      (InstrPort, WP ''DECODE_2_BYPASSING_UNIT_NOTIFY''), (BoolPort, WP ''DECODE_2_FETCH_FLUSH''),
      (TargetPort, WP ''DECODE_2_FETCH_TARGET''), (BpPort, WP ''DECODE_2_FETCH'')]"

definition new_decode :: "'r register_class \<Rightarrow> uint64 \<Rightarrow> decode_unit" where
  "new_decode C lat = \<lparr>bypassing_unit = new_data_bypass C (sint lat), decode_num_jumps = 0, decode_num_mispredictions = 0\<rparr>"

definition read_instr :: "Cycle \<Rightarrow> (('w, 'i, 'mem, 'k) perf_sim, 'i perf_instr \<times> bool) stage" where
  "read_instr c =
     and_then (instr_ready ''DECODE_2_DECODE'' 0 c) (\<lambda>r.
       if r then and_then (instr_read ''DECODE_2_DECODE'' 0 c) (\<lambda>i. ret (i, True))
       else and_then (instr_read ''FETCH_2_DECODE'' 0 c) (\<lambda>i. ret (i, False)))"

definition decode_misprediction :: "'m operation_scheme \<Rightarrow> bp_interface \<Rightarrow> bool" where
  "decode_misprediction i b \<longleftrightarrow>
     (if (is_direct_jump i \<or> is_indirect_jump i) \<and> \<not> bp_is_taken b then True
      else if is_likely_branch i \<and> \<not> bp_is_hit b then True
      else (is_direct_jump i \<or> is_branch i) \<and> bp_target b \<noteq> Operation.target i \<and> bp_is_taken b)"

definition decode_is_flush :: "Cycle \<Rightarrow> (('w, 'i, 'mem, 'k) perf_sim, bool) stage" where
  "decode_is_flush c =
     either_signal (bool_signal ''BRANCH_2_ALL_FLUSH'' 0 c) (bool_signal ''DECODE_2_FETCH_FLUSH'' 0 c)"

definition modify_decode :: "(decode_unit \<Rightarrow> decode_unit) \<Rightarrow> (('w, 'i, 'mem, 'k) perf_sim, unit) stage" where
  "modify_decode f = modify (\<lambda>s. s\<lparr>decode := f (decode s)\<rparr>)"

text \<open>What the scoreboard answers and how it changes.\<close>

definition ask_bypass :: "(data_bypass \<Rightarrow> 'x option) \<Rightarrow> (('w, 'i, 'mem, 'k) perf_sim, 'x) stage" where
  "ask_bypass f s = bind_sim (or_error BypassOutOfRange (f (bypassing_unit (decode s)))) (\<lambda>x. Inr (x, s))"

definition modify_bypass :: "(data_bypass \<Rightarrow> data_bypass option) \<Rightarrow> (('w, 'i, 'mem, 'k) perf_sim, unit) stage" where
  "modify_bypass f =
     and_then (ask_bypass f) (\<lambda>b. modify_decode (\<lambda>d. d\<lparr>bypassing_unit := b\<rparr>))"

definition decode_source ::
  "('r, ('a::len, 'r, 'm) base_instruction_scheme) isa \<Rightarrow> string list \<Rightarrow> Cycle \<Rightarrow> nat
   \<Rightarrow> ('a, 'r, 'm) base_instruction_scheme perf_instr
   \<Rightarrow> (('a word, ('a, 'r, 'm) base_instruction_scheme, 'mem, 'k) perf_sim, ('a, 'r, 'm) base_instruction_scheme perf_instr) stage" where
  "decode_source I commands c k instr =
     and_then (ask_bypass (\<lambda>b. is_in_RF (reg_class I) b instr k)) (\<lambda>in_rf.
       if in_rf
       then and_then (gets perf_rf) (\<lambda>regs.
            and_then (lift (or_error RegisterOutOfRange (read_source (reg_class I) regs k (func instr)))) (\<lambda>i.
              ret (instr\<lparr>func := i\<rparr>)))
       else and_then (ask_bypass (\<lambda>b. src_bypassible (reg_class I) b instr k)) (\<lambda>bypassible.
              if bypassible
              then and_then (ask_bypass (\<lambda>b. get_bypass_command (reg_class I) b instr k)) (\<lambda>command.
                   and_then (command_write (commands ! k) command c) (\<lambda>_. ret instr))
              else ret instr))"

definition decode_instr where
  "decode_instr I c instr from_stall =
     and_then (whenever (is_jump (func instr)) (modify_decode (\<lambda>d. d\<lparr>decode_num_jumps := decode_num_jumps d + 1\<rparr>))) (\<lambda>_.
     and_then (whenever (decode_misprediction (func instr) (bp_data instr))
       (and_then (modify_decode (\<lambda>d. d\<lparr>decode_num_mispredictions := decode_num_mispredictions d + 1\<rparr>)) (\<lambda>_.
        and_then (bp_write ''DECODE_2_FETCH'' (get_bp_upd instr) c) (\<lambda>_.
        and_then (ask_bypass (\<lambda>b. is_stall (reg_class I) b instr)) (\<lambda>stall.
        and_then (whenever (\<not> stall) (bool_write ''DECODE_2_FETCH_FLUSH'' True c)) (\<lambda>_.
          whenever (\<not> from_stall) (target_write ''DECODE_2_FETCH_TARGET'' (get_actual_decoded_target instr) c)))))))
     (\<lambda>_.
     and_then (ask_bypass (\<lambda>b. is_stall (reg_class I) b instr)) (\<lambda>stall.
       if stall
       then and_then (bool_write ''DECODE_2_FETCH_STALL'' True c) (\<lambda>_. instr_write ''DECODE_2_DECODE'' instr c)
       else
         (let commands = [''DECODE_2_EXECUTE_SRC1_COMMAND'', ''DECODE_2_EXECUTE_SRC2_COMMAND'']
          in and_then (decode_source I commands c 0 instr) (\<lambda>instr.
             and_then (decode_source I commands c 1 instr) (\<lambda>instr.
             and_then (instr_write ''DECODE_2_BYPASSING_UNIT_NOTIFY'' instr c) (\<lambda>_.
               instr_write ''DECODE_2_EXECUTE'' instr c)))))))"

definition decode_clock ::
  "('r, ('a::len, 'r, 'm) base_instruction_scheme) isa \<Rightarrow> Cycle
   \<Rightarrow> (('a word, ('a, 'r, 'm) base_instruction_scheme, 'mem, 'k) perf_sim, unit) stage" where
  "decode_clock I c =
     and_then (bool_signal ''WRITEBACK_2_ALL_FLUSH'' 0 c) (\<lambda>has_trap.
     and_then (decode_is_flush c) (\<lambda>has_flush.
     and_then (modify_bypass (\<lambda>b. Some (bypass_update b))) (\<lambda>_.
     and_then (instr_ready ''DECODE_2_BYPASSING_UNIT_NOTIFY'' 0 c) (\<lambda>r.
     and_then (whenever r
       (and_then (instr_read ''DECODE_2_BYPASSING_UNIT_NOTIFY'' 0 c) (\<lambda>i. modify_bypass (trace_new_instr (reg_class I) i)))) (\<lambda>_.
     and_then (bool_ready ''BRANCH_2_BYPASSING_UNIT_FLUSH_NOTIFY'' 0 c) (\<lambda>flushed.
     and_then (whenever (flushed \<or> has_trap) (modify_bypass (\<lambda>b. Some (handle_flush b)))) (\<lambda>_.
       if has_flush \<or> has_trap then ret ()
       else
         and_then (instr_ready ''FETCH_2_DECODE'' 0 c) (\<lambda>r.
         and_then (if r then ret True else instr_ready ''DECODE_2_DECODE'' 0 c) (\<lambda>r.
           if \<not> r then ret ()
           else and_then (read_instr c) (\<lambda>(instr, from_stall). decode_instr I c instr from_stall))))))))))"

section \<open>Execute\<close>

definition execute_ports :: "Latency \<Rightarrow> (port_type \<times> port_decl) list" where
  "execute_ports last_latency =
     [(InstrPort, WP ''EXECUTE_2_MEMORY''), (InstrPort, WP ''EXECUTE_2_BRANCH''),
      (InstrPort, WP ''EXECUTE_2_WRITEBACK''), (InstrPort, RP ''DECODE_2_EXECUTE'' PORT_LATENCY),
      (BoolPort, RP ''WRITEBACK_2_ALL_FLUSH'' PORT_LATENCY), (InstrPort, WP ''EXECUTE_2_EXECUTE_LONG_LATENCY''),
      (InstrPort, RP ''EXECUTE_2_EXECUTE_LONG_LATENCY'' last_latency), (BoolPort, RP ''BRANCH_2_ALL_FLUSH'' PORT_LATENCY),
      (CommandPort, RP ''DECODE_2_EXECUTE_SRC1_COMMAND'' PORT_LATENCY), (CommandPort, RP ''DECODE_2_EXECUTE_SRC2_COMMAND'' PORT_LATENCY),
      (OutputPort, WP ''EXECUTE_2_EXECUTE_BYPASS''), (OutputPort, WP ''EXECUTE_COMPLEX_ALU_2_EXECUTE_BYPASS''),
      (OutputPort, RP ''EXECUTE_2_EXECUTE_BYPASS'' PORT_LATENCY), (OutputPort, RP ''EXECUTE_2_EXECUTE_BYPASS'' PORT_LATENCY),
      (OutputPort, RP ''EXECUTE_COMPLEX_ALU_2_EXECUTE_BYPASS'' PORT_LATENCY), (OutputPort, RP ''EXECUTE_COMPLEX_ALU_2_EXECUTE_BYPASS'' PORT_LATENCY),
      (OutputPort, RP ''MEMORY_2_EXECUTE_BYPASS'' PORT_LATENCY), (OutputPort, RP ''MEMORY_2_EXECUTE_BYPASS'' PORT_LATENCY),
      (OutputPort, RP ''WRITEBACK_2_EXECUTE_BYPASS'' PORT_LATENCY), (OutputPort, RP ''WRITEBACK_2_EXECUTE_BYPASS'' PORT_LATENCY),
      (OutputPort, RP ''BRANCH_2_EXECUTE_BYPASS'' PORT_LATENCY), (OutputPort, RP ''BRANCH_2_EXECUTE_BYPASS'' PORT_LATENCY)]"

definition new_execute :: "uint64 \<Rightarrow> execute_unit" where
  "new_execute lat = \<lparr>last_execution_stage_latency = sint lat - 1, flush_expiration_latency = 0\<rparr>"

definition modify_execute :: "(execute_unit \<Rightarrow> execute_unit) \<Rightarrow> (('w, 'i, 'mem, 'k) perf_sim, unit) stage" where
  "modify_execute f = modify (\<lambda>s. s\<lparr>execution := f (execution s)\<rparr>)"

definition bypass_save_flush :: "execute_unit \<Rightarrow> execute_unit" where
  "bypass_save_flush e = e\<lparr>flush_expiration_latency := last_execution_stage_latency e\<rparr>"

definition clock_saved_flush :: "execute_unit \<Rightarrow> execute_unit" where
  "clock_saved_flush e =
     (if flush_expiration_latency e \<noteq> 0 then e\<lparr>flush_expiration_latency := flush_expiration_latency e - 1\<rparr> else e)"

definition has_flush_expired :: "execute_unit \<Rightarrow> bool" where
  "has_flush_expired e \<longleftrightarrow> flush_expiration_latency e = 0"

definition data_ports :: "string list" where
  "data_ports = [''EXECUTE_2_EXECUTE_BYPASS'', ''EXECUTE_COMPLEX_ALU_2_EXECUTE_BYPASS'', ''MEMORY_2_EXECUTE_BYPASS'',
     ''WRITEBACK_2_EXECUTE_BYPASS'', ''BRANCH_2_EXECUTE_BYPASS'']"

text \<open>A source that is bypassed is the first destination of the last data on its port, or 0 if there is none.\<close>

definition bypass_source ::
  "string \<Rightarrow> Cycle \<Rightarrow> nat \<Rightarrow> ('a::len, 'r, 'm) base_instruction_scheme perf_instr
   \<Rightarrow> (('a word, ('a, 'r, 'm) base_instruction_scheme, 'mem, 'k) perf_sim, ('a, 'r, 'm) base_instruction_scheme perf_instr) stage" where
  "bypass_source command_port c k instr =
     and_then (command_ready command_port 0 c) (\<lambda>r.
       if r
       then and_then (command_read command_port 0 c) (\<lambda>command.
            let d = get_bypass_direction command
            in if d < length data_ports
               then and_then (output_drain (data_ports ! d) k c [0, 0]) (\<lambda>out.
                    and_then (lift (or_error BypassOutOfRange (set_v_src (out ! 0) k (func instr)))) (\<lambda>i.
                      ret (instr\<lparr>func := i\<rparr>)))
               else fail BypassOutOfRange)
       else ret instr)"

definition stage_is_flush :: "nat \<Rightarrow> nat \<Rightarrow> Cycle \<Rightarrow> (('w, 'i, 'mem, 'k) perf_sim, bool) stage" where
  "stage_is_flush flush_reader trap_reader c =
     either_signal (bool_signal ''BRANCH_2_ALL_FLUSH'' flush_reader c) (bool_signal ''WRITEBACK_2_ALL_FLUSH'' trap_reader c)"

definition long_unit ::
  "Cycle \<Rightarrow> (('a::len word, ('a, 'r, 'm) base_instruction_scheme, 'mem, 'k) perf_sim, unit) stage" where
  "long_unit c =
     and_then (instr_ready ''EXECUTE_2_EXECUTE_LONG_LATENCY'' 0 c) (\<lambda>r.
       whenever r
         (and_then (instr_read ''EXECUTE_2_EXECUTE_LONG_LATENCY'' 0 c) (\<lambda>instr.
          and_then (gets (\<lambda>s. has_flush_expired (execution s))) (\<lambda>expired.
            whenever expired
              (and_then (output_write ''EXECUTE_COMPLEX_ALU_2_EXECUTE_BYPASS'' (v_dst (func instr)) c) (\<lambda>_.
                instr_write ''EXECUTE_2_WRITEBACK'' instr c))))))"

definition execute_clock ::
  "Cycle \<Rightarrow> (('a::len word, ('a, 'r, 'm) base_instruction_scheme, 'mem, 'k) perf_sim, unit) stage" where
  "execute_clock c =
     and_then (stage_is_flush 1 1 c) (\<lambda>is_flush.
     and_then (modify_execute clock_saved_flush) (\<lambda>_.
       if is_flush then modify_execute bypass_save_flush
       else
         and_then (long_unit c) (\<lambda>_.
         and_then (instr_ready ''DECODE_2_EXECUTE'' 0 c) (\<lambda>r.
           if \<not> r then ret ()
           else
             and_then (instr_read ''DECODE_2_EXECUTE'' 0 c) (\<lambda>instr.
             and_then (bypass_source ''DECODE_2_EXECUTE_SRC1_COMMAND'' c 0 instr) (\<lambda>instr.
             and_then (bypass_source ''DECODE_2_EXECUTE_SRC2_COMMAND'' c 1 instr) (\<lambda>instr.
               let instr = instr\<lparr>func := execute (func instr)\<rparr>
               in if is_long_arithmetic instr then instr_write ''EXECUTE_2_EXECUTE_LONG_LATENCY'' instr c
                  else and_then (output_write ''EXECUTE_2_EXECUTE_BYPASS'' (v_dst (func instr)) c) (\<lambda>_.
                         if is_jump (func instr) then instr_write ''EXECUTE_2_BRANCH'' instr c
                         else if is_mem_stage_required instr then instr_write ''EXECUTE_2_MEMORY'' instr c
                         else instr_write ''EXECUTE_2_WRITEBACK'' instr c))))))))"

section \<open>Memory\<close>

definition mem_ports :: "(port_type \<times> port_decl) list" where
  "mem_ports =
     [(InstrPort, WP ''MEMORY_2_WRITEBACK''), (InstrPort, RP ''EXECUTE_2_MEMORY'' PORT_LATENCY),
      (BoolPort, RP ''WRITEBACK_2_ALL_FLUSH'' PORT_LATENCY), (BoolPort, RP ''BRANCH_2_ALL_FLUSH'' PORT_LATENCY),
      (OutputPort, WP ''MEMORY_2_EXECUTE_BYPASS'')]"

definition mem_clock ::
  "('r, ('a::len, 'r, 'm) base_instruction_scheme) isa \<Rightarrow> 'mem memory_ops \<Rightarrow> (nat \<Rightarrow> byte) \<Rightarrow> Cycle
   \<Rightarrow> (('a word, ('a, 'r, 'm) base_instruction_scheme, 'mem, 'k) perf_sim, unit) stage" where
  "mem_clock I M junk c =
     and_then (stage_is_flush 2 2 c) (\<lambda>is_flush.
       if is_flush then ret ()
       else
         and_then (instr_ready ''EXECUTE_2_MEMORY'' 0 c) (\<lambda>r.
           if \<not> r then ret ()
           else
             and_then (instr_read ''EXECUTE_2_MEMORY'' 0 c) (\<lambda>instr.
             and_then (gets perf_mem) (\<lambda>m.
             and_then (lift (map_sum MemoryError id (load_store M junk (instr_get_endian I (func instr)) (func instr) m))) (\<lambda>(i, m).
             and_then (modify (\<lambda>s. s\<lparr>perf_mem := m\<rparr>)) (\<lambda>_.
             and_then (output_write ''MEMORY_2_EXECUTE_BYPASS'' (v_dst i) c) (\<lambda>_.
               instr_write ''MEMORY_2_WRITEBACK'' (instr\<lparr>func := i\<rparr>) c)))))))"

section \<open>Branch\<close>

definition branch_ports :: "(port_type \<times> port_decl) list" where
  "branch_ports =
     [(BoolPort, WP ''BRANCH_2_ALL_FLUSH''), (BoolPort, RP ''BRANCH_2_ALL_FLUSH'' PORT_LATENCY),
      (BoolPort, RP ''WRITEBACK_2_ALL_FLUSH'' PORT_LATENCY), (TargetPort, WP ''BRANCH_2_FETCH_TARGET''),
      (BpPort, WP ''BRANCH_2_FETCH''), (InstrPort, RP ''EXECUTE_2_BRANCH'' PORT_LATENCY),
      (InstrPort, WP ''BRANCH_2_WRITEBACK''), (OutputPort, WP ''BRANCH_2_EXECUTE_BYPASS''),
      (BoolPort, WP ''BRANCH_2_BYPASSING_UNIT_FLUSH_NOTIFY'')]"

definition new_branch :: branch_unit where
  "new_branch = \<lparr>branch_num_jumps = 0, branch_num_mispredictions = 0\<rparr>"

definition modify_branch :: "(branch_unit \<Rightarrow> branch_unit) \<Rightarrow> (('w, 'i, 'mem, 'k) perf_sim, unit) stage" where
  "modify_branch f = modify (\<lambda>s. s\<lparr>branch := f (branch s)\<rparr>)"

definition is_misprediction :: "'m operation_scheme \<Rightarrow> bp_interface \<Rightarrow> bool" where
  "is_misprediction i b \<longleftrightarrow>
     (if \<not> bp_is_hit b \<and> (is_common_branch i \<and> Operation.is_taken i \<or> is_likely_branch i \<and> \<not> Operation.is_taken i
          \<or> is_indirect_jump i) then True
      else if bp_is_hit b \<and> bp_is_taken b \<noteq> Operation.is_taken i then True
      else (bp_is_taken b \<or> is_indirect_jump i) \<and> bp_target b \<noteq> new_PC i)"

definition branch_clock ::
  "Cycle \<Rightarrow> (('a::len word, ('a, 'r, 'm) base_instruction_scheme, 'mem, 'k) perf_sim, unit) stage" where
  "branch_clock c =
     and_then (instr_ready ''EXECUTE_2_BRANCH'' 0 c) (\<lambda>r.
       if \<not> r then ret ()
       else
         and_then (stage_is_flush 3 3 c) (\<lambda>is_flush.
           if is_flush then ret ()
           else
             and_then (instr_read ''EXECUTE_2_BRANCH'' 0 c) (\<lambda>instr.
             and_then (bp_write ''BRANCH_2_FETCH'' (get_bp_upd instr) c) (\<lambda>_.
             and_then (whenever (is_jump (func instr)) (modify_branch (\<lambda>b. b\<lparr>branch_num_jumps := branch_num_jumps b + 1\<rparr>))) (\<lambda>_.
             and_then (whenever (is_misprediction (func instr) (bp_data instr))
               (and_then (modify_branch (\<lambda>b. b\<lparr>branch_num_mispredictions := branch_num_mispredictions b + 1\<rparr>)) (\<lambda>_.
                and_then (bool_write ''BRANCH_2_ALL_FLUSH'' True c) (\<lambda>_.
                and_then (bool_write ''BRANCH_2_BYPASSING_UNIT_FLUSH_NOTIFY'' True c) (\<lambda>_.
                  target_write ''BRANCH_2_FETCH_TARGET'' (get_actual_target instr) c))))) (\<lambda>_.
             and_then (output_write ''BRANCH_2_EXECUTE_BYPASS'' (v_dst (func instr)) c) (\<lambda>_.
               instr_write ''BRANCH_2_WRITEBACK'' instr c)))))))"

section \<open>These stages leave the back end alone\<close>

lemma keeps_stage_parts:
  "moves keeps_back_end (modify_decode f)" "moves keeps_back_end (modify_execute g)" "moves keeps_back_end (modify_branch h)"
  "moves keeps_back_end (ask_bypass q)" "moves keeps_back_end (modify (\<lambda>s. s\<lparr>perf_mem := m\<rparr>))"
  by (auto simp: moves_def keeps_back_end_def back_end_def modify_decode_def modify_execute_def modify_branch_def ask_bypass_def
    modify_def bind_Inr)

lemma keeps_modify_bypass: "moves keeps_back_end (modify_bypass f)"
  unfolding modify_bypass_def by (intro keeps_intros keeps_stage_parts)

lemmas keeps_stage_intros = keeps_intros keeps_signals keeps_stage_parts keeps_modify_bypass

lemma keeps_decode_instr: "moves keeps_back_end (decode_instr I c instr from_stall)"
  unfolding decode_instr_def decode_source_def port_access_defs by (intro keeps_stage_intros)

lemma keeps_decode_clock: "moves keeps_back_end (decode_clock I c)"
  unfolding decode_clock_def decode_is_flush_def read_instr_def port_access_defs
  by (intro keeps_stage_intros keeps_decode_instr)

lemma keeps_execute_clock: "moves keeps_back_end (execute_clock c)"
  unfolding execute_clock_def stage_is_flush_def long_unit_def bypass_source_def port_access_defs
  by (intro keeps_stage_intros)

lemma keeps_mem_clock: "moves keeps_back_end (mem_clock I M junk c)"
  unfolding mem_clock_def stage_is_flush_def port_access_defs
  by (intro keeps_stage_intros)

lemma keeps_branch_clock: "moves keeps_back_end (branch_clock c)"
  unfolding branch_clock_def stage_is_flush_def port_access_defs
  by (intro keeps_stage_intros)

end
