(* ===== verification/Writeback_Stage.thy ===== *)
theory Writeback_Stage
  imports Pipeline
begin

text \<open>
  The writeback stage, modules/writeback/writeback.cpp, and its checker, modules/writeback/checker/checker.cpp,
  a functional simulator that repeats every instruction and must come to the same results. Here instructions
  change the registers, system calls go to the kernel and exceptions to the driver, which reaches the simulator
  through its \<open>cpu_model\<close>. The kernel acts on its own state and on what the replicating
  interfaces give it: the registers and the memory of the simulator, and the checker.
\<close>

section \<open>The checker\<close>

definition modify_writeback ::
  "(('w, 'i, 'mem) writeback_unit \<Rightarrow> ('w, 'i, 'mem) writeback_unit) \<Rightarrow> (('w, 'i, 'mem, 'k) perf_sim, unit) stage" where
  "modify_writeback f = modify (\<lambda>s. s\<lparr>writeback := f (writeback s)\<rparr>)"

definition set_checker_sim :: "('w, 'i, 'mem) func_sim \<Rightarrow> (('w, 'i, 'mem, 'k) perf_sim, unit) stage" where
  "set_checker_sim sim = modify_writeback (\<lambda>w. w\<lparr>wb_checker := (wb_checker w)\<lparr>checker_sim := sim\<rparr>\<rparr>)"

definition get_checker :: "(('w, 'i, 'mem, 'k) perf_sim, ('w, 'i, 'mem) checker) stage" where
  "get_checker = gets (\<lambda>s. wb_checker (writeback s))"

definition set_checker_target :: "target \<Rightarrow> (('w, 'i, 'mem, 'k) perf_sim, unit) stage" where
  "set_checker_target t =
     and_then get_checker (\<lambda>ch. whenever (active ch) (set_checker_sim (set_target t (checker_sim ch))))"

definition checker_driver_step ::
  "riscv_causes \<Rightarrow> ('r, 'i) isa \<Rightarrow> trap \<Rightarrow> Addr \<Rightarrow> (('a::len word, 'i, 'mem, 'k) perf_sim, unit) stage" where
  "checker_driver_step causes I t a =
     and_then get_checker (\<lambda>ch.
       whenever (active ch)
         (and_then (lift (handle_trap causes (func_cpu I) (checker_driver ch) t a (checker_sim ch))) (\<lambda>(result, sim).
           set_checker_sim sim)))"

definition check ::
  "('r, ('a::len, 'r, 'm) base_instruction_scheme) isa \<Rightarrow> 'mem memory_ops \<Rightarrow> (nat \<Rightarrow> byte) \<Rightarrow> ('a, 'r, 'm) base_instruction_scheme
   \<Rightarrow> (('a word, ('a, 'r, 'm) base_instruction_scheme, 'mem, 'k) perf_sim, unit) stage" where
  "check I M junk i =
     and_then get_checker (\<lambda>ch.
       whenever (active ch)
         (and_then (lift (step I M junk (checker_sim ch))) (\<lambda>(func_dump, sim).
          and_then (set_checker_sim sim) (\<lambda>_.
            if instr_same_checker I func_dump i then ret () else fail CheckerMismatch))))"

section \<open>Targets and the interface to the driver\<close>

definition set_writeback_target :: "target \<Rightarrow> Cycle \<Rightarrow> (('w, 'i, 'mem, 'k) perf_sim, unit) stage" where
  "set_writeback_target t c =
     and_then (modify_writeback (\<lambda>w. w\<lparr>next_PC := address t\<rparr>)) (\<lambda>_.
     and_then (bool_write ''WRITEBACK_2_ALL_FLUSH'' True c) (\<lambda>_.
       target_write ''WRITEBACK_2_FETCH_TARGET'' t c))"

definition writeback_set_target :: "target \<Rightarrow> Cycle \<Rightarrow> (('w, 'i, 'mem, 'k) perf_sim, unit) stage" where
  "writeback_set_target t c = and_then (set_checker_target t) (\<lambda>_. set_writeback_target t c)"

definition perf_set_target :: "target \<Rightarrow> (('w, 'i, 'mem, 'k) perf_sim, unit) stage" where
  "perf_set_target t s = writeback_set_target t (curr_cycle s) s"

definition perf_get_pc :: "('w, 'i, 'mem, 'k) perf_sim \<Rightarrow> Addr" where
  "perf_get_pc s = next_PC (writeback s)"

definition perf_read_register :: "('r, 'i) isa \<Rightarrow> 'r \<Rightarrow> ('a::len word, 'i, 'mem, 'k) perf_sim \<Rightarrow> sim_error + uint64" where
  "perf_read_register I r s = or_error RegisterOutOfRange (map_option ucast (rf_read (reg_class I) (perf_rf s) r))"

definition perf_write_register ::
  "('r, 'i) isa \<Rightarrow> 'r \<Rightarrow> uint64 \<Rightarrow> ('a::len word, 'i, 'mem, 'k) perf_sim \<Rightarrow> sim_error + ('a word, 'i, 'mem, 'k) perf_sim" where
  "perf_write_register I r v s =
     or_error RegisterOutOfRange (map_option (\<lambda>x. s\<lparr>perf_rf := x\<rparr>) (rf_write (reg_class I) r (ucast v) (perf_rf s)))"

definition perf_cpu :: "('r, 'i) isa \<Rightarrow> ('a::len word, 'i, 'mem, 'k) perf_sim cpu_model" where
  "perf_cpu I =
     \<lparr>set_target_of = \<lambda>t s. map_sum id snd (perf_set_target t s), get_pc_of = perf_get_pc,
      max_cpu_register = max_reg (reg_class I),
      read_cpu = \<lambda>n. perf_read_register I (reg_from_cpu_index I n),
      read_gdb = \<lambda>n s. if n = gdb_pc_index I then Inr (perf_get_pc s) else perf_read_register I (reg_from_gdb_index I n) s,
      read_csr = \<lambda>name. perf_read_register I (reg_from_csr_name I name),
      write_cpu = \<lambda>n. perf_write_register I (reg_from_cpu_index I n),
      write_gdb = \<lambda>n v s. if n = gdb_pc_index I then map_sum id snd (perf_set_target (new_target v 0) s)
        else perf_write_register I (reg_from_gdb_index I n) v s,
      write_csr = \<lambda>name. perf_write_register I (reg_from_csr_name I name)\<rparr>"

section \<open>The cycle\<close>

definition writeback_ports :: "(port_type \<times> port_decl) list" where
  "writeback_ports =
     [(InstrPort, RP ''MEMORY_2_WRITEBACK'' PORT_LATENCY), (InstrPort, RP ''EXECUTE_2_WRITEBACK'' PORT_LATENCY),
      (InstrPort, RP ''BRANCH_2_WRITEBACK'' PORT_LATENCY), (BoolPort, RP ''WRITEBACK_2_ALL_FLUSH'' PORT_LATENCY),
      (OutputPort, WP ''WRITEBACK_2_EXECUTE_BYPASS''), (TrapPort, WP ''WRITEBACK_2_CORE_HALT''),
      (BoolPort, WP ''WRITEBACK_2_ALL_FLUSH''), (TargetPort, WP ''WRITEBACK_2_FETCH_TARGET'')]"

definition writeback_bubble :: "Cycle \<Rightarrow> (('w, 'i, 'mem, 'k) perf_sim, unit) stage" where
  "writeback_bubble c =
     and_then (gets (\<lambda>s. last_writeback_cycle (writeback s))) (\<lambda>l. if add_latency l 100 \<le> c then fail Deadlock else ret ())"

definition read_ready :: "string \<Rightarrow> Cycle \<Rightarrow> (('w, 'i, 'mem, 'k) perf_sim, 'i perf_instr list) stage" where
  "read_ready key c =
     and_then (instr_ready key 0 c) (\<lambda>r.
       if r then and_then (instr_read key 0 c) (\<lambda>i. ret [i]) else ret [])"

definition read_instructions :: "Cycle \<Rightarrow> (('w, 'i, 'mem, 'k) perf_sim, 'i perf_instr list) stage" where
  "read_instructions c =
     and_then (read_ready ''BRANCH_2_WRITEBACK'' c) (\<lambda>xs.
     and_then (read_ready ''MEMORY_2_WRITEBACK'' c) (\<lambda>ys.
     and_then (read_ready ''EXECUTE_2_WRITEBACK'' c) (\<lambda>zs. ret (xs @ ys @ zs))))"

definition writeback_instruction ::
  "('r, ('a::len, 'r, 'm) base_instruction_scheme) isa \<Rightarrow> 'mem memory_ops \<Rightarrow> (nat \<Rightarrow> byte) \<Rightarrow> Cycle
   \<Rightarrow> ('a, 'r, 'm) base_instruction_scheme perf_instr
   \<Rightarrow> (('a word, ('a, 'r, 'm) base_instruction_scheme, 'mem, 'k) perf_sim, unit) stage" where
  "writeback_instruction I M junk c instr =
     and_then (gets perf_rf) (\<lambda>regs.
     and_then (lift (or_error RegisterOutOfRange (write_dst (reg_class I) (func instr) regs))) (\<lambda>regs.
     and_then (modify (\<lambda>s. s\<lparr>perf_rf := regs\<rparr>)) (\<lambda>_.
     and_then (output_write ''WRITEBACK_2_EXECUTE_BYPASS'' (v_dst (func instr)) c) (\<lambda>_.
     and_then (check I M junk (func instr)) (\<lambda>_.
       modify_writeback (\<lambda>w. w\<lparr>executed_instrs := executed_instrs w + 1, last_writeback_cycle := c,
         next_PC := address (get_actual_target instr)\<rparr>))))))"

type_synonym ('w, 'i, 'mem, 'k) kernel_view = "'k \<times> 'w list \<times> 'mem \<times> ('w, 'i, 'mem) func_sim"

definition kernel_step ::
  "(('w, 'i, 'mem, 'k) kernel_view \<Rightarrow> kernel_answer \<times> ('w, 'i, 'mem, 'k) kernel_view) \<Rightarrow> trap
   \<Rightarrow> (('w, 'i, 'mem, 'k) perf_sim, trap) stage" where
  "kernel_step exec t =
     and_then (gets (\<lambda>s. (perf_kernel s, perf_rf s, perf_mem s, checker_sim (wb_checker (writeback s))))) (\<lambda>v.
     and_then (lift (handle_instruction exec t v)) (\<lambda>(t, k, regs, m, sim).
     and_then (modify (\<lambda>s. s\<lparr>perf_kernel := k, perf_rf := regs, perf_mem := m\<rparr>)) (\<lambda>_.
     and_then (set_checker_sim sim) (\<lambda>_. ret t))))"

definition driver_step :: "riscv_causes \<Rightarrow> ('r, 'i) isa \<Rightarrow> trap \<Rightarrow> Addr \<Rightarrow> (('a::len word, 'i, 'mem, 'k) perf_sim, trap) stage" where
  "driver_step causes I t a s = handle_trap causes (perf_cpu I) (wb_driver (writeback s)) t a s"

definition writeback_instruction_system where
  "writeback_instruction_system I M junk causes exec c instr =
     and_then (writeback_instruction I M junk c instr) (\<lambda>_.
       let has_syscall = (trap (func instr) = SYSCALL)
       in and_then (kernel_step exec (trap (func instr))) (\<lambda>t.
          and_then (driver_step causes I t (PC (func instr))) (\<lambda>result_trap.
          and_then (checker_driver_step causes I t (PC (func instr))) (\<lambda>_.
          and_then (gets (\<lambda>s. instrs_to_run (writeback s) \<le> executed_instrs (writeback s))) (\<lambda>enough.
          and_then (trap_write ''WRITEBACK_2_CORE_HALT'' (if enough then BREAKPOINT else result_trap) c) (\<lambda>_.
            if has_syscall then set_writeback_target (get_actual_target instr) c
            else if result_trap \<noteq> NO_TRAP then writeback_set_target (get_actual_target instr) c
            else ret ()))))))"

fun writeback_all where
  "writeback_all I M junk causes exec c [] = ret ()"
| "writeback_all I M junk causes exec c (instr # instrs) =
     and_then (writeback_instruction_system I M junk causes exec c instr) (\<lambda>_.
       writeback_all I M junk causes exec c instrs)"

definition writeback_clock where
  "writeback_clock I M junk causes exec c =
     and_then (bool_signal ''WRITEBACK_2_ALL_FLUSH'' 4 c) (\<lambda>flushed.
       if flushed then writeback_bubble c
       else and_then (read_instructions c) (\<lambda>instrs.
              if instrs = [] then writeback_bubble c
              else writeback_all I M junk causes exec c instrs))"

section \<open>Drivers reach the state through the interface only\<close>

context state_relation
begin

lemma handle_trap_moves:
  assumes "\<And>n v s s'. write_cpu C n v s = Inr s' \<Longrightarrow> R s s'" "\<And>name v s s'. write_csr C name v s = Inr s' \<Longrightarrow> R s s'"
    and "\<And>t s s'. set_target_of C t s = Inr s' \<Longrightarrow> R s s'"
  shows "handle_trap causes C drv t a s = Inr (r, s') \<Longrightarrow> R s s'"
proof (induction drv arbitrary: r)
  case DriverNoOp
  then show ?case using refl by (simp add: noop_handle_trap_def)
next
  case DriverMIPS32
  then show ?case
    using refl by (auto simp: mips_handle_trap_def bind_Inr Let_def cpu_set_pc_def split: if_splits
      intro: trans [OF assms(1) trans [OF assms(1) trans [OF assms(1) assms(3)]]])
next
  case DriverRISCV32
  then show ?case
    by (auto simp: riscv_handle_trap_def bind_Inr Let_def cpu_set_pc_def split: if_splits
      intro: assms(2) trans [OF assms(2) trans [OF assms(2) assms(3)]])
next
  case (HookedDriver drv)
  then show ?case by (auto simp: bind_Inr)
qed

end

section \<open>The checker repeats what is written back\<close>

text \<open>
  A functional simulator has confirmed a list of instructions when it has taken one step of its own run for each: it
  executes an instruction with the same result, the kernel serves the trap of that instruction, and the driver
  handles it. The only other thing that happens to it is a new target, before or after the driver.
\<close>

definition redirected :: "('w, 'i, 'mem) func_sim \<Rightarrow> ('w, 'i, 'mem) func_sim \<Rightarrow> bool" where
  "redirected sim sim' \<longleftrightarrow> sim' = sim \<or> (\<exists>t. sim' = set_target t sim)"

lemma redirected_refl: "redirected sim sim"
  by (simp add: redirected_def)

lemma redirected_trans: "redirected sim sim1 \<Longrightarrow> redirected sim1 sim2 \<Longrightarrow> redirected sim sim2"
  by (auto simp: redirected_def set_target_def)

inductive confirmed for I M junk causes exec drv where
  start: "confirmed I M junk causes exec drv sim [] sim"
| repeated: "confirmed I M junk causes exec drv sim done sim1 \<Longrightarrow> step I M junk sim1 = Inr (func_dump, sim2)
    \<Longrightarrow> instr_same_checker I func_dump i \<Longrightarrow> handle_instruction exec (trap i) (k, regs, m, sim2) = Inr (t, k', regs', m', sim3)
    \<Longrightarrow> redirected sim3 sim4 \<Longrightarrow> handle_trap causes (func_cpu I) drv t (PC i) sim4 = Inr (r, sim5) \<Longrightarrow> redirected sim5 sim6
    \<Longrightarrow> confirmed I M junk causes exec drv sim (done @ [i]) sim6"

lemma confirmed_append:
  "confirmed I M junk causes exec drv sim1 rest sim2 \<Longrightarrow> confirmed I M junk causes exec drv sim done sim1
    \<Longrightarrow> confirmed I M junk causes exec drv sim (done @ rest) sim2"
proof (induction rule: confirmed.induct)
  case (repeated sim1 rest sim2 func_dump sim3 i)
  then show ?case using confirmed.repeated [of I M junk causes exec drv sim "done @ rest"] by simp
qed (auto intro: confirmed.intros)

definition confirms where
  "confirms I M junk causes exec s s' \<longleftrightarrow>
     (let ch = wb_checker (writeback s); ch' = wb_checker (writeback s')
      in active ch \<longrightarrow> active ch' \<and> checker_driver ch' = checker_driver ch
        \<and> (\<exists>done. confirmed I M junk causes exec (checker_driver ch) (checker_sim ch) done (checker_sim ch')
           \<and> executed_instrs (writeback s') = executed_instrs (writeback s) + of_nat (length done)))"

interpretation confirms: state_relation "confirms I M junk causes exec" for I M junk causes exec
proof
  show "confirms I M junk causes exec s s" for s
    using confirmed.start by (fastforce simp: confirms_def Let_def)
  show "confirms I M junk causes exec s s''" if "confirms I M junk causes exec s s'" "confirms I M junk causes exec s' s''" for s s' s''
    using that by (fastforce simp: confirms_def Let_def add.assoc intro: exI [of _ "xs @ ys" for xs ys] confirmed_append)
qed

lemma confirms_same:
  "wb_checker (writeback s') = wb_checker (writeback s) \<Longrightarrow> executed_instrs (writeback s') = executed_instrs (writeback s)
    \<Longrightarrow> confirms I M junk causes exec s s'"
  using confirmed.start by (fastforce simp: confirms_def Let_def)

lemma confirms_ports: "moves (confirms I M junk causes exec) (on_ports get upd f)"
  by (rule moves_on_ports) (simp add: confirms_same)

lemmas confirms_intros = confirms.moves_and_then confirms.moves_pure confirms.moves_whenever confirms_ports moves_if moves_case_prod moves_Let

text \<open>A part of the cycle that gives the checker at most a new target, and leaves the counts alone.\<close>

definition redirects :: "('w, 'i, 'mem, 'k) perf_sim \<Rightarrow> ('w, 'i, 'mem, 'k) perf_sim \<Rightarrow> bool" where
  "redirects s s' \<longleftrightarrow>
     redirected (checker_sim (wb_checker (writeback s))) (checker_sim (wb_checker (writeback s')))
     \<and> checker_driver (wb_checker (writeback s')) = checker_driver (wb_checker (writeback s))
     \<and> active (wb_checker (writeback s')) = active (wb_checker (writeback s))
     \<and> executed_instrs (writeback s') = executed_instrs (writeback s)
     \<and> instrs_to_run (writeback s') = instrs_to_run (writeback s)
     \<and> last_writeback_cycle (writeback s') = last_writeback_cycle (writeback s)
     \<and> curr_cycle s' = curr_cycle s \<and> current_trap s' = current_trap s"

interpretation redirects: state_relation redirects
  by unfold_locales (auto simp: redirects_def intro: redirected_refl redirected_trans)

lemma redirects_ports: "moves redirects (on_ports get upd f)"
  by (rule moves_on_ports) (simp add: redirects_def redirected_refl)

lemmas redirects_intros = redirects.moves_and_then redirects.moves_pure redirects.moves_whenever redirects_ports
  moves_if moves_case_prod moves_Let

lemma redirects_set_checker_target: "moves redirects (set_checker_target t)"
  by (auto simp: moves_def set_checker_target_def get_checker_def set_checker_sim_def modify_writeback_def stage_simps
    redirects_def redirected_def split: if_splits)

lemma redirects_set_writeback_target: "moves redirects (set_writeback_target t c)"
  unfolding set_writeback_target_def port_access_defs modify_writeback_def
  by (intro redirects_intros redirects.moves_modify) (simp add: redirects_def redirected_refl)

lemma redirects_writeback_set_target: "moves redirects (writeback_set_target t c)"
  unfolding writeback_set_target_def by (intro redirects_intros redirects_set_checker_target redirects_set_writeback_target)

lemma perf_write_registerD: "perf_write_register I r v s = Inr s' \<Longrightarrow> \<exists>regs. s' = s\<lparr>perf_rf := regs\<rparr>"
  by (auto simp: perf_write_register_def or_error_def split: option.splits)

text \<open>The driver acts by writes of registers and by \<open>set_target\<close> alone.\<close>

lemma driver_step_moves:
  assumes "state_relation R" "\<And>s regs. R s (s\<lparr>perf_rf := regs\<rparr>)" "\<And>t c. moves R (writeback_set_target t c)"
  shows "moves R (driver_step causes I t a)"
proof -
  have "R s s'" if "handle_trap causes (perf_cpu I) drv t a s = Inr (r, s')" for drv r s s'
  proof (rule state_relation.handle_trap_moves [OF assms(1) _ _ _ that])
    show "R s s'" if "write_cpu (perf_cpu I) n v s = Inr s'" for n v s s'
      using that perf_write_registerD assms(2) by (fastforce simp: perf_cpu_def)
    show "R s s'" if "write_csr (perf_cpu I) name v s = Inr s'" for name v s s'
      using that perf_write_registerD assms(2) by (fastforce simp: perf_cpu_def)
    show "R s s'" if h: "set_target_of (perf_cpu I) t s = Inr s'" for t s s'
    proof -
      have "writeback_set_target t (curr_cycle s) s = Inr ((), s')"
        using h by (cases "writeback_set_target t (curr_cycle s) s") (auto simp: perf_cpu_def perf_set_target_def)
      then show ?thesis using assms(3) by (blast dest: movesD)
    qed
  qed
  then show ?thesis by (auto simp: moves_def driver_step_def)
qed

lemma check_active:
  assumes "check I M junk i s = Inr (x, s')" "active (wb_checker (writeback s))"
  shows "\<exists>func_dump sim. step I M junk (checker_sim (wb_checker (writeback s))) = Inr (func_dump, sim) \<and> instr_same_checker I func_dump i
    \<and> s' = s\<lparr>writeback := (writeback s)\<lparr>wb_checker := (wb_checker (writeback s))\<lparr>checker_sim := sim\<rparr>\<rparr>\<rparr>"
  using assms by (cases "step I M junk (checker_sim (wb_checker (writeback s)))")
    (auto simp: check_def get_checker_def set_checker_sim_def modify_writeback_def stage_simps split: if_splits)

lemma check_inactive: "check I M junk i s = Inr (x, s') \<Longrightarrow> \<not> active (wb_checker (writeback s)) \<Longrightarrow> s' = s"
  by (simp add: check_def get_checker_def stage_simps)

text \<open>What writing an instruction back leaves: its results in the registers, its check done, the counts advanced.\<close>

lemma writeback_instructionD:
  assumes "writeback_instruction I M junk c instr s = Inr (x, s')"
  shows "write_dst (reg_class I) (func instr) (perf_rf s) = Some (perf_rf s')"
    and "last_writeback_cycle (writeback s') = c" "instrs_to_run (writeback s') = instrs_to_run (writeback s)"
    and "next_PC (writeback s') = address (get_actual_target instr)"
    and "executed_instrs (writeback s') = executed_instrs (writeback s) + 1"
    and "let ch = wb_checker (writeback s) in if active ch then \<exists>func_dump sim. step I M junk (checker_sim ch) = Inr (func_dump, sim)
      \<and> instr_same_checker I func_dump (func instr) \<and> wb_checker (writeback s') = ch\<lparr>checker_sim := sim\<rparr>
      else wb_checker (writeback s') = ch"
    and "trap_ports (all_ports s') = trap_ports (all_ports s)" "curr_cycle s' = curr_cycle s" "current_trap s' = current_trap s"
proof -
  obtain regs where regs: "write_dst (reg_class I) (func instr) (perf_rf s) = Some regs"
    using assms by (cases "write_dst (reg_class I) (func instr) (perf_rf s)") (simp_all add: writeback_instruction_def stage_simps or_error_def)
  obtain s1 where s1: "output_write ''WRITEBACK_2_EXECUTE_BYPASS'' (v_dst (func instr)) c (s\<lparr>perf_rf := regs\<rparr>) = Inr ((), s1)"
    "bind_sim (check I M junk (func instr) s1) (\<lambda>(x, s). modify_writeback (\<lambda>w. w\<lparr>executed_instrs := executed_instrs w + 1, last_writeback_cycle := c,
         next_PC := address (get_actual_target instr)\<rparr>) s) = Inr (x, s')"
    using assms regs by (auto simp: writeback_instruction_def stage_simps or_error_def bind_Inr)
  then have f: "writeback s1 = writeback s" "perf_rf s1 = regs" "trap_ports (all_ports s1) = trap_ports (all_ports s)"
    "curr_cycle s1 = curr_cycle s" "current_trap s1 = current_trap s"
    by (auto simp: output_write_def on_ports_def bind_Inr)
  obtain s2 where s2: "check I M junk (func instr) s1 = Inr ((), s2)"
    "s' = s2\<lparr>writeback := (writeback s2)\<lparr>executed_instrs := executed_instrs (writeback s2) + 1, last_writeback_cycle := c,
         next_PC := address (get_actual_target instr)\<rparr>\<rparr>"
    using s1(2) by (auto simp: bind_Inr modify_writeback_def modify_def)
  have "s2 = s1 \<or> (\<exists>ch. s2 = s1\<lparr>writeback := (writeback s1)\<lparr>wb_checker := ch\<rparr>\<rparr>)"
    using check_active [OF s2(1)] check_inactive [OF s2(1)] by auto
  then have w: "perf_rf s2 = perf_rf s1" "all_ports s2 = all_ports s1" "curr_cycle s2 = curr_cycle s1" "current_trap s2 = current_trap s1"
      "executed_instrs (writeback s2) = executed_instrs (writeback s1)" "instrs_to_run (writeback s2) = instrs_to_run (writeback s1)"
    by auto
  show "write_dst (reg_class I) (func instr) (perf_rf s) = Some (perf_rf s')" "last_writeback_cycle (writeback s') = c"
    "instrs_to_run (writeback s') = instrs_to_run (writeback s)" "next_PC (writeback s') = address (get_actual_target instr)"
    "executed_instrs (writeback s') = executed_instrs (writeback s) + 1"
    "trap_ports (all_ports s') = trap_ports (all_ports s)" "curr_cycle s' = curr_cycle s" "current_trap s' = current_trap s"
    using s2(2) f w regs by simp_all
  show "let ch = wb_checker (writeback s) in if active ch then \<exists>func_dump sim. step I M junk (checker_sim ch) = Inr (func_dump, sim)
      \<and> instr_same_checker I func_dump (func instr) \<and> wb_checker (writeback s') = ch\<lparr>checker_sim := sim\<rparr>
      else wb_checker (writeback s') = ch"
    using check_active [OF s2(1)] check_inactive [OF s2(1)] s2(2) f(1) by (auto simp: Let_def)
qed

lemma redirects_driver_step: "moves redirects (driver_step causes I t a)"
  by (rule driver_step_moves [OF redirects.state_relation_axioms])
    (simp_all add: redirects_def redirected_refl redirects_writeback_set_target)

lemma checker_driver_stepD:
  assumes "checker_driver_step causes I t a s = Inr (x, s')" "active (wb_checker (writeback s))"
  shows "\<exists>r sim. handle_trap causes (func_cpu I) (checker_driver (wb_checker (writeback s))) t a
      (checker_sim (wb_checker (writeback s))) = Inr (r, sim)
    \<and> s' = s\<lparr>writeback := (writeback s)\<lparr>wb_checker := (wb_checker (writeback s))\<lparr>checker_sim := sim\<rparr>\<rparr>\<rparr>"
  using assms
  by (cases "handle_trap causes (func_cpu I) (checker_driver (wb_checker (writeback s))) t a (checker_sim (wb_checker (writeback s)))")
    (auto simp: checker_driver_step_def get_checker_def set_checker_sim_def modify_writeback_def stage_simps)

lemma kernel_stepD:
  assumes "kernel_step exec t s = Inr (t', s')"
  shows "\<exists>k regs m sim. handle_instruction exec t (perf_kernel s, perf_rf s, perf_mem s, checker_sim (wb_checker (writeback s)))
      = Inr (t', k, regs, m, sim)
    \<and> s' = s\<lparr>perf_kernel := k, perf_rf := regs, perf_mem := m,
        writeback := (writeback s)\<lparr>wb_checker := (wb_checker (writeback s))\<lparr>checker_sim := sim\<rparr>\<rparr>\<rparr>"
  using assms
  by (cases "handle_instruction exec t (perf_kernel s, perf_rf s, perf_mem s, checker_sim (wb_checker (writeback s)))")
    (auto simp: kernel_step_def set_checker_sim_def modify_writeback_def stage_simps)

text \<open>The whole of an instruction's writeback, as the checks, the kernel and the drivers see it.\<close>

lemma writeback_instruction_systemD:
  assumes "writeback_instruction_system I M junk causes exec c instr s = Inr (x, s')"
  shows "\<exists>s1 t s2 r s3 s4. writeback_instruction I M junk c instr s = Inr ((), s1)
    \<and> kernel_step exec (trap (func instr)) s1 = Inr (t, s2)
    \<and> driver_step causes I t (PC (func instr)) s2 = Inr (r, s3)
    \<and> checker_driver_step causes I t (PC (func instr)) s3 = Inr ((), s4) \<and> redirects s4 s'"
proof -
  define fin where "fin r = and_then (gets (\<lambda>s :: ('a word, ('a, 'b, 'c) base_instruction_scheme, 'd, 'e) perf_sim. instrs_to_run (writeback s) \<le> executed_instrs (writeback s))) (\<lambda>enough.
          and_then (trap_write ''WRITEBACK_2_CORE_HALT'' (if enough then BREAKPOINT else r) c) (\<lambda>_.
            if trap (func instr) = SYSCALL then set_writeback_target (get_actual_target instr) c
            else if r \<noteq> NO_TRAP then writeback_set_target (get_actual_target instr) c
            else ret ()))" for r
  have fin: "moves redirects (fin r)" for r
    unfolding fin_def port_access_defs by (intro redirects_intros redirects_set_writeback_target redirects_writeback_set_target)
  obtain s1 t s2 r s3 s4 where "writeback_instruction I M junk c instr s = Inr ((), s1)" "kernel_step exec (trap (func instr)) s1 = Inr (t, s2)"
    "driver_step causes I t (PC (func instr)) s2 = Inr (r, s3)" "checker_driver_step causes I t (PC (func instr)) s3 = Inr ((), s4)"
    "fin r s4 = Inr (x, s')"
    using assms by (auto simp: writeback_instruction_system_def Let_def and_then_def bind_Inr fin_def)
  then show ?thesis using movesD [OF fin] by blast
qed

lemma confirms_writeback_instruction_system:
  "moves (confirms I M junk causes exec) (writeback_instruction_system I M junk causes exec c instr)"
  unfolding moves_def
proof (intro allI impI, goal_cases)
  case a: (1 s x s')
  let ?ch = "\<lambda>s. wb_checker (writeback s)" and ?n = "\<lambda>s. executed_instrs (writeback s)"
  obtain s1 t s2 r s3 s4 where st: "writeback_instruction I M junk c instr s = Inr ((), s1)"
    "kernel_step exec (trap (func instr)) s1 = Inr (t, s2)" "driver_step causes I t (PC (func instr)) s2 = Inr (r, s3)"
    "checker_driver_step causes I t (PC (func instr)) s3 = Inr ((), s4)" "redirects s4 s'"
    using writeback_instruction_systemD [OF a] by blast
  show ?case
  proof (cases "active (?ch s)")
    case True
    obtain func_dump sim where d: "step I M junk (checker_sim (?ch s)) = Inr (func_dump, sim)"
      "instr_same_checker I func_dump (func instr)" "?ch s1 = (?ch s)\<lparr>checker_sim := sim\<rparr>"
      using writeback_instructionD(6) [OF st(1)] True by (auto simp: Let_def)
    obtain k regs m sim2 where k: "handle_instruction exec (trap (func instr)) (perf_kernel s1, perf_rf s1, perf_mem s1, sim) = Inr (t, k, regs, m, sim2)"
      "?ch s2 = (?ch s)\<lparr>checker_sim := sim2\<rparr>" "?n s2 = ?n s1"
      using kernel_stepD [OF st(2)] d(3) by auto
    have r: "redirected sim2 (checker_sim (?ch s3))" "checker_driver (?ch s3) = checker_driver (?ch s)" "active (?ch s3)" "?n s3 = ?n s1"
      using movesD [OF redirects_driver_step st(3)] k(2,3) True by (simp_all add: redirects_def)
    obtain r' sim4 where h: "handle_trap causes (func_cpu I) (checker_driver (?ch s)) t (PC (func instr)) (checker_sim (?ch s3)) = Inr (r', sim4)"
      "?ch s4 = (?ch s3)\<lparr>checker_sim := sim4\<rparr>" "?n s4 = ?n s1"
      using checker_driver_stepD [OF st(4) r(3)] r(2,4) by auto
    have e: "redirected sim4 (checker_sim (?ch s'))" "checker_driver (?ch s') = checker_driver (?ch s)" "active (?ch s')" "?n s' = ?n s + 1"
      using st(5) h(2,3) r(2,3) writeback_instructionD(5) [OF st(1)] by (simp_all add: redirects_def)
    have "confirmed I M junk causes exec (checker_driver (?ch s)) (checker_sim (?ch s)) ([] @ [func instr]) (checker_sim (?ch s'))"
      by (rule confirmed.repeated [OF confirmed.start d(1,2) k(1) r(1) h(1) e(1)])
    then show ?thesis using e by (auto simp: confirms_def Let_def intro!: exI [of _ "[func instr]"])
  qed (simp add: confirms_def Let_def)
qed

lemma confirms_writeback_all: "moves (confirms I M junk causes exec) (writeback_all I M junk causes exec c instrs)"
proof (induction instrs)
  case Nil
  show ?case unfolding writeback_all.simps by (intro confirms_intros)
next
  case (Cons instr instrs)
  show ?case unfolding writeback_all.simps by (intro confirms_intros confirms_writeback_instruction_system Cons.IH)
qed

lemma confirms_writeback_clock: "moves (confirms I M junk causes exec) (writeback_clock I M junk causes exec c)"
  unfolding writeback_clock_def bool_signal_def writeback_bubble_def read_instructions_def read_ready_def port_access_defs
  by (intro confirms_intros confirms_writeback_all)

end
