(* ===== verification/Perf_Sim.thy ===== *)
theory Perf_Sim
  imports Fetch_Stage Execution_Stages Writeback_Stage
begin

text \<open>
  The performance simulator, modules/core/perf_sim.cpp and perf_sim.h: its ports as the constructors of the stages
  declare them, the cycle, in which the stages work one after another, and the run, which may not end and is a
  partial function.
\<close>

section \<open>Construction\<close>

definition core_ports :: "(port_type \<times> port_decl) list" where
  "core_ports =
     [(TrapPort, RP ''WRITEBACK_2_CORE_HALT'' PORT_LATENCY)]"

definition perf_ports :: "Latency \<Rightarrow> (port_type \<times> port_decl) list" where
  "perf_ports last_latency =
     fetch_ports @ decode_ports @ execute_ports last_latency @ mem_ports @ branch_ports @ writeback_ports @ core_ports"

definition new_all_ports :: "uint64 \<Rightarrow> sim_error + ('w, 'i) all_ports" where
  "new_all_ports lat =
     (let ds = perf_ports (lat - 1)
      in bind_sim (make_ports (decls_of BoolPort ds)) (\<lambda>bools.
         bind_sim (make_ports (decls_of TargetPort ds)) (\<lambda>ts.
         bind_sim (make_ports (decls_of InstrPort ds)) (\<lambda>instrs.
         bind_sim (make_ports (decls_of BpPort ds)) (\<lambda>bps.
         bind_sim (make_ports (decls_of CommandPort ds)) (\<lambda>commands.
         bind_sim (make_ports (decls_of OutputPort ds)) (\<lambda>outputs.
         bind_sim (make_ports (decls_of TrapPort ds)) (\<lambda>traps.
           Inr \<lparr>bool_ports = bools, target_ports = ts, instr_ports = instrs, bp_ports = bps, command_ports = commands,
             output_ports = outputs, trap_ports = traps\<rparr>))))))))"

text \<open>The checker is inactive until a kernel is set; its simulator and the memory \<open>m0\<close> do not matter before.\<close>

definition new_writeback :: "('r, 'i) isa \<Rightarrow> endian \<Rightarrow> driver \<Rightarrow> 'mem \<Rightarrow> ('a::len word, 'i, 'mem) writeback_unit" where
  "new_writeback I e drv m0 =
     \<lparr>instrs_to_run = 0, executed_instrs = 0, last_writeback_cycle = 0, next_PC = 0,
      wb_checker = \<lparr>checker_sim = new_func_sim I e m0, checker_driver = drv, active = False\<rparr>, wb_driver = drv\<rparr>"

definition new_perf_sim ::
  "('r, 'i) isa \<Rightarrow> pipeline_config \<Rightarrow> endian \<Rightarrow> driver \<Rightarrow> 'mem \<Rightarrow> 'k \<Rightarrow> sim_error + ('a::len word, 'i, 'mem, 'k) perf_sim" where
  "new_perf_sim I cfg e drv m k =
     bind_sim (new_fetch cfg e) (\<lambda>f.
     bind_sim (new_all_ports (config_long_alu_latency cfg)) (\<lambda>ports.
       let d = new_decode (reg_class I) (config_long_alu_latency cfg)
       in Inr \<lparr>all_ports = ports, perf_rf = new_rf (reg_class I), perf_mem = m, fetch = f,
            decode = d\<lparr>bypassing_unit := set_bandwidth PORT_BW (bypassing_unit d)\<rparr>,
            execution = new_execute (config_long_alu_latency cfg), branch = new_branch, writeback = new_writeback I e drv m,
            perf_kernel = k, curr_cycle = 0, current_trap = NO_TRAP\<rparr>))"

text \<open>Setting the kernel starts the checker, with its own memory \<open>m0\<close> and a copy of the registers.\<close>

definition perf_set_kernel ::
  "('r, 'i) isa \<Rightarrow> endian \<Rightarrow> 'k \<Rightarrow> 'mem \<Rightarrow> ('a::len word, 'i, 'mem, 'k) perf_sim \<Rightarrow> sim_error + ('a word, 'i, 'mem, 'k) perf_sim" where
  "perf_set_kernel I e k m0 s =
     bind_sim (duplicate_all_registers_to (perf_cpu I) (func_cpu I) s (new_func_sim I e m0)) (\<lambda>sim.
       Inr (s\<lparr>perf_kernel := k,
         writeback := (writeback s)\<lparr>wb_checker := (wb_checker (writeback s))\<lparr>checker_sim := sim, active := True\<rparr>\<rparr>\<rparr>))"

definition disable_checker :: "('w, 'i, 'mem, 'k) perf_sim \<Rightarrow> ('w, 'i, 'mem, 'k) perf_sim" where
  "disable_checker s = s\<lparr>writeback := (writeback s)\<lparr>wb_checker := (wb_checker (writeback s))\<lparr>active := False\<rparr>\<rparr>\<rparr>"

definition enable_driver_hooks :: "('w, 'i, 'mem, 'k) perf_sim \<Rightarrow> ('w, 'i, 'mem, 'k) perf_sim" where
  "enable_driver_hooks s = s\<lparr>writeback := (writeback s)\<lparr>wb_driver := HookedDriver (wb_driver (writeback s))\<rparr>\<rparr>"

section \<open>The cycle and the run\<close>

definition clock_halt :: "Cycle \<Rightarrow> (('w, 'i, 'mem, 'k) perf_sim, unit) stage" where
  "clock_halt c =
     and_then (trap_ready ''WRITEBACK_2_CORE_HALT'' 0 c) (\<lambda>r.
       whenever r (and_then (trap_read ''WRITEBACK_2_CORE_HALT'' 0 c) (\<lambda>t. modify (\<lambda>s. s\<lparr>current_trap := t\<rparr>))))"

definition clock_tree where
  "clock_tree I M junk causes exec c =
     and_then (fetch_clock I M junk c) (\<lambda>_.
     and_then (decode_clock I c) (\<lambda>_.
     and_then (execute_clock c) (\<lambda>_.
     and_then (mem_clock I M junk c) (\<lambda>_.
     and_then (branch_clock c) (\<lambda>_.
     and_then (writeback_clock I M junk causes exec c) (\<lambda>_. clock_halt c))))))"

definition clock where
  "clock I M junk causes exec s =
     bind_sim (clock_tree I M junk causes exec (curr_cycle s) s) (\<lambda>(_, s). Inr (s\<lparr>curr_cycle := curr_cycle s + 1\<rparr>))"

text \<open>The loop of \<open>run\<close>: None when it does not end.\<close>

partial_function (option) run_clocks ::
  "(('w, 'i, 'mem, 'k) perf_sim \<Rightarrow> sim_error + ('w, 'i, 'mem, 'k) perf_sim) \<Rightarrow> ('w, 'i, 'mem, 'k) perf_sim
   \<Rightarrow> (sim_error + trap \<times> ('w, 'i, 'mem, 'k) perf_sim) option" where
  "run_clocks clk s =
     (if current_trap s \<noteq> NO_TRAP then Some (Inr (current_trap s, s))
      else case clk s of Inl e \<Rightarrow> Some (Inl e) | Inr s \<Rightarrow> run_clocks clk s)"

declare run_clocks.simps [code]

definition perf_run where
  "perf_run I M junk causes exec n s =
     run_clocks (clock I M junk causes exec)
       (s\<lparr>current_trap := NO_TRAP, writeback := (writeback s)\<lparr>instrs_to_run := n\<rparr>\<rparr>)"

section \<open>Every instruction written back is one of the functional simulator's\<close>

lemma keeps_confirms: "moves keeps_back_end m \<Longrightarrow> moves (confirms I M junk causes exec) m"
  by (auto simp: moves_def keeps_back_end_def back_end_def intro!: confirms_same)

lemma confirms_clock_halt: "moves (confirms I M junk causes exec) (clock_halt c)"
  unfolding clock_halt_def port_access_defs
  by (intro confirms_intros confirms.moves_modify) (simp add: confirms_same)

lemma confirms_clock_tree: "moves (confirms I M junk causes exec) (clock_tree I M junk causes exec c)"
  unfolding clock_tree_def
  by (intro confirms_intros confirms_writeback_clock confirms_clock_halt keeps_confirms
    keeps_fetch_clock keeps_decode_clock keeps_execute_clock keeps_mem_clock keeps_branch_clock)

lemma confirms_clock:
  assumes "clock I M junk causes exec s = Inr s'"
  shows "confirms I M junk causes exec s s'"
proof -
  obtain s1 where s1: "clock_tree I M junk causes exec (curr_cycle s) s = Inr ((), s1)" "s' = s1\<lparr>curr_cycle := curr_cycle s1 + 1\<rparr>"
    using assms by (auto simp: clock_def bind_Inr)
  have "confirms I M junk causes exec s s1" using movesD [OF confirms_clock_tree s1(1)] .
  then show ?thesis using s1(2) by (simp add: confirms_def)
qed

text \<open>A run leaves the states of a relation that its cycles keep to.\<close>

lemma run_clocks_moves_induct:
  fixes R :: "('w, 'i, 'mem, 'k) perf_sim \<Rightarrow> ('w, 'i, 'mem, 'k) perf_sim \<Rightarrow> bool"
  assumes "state_relation R" "run_clocks clk s = Some r"
  shows "(\<forall>s s'. clk s = Inr s' \<longrightarrow> R s s') \<longrightarrow> (\<forall>t s'. r = Inr (t, s') \<longrightarrow> R s s')"
  using assms(2)
proof (rule run_clocks.raw_induct [where P = "\<lambda>clk s r. (\<forall>s s'. clk s = Inr s' \<longrightarrow> R s s') \<longrightarrow> (\<forall>t s'. r = Inr (t, s') \<longrightarrow> R s s')", rotated])
  fix rec :: "(('w, 'i, 'mem, 'k) perf_sim \<Rightarrow> sim_error + ('w, 'i, 'mem, 'k) perf_sim) \<Rightarrow> ('w, 'i, 'mem, 'k) perf_sim
      \<Rightarrow> (sim_error + trap \<times> ('w, 'i, 'mem, 'k) perf_sim) option" and clk s r
  assume IH: "\<And>clk s r. rec clk s = Some r \<Longrightarrow> (\<forall>s s'. clk s = Inr s' \<longrightarrow> R s s') \<longrightarrow> (\<forall>t s'. r = Inr (t, s') \<longrightarrow> R s s')"
  assume eq: "(if current_trap s \<noteq> NO_TRAP then Some (Inr (current_trap s, s))
      else case clk s of Inl e \<Rightarrow> Some (Inl e) | Inr s \<Rightarrow> rec clk s) = Some r"
  show "(\<forall>s s'. clk s = Inr s' \<longrightarrow> R s s') \<longrightarrow> (\<forall>t s'. r = Inr (t, s') \<longrightarrow> R s s')"
  proof (cases "current_trap s \<noteq> NO_TRAP")
    case True
    then show ?thesis using eq state_relation.refl [OF assms(1)] by auto
  next
    case False
    show ?thesis
    proof (intro impI allI)
      fix t s' assume clk: "\<forall>s s'. clk s = Inr s' \<longrightarrow> R s s'" and r: "r = Inr (t, s')"
      then obtain s1 where s1: "clk s = Inr s1" "rec clk s1 = Some r"
        using eq False by (auto split: sum.splits)
      then show "R s s'" using clk r IH [OF s1(2)] state_relation.trans [OF assms(1)] by blast
    qed
  qed
qed

lemma run_clocks_moves:
  assumes "state_relation R" "\<And>s s'. clk s = Inr s' \<Longrightarrow> R s s'" "run_clocks clk s = Some (Inr (t, s'))"
  shows "R s s'"
  using run_clocks_moves_induct [OF assms(1,3)] assms(2) by blast


end
