(* ===== verification/Perf_Progress.thy ===== *)
theory Perf_Progress
  imports Perf_Sim
begin

text \<open>
  The run of the performance simulator goes on: a cycle either writes instructions back or is a bubble, and writeback
  raises Deadlock after a hundred bubbles. The last section runs one cycle of a pipeline with a single instruction in it.
\<close>

section \<open>What a cycle of writeback does to the counts\<close>

definition counts :: "('w, 'i, 'mem, 'k) perf_sim \<Rightarrow> uint64 \<times> Cycle \<times> Cycle" where
  "counts s = (executed_instrs (writeback s), last_writeback_cycle (writeback s), curr_cycle s)"

lemma counts_keeps: "keeps_back_end s s' \<Longrightarrow> counts s' = counts s"
  by (simp add: keeps_back_end_def back_end_def counts_def)

lemma counts_writeback_instruction_system:
  assumes "writeback_instruction_system I M junk causes exec c instr s = Inr (x, s')"
  shows "counts s' = (executed_instrs (writeback s) + 1, c, curr_cycle s)"
proof -
  obtain s1 t s2 r s3 s4 where st: "writeback_instruction I M junk c instr s = Inr ((), s1)"
    "kernel_step exec (trap (func instr)) s1 = Inr (t, s2)" "driver_step causes I t (PC (func instr)) s2 = Inr (r, s3)"
    "checker_driver_step causes I t (PC (func instr)) s3 = Inr ((), s4)" "redirects s4 s'"
    using writeback_instruction_systemD [OF assms] by blast
  have "counts s4 = counts s3"
  proof (cases "active (wb_checker (writeback s3))")
    case True
    then show ?thesis using checker_driver_stepD [OF st(4)] by (auto simp: counts_def)
  next
    case False
    then show ?thesis using st(4) by (simp add: checker_driver_step_def get_checker_def stage_simps)
  qed
  moreover have "counts s3 = counts s2" using movesD [OF redirects_driver_step st(3)] by (simp add: redirects_def counts_def)
  moreover have "counts s2 = counts s1" using kernel_stepD [OF st(2)] by (auto simp: counts_def)
  ultimately show ?thesis
    using writeback_instructionD [OF st(1)] st(5) by (simp add: redirects_def counts_def)
qed

lemma counts_writeback_all:
  "writeback_all I M junk causes exec c instrs s = Inr (x, s') \<Longrightarrow> instrs \<noteq> [] \<Longrightarrow>
    counts s' = (executed_instrs (writeback s) + of_nat (length instrs), c, curr_cycle s)"
proof (induction instrs arbitrary: s)
  case (Cons instr instrs)
  then obtain s1 where s1: "writeback_instruction_system I M junk causes exec c instr s = Inr ((), s1)"
    "writeback_all I M junk causes exec c instrs s1 = Inr (x, s')"
    by (auto simp: and_then_def bind_Inr)
  note d = counts_writeback_instruction_system [OF s1(1)]
  show ?case
  proof (cases "instrs = []")
    case True
    then show ?thesis using s1(2) d by (simp add: ret_def)
  next
    case False
    then show ?thesis using Cons.IH [OF s1(2)] d by (simp add: counts_def)
  qed
qed simp

lemma and_thenE:
  assumes "and_then m g s = Inr (x, s')"
  obtains y s1 where "m s = Inr (y, s1)" "g y s1 = Inr (x, s')"
  using assms by (auto simp: and_then_def bind_Inr)

lemma read_ready_length: "read_ready key c s = Inr (xs, s') \<Longrightarrow> length xs \<le> 1"
  unfolding read_ready_def by (elim and_thenE) (auto simp: ret_def split: if_splits elim!: and_thenE)

lemma read_instructionsD:
  assumes "read_instructions c s = Inr (instrs, s')"
  shows "length instrs \<le> 3 \<and> counts s' = counts s"
proof -
  have "moves keeps_back_end (read_instructions c)"
    unfolding read_instructions_def read_ready_def port_access_defs by (intro keeps_intros)
  from counts_keeps [OF movesD [OF this assms]] have "counts s' = counts s" .
  moreover from assms have "length instrs \<le> 3"
    unfolding read_instructions_def
  proof (elim and_thenE)
    fix xs s1 ys s2 zs s3
    assume r: "read_ready ''BRANCH_2_WRITEBACK'' c s = Inr (xs, s1)" "read_ready ''MEMORY_2_WRITEBACK'' c s1 = Inr (ys, s2)"
      "read_ready ''EXECUTE_2_WRITEBACK'' c s2 = Inr (zs, s3)" and i: "ret (xs @ ys @ zs) s3 = Inr (instrs, s')"
    have "length xs \<le> 1" "length ys \<le> 1" "length zs \<le> 1" using r [THEN read_ready_length] .
    then show "length instrs \<le> 3" using i by (auto simp: ret_def)
  qed
  ultimately show ?thesis by simp
qed

lemma writeback_clockD:
  assumes "writeback_clock I M junk causes exec c s = Inr (x, s')"
  shows "counts s' = counts s \<and> last_writeback_cycle (writeback s) + 100 > c
    \<or> (\<exists>k. 1 \<le> k \<and> k \<le> 3 \<and> counts s' = (executed_instrs (writeback s) + of_nat k, c, curr_cycle s))"
proof -
  have bubble: "counts s2 = counts s1 \<and> last_writeback_cycle (writeback s1) + 100 > c" if "writeback_bubble c s1 = Inr (y, s2)" for s1 y s2
    using that by (simp add: writeback_bubble_def stage_simps add_latency_def not_le split: if_splits)
  obtain flushed s1 where s1: "bool_signal ''WRITEBACK_2_ALL_FLUSH'' 4 c s = Inr (flushed, s1)"
    "(if flushed then writeback_bubble c
       else and_then (read_instructions c) (\<lambda>instrs.
              if instrs = [] then writeback_bubble c
              else writeback_all I M junk causes exec c instrs)) s1 = Inr (x, s')"
    using assms by (auto simp: writeback_clock_def and_then_def bind_Inr)
  have c1: "counts s1 = counts s" using counts_keeps movesD [OF keeps_signals(1) s1(1)] by blast
  show ?thesis
  proof (cases flushed)
    case True
    then have "writeback_bubble c s1 = Inr (x, s')" using s1(2) by simp
    from bubble [OF this] show ?thesis using c1 by (simp add: counts_def)
  next
    case False
    then obtain instrs s2 where s2: "read_instructions c s1 = Inr (instrs, s2)"
      "(if instrs = [] then writeback_bubble c else writeback_all I M junk causes exec c instrs) s2 = Inr (x, s')"
      using s1(2) by (auto simp: and_then_def bind_Inr)
    note c2 = read_instructionsD [OF s2(1)]
    show ?thesis
    proof (cases "instrs = []")
      case True
      then have "writeback_bubble c s2 = Inr (x, s')" using s2(2) by simp
      from bubble [OF this] show ?thesis using c1 c2 by (simp add: counts_def)
    next
      case False
      then have "counts s' = (executed_instrs (writeback s) + of_nat (length instrs), c, curr_cycle s)" "1 \<le> length instrs"
        using counts_writeback_all [of I M junk causes exec c instrs s2 x s'] s2(2) c1 c2 by (simp_all add: counts_def Suc_le_eq)
      then show ?thesis using c2 by blast
    qed
  qed
qed

lemma clockD:
  assumes "clock I M junk causes exec s = Inr s'"
  shows "counts s' = (executed_instrs (writeback s), last_writeback_cycle (writeback s), curr_cycle s + 1)
      \<and> last_writeback_cycle (writeback s) + 100 > curr_cycle s
    \<or> (\<exists>k. 1 \<le> k \<and> k \<le> 3 \<and> counts s' = (executed_instrs (writeback s) + of_nat k, curr_cycle s, curr_cycle s + 1))"
proof -
  let ?c = "curr_cycle s"
  obtain s1 s2 s3 s4 s5 s6 s7 where st: "fetch_clock I M junk ?c s = Inr ((), s1)" "decode_clock I ?c s1 = Inr ((), s2)"
    "execute_clock ?c s2 = Inr ((), s3)" "mem_clock I M junk ?c s3 = Inr ((), s4)" "branch_clock ?c s4 = Inr ((), s5)"
    "writeback_clock I M junk causes exec ?c s5 = Inr ((), s6)" "clock_halt ?c s6 = Inr ((), s7)"
    "s' = s7\<lparr>curr_cycle := curr_cycle s7 + 1\<rparr>"
    using assms by (auto simp: clock_def clock_tree_def and_then_def bind_Inr)
  have "counts s5 = counts s"
    using counts_keeps [OF movesD [OF keeps_fetch_clock st(1)]] counts_keeps [OF movesD [OF keeps_decode_clock st(2)]]
      counts_keeps [OF movesD [OF keeps_execute_clock st(3)]] counts_keeps [OF movesD [OF keeps_mem_clock st(4)]]
      counts_keeps [OF movesD [OF keeps_branch_clock st(5)]] by simp
  moreover have "counts s7 = counts s6"
    using st(7) by (auto simp: clock_halt_def and_then_def bind_Inr trap_ready_def trap_read_def on_ports_def stage_simps counts_def split: if_splits)
  ultimately show ?thesis
    using writeback_clockD [OF st(6)] st(8) by (simp add: counts_def)
qed

section \<open>Progress\<close>

fun clocks :: "('s \<Rightarrow> sim_error + 's) \<Rightarrow> nat \<Rightarrow> 's \<Rightarrow> sim_error + 's" where
  "clocks clk 0 s = Inr s"
| "clocks clk (Suc n) s = bind_sim (clk s) (clocks clk n)"

lemma clocks_counts:
  assumes "clocks (clock I M junk causes exec) n s = Inr s'" "last_writeback_cycle (writeback s) \<le> curr_cycle s"
    "unat (curr_cycle s) \<le> unat (last_writeback_cycle (writeback s)) + 100" "unat (curr_cycle s) + n + 100 < 2 ^ 64"
  shows "\<exists>k \<le> 3 * n. executed_instrs (writeback s') = executed_instrs (writeback s) + of_nat k
    \<and> unat (curr_cycle s') = unat (curr_cycle s) + n
    \<and> unat (curr_cycle s') \<le> unat (last_writeback_cycle (writeback s')) + 100
    \<and> unat (last_writeback_cycle (writeback s')) \<le> unat (last_writeback_cycle (writeback s)) + 100 * k"
  using assms
proof (induction n arbitrary: s)
  case (Suc n)
  let ?l = "\<lambda>s. last_writeback_cycle (writeback s)" and ?e = "\<lambda>s. executed_instrs (writeback s)"
  obtain s1 where s1: "clock I M junk causes exec s = Inr s1" "clocks (clock I M junk causes exec) n s1 = Inr s'"
    using Suc.prems(1) by (auto simp: bind_Inr)
  have c: "unat (curr_cycle s + 1) = unat (curr_cycle s) + 1" "unat (?l s + 100) = unat (?l s) + 100"
    using Suc.prems(2,4) by (simp_all add: unat_word_ariths word_le_nat_alt)
  from clockD [OF s1(1)] show ?case
  proof (elim disjE exE conjE)
    assume a: "counts s1 = (?e s, ?l s, curr_cycle s + 1)" "curr_cycle s < ?l s + 100"
    then have "unat (curr_cycle s) < unat (?l s) + 100" using c(2) by (simp add: word_less_nat_alt)
    moreover have "?l s1 \<le> curr_cycle s1" using a(1) Suc.prems(2) c(1) by (simp add: counts_def word_le_nat_alt)
    ultimately obtain k where "k \<le> 3 * n" "?e s' = ?e s1 + of_nat k" "unat (curr_cycle s') = unat (curr_cycle s1) + n"
      "unat (curr_cycle s') \<le> unat (?l s') + 100" "unat (?l s') \<le> unat (?l s1) + 100 * k"
      using Suc.IH [OF s1(2)] a(1) c(1) Suc.prems(4) by (auto simp: counts_def)
    then show ?thesis using a(1) c(1) by (intro exI [of _ k]) (simp add: counts_def)
  next
    fix k assume a: "1 \<le> k" "k \<le> 3" "counts s1 = (?e s + of_nat k, curr_cycle s, curr_cycle s + 1)"
    then have f: "?e s1 = ?e s + of_nat k" "?l s1 = curr_cycle s" "curr_cycle s1 = curr_cycle s + 1" by (simp_all add: counts_def)
    have "?l s1 \<le> curr_cycle s1" using f c(1) by (simp add: word_le_nat_alt)
    then obtain k' where k': "k' \<le> 3 * n" "?e s' = ?e s1 + of_nat k'" "unat (curr_cycle s') = unat (curr_cycle s1) + n"
      "unat (curr_cycle s') \<le> unat (?l s') + 100" "unat (?l s') \<le> unat (?l s1) + 100 * k'"
      using Suc.IH [OF s1(2)] f c(1) Suc.prems by auto
    have "unat (?l s') \<le> unat (?l s) + 100 * (k + k')" using k'(5) f(2) a(1) Suc.prems(3) by simp
    then show ?thesis using k' f c(1) a(2) by (intro exI [of _ "k + k'"]) simp
  qed
qed simp


end
