(* ===== verification/Perf_Example.thy ===== *)
theory Perf_Example
  imports Perf_Progress
begin

text \<open>
  A run of one cycle, in which the only instruction of the pipeline, a nop, comes to writeback. It shows that the
  theorems on runs have instances: every other stage is idle.
\<close>

section \<open>Idle ports\<close>

text \<open>A port with nothing in it, that has not been written twice in the cycle.\<close>

definition quiet :: "Cycle \<Rightarrow> 'a write_port \<Rightarrow> bool" where
  "quiet c w \<longleftrightarrow> 5 \<le> length (destinations w) \<and> (\<forall>p \<in> set (destinations w). occupied (queue p) = 0 \<and> read_last_cycle p \<le> c)
     \<and> write_last_cycle w \<le> c \<and> (write_last_cycle w = c \<longrightarrow> write_counter w + 1 \<le> initialized_bandwidth w)"

definition quiet_ports :: "Cycle \<Rightarrow> 'a ports \<Rightarrow> bool" where
  "quiet_ports c ps \<longleftrightarrow> (\<forall>key. \<exists>w. ps key = Some w \<and> quiet c w)"

lemma quiet_read:
  assumes "occupied (queue p) = 0" "read_last_cycle p \<le> c"
  shows "is_ready c p = Inr (False, p\<lparr>read_last_cycle := c\<rparr>)"
proof -
  have "drop_stale c (queue p) = queue p" using assms(1) by (subst drop_stale.simps) (simp add: pq_empty_def)
  then show ?thesis using assms by (simp add: is_ready_def cleanup_stale_data_def update_last_cycle_def pq_empty_def)
qed

lemma quiet_ready_one:
  assumes "ps key = Some w" "quiet c w" "n < 5"
  shows "\<exists>w'. ports_ready key n c ps = Inr (False, ps(key \<mapsto> w')) \<and> quiet c w'"
proof -
  let ?p = "destinations w ! n"
  have n: "n < length (destinations w)" "?p \<in> set (destinations w)" using assms(2,3) by (simp_all add: quiet_def)
  then have "is_ready c ?p = Inr (False, ?p\<lparr>read_last_cycle := c\<rparr>)" using assms(2) by (intro quiet_read) (simp_all add: quiet_def)
  then have "ports_ready key n c ps = Inr (False, ps(key \<mapsto> w\<lparr>destinations := (destinations w)[n := ?p\<lparr>read_last_cycle := c\<rparr>]\<rparr>))"
    using assms(1) n(1) by (simp add: ports_ready_def with_reader_def port_failure_def)
  moreover have "quiet c (w\<lparr>destinations := (destinations w)[n := ?p\<lparr>read_last_cycle := c\<rparr>]\<rparr>)"
    using assms(2) n(2) by (auto simp: quiet_def dest!: set_update_subset_insert [THEN subsetD])
  ultimately show ?thesis by blast
qed

lemma quiet_ready:
  assumes "quiet_ports c ps" "n < 5"
  shows "\<exists>ps'. ports_ready key n c ps = Inr (False, ps') \<and> quiet_ports c ps'"
proof -
  obtain w where w: "ps key = Some w" "quiet c w" using assms(1) by (auto simp: quiet_ports_def)
  obtain w' where "ports_ready key n c ps = Inr (False, ps(key \<mapsto> w'))" "quiet c w'"
    using quiet_ready_one [of ps key w c n] w assms(2) by blast
  then show ?thesis using assms(1) by (simp add: quiet_ports_def)
qed

lemma quiet_emplace_all: "\<forall>p \<in> set ps. read_last_cycle p \<le> c \<Longrightarrow> \<exists>ps'. emplace_all x c ps = Inr ps'"
  by (induction ps) (auto simp: emplaceData_def cleanup_stale_data_def update_last_cycle_def Let_def)

lemma quiet_write:
  assumes "quiet_ports c ps"
  shows "\<exists>ps'. ports_write key x c ps = Inr ((), ps')"
proof -
  obtain w where w: "ps key = Some w" "quiet c w" using assms by (auto simp: quiet_ports_def)
  then obtain p rest where d: "destinations w = p # rest" by (cases "destinations w") (auto simp: quiet_def)
  have "\<exists>w'. increment_write_counter c w = Inr w' \<and> destinations w' = p # rest"
    using w(2) d by (auto simp: increment_write_counter_def quiet_def update_last_cycle_def Let_def)
  then obtain w' where w': "increment_write_counter c w = Inr w'" "destinations w' = p # rest" by blast
  have "\<exists>ps'. emplace_all x c rest = Inr ps'" using w(2) d by (intro quiet_emplace_all) (simp add: quiet_def)
  moreover have "\<exists>p'. emplaceData x c p = Inr p'"
    using w(2) d by (simp add: quiet_def emplaceData_def cleanup_stale_data_def update_last_cycle_def Let_def)
  ultimately show ?thesis using w w'
    by (auto simp: ports_write_def port_failure_def write_to_port_def basic_write_def)
qed

section \<open>Idle stages\<close>

text \<open>All ports are idle but those of one key, the instructions on their way from memory to writeback.\<close>

definition idle :: "Cycle \<Rightarrow> ('w, 'i, 'mem, 'k) perf_sim \<Rightarrow> bool" where
  "idle c s \<longleftrightarrow> quiet_ports c (bool_ports (all_ports s)) \<and> quiet_ports c (target_ports (all_ports s))
     \<and> (\<forall>key \<noteq> ''MEMORY_2_WRITEBACK''. \<exists>w. instr_ports (all_ports s) key = Some w \<and> quiet c w)
     \<and> quiet_ports c (bp_ports (all_ports s)) \<and> quiet_ports c (output_ports (all_ports s))"

text \<open>What an idle stage leaves alone.\<close>

definition frame where
  "frame s = (perf_rf s, perf_mem s, perf_kernel s, curr_cycle s, current_trap s, writeback s,
     trap_ports (all_ports s), instr_ports (all_ports s) ''MEMORY_2_WRITEBACK'')"

definition idles :: "Cycle \<Rightarrow> (('w, 'i, 'mem, 'k) perf_sim, 'x) stage \<Rightarrow> 'x \<Rightarrow> bool" where
  "idles c m x \<longleftrightarrow> (\<forall>s. idle c s \<longrightarrow> (\<exists>s'. m s = Inr (x, s') \<and> idle c s' \<and> frame s' = frame s))"

lemma idles_and_then: "idles c m x \<Longrightarrow> idles c (g x) y \<Longrightarrow> idles c (and_then m g) y"
  unfolding idles_def and_then_def by fastforce

lemma idles_ret: "idles c (ret x) x"
  by (simp add: idles_def ret_def)

lemma idles_whenever: "idles c (whenever False m) ()"
  by (simp add: whenever_def idles_ret)

lemma idles_modify: "(\<And>s. idle c (f s) = idle c s \<and> frame (f s) = frame s) \<Longrightarrow> idles c (modify f) ()"
  by (simp add: idles_def modify_def)

lemma idles_ready:
  assumes "n < 5"
  shows "idles c (bool_ready key n c) False" "idles c (target_ready key n c) False" "idles c (bp_ready key n c) False"
proof -
  note q = quiet_ready [of c _ n key, OF _ assms]
  show "idles c (bool_ready key n c) False"
    unfolding idles_def
  proof (intro allI impI, goal_cases)
    case s: (1 s)
    obtain ps where "ports_ready key n c (bool_ports (all_ports s)) = Inr (False, ps)" "quiet_ports c ps" using q s by (auto simp: idle_def)
    then show ?case
      using s by (simp add: bool_ready_def on_ports_def idle_def frame_def)
  qed
  show "idles c (target_ready key n c) False"
    unfolding idles_def
  proof (intro allI impI, goal_cases)
    case s: (1 s)
    obtain ps where "ports_ready key n c (target_ports (all_ports s)) = Inr (False, ps)" "quiet_ports c ps" using q s by (auto simp: idle_def)
    then show ?case
      using s by (simp add: target_ready_def on_ports_def idle_def frame_def)
  qed
  show "idles c (bp_ready key n c) False"
    unfolding idles_def
  proof (intro allI impI, goal_cases)
    case s: (1 s)
    obtain ps where "ports_ready key n c (bp_ports (all_ports s)) = Inr (False, ps)" "quiet_ports c ps" using q s by (auto simp: idle_def)
    then show ?case
      using s by (simp add: bp_ready_def on_ports_def idle_def frame_def)
  qed
qed

lemma idles_instr_ready:
  assumes "n < 5" "key \<noteq> ''MEMORY_2_WRITEBACK''"
  shows "idles c (instr_ready key n c) False"
  unfolding idles_def
proof (intro allI impI)
  fix s :: "('a, 'b, 'c, 'd) perf_sim" assume s: "idle c s"
  then obtain w where "instr_ports (all_ports s) key = Some w" "quiet c w" using assms(2) by (auto simp: idle_def)
  then obtain w' where "ports_ready key n c (instr_ports (all_ports s)) = Inr (False, (instr_ports (all_ports s))(key \<mapsto> w'))"
    "quiet c w'" using quiet_ready_one [of "instr_ports (all_ports s)" key w c n] assms(1) by blast
  then show "\<exists>s'. instr_ready key n c s = Inr (False, s') \<and> idle c s' \<and> frame s' = frame s"
    using s assms(2) by (simp add: instr_ready_def on_ports_def idle_def frame_def)
qed

lemma idles_bool_signal: "n < 5 \<Longrightarrow> idles c (bool_signal key n c) False"
  unfolding bool_signal_def by (rule idles_and_then [where x = False]) (simp_all add: idles_ret idles_ready)

lemma idles_either_signal: "idles c m False \<Longrightarrow> idles c m' x \<Longrightarrow> idles c (either_signal m m') x"
  unfolding either_signal_def by (rule idles_and_then [where x = False]) simp_all

lemma idles_set_wrong_path: "idles c (set_wrong_path b) ()"
  unfolding set_wrong_path_def by (rule idles_modify) (simp add: idle_def frame_def)

lemma idles_read_target: "idles c (read_target key c) no_target"
  unfolding read_target_def by (rule idles_and_then [where x = False]) (simp_all add: idles_ready idles_ret)

lemma idles_get_target: "idles c (get_target c) no_target"
proof -
  have choose: "idles c (and_then (has_prefetch ''wrong-path'') (\<lambda>enabled. and_then (whenever enabled (set_wrong_path False)) (\<lambda>_. ret no_target))) no_target"
    unfolding idles_def
  proof (intro allI impI, goal_cases)
    case s: (1 s)
    have w: "idles c (and_then (whenever b (set_wrong_path False)) (\<lambda>_. ret no_target)) no_target" for b
      by (rule idles_and_then [where x = "()"]; cases b) (simp_all add: whenever_def idles_ret idles_set_wrong_path)
    show ?case
      unfolding has_prefetch_def and_then_def [of "gets f" for f] gets_def
      by simp (rule w [unfolded idles_def, rule_format, OF s])
  qed
  show ?thesis
    unfolding get_target_def
    by (rule idles_and_then [OF idles_bool_signal], simp,
      (rule idles_and_then [OF idles_read_target])+, simp add: no_target_def, rule choose [unfolded no_target_def])
qed

lemma idles_fetch_clock: "idles c (fetch_clock I M junk c) ()"
proof -
  have bp: "idles c (clock_bp c) ()"
    unfolding clock_bp_def
    by (rule idles_and_then [where x = False], simp add: idles_ready, rule idles_and_then [where x = "()"],
      simp add: idles_whenever, rule idles_and_then [where x = False], simp add: idles_ready, simp add: idles_whenever)
  have "idles c (get_cached_target c) no_target"
    unfolding get_cached_target_def
    by (rule idles_and_then [where x = False], simp add: idles_ready, simp, rule idles_and_then [OF idles_get_target])
      (simp add: idles_ret no_target_def)
  then show ?thesis
    unfolding fetch_clock_def by (rule idles_and_then [OF bp idles_and_then]) (simp add: idles_ret no_target_def)
qed

lemma idles_modify_bypass: "idles c (modify_bypass (\<lambda>b. Some (f b))) ()"
  by (simp add: idles_def modify_bypass_def ask_bypass_def modify_decode_def and_then_def modify_def idle_def frame_def or_error_def)

lemmas idles_not = idles_and_then [where x = False]
lemmas idles_done = idles_and_then [where x = "()"]

lemma idles_decode_clock: "idles c (decode_clock I c) ()"
  unfolding decode_clock_def decode_is_flush_def
  apply (rule idles_not, rule idles_bool_signal, simp)
  apply (rule idles_not, intro idles_either_signal idles_bool_signal, simp, simp)
  apply (rule idles_done, simp add: idles_modify_bypass)
  apply (rule idles_not, simp add: idles_instr_ready, rule idles_done, rule idles_whenever)
  apply (rule idles_not, simp add: idles_ready, simp, rule idles_done, rule idles_whenever)
  apply (rule idles_not, simp add: idles_instr_ready, rule idles_not)
  apply (simp_all add: idles_instr_ready idles_ret)
  done

lemma idles_stage_is_flush: "m < 5 \<Longrightarrow> n < 5 \<Longrightarrow> idles c (stage_is_flush m n c) False"
  unfolding stage_is_flush_def by (intro idles_either_signal idles_bool_signal)

lemma idles_execute_clock: "idles c (execute_clock c) ()"
  unfolding execute_clock_def long_unit_def
  by (rule idles_and_then [OF idles_stage_is_flush], simp, simp, rule idles_and_then [where x = "()"])
    (simp add: modify_execute_def idle_def frame_def idles_modify, simp,
      rule idles_and_then [where x = "()"], rule idles_and_then [OF idles_instr_ready], simp, simp, rule idles_whenever,
      rule idles_and_then [where x = False], simp_all add: idles_instr_ready idles_ret)

lemma idles_mem_clock: "idles c (mem_clock I M junk c) ()"
  unfolding mem_clock_def
  by (rule idles_and_then [OF idles_stage_is_flush], simp, simp, simp, rule idles_and_then [where x = False])
    (simp_all add: idles_instr_ready idles_ret)

lemma idles_branch_clock: "idles c (branch_clock c) ()"
  unfolding branch_clock_def by (rule idles_and_then [where x = False]) (simp_all add: idles_instr_ready idles_ret)

section \<open>One instruction\<close>

definition empty_port :: "nat \<Rightarrow> 'a write_port" where
  "empty_port n = (new_write_port [] 1)\<lparr>initialized_bandwidth := 1, fanout := n,
     destinations := replicate n (read_port_init 1 (new_read_port [] 0))\<rparr>"

definition full_port :: "'a \<Rightarrow> 'a write_port" where
  "full_port x = (empty_port 1)\<lparr>destinations := [\<lparr>read_key = [], latency = 0, read_last_cycle = 0,
     queue = \<lparr>arena = [Some (x, 0)], p_front = 0, p_back = 0, occupied = 1, capacity = 1\<rparr>\<rparr>]\<rparr>"

lemma quiet_empty_port: "quiet 0 (empty_port 5)"
  by (simp add: quiet_def empty_port_def new_write_port_def read_port_init_def new_read_port_def pq_resize_def)

lemma full_port_read:
  assumes "ps key = Some (full_port x)"
  shows "\<exists>w ps'. ports_ready key 0 0 ps = Inr (True, ps) \<and> ports_read key 0 0 ps = Inr (x, ps(key \<mapsto> w))"
  using assms
  by (simp add: ports_ready_def ports_read_def with_reader_def port_failure_def full_port_def is_ready_def read_port_def
    cleanup_stale_data_def update_last_cycle_def drop_stale.simps [of 0] pq_empty_def pq_front_def arena_at_def fun_upd_idem) blast

lemma empty_port_write:
  "\<exists>w. write_to_port x 0 (empty_port 1) = Inr w \<and> destinations w = destinations (full_port x)"
  by (simp add: write_to_port_def empty_port_def new_write_port_def increment_write_counter_def update_last_cycle_def basic_write_def
    emplaceData_def cleanup_stale_data_def read_port_init_def new_read_port_def drop_stale.simps [of 0] pq_empty_def pq_resize_def
    pq_emplace_def arena_emplace_def full_port_def add_latency_def allocate_def advance_ptr_def Let_def)

text \<open>A nop, as the functional simulator executes it.\<close>

definition nop_sim :: "(uint32, 32 mips_instr, unit) func_sim" where
  "nop_sim = new_func_sim (mips_isa V_mars) little ()"

definition nop_instr :: "32 mips_instr perf_instr" where
  "nop_instr = \<lparr>func = fst (projr (step (mips_isa V_mars) zero_memory (\<lambda>_. 0) nop_sim)),
     bp_data = \<lparr>bp_pc = 0, bp_is_taken = False, bp_target = 4, bp_is_hit = False\<rparr>\<rparr>"

lemma nop_entry: "get_table_entry 0 = instr_nop"
  by (simp add: get_table_entry_def)

lemma zero_memory_read: "read_mem zero_memory (\<lambda>_. 0) little () a = (0 :: uint32)"
proof -
  have "pack_array little (replicate n 0) = (0 :: uint32)" for n
    by (rule bit_word_eqI) (simp add: bit_pack_array)
  then show ?thesis by (simp add: read_mem_def zero_memory_def fill_buffer_def)
qed

lemma nop_fetch:
  assumes "mips_instr V_mars little 0 0 = Some i"
  shows "sim_fetch (mips_isa V_mars) zero_memory (\<lambda>_. 0) nop_sim = Inr (i, nop_sim)"
proof -
  have f: "fst (ic_find (imem nop_sim) 0) = False" by (simp add: nop_sim_def new_func_sim_def ic_find_def new_instr_cache_def)
  have s: "get_pc nop_sim = 0" "imem_endian nop_sim = little" "mem nop_sim = ()" by (simp_all add: nop_sim_def new_func_sim_def get_pc_def)
  show ?thesis
    using f assms by (cases "ic_find (imem nop_sim) 0") (simp add: sim_fetch_def s zero_memory_read cached_fetch_instr_def mips_isa_def)
qed

lemma nop_sim_fields:
  "sim_sequence_id nop_sim = 0" "pc nop_sim = replicate 8 0" "sim_delayed_slots nop_sim = 0" "nops_in_a_row nop_sim = 0"
  by (simp_all add: nop_sim_def new_func_sim_def)

lemma nop_retire:
  assumes "mips_instr V_mars little 0 0 = Some i"
  shows "\<exists>i' sim. retire (mips_isa V_mars) zero_memory (\<lambda>_. 0) i nop_sim = Inr (i', sim) \<and> trap i' = NO_TRAP
    \<and> valid_reg mips_class (dst i' ! 0) \<and> valid_reg mips_class (dst i' ! 1)"
proof -
  obtain srcs dsts where d: "length srcs = 3" "length dsts = 2" "\<forall>r \<in> set srcs \<union> set dsts. valid_reg mips_class r"
    and i: "i = init_target ((init (get_table_entry 0) V_mars (new_mips_instr 0 0 True little)) \<lparr>src := srcs, dst := dsts, v_imm := decoded_imm 0\<rparr>)"
    using mips_instr_Some [of 0 V_mars little 0, where 'a = 32] assms by auto
  have v: "valid_reg mips_class (srcs ! 0)" "valid_reg mips_class (srcs ! 1)" "valid_reg mips_class (dsts ! 0)" "valid_reg mips_class (dsts ! 1)"
    using d by (simp_all add: nth_mem)
  have sup: "is_supported MIPS_I_Instr V_mars" by code_simp
  have f: "executor i = X_do_nothing" "operation i = OUT_ARITHM" "delayed_slots i = 0"
    using mips_instr_fields [OF assms] by (simp_all add: nop_entry instr_nop_def entry_def is_jump_def sup)
  have wf: "wf_rf mips_class (rf nop_sim)" by (simp add: nop_sim_def new_func_sim_def mips_isa_def mips_rf.wf_new)
  have di: "trap i = NO_TRAP" "dst i = dsts" "src i = srcs" "wf_datapath i" "wf_datapath (i\<lparr>sequence_id := 0\<rparr>)"
    by (simp_all add: i wf_datapath_def)
  let ?i = "i\<lparr>sequence_id := 0\<rparr>"
  obtain vs where r: "read_sources mips_class (rf nop_sim) ?i = Some (?i\<lparr>v_src := vs\<rparr>)"
    using mips_rf.read_sources_total [OF wf, of ?i] d(1) v(1,2) di by simp
  have e: "execute (?i\<lparr>v_src := vs\<rparr>) = ?i\<lparr>v_src := vs, complete := True\<rparr>" using f(1) by (simp add: execute_def)
  obtain regs where w: "write_dst mips_class (?i\<lparr>v_src := vs, complete := True\<rparr>) (rf nop_sim) = Some regs"
    using mips_rf.write_dst_wf [OF wf, of "?i\<lparr>v_src := vs, complete := True\<rparr>"] v(3,4) di by auto
  show ?thesis
  proof -
    have nops: "update_and_check_nop_counter I j t = Inr (t\<lparr>nops_in_a_row := (if instr_is_nop I j then 1 else 0)\<rparr>)" if "nops_in_a_row t = 0"
      for I :: "(mips_register, 32 mips_instr) isa" and j and t :: "(uint32, 32 mips_instr, unit) func_sim"
      using that by (simp add: update_and_check_nop_counter_def Let_def)
    have up: "update_pc 0 a t = Inr (t\<lparr>pc := (pc t)[0 := a], sim_delayed_slots := 0\<rparr>)" if "2 \<le> length (pc t)" "sim_delayed_slots t = 0"
      for a and t :: "(uint32, 32 mips_instr, unit) func_sim"
      using update_pc_one [OF that(1), of 0 a] that(2) by simp
    show ?thesis
      using v by (simp add: retire_def mips_isa_def r e w load_store_def operation_predicates f or_error_def up nops nop_sim_fields di Let_def)
  qed
qed

lemma nop_step:
  "\<exists>sim. step (mips_isa V_mars) zero_memory (\<lambda>_. 0) nop_sim = Inr (func nop_instr, sim)"
  "trap (func nop_instr) = NO_TRAP" "valid_reg mips_class (dst (func nop_instr) ! 0)" "valid_reg mips_class (dst (func nop_instr) ! 1)"
proof -
  obtain i where i: "mips_instr V_mars little 0 0 = Some (i :: 32 mips_instr)"
    using mips_instr_Some [of 0 V_mars little 0, where 'a = 32] by auto
  obtain i' sim where r: "retire (mips_isa V_mars) zero_memory (\<lambda>_. 0) i nop_sim = Inr (i', sim)" "trap i' = NO_TRAP"
    "valid_reg mips_class (dst i' ! 0)" "valid_reg mips_class (dst i' ! 1)"
    using nop_retire [OF i] by blast
  have s: "step (mips_isa V_mars) zero_memory (\<lambda>_. 0) nop_sim = Inr (i', sim)"
    by (simp add: step_def nop_fetch [OF i] r)
  then have "func nop_instr = i'" by (simp add: nop_instr_def)
  then show "\<exists>sim. step (mips_isa V_mars) zero_memory (\<lambda>_. 0) nop_sim = Inr (func nop_instr, sim)"
    "trap (func nop_instr) = NO_TRAP" "valid_reg mips_class (dst (func nop_instr) ! 0)" "valid_reg mips_class (dst (func nop_instr) ! 1)"
    using s r by auto
qed

section \<open>A run\<close>

definition example_perf :: "(uint32, 32 mips_instr, unit, unit) perf_sim" where
  "example_perf =
     \<lparr>all_ports = \<lparr>bool_ports = (\<lambda>_. Some (empty_port 5)), target_ports = (\<lambda>_. Some (empty_port 5)),
        instr_ports = (\<lambda>key. Some (if key = ''MEMORY_2_WRITEBACK'' then full_port nop_instr else empty_port 5)),
        bp_ports = (\<lambda>_. Some (empty_port 5)), command_ports = (\<lambda>_. Some (empty_port 5)),
        output_ports = (\<lambda>_. Some (empty_port 5)), trap_ports = (\<lambda>_. Some (empty_port 1))\<rparr>,
      perf_rf = new_rf mips_class, perf_mem = (),
      fetch = \<lparr>fetch_imem = new_instr_cache INSTR_CACHE_CAPACITY, fetch_endian = little,
        fetch_bp = \<lparr>directions = [], targets = [], bp_tags = AlwaysHit\<rparr>, fetch_tags = AlwaysHit, icache_line_size = 64,
        fetchahead_size = 32, prefetch_method = ''no-prefetch'', is_wrong_path = False\<rparr>,
      decode = new_decode mips_class 3, execution = new_execute 3, branch = new_branch,
      writeback = (new_writeback (mips_isa V_mars) little DriverMIPS32 ())\<lparr>
        wb_checker := \<lparr>checker_sim = nop_sim, checker_driver = DriverMIPS32, active = True\<rparr>\<rparr>,
      perf_kernel = (), curr_cycle = 0, current_trap = NO_TRAP\<rparr>"

lemma example_idle: "idle 0 (example_perf\<lparr>writeback := w\<rparr>)"
  by (simp add: idle_def quiet_ports_def example_perf_def quiet_empty_port)

text \<open>The stages before writeback, one after another.\<close>

lemma idlesD: "idles c m x \<Longrightarrow> idle c s \<Longrightarrow> \<exists>s'. m s = Inr (x, s') \<and> idle c s' \<and> frame s' = frame s"
  by (simp add: idles_def)

lemma idle_front:
  assumes "idle c s"
  shows "\<exists>s'. clock_tree I M junk causes exec c s
      = and_then (writeback_clock I M junk causes exec c) (\<lambda>_. clock_halt c) s' \<and> idle c s' \<and> frame s' = frame s"
proof -
  obtain s1 where 1: "fetch_clock I M junk c s = Inr ((), s1)" "idle c s1" "frame s1 = frame s"
    using idlesD [OF idles_fetch_clock assms] by blast
  obtain s2 where 2: "decode_clock I c s1 = Inr ((), s2)" "idle c s2" "frame s2 = frame s"
    using idlesD [OF idles_decode_clock 1(2)] 1(3) by auto
  obtain s3 where 3: "execute_clock c s2 = Inr ((), s3)" "idle c s3" "frame s3 = frame s"
    using idlesD [OF idles_execute_clock 2(2)] 2(3) by auto
  obtain s4 where 4: "mem_clock I M junk c s3 = Inr ((), s4)" "idle c s4" "frame s4 = frame s"
    using idlesD [OF idles_mem_clock [of c I M junk] 3(2)] 3(3) by auto
  obtain s5 where 5: "branch_clock c s4 = Inr ((), s5)" "idle c s5" "frame s5 = frame s"
    using idlesD [OF idles_branch_clock 4(2)] 4(3) by auto
  then show ?thesis using 1 2 3 4 5 by (auto simp: clock_tree_def and_then_def)
qed

text \<open>Writeback finds the nop and nothing else.\<close>

lemma idle_read_instructions:
  assumes "idle 0 s" "instr_ports (all_ports s) ''MEMORY_2_WRITEBACK'' = Some (full_port i)"
  shows "\<exists>s'. read_instructions 0 s = Inr ([i], s') \<and> quiet_ports 0 (output_ports (all_ports s'))
    \<and> trap_ports (all_ports s') = trap_ports (all_ports s) \<and> keeps_back_end s s'"
proof -
  have none: "idles 0 (read_ready key 0) []" if "key \<noteq> ''MEMORY_2_WRITEBACK''" for key
    unfolding read_ready_def by (rule idles_not) (simp_all add: idles_instr_ready that idles_ret)
  obtain s1 where s1: "read_ready ''BRANCH_2_WRITEBACK'' 0 s = Inr ([], s1)" "idle 0 s1" "frame s1 = frame s"
    using idlesD [OF none assms(1), of "''BRANCH_2_WRITEBACK''"] by auto
  obtain w ps where w: "ports_ready ''MEMORY_2_WRITEBACK'' 0 0 (instr_ports (all_ports s1)) = Inr (True, instr_ports (all_ports s1))"
    "ports_read ''MEMORY_2_WRITEBACK'' 0 0 (instr_ports (all_ports s1)) = Inr (i, ps)"
    "ps = (instr_ports (all_ports s1))(''MEMORY_2_WRITEBACK'' \<mapsto> w)"
    using full_port_read [of "instr_ports (all_ports s1)" "''MEMORY_2_WRITEBACK''" i] s1(3) assms(2) by (auto simp: frame_def)
  let ?s2 = "s1\<lparr>all_ports := (all_ports s1)\<lparr>instr_ports := ps\<rparr>\<rparr>"
  have s2: "read_ready ''MEMORY_2_WRITEBACK'' 0 s1 = Inr ([i], ?s2)"
    using w(1,2) by (simp add: read_ready_def and_then_def instr_ready_def instr_read_def on_ports_def ret_def)
  have "idle 0 ?s2" using s1(2) w(3) by (simp add: idle_def)
  then obtain s3 where s3: "read_ready ''EXECUTE_2_WRITEBACK'' 0 ?s2 = Inr ([], s3)" "idle 0 s3" "frame s3 = frame ?s2"
    using idlesD [OF none, of "''EXECUTE_2_WRITEBACK''" ?s2] by auto
  have "read_instructions 0 s = Inr ([i], s3)"
    using s1(1) s2 s3(1) by (simp add: read_instructions_def and_then_def ret_def)
  then show ?thesis
    using s3(2,3) s1(3) by (auto simp: idle_def frame_def keeps_back_end_def back_end_def)
qed

lemma example_writeback:
  assumes "quiet_ports 0 (output_ports (all_ports s))" "perf_rf s = new_rf mips_class"
    "trap_ports (all_ports s) = (\<lambda>_. Some (empty_port 1))"
    "writeback s = (writeback example_perf)\<lparr>instrs_to_run := 1\<rparr>"
  shows "\<exists>s' w. writeback_instruction_system (mips_isa V_mars) zero_memory (\<lambda>_. 0) causes dummy_kernel 0 nop_instr s = Inr ((), s')
    \<and> executed_instrs (writeback s') = 1 \<and> trap_ports (all_ports s') ''WRITEBACK_2_CORE_HALT'' = Some w
    \<and> destinations w = destinations (full_port BREAKPOINT)"
proof -
  have C: "reg_class (mips_isa V_mars) = mips_class" by (simp add: mips_isa_def)
  obtain regs where regs: "write_dst mips_class (func nop_instr) (new_rf mips_class) = Some regs"
    using mips_rf.write_dst_wf [OF mips_rf.wf_new nop_step(3,4)] by blast
  obtain sim where sim: "step (mips_isa V_mars) zero_memory (\<lambda>_. 0) nop_sim = Inr (func nop_instr, sim)" using nop_step(1) by blast
  obtain ps where ps: "ports_write ''WRITEBACK_2_EXECUTE_BYPASS'' (v_dst (func nop_instr)) 0 (output_ports (all_ports s)) = Inr ((), ps)"
    using quiet_write [OF assms(1)] by blast
  obtain w where w: "write_to_port BREAKPOINT 0 (empty_port 1) = Inr w" "destinations w = destinations (full_port BREAKPOINT)"
    using empty_port_write [of BREAKPOINT] by auto
  have same: "instr_same_checker (mips_isa V_mars) i i" for i :: "32 mips_instr"
    by (simp add: mips_isa_def is_same_checker_def is_same_def is_same_bytes_def)
  let ?w = "writeback example_perf"
  have wb: "wb_checker ?w = \<lparr>checker_sim = nop_sim, checker_driver = DriverMIPS32, active = True\<rparr>" "wb_driver ?w = DriverMIPS32" "executed_instrs ?w = 0"
    by (simp_all add: example_perf_def new_writeback_def)
  let ?s1 = "s\<lparr>perf_rf := regs, all_ports := (all_ports s)\<lparr>output_ports := ps\<rparr>\<rparr>"
  let ?ch = "\<lparr>checker_sim = sim, checker_driver = DriverMIPS32, active = True\<rparr>"
  let ?s2 = "?s1\<lparr>writeback := ?w\<lparr>instrs_to_run := 1, wb_checker := ?ch, executed_instrs := 1, last_writeback_cycle := 0,
    next_PC := address (get_actual_target nop_instr)\<rparr>\<rparr>"
  have "output_write ''WRITEBACK_2_EXECUTE_BYPASS'' (v_dst (func nop_instr)) 0 (s\<lparr>perf_rf := regs\<rparr>) = Inr ((), ?s1)"
    by (simp add: output_write_def on_ports_def ps)
  moreover have "check (mips_isa V_mars) zero_memory (\<lambda>_. 0) (func nop_instr) ?s1
      = Inr ((), ?s1\<lparr>writeback := ?w\<lparr>instrs_to_run := 1, wb_checker := ?ch\<rparr>\<rparr>)"
    by (simp add: check_def get_checker_def stage_simps assms(4) wb sim same set_checker_sim_def modify_writeback_def)
  ultimately have wi: "writeback_instruction (mips_isa V_mars) zero_memory (\<lambda>_. 0) 0 nop_instr s = Inr ((), ?s2)"
    by (simp add: writeback_instruction_def and_then_def gets_def lift_def or_error_def C assms(2) regs modify_def modify_writeback_def wb)
  have no_trap: "mips_handle_trap causes K NO_TRAP x t = Inr (NO_TRAP, t)" for K :: "'s cpu_model" and x t
    by (simp add: mips_handle_trap_def)
  have "kernel_step dummy_kernel NO_TRAP ?s2 = Inr (NO_TRAP, ?s2)"
    by (simp add: kernel_step_def stage_simps handle_instruction_def set_checker_sim_def modify_writeback_def)
  moreover have "driver_step causes (mips_isa V_mars) NO_TRAP (PC (func nop_instr)) ?s2 = Inr (NO_TRAP, ?s2)"
    by (simp add: driver_step_def wb no_trap)
  moreover have "checker_driver_step causes (mips_isa V_mars) NO_TRAP (PC (func nop_instr)) ?s2 = Inr ((), ?s2)"
    by (simp add: checker_driver_step_def get_checker_def stage_simps no_trap set_checker_sim_def modify_writeback_def)
  moreover have "trap_write ''WRITEBACK_2_CORE_HALT'' BREAKPOINT 0 ?s2
      = Inr ((), ?s2\<lparr>all_ports := (all_ports ?s2)\<lparr>trap_ports := (trap_ports (all_ports s))(''WRITEBACK_2_CORE_HALT'' \<mapsto> w)\<rparr>\<rparr>)"
    by (simp add: trap_write_def on_ports_def ports_write_def assms(3) port_failure_def w(1) del: One_nat_def)
  ultimately have "writeback_instruction_system (mips_isa V_mars) zero_memory (\<lambda>_. 0) causes dummy_kernel 0 nop_instr s
      = Inr ((), ?s2\<lparr>all_ports := (all_ports ?s2)\<lparr>trap_ports := (trap_ports (all_ports s))(''WRITEBACK_2_CORE_HALT'' \<mapsto> w)\<rparr>\<rparr>)"
    by (simp add: writeback_instruction_system_def and_then_def wi nop_step(2) gets_def ret_def)
  then show ?thesis using w(2) by simp
qed

lemma full_halt:
  assumes "trap_ports (all_ports s) ''WRITEBACK_2_CORE_HALT'' = Some w" "destinations w = destinations (full_port BREAKPOINT)"
  shows "\<exists>p. clock_halt 0 s = Inr ((), s\<lparr>all_ports := p, current_trap := BREAKPOINT\<rparr>)"
  using assms
  by (simp add: clock_halt_def stage_simps trap_ready_def trap_read_def on_ports_def ports_ready_def ports_read_def with_reader_def
    port_failure_def full_port_def is_ready_def read_port_def cleanup_stale_data_def update_last_cycle_def drop_stale.simps [of 0]
    pq_empty_def pq_front_def arena_at_def) blast

lemma example_run:
  "\<exists>s'. perf_run (mips_isa V_mars) zero_memory (\<lambda>_. 0) example_causes dummy_kernel 1 example_perf = Some (Inr (BREAKPOINT, s'))
    \<and> executed_instrs (writeback s') = 1"
proof -
  let ?I = "mips_isa V_mars" and ?junk = "\<lambda>_ :: nat. 0 :: byte"
  define s where "s = example_perf\<lparr>current_trap := NO_TRAP, writeback := (writeback example_perf)\<lparr>instrs_to_run := 1\<rparr>\<rparr>"
  have s: "idle 0 s" "curr_cycle s = 0" "current_trap s = NO_TRAP" "perf_rf s = new_rf mips_class"
    "trap_ports (all_ports s) = (\<lambda>_. Some (empty_port 1))" "instr_ports (all_ports s) ''MEMORY_2_WRITEBACK'' = Some (full_port nop_instr)"
    "writeback s = (writeback example_perf)\<lparr>instrs_to_run := 1\<rparr>"
    using example_idle by (simp_all add: s_def idle_def) (simp_all add: example_perf_def)
  obtain s1 where s1: "clock_tree ?I zero_memory ?junk example_causes dummy_kernel 0 s
      = and_then (writeback_clock ?I zero_memory ?junk example_causes dummy_kernel 0) (\<lambda>_. clock_halt 0) s1" "idle 0 s1" "frame s1 = frame s"
    using idle_front [OF s(1)] by blast
  obtain s2 where s2: "bool_signal ''WRITEBACK_2_ALL_FLUSH'' 4 0 s1 = Inr (False, s2)" "idle 0 s2" "frame s2 = frame s"
    using idlesD [OF idles_bool_signal s1(2), of 4] s1(3) by auto
  obtain s3 where s3: "read_instructions 0 s2 = Inr ([nop_instr], s3)" "quiet_ports 0 (output_ports (all_ports s3))"
    "trap_ports (all_ports s3) = trap_ports (all_ports s2)" "keeps_back_end s2 s3"
    using idle_read_instructions [OF s2(2), of nop_instr] s2(3) s(6) by (auto simp: frame_def)
  have f: "perf_rf s3 = new_rf mips_class" "trap_ports (all_ports s3) = (\<lambda>_. Some (empty_port 1))"
    "writeback s3 = (writeback example_perf)\<lparr>instrs_to_run := 1\<rparr>"
    using s2(3) s3(3,4) s by (auto simp: frame_def keeps_back_end_def back_end_def)
  obtain s4 w where s4: "writeback_instruction_system ?I zero_memory ?junk example_causes dummy_kernel 0 nop_instr s3 = Inr ((), s4)"
    "executed_instrs (writeback s4) = 1" "trap_ports (all_ports s4) ''WRITEBACK_2_CORE_HALT'' = Some w"
    "destinations w = destinations (full_port BREAKPOINT)"
    using example_writeback [OF s3(2) f] by blast
  obtain p where p: "clock_halt 0 s4 = Inr ((), s4\<lparr>all_ports := p, current_trap := BREAKPOINT\<rparr>)" using full_halt [OF s4(3,4)] by blast
  have "writeback_clock ?I zero_memory ?junk example_causes dummy_kernel 0 s1 = Inr ((), s4)"
    by (simp add: writeback_clock_def and_then_def s2(1) s3(1) s4(1) ret_def)
  then have "clock ?I zero_memory ?junk example_causes dummy_kernel s
      = Inr (s4\<lparr>all_ports := p, current_trap := BREAKPOINT, curr_cycle := curr_cycle s4 + 1\<rparr>)"
    by (simp add: clock_def s(2) s1(1) and_then_def p)
  then have "perf_run ?I zero_memory ?junk example_causes dummy_kernel 1 example_perf
      = Some (Inr (BREAKPOINT, s4\<lparr>all_ports := p, current_trap := BREAKPOINT, curr_cycle := curr_cycle s4 + 1\<rparr>))"
    unfolding perf_run_def s_def [symmetric] by (simp add: run_clocks.simps s(3))
  then show ?thesis using s4(2) by simp
qed

definition example_service :: "(uint32, 32 mips_instr, unit, unit) kernel_view \<Rightarrow> kernel_answer \<times> (uint32, 32 mips_instr, unit, unit) kernel_view" where
  "example_service = dummy_kernel"



end
