(* ===== verification/Branch_Resolution.thy ===== *)
theory Branch_Resolution
  imports Execution_Stages Mips_Instr
begin

text \<open>
  The stages settle on the right path: the target that fetch predicted, the one that decode
  corrects it to and the one that branch corrects that to, taken together, are the target of the
  executed jump. MARS has no delay slots, which the pipeline does not model.
\<close>

section \<open>Predictions and outcomes\<close>

lemma bp_infoD:
  assumes "get_bp_info B a = Inr b"
  shows "\<not> bp_is_hit b \<Longrightarrow> \<not> bp_is_taken b" "\<not> bp_is_taken b \<Longrightarrow> bp_target b = a + 4"
proof -
  have *: "(\<not> bp_is_hit b \<longrightarrow> \<not> bp_is_taken b) \<and> (\<not> bp_is_taken b \<longrightarrow> bp_target b = a + 4)"
  proof (cases "array_read_no_touch (bp_tags B) a")
    case (Pair hit way)
    then show ?thesis
      using assms
      by (cases "at2 (targets B) way (unat (array_set (bp_tags B) a))")
        (auto simp: get_bp_info_def is_hit_def Bpu.is_taken_def get_target_def Let_def split: if_splits elim!: chain.elims)
  qed
  show "\<not> bp_is_hit b \<Longrightarrow> \<not> bp_is_taken b" "\<not> bp_is_taken b \<Longrightarrow> bp_target b = a + 4" using * by blast+
qed

text \<open>What executing a jump must leave for the stages to be right: its outcome agrees with its next address.\<close>

definition settled :: "Addr \<Rightarrow> 'm operation_scheme \<Rightarrow> bool" where
  "settled a i \<longleftrightarrow> (if Operation.is_taken i then is_indirect_jump i \<or> new_PC i = Operation.target i else new_PC i = a + 4)"

definition settled_target :: "'m operation_scheme perf_instr \<Rightarrow> target" where
  "settled_target p =
     (if is_misprediction (func p) (bp_data p) then get_actual_target p
      else if decode_misprediction (func p) (bp_data p) then get_actual_decoded_target p
      else get_predicted_target p)"

lemma settled_path:
  assumes "get_bp_info B a = Inr (bp_data p)" "settled a (func p)" "is_jump (func p)"
  shows "settled_target p = get_actual_target p"
  using bp_infoD [OF assms(1)] assms(2,3)
  by (cases "operation (func p)")
    (auto simp: settled_target_def is_misprediction_def decode_misprediction_def get_actual_target_def get_actual_decoded_target_def
      get_predicted_target_def settled_def operation_predicates split: if_splits)

section \<open>Every jump of MARS\<close>

definition branch_executor :: "execute_fn \<Rightarrow> bool" where
  "branch_executor f \<longleftrightarrow> (case f of
     Control_fn (X_branch p) \<Rightarrow> True | Control_fn (X_branch_and_link p) \<Rightarrow> True | Control_fn X_unknown_instruction \<Rightarrow> True | _ \<Rightarrow> False)"

definition jump_executor :: "execute_fn \<Rightarrow> bool" where
  "jump_executor f \<longleftrightarrow> f = Control_fn (X_jump J_j) \<or> f = Control_fn (X_jump_and_link J_j)"

lemmas jump_executors =
  mips_bc1f_def mips_bc1fl_def mips_bc1t_def mips_bc1tl_def mips_beq_def mips_beql_def mips_bgez_def mips_bgezal_def mips_bgezall_def
  mips_bgezl_def mips_bgtz_def mips_bgtzl_def mips_blez_def mips_blezl_def mips_bltz_def mips_bltzal_def mips_bltzall_def
  mips_bltzl_def mips_bne_def mips_bnel_def mips_j_def mips_jal_def

definition jump_entry :: "mips_entry \<Rightarrow> bool" where
  "jump_entry e \<longleftrightarrow>
     (if entry_operation e = OUT_BRANCH \<or> entry_operation e = OUT_BRANCH_LIKELY then branch_executor (entry_function e)
      else if entry_operation e = OUT_J_JUMP then jump_executor (entry_function e) \<and> entry_versions e = MIPS_I_Instr
      else True)"

lemma jump_entry_entry:
  "jump_entry (entry n f op sz t p s d v) \<longleftrightarrow>
     (if op = OUT_BRANCH \<or> op = OUT_BRANCH_LIKELY then branch_executor f
      else if op = OUT_J_JUMP then jump_executor f \<and> v = MIPS_I_Instr else True)"
  by (simp add: jump_entry_def entry_def)

lemma jump_tables: "\<forall>t \<in> set all_isa_maps. \<forall>(k, e) \<in> set t. jump_entry e"
  by (simp add: all_isa_maps_def isa_tables jump_entry_entry branch_executor_def jump_executor_def jump_executors)

lemma jump_get_table_entry: "jump_entry (get_table_entry bytes)"
  using jump_tables by (rule get_table_entry_all) (simp_all add: unknown_entry_def instr_nop_def jump_entry_entry)

lemma new_mips_not_taken: "is_taken_branch (new_mips_instr a w b e) = False"
  by (simp add: new_mips_instr_def new_base_instruction_def new_operation_def operation.extend_def base_instruction.extend_def)

lemma init_not_taken [simp]: "is_taken_branch (init e v i) = is_taken_branch i" "is_taken_branch (init_target i) = is_taken_branch i"
  by (simp_all add: init_def init_target_def Let_def)

lemma mips_not_taken: "mips_instr v e w a = Some (i :: 'a::len mips_instr) \<Longrightarrow> \<not> is_taken_branch i"
  using mips_instr_Some [of w v e a, where 'a = 'a] by (auto simp: new_mips_not_taken)

lemma branch_outcome:
  assumes "branch_executor (executor i)" "\<not> is_taken_branch i"
  shows "new_PC (execute i) = (if is_taken_branch (execute i) then target i else new_PC i)"
  using assms
  by (auto simp: execute_def branch_executor_def Alu.branch_def branch_and_link_def unknown_instruction_def alu_state
    split: execute_fn.splits control_fn.splits)

lemma jump_outcome:
  assumes "jump_executor (executor i)"
  shows "new_PC (execute i) = target i"
  using assms
  by (auto simp: execute_def jump_executor_def j_target_def jump_def jump_and_link_def alu_state)

lemma mips_settled:
  fixes i :: "'a::len mips_instr"
  assumes "mips_instr v e w a = Some i" "v = V_mars \<or> v = V_mars64" "is_jump i"
  shows "settled a (execute (i\<lparr>v_src := vs, sequence_id := n\<rparr>))"
proof -
  note f = mips_instr_fields [OF assms(1)]
  let ?i = "i\<lparr>v_src := vs, sequence_id := n\<rparr>" and ?e = "get_table_entry w"
  have k: "operation (execute ?i) = operation i" "Operation.target (execute ?i) = Operation.target i"
    using static_eqD [OF execute_static [of ?i]] by simp_all
  have pc: "new_PC ?i = a + 4" using f(6,7) assms(2) by auto
  have sup: "is_supported MIPS_I_Instr v" using assms(2) by (elim disjE; hypsubst; code_simp)
  consider (branch) "operation i = OUT_BRANCH \<or> operation i = OUT_BRANCH_LIKELY" | (direct) "operation i = OUT_J_JUMP"
    | (indirect) "operation i = OUT_R_JUMP"
    using assms(3) by (auto simp: operation_predicates)
  then show ?thesis
  proof cases
    case branch
    then have "branch_executor (executor ?i)"
      using jump_get_table_entry [of w] f(1,3) by (auto simp: jump_entry_def branch_executor_def mips_unknown_def)
    moreover have "\<not> is_taken_branch ?i" using mips_not_taken [OF assms(1)] by simp
    ultimately have "new_PC (execute ?i) = (if is_taken_branch (execute ?i) then Operation.target i else a + 4)"
      using branch_outcome [of ?i] pc by simp
    then show ?thesis using branch k by (auto simp: settled_def operation_predicates)
  next
    case direct
    then have "jump_executor (executor ?i)" using jump_get_table_entry [of w] f(1,3) sup by (auto simp: jump_entry_def)
    from jump_outcome [OF this] show ?thesis using direct k by (simp add: settled_def operation_predicates)
  next
    case indirect
    then show ?thesis using k by (simp add: settled_def operation_predicates)
  qed
qed

text \<open>C7: No wrong path is missed: for a jump of MARS, whatever the branch predictor answers at its address, the
  target fetch is sent to in the end is the address the instruction computes. Branch sends it there
  when it finds a misprediction, otherwise decode to the decoded target when it finds one, and
  otherwise the predicted target was right.\<close>
theorem wrong_path_detected:
  fixes i :: "'a::len mips_instr" and vs and n
  assumes "mips_instr v e w a = Some i" "v = V_mars \<or> v = V_mars64" "is_jump i" "get_bp_info B a = Inr b"
  defines "p \<equiv> \<lparr>func = execute (i\<lparr>v_src := vs, sequence_id := n\<rparr>), bp_data = b\<rparr>"
  shows "(if is_misprediction (func p) b then get_actual_target p
      else if decode_misprediction i b then get_actual_decoded_target p
      else get_predicted_target p) = get_actual_target p"
proof -
  let ?i = "i\<lparr>v_src := vs, sequence_id := n\<rparr>"
  have k: "operation (execute ?i) = operation i" "Operation.target (execute ?i) = Operation.target i"
    using static_eqD [OF execute_static [of ?i]] by simp_all
  have "is_jump (execute ?i)" using assms(3) k by (simp add: operation_predicates)
  moreover have "settled a (func p)" using mips_settled [OF assms(1-3)] by (simp add: p_def)
  ultimately have "settled_target p = get_actual_target p" using settled_path [of B a p] assms(4) by (simp add: p_def)
  moreover have "decode_misprediction i b = decode_misprediction (func p) b"
    by (simp add: decode_misprediction_def operation_predicates p_def k)
  moreover have "bp_data p = b" by (simp add: p_def)
  ultimately show ?thesis by (simp only: settled_target_def)
qed

definition empty_bp :: bp where
  "empty_bp = \<lparr>directions = [], targets = [], bp_tags = Infinite new_infinite\<rparr>"

text \<open>A taken branch from 0x1000 to 0xffc that the predictor does not know.\<close>

lemma wrong_path_detected_witness:
  "\<exists>(i :: 32 mips_instr) p. mips_instr V_mars little example_beq 0x1000 = Some i \<and> is_jump i
    \<and> p = \<lparr>func = execute (i\<lparr>v_src := [7, 7, 0], sequence_id := 0\<rparr>),
        bp_data = \<lparr>bp_pc = 0x1000, bp_is_taken = False, bp_target = 0x1004, bp_is_hit = False\<rparr>\<rparr>
    \<and> (if is_misprediction (func p) (bp_data p) then get_actual_target p
      else if decode_misprediction i (bp_data p) then get_actual_decoded_target p
      else get_predicted_target p) = get_actual_target p"
proof -
  obtain i :: "32 mips_instr" where i: "mips_instr V_mars little example_beq 0x1000 = Some i"
    using mips_instr_Some [where 'a = 32] by blast
  have "operation i = OUT_BRANCH" using i by (simp add: mips_instr_fields(1) get_table_entry_beq entry_def)
  then have j: "is_jump i" by (simp add: operation_predicates)
  have b: "get_bp_info empty_bp 0x1000 = Inr \<lparr>bp_pc = 0x1000, bp_is_taken = False, bp_target = 0x1004, bp_is_hit = False\<rparr>"
    by (simp add: get_bp_info_def is_hit_def empty_bp_def new_infinite_def infinite_read_no_touch_def Cache_Tag_Array.table_find_def)
  show ?thesis
    using wrong_path_detected [OF i disjI1 [OF HOL.refl] j b, where vs = "[7, 7, 0]" and n = 0] i j by auto
qed

end
