(* ===== verification/Argv_Loader.thy ===== *)
theory Argv_Loader
  imports Hierarchied_Memory
begin

text \<open>
  The loader of arguments, simulator/memory/argv_loader/argv_loader.h and argv_loader.cpp, with
  \<open>count_argc\<close> of infra/argv.h. It lays out the argument count, the two arrays of pointers and
  the strings they point to, as a program expects them above its stack pointer. The guest's
  word \<open>T\<close> is the type of an argument \<open>ty\<close>. An array of strings ended by a null pointer is
  the list of the strings, each without its terminator, and a missing array is \<open>None\<close>.
\<close>

section \<open>The loader\<close>

fun count_argc :: "byte list list \<Rightarrow> nat" where
  "count_argc [] = 0"
| "count_argc (s # argv) = Suc (count_argc argv)"

definition GUEST_WORD_SIZE :: "'a::len itself \<Rightarrow> nat" where
  "GUEST_WORD_SIZE ty = LENGTH('a) div 8"

definition place_nullptr :: "'a::len itself \<Rightarrow> endian \<Rightarrow> 'm memory_ops \<Rightarrow> Addr \<Rightarrow> 'm \<Rightarrow> mem_error + 'm" where
  "place_nullptr ty e M addr m = write_mem M e (0 :: 'a word) addr m"

definition place_nullterminator :: "endian \<Rightarrow> 'm memory_ops \<Rightarrow> Addr \<Rightarrow> 'm \<Rightarrow> mem_error + 'm" where
  "place_nullterminator e M addr m = write_mem M e (0 :: uint8) addr m"

fun and_then :: "'e + 'a \<Rightarrow> ('a \<Rightarrow> 'e + 'b) \<Rightarrow> 'e + 'b" where
  "and_then (Inl e) f = Inl e"
| "and_then (Inr x) f = f x"

text \<open>The loops of \<open>load_argv_contents\<close> and \<open>load_envp_contents\<close>: the string is placed at
  the offset and its address in the slot.\<close>

fun load_contents ::
  "'a::len itself \<Rightarrow> endian \<Rightarrow> 'm memory_ops \<Rightarrow> Addr \<Rightarrow> nat \<Rightarrow> byte list list \<Rightarrow> Addr \<Rightarrow> 'm \<Rightarrow> mem_error + Addr \<times> 'm" where
  "load_contents ty e M addr slot [] offset m = Inr (offset, m)"
| "load_contents ty e M addr slot (content # strings) offset m =
     and_then (write_mem M e (ucast (addr + offset) :: 'a word) (addr + of_nat (slot * GUEST_WORD_SIZE ty)) m) (\<lambda>m.
     and_then (write_string M content (addr + offset) m) (\<lambda>m.
     let offset = offset + of_nat (length content)
     in and_then (place_nullterminator e M (addr + offset) m) (\<lambda>m.
          load_contents ty e M addr (Suc slot) strings (offset + 1) m)))"

definition load_argv_contents ::
  "'a::len itself \<Rightarrow> endian \<Rightarrow> 'm memory_ops \<Rightarrow> Addr \<Rightarrow> byte list list \<Rightarrow> Addr \<Rightarrow> 'm \<Rightarrow> mem_error + Addr \<times> 'm" where
  "load_argv_contents ty e M addr argv offset m = load_contents ty e M addr 1 argv offset m"

definition load_envp_contents ::
  "'a::len itself \<Rightarrow> endian \<Rightarrow> 'm memory_ops \<Rightarrow> Addr \<Rightarrow> nat \<Rightarrow> byte list list \<Rightarrow> Addr \<Rightarrow> 'm \<Rightarrow> mem_error + Addr \<times> 'm" where
  "load_envp_contents ty e M addr argc envp offset m = load_contents ty e M addr (1 + argc + 1) envp offset m"

definition argument_count :: "byte list list option \<Rightarrow> nat" where
  "argument_count argv = (case argv of None \<Rightarrow> 0 | Some strings \<Rightarrow> count_argc strings)"

text \<open>\<open>load_to\<close>, over the loader's member \<open>offset\<close>, which is 0 in a new loader and is not reset.\<close>

definition load_args ::
  "'a::len itself \<Rightarrow> endian \<Rightarrow> 'm memory_ops \<Rightarrow> byte list list option \<Rightarrow> byte list list option \<Rightarrow> Addr \<Rightarrow> Addr \<Rightarrow> 'm
   \<Rightarrow> mem_error + Addr \<times> 'm" where
  "load_args ty e M argv envp offset addr m =
     (let argc = argument_count argv; W = GUEST_WORD_SIZE ty
      in and_then (write_mem M e (of_nat argc :: 'a word) (addr + offset) m) (\<lambda>m.
         let offset = offset + of_nat W + of_nat (argc * W)
         in and_then (place_nullptr ty e M (addr + offset) m) (\<lambda>m.
            let offset = offset + of_nat W
            in and_then (case envp of None \<Rightarrow> Inr (offset, m)
                   | Some strings \<Rightarrow>
                       (let offset = offset + of_nat (count_argc strings * W)
                        in and_then (place_nullptr ty e M (addr + offset) m) (\<lambda>m. Inr (offset + of_nat W, m)))) (\<lambda>(offset, m).
               and_then (load_argv_contents ty e M addr (case argv of None \<Rightarrow> [] | Some strings \<Rightarrow> strings) offset m) (\<lambda>(offset, m).
                 case envp of None \<Rightarrow> Inr (offset, m)
                 | Some strings \<Rightarrow> load_envp_contents ty e M addr argc strings offset m)))))"

section \<open>The layout\<close>

text \<open>
  The specification: the strings with their terminators one after the other, the pointers to
  them given where the first lies, and the whole block.
\<close>

definition c_strings :: "byte list list \<Rightarrow> byte list" where
  "c_strings strings = concat (map (\<lambda>s. s @ [0]) strings)"

fun pointers :: "'a::len itself \<Rightarrow> endian \<Rightarrow> Addr \<Rightarrow> byte list list \<Rightarrow> byte list" where
  "pointers ty e a [] = []"
| "pointers ty e a (s # strings) =
     unpack_array e (ucast a :: 'a word) @ pointers ty e (a + of_nat (length s + 1)) strings"

definition argv_block ::
  "'a::len itself \<Rightarrow> endian \<Rightarrow> byte list list option \<Rightarrow> byte list list option \<Rightarrow> Addr \<Rightarrow> byte list" where
  "argv_block ty e argv envp addr =
     (let args = (case argv of None \<Rightarrow> [] | Some strings \<Rightarrow> strings);
          W = GUEST_WORD_SIZE ty;
          slots = 2 + length args + (case envp of None \<Rightarrow> 0 | Some strings \<Rightarrow> length strings + 1);
          first = addr + of_nat (slots * W)
      in unpack_array e (of_nat (length args) :: 'a word)
         @ pointers ty e first args @ unpack_array e (0 :: 'a word)
         @ (case envp of None \<Rightarrow> []
            | Some strings \<Rightarrow> pointers ty e (first + of_nat (length (c_strings args))) strings @ unpack_array e (0 :: 'a word))
         @ c_strings args @ (case envp of None \<Rightarrow> [] | Some strings \<Rightarrow> c_strings strings))"

lemma count_argc_length [simp]: "count_argc strings = length strings"
  by (induction strings) simp_all

lemma length_pointers [simp]: "length (pointers (ty :: 'a::len itself) e a strings) = length strings * GUEST_WORD_SIZE ty"
  by (induction strings arbitrary: a) (simp_all add: GUEST_WORD_SIZE_def)

lemma c_strings_simps [simp]: "c_strings [] = []" "c_strings (s # strings) = s @ 0 # c_strings strings"
  by (simp_all add: c_strings_def)

lemma unpack_zero_byte: "unpack_array e (0 :: uint8) = [0]"
  by (cases e) (simp_all add: unpack_array_def, code_simp+)

lemma unat_plus_of_nat: "unat a + k < 2 ^ 64 \<Longrightarrow> unat (a + of_nat k :: Addr) = unat a + k"
  by (simp add: unat_word_ariths unat_of_nat)

context func_memory
begin

lemma load_contents_holds:
  assumes "holds ok byte_at msize n f m" "n < 2 ^ 64" "(slot + length strings) * GUEST_WORD_SIZE (ty :: 'b::len itself) \<le> k"
    "unat addr + k + length (c_strings strings) \<le> n"
  shows "\<exists>m'. load_contents ty e M addr slot strings (of_nat k) m = Inr (of_nat (k + length (c_strings strings)), m')
    \<and> holds ok byte_at msize n
        (overwrite (unat addr + slot * GUEST_WORD_SIZE ty) (pointers ty e (addr + of_nat k) strings)
          (overwrite (unat addr + k) (c_strings strings) f)) m'"
  using assms(1,3,4)
proof (induction strings arbitrary: slot k f m)
  case (Cons s strings)
  let ?W = "GUEST_WORD_SIZE ty" and ?A = "unat addr"
  let ?p = "unpack_array e (ucast (addr + of_nat k) :: 'b word)"
  have W: "length ?p = ?W" by (simp add: GUEST_WORD_SIZE_def)
  have le: "slot * ?W + ?W \<le> k" using Cons.prems(2) by (simp add: algebra_simps)
  have a: "unat (addr + of_nat (slot * ?W)) = ?A + slot * ?W"
    using Cons.prems(3) le assms(2) by (intro unat_plus_of_nat) simp
  have b: "unat (addr + of_nat k) = ?A + k" using Cons.prems(3) assms(2) by (intro unat_plus_of_nat) simp
  have c: "unat (addr + (of_nat k + of_nat (length s))) = ?A + (k + length s)"
    using unat_plus_of_nat [of addr "k + length s"] Cons.prems(3) assms(2) by simp
  obtain m1 where m1: "write_mem M e (ucast (addr + of_nat k) :: 'b word) (addr + of_nat (slot * ?W)) m = Inr m1"
    and h1: "holds ok byte_at msize n (overwrite (?A + slot * ?W) ?p f) m1"
    by (rule write_mem_holds [OF Cons.prems(1), of "addr + of_nat (slot * ?W)", where 'a = 'b and e = e
          and v = "ucast (addr + of_nat k)"])
      (use Cons.prems(3) le W in \<open>simp_all add: a del: of_nat_mult\<close>)
  obtain m2 where m2: "write_string M s (addr + of_nat k) m1 = Inr m2"
    and h2: "holds ok byte_at msize n (overwrite (?A + k) s (overwrite (?A + slot * ?W) ?p f)) m2"
    by (rule write_string_holds [OF h1, of "addr + of_nat k" s]) (use Cons.prems(3) in \<open>simp_all add: b\<close>)
  obtain m3 where m3: "place_nullterminator e M (addr + (of_nat k + of_nat (length s))) m2 = Inr m3"
    and h3: "holds ok byte_at msize n (overwrite (?A + (k + length s)) [0]
       (overwrite (?A + k) s (overwrite (?A + slot * ?W) ?p f))) m3"
    unfolding place_nullterminator_def
    by (rule write_mem_holds [OF h2, of "addr + (of_nat k + of_nat (length s))", where 'a = 8 and e = e and v = 0])
      (use Cons.prems(3) in \<open>simp_all add: c unpack_zero_byte\<close>)
  let ?k = "k + length s + 1"
  have swap: "overwrite b ys (overwrite (?A + slot * ?W) ?p g) = overwrite (?A + slot * ?W) ?p (overwrite b ys g)"
    if "?A + k \<le> b" for b ys g
    by (rule overwrite_commute) (use le W that in simp)
  have "overwrite (?A + (k + length s)) [0] (overwrite (?A + k) s (overwrite (?A + slot * ?W) ?p f))
      = overwrite (?A + slot * ?W) ?p (overwrite (?A + k) (s @ [0]) f)"
    by (simp add: overwrite_appendD swap)
  note h3 = h3 [unfolded this]
  have "(Suc slot + length strings) * ?W \<le> ?k" "?A + ?k + length (c_strings strings) \<le> n"
    using Cons.prems(2,3) by simp_all
  from Cons.IH [OF h3 this] obtain m' where
    l: "load_contents ty e M addr (Suc slot) strings (of_nat ?k) m3 = Inr (of_nat (?k + length (c_strings strings)), m')"
    and h': "holds ok byte_at msize n (overwrite (?A + Suc slot * ?W) (pointers ty e (addr + of_nat ?k) strings)
       (overwrite (?A + ?k) (c_strings strings) (overwrite (?A + slot * ?W) ?p (overwrite (?A + k) (s @ [0]) f)))) m'"
    by blast
  have "overwrite (?A + ?k) (c_strings strings) (overwrite (?A + slot * ?W) ?p (overwrite (?A + k) (s @ [0]) f))
      = overwrite (?A + slot * ?W) ?p (overwrite (?A + k) (c_strings (s # strings)) f)"
    by (simp add: overwrite_appendD swap)
  note h' = h' [unfolded this]
  have "overwrite (?A + Suc slot * ?W) (pointers ty e (addr + of_nat ?k) strings)
      (overwrite (?A + slot * ?W) ?p g) = overwrite (?A + slot * ?W) (pointers ty e (addr + of_nat k) (s # strings)) g" for g
    using W by (simp add: overwrite_appendD algebra_simps)
  note h' = h' [unfolded this]
  show ?case
    using l h' m1 m2 m3 by (simp add: Let_def algebra_simps)
qed (simp add: c_strings_def)

text \<open>Seven blocks after each other, the pointers written last.\<close>

lemma overwrite_blocks:
  assumes "p2 = a + length b1" "p3 = p2 + length b2" "p4 = p3 + length b3" "p5 = p4 + length b4" "p6 = p5 + length b5"
    "p7 = p6 + length b6"
  shows "overwrite p4 b4 (overwrite p7 b7 (overwrite p2 b2 (overwrite p6 b6
      (overwrite p5 b5 (overwrite p3 b3 (overwrite a b1 f)))))) = overwrite a (b1 @ b2 @ b3 @ b4 @ b5 @ b6 @ b7) f"
proof -
  have "overwrite a (b1 @ b2 @ b3 @ b4 @ b5 @ b6 @ b7) f = overwrite p7 b7 (overwrite p6 b6 (overwrite p5 b5
      (overwrite p4 b4 (overwrite p3 b3 (overwrite p2 b2 (overwrite a b1 f))))))"
    using assms by (simp add: overwrite_appendD)
  also have "\<dots> = overwrite p4 b4 (overwrite p7 b7 (overwrite p2 b2 (overwrite p6 b6
      (overwrite p5 b5 (overwrite p3 b3 (overwrite a b1 f))))))"
    by (rule ext) (use assms in \<open>auto simp: overwrite_def\<close>)
  finally show ?thesis by simp
qed

lemma place_nullptr_holds:
  assumes "holds ok byte_at msize n f m" "n < 2 ^ 64" "unat addr + k + GUEST_WORD_SIZE (ty :: 'b::len itself) \<le> n"
    "off = of_nat k" "GUEST_WORD_SIZE ty > 0"
  obtains m' where "place_nullptr ty e M (addr + off) m = Inr m'"
    "holds ok byte_at msize n (overwrite (unat addr + k) (unpack_array e (0 :: 'b word)) f) m'"
proof -
  have "unat (addr + off) = unat addr + k" using assms by (simp add: unat_plus_of_nat)
  then have "unat (addr + off) + LENGTH('b) div 8 \<le> n" "unat (addr + off) = unat addr + k"
    using assms(3) by (simp_all add: GUEST_WORD_SIZE_def)
  with write_mem_holds [OF assms(1) this(1), of e "0 :: 'b word"] obtain m' where
    "write_mem M e (0 :: 'b word) (addr + off) m = Inr m'"
    "holds ok byte_at msize n (overwrite (unat addr + k) (unpack_array e (0 :: 'b word)) f) m'"
    by metis
  then show thesis by (intro that [of m']) (simp_all add: place_nullptr_def)
qed

lemma load_args_holds:
  assumes "holds ok byte_at msize n f m" "n < 2 ^ 64" "GUEST_WORD_SIZE (ty :: 'b::len itself) > 0"
    "unat addr + length (argv_block ty e argv envp addr) \<le> n"
  shows "\<exists>m'. load_args ty e M argv envp 0 addr m = Inr (of_nat (length (argv_block ty e argv envp addr)), m')
    \<and> holds ok byte_at msize n (overwrite (unat addr) (argv_block ty e argv envp addr) f) m'"
proof -
  define W where "W = GUEST_WORD_SIZE ty"
  define args where "args = (case argv of None \<Rightarrow> [] | Some strings \<Rightarrow> strings)"
  let ?A = "unat addr" and ?N = "length args"
  let ?argc = "unpack_array e (of_nat ?N :: 'b word)" and ?null = "unpack_array e (0 :: 'b word)"
  have W: "GUEST_WORD_SIZE ty = W" "LENGTH('b) div 8 = W" by (simp_all add: W_def GUEST_WORD_SIZE_def)
  have count: "argument_count argv = ?N" by (simp add: argument_count_def args_def split: option.split)
  have fits: "?A + (2 * W + ?N * W) + (case envp of None \<Rightarrow> 0 | Some env \<Rightarrow> length env * W + W + length (c_strings env))
      + length (c_strings args) \<le> n"
    using assms(4) by (cases envp) (simp_all add: argv_block_def Let_def args_def [symmetric] W)
  obtain m1 where m1: "write_mem M e (of_nat ?N :: 'b word) addr m = Inr m1"
    and h1: "holds ok byte_at msize n (overwrite ?A ?argc f) m1"
    by (rule write_mem_holds [OF assms(1), of addr, where 'a = 'b and e = e and v = "of_nat ?N"])
      (use fits in \<open>simp_all add: W\<close>)
  let ?k1 = "W + ?N * W"
  obtain m2 where m2: "place_nullptr ty e M (addr + of_nat ?k1) m1 = Inr m2"
    and h2: "holds ok byte_at msize n (overwrite (?A + ?k1) ?null (overwrite ?A ?argc f)) m2"
    by (rule place_nullptr_holds [OF h1 assms(2) _ refl assms(3), of addr ?k1 e]) (use fits in \<open>simp add: W\<close>)
  show ?thesis
  proof (cases envp)
    case None
    let ?k = "2 * W + ?N * W"
    obtain m3 where m3: "load_argv_contents ty e M addr args (of_nat ?k) m2 = Inr (of_nat (?k + length (c_strings args)), m3)"
      and h3: "holds ok byte_at msize n (overwrite (?A + W) (pointers ty e (addr + of_nat ?k) args)
        (overwrite (?A + ?k) (c_strings args) (overwrite (?A + ?k1) ?null (overwrite ?A ?argc f)))) m3"
      using load_contents_holds [OF h2 assms(2), of 1 args ty ?k addr e] fits None
      by (auto simp: load_argv_contents_def W)
    have b: "overwrite (?A + W) (pointers ty e (addr + of_nat ?k) args)
        (overwrite (?A + ?k) (c_strings args) (overwrite (?A + ?k1) ?null (overwrite ?A ?argc f)))
      = overwrite ?A (argv_block ty e argv envp addr) f"
      using overwrite_blocks [of "?A + W" ?A ?argc "?A + ?k1" "pointers ty e (addr + of_nat ?k) args" "?A + ?k" ?null "?A + ?k" "[]"
          "?A + ?k" "[]" "?A + ?k + length (c_strings args)" "c_strings args" "[]" f] None
      by (simp add: W argv_block_def Let_def args_def [symmetric] algebra_simps)
    show ?thesis
      using m1 m2 m3 h3 [unfolded b] None
      by (simp add: load_args_def Let_def count W args_def [symmetric] argv_block_def algebra_simps)
  next
    case (Some env)
    let ?k2 = "2 * W + ?N * W + length env * W" and ?first = "addr + of_nat (3 * W + ?N * W + length env * W)"
    let ?k = "3 * W + ?N * W + length env * W" and ?E = "length (c_strings args)"
    obtain m3 where m3: "place_nullptr ty e M (addr + of_nat ?k2) m2 = Inr m3"
      and h3: "holds ok byte_at msize n (overwrite (?A + ?k2) ?null (overwrite (?A + ?k1) ?null (overwrite ?A ?argc f))) m3"
      by (rule place_nullptr_holds [OF h2 assms(2) _ refl assms(3), of addr ?k2 e]) (use fits Some in \<open>simp add: W\<close>)
    obtain m4 where m4: "load_argv_contents ty e M addr args (of_nat ?k) m3 = Inr (of_nat (?k + ?E), m4)"
      and h4: "holds ok byte_at msize n (overwrite (?A + W) (pointers ty e ?first args)
        (overwrite (?A + ?k) (c_strings args)
          (overwrite (?A + ?k2) ?null (overwrite (?A + ?k1) ?null (overwrite ?A ?argc f))))) m4"
      using load_contents_holds [OF h3 assms(2), of 1 args ty ?k addr e] fits Some
      by (auto simp: load_argv_contents_def W)
    obtain m5 where m5: "load_envp_contents ty e M addr ?N env (of_nat (?k + ?E)) m4
        = Inr (of_nat (?k + ?E + length (c_strings env)), m5)"
      and h5: "holds ok byte_at msize n (overwrite (?A + (2 + ?N) * W) (pointers ty e (?first + of_nat ?E) env)
        (overwrite (?A + (?k + ?E)) (c_strings env) (overwrite (?A + W) (pointers ty e ?first args)
        (overwrite (?A + ?k) (c_strings args)
          (overwrite (?A + ?k2) ?null (overwrite (?A + ?k1) ?null (overwrite ?A ?argc f))))))) m5"
      using load_contents_holds [OF h4 assms(2), of "1 + ?N + 1" env ty "?k + ?E" addr e] fits Some
      by (auto simp: load_envp_contents_def W add.assoc add_mult_distrib)
    have b: "overwrite (?A + (2 + ?N) * W) (pointers ty e (?first + of_nat ?E) env)
        (overwrite (?A + (?k + ?E)) (c_strings env) (overwrite (?A + W) (pointers ty e ?first args)
        (overwrite (?A + ?k) (c_strings args)
          (overwrite (?A + ?k2) ?null (overwrite (?A + ?k1) ?null (overwrite ?A ?argc f))))))
      = overwrite ?A (argv_block ty e argv envp addr) f"
      using overwrite_blocks [of "?A + W" ?A ?argc "?A + ?k1" "pointers ty e ?first args" "?A + (2 + ?N) * W" ?null
          "?A + ?k2" "pointers ty e (?first + of_nat ?E) env" "?A + ?k" ?null "?A + (?k + ?E)" "c_strings args"
          "c_strings env" f] Some
      by (simp add: W argv_block_def Let_def args_def [symmetric] algebra_simps)
    show ?thesis
      using m1 m2 m3 m4 m5 h5 [unfolded b] Some
      by (simp add: load_args_def Let_def count W args_def [symmetric] argv_block_def algebra_simps)
  qed
qed

end

text \<open>C17: The loader of arguments leaves, in a memory where they fit, exactly the block that a program
  expects at its stack pointer: the count, the pointers to the arguments and a null pointer, the
  same for the environment if there is one, and the strings the pointers point to, each ended by a zero.
  It returns the block's length, and the rest of the memory is untouched.\<close>
theorem load_args_layout:
  fixes ty :: "'a::len itself"
  assumes "wf_hier h" "LENGTH('a) \<in> {32, 64}" "unat addr + length (argv_block ty e argv envp addr) \<le> hier_size h"
  shows "\<exists>h'. load_args ty e hier_ops argv envp 0 addr h = Inr (of_nat (length (argv_block ty e argv envp addr)), h')
    \<and> wf_hier h'
    \<and> flatten h' = take (unat addr) (flatten h) @ argv_block ty e argv envp addr
         @ drop (unat addr + length (argv_block ty e argv envp addr)) (flatten h)"
proof -
  let ?b = "argv_block ty e argv envp addr"
  have "holds wf_hier (\<lambda>h k. check_and_read_byte h (of_nat k)) hier_size (hier_size h) ((!) (flatten h)) h"
    using assms(1) by (simp add: holds_def)
  from hier.load_args_holds [OF this unat_addr_size(2) [OF assms(1)] _ assms(3)] assms(2)
  obtain h' where h': "load_args ty e hier_ops argv envp 0 addr h = Inr (of_nat (length ?b), h')"
    "holds wf_hier (\<lambda>h k. check_and_read_byte h (of_nat k)) hier_size (hier_size h) (overwrite (unat addr) ?b ((!) (flatten h))) h'"
    by (auto simp: GUEST_WORD_SIZE_def)
  then have "flatten h' = take (unat addr) (flatten h) @ ?b @ drop (unat addr + length ?b) (flatten h)"
    using assms(3) by (intro nth_equalityI) (simp_all add: holds_def overwrite_def nth_overwrite del: append.simps)
  with h' show ?thesis by (auto simp: holds_def)
qed

lemma load_args_layout_witness:
  "\<exists>h'. load_args TYPE(32) little hier_ops (Some [[97]]) None 0 2 small_hier = Inr (14, h') \<and> wf_hier h'
    \<and> flatten h' = [0, 0, 1, 0, 0, 0, 14, 0, 0, 0, 0, 0, 0, 0, 97, 0]"
proof -
  have b: "argv_block TYPE(32) little (Some [[97]]) None 2 = [1, 0, 0, 0, 14, 0, 0, 0, 0, 0, 0, 0, 97, 0]"
    by code_simp
  have "LENGTH(32) \<in> {32, 64}" "unat (2 :: Addr) + length (argv_block TYPE(32) little (Some [[97]]) None 2) \<le> hier_size small_hier"
    by (simp_all add: b size_small_hier)
  note l = load_args_layout [OF wf_small_hier this, unfolded b flatten_small_hier]
  have "take (unat (2 :: Addr)) (replicate 16 0) @ [1, 0, 0, 0, 14, 0, 0, 0, 0, 0, 0, 0, 97, 0]
      @ drop (unat (2 :: Addr) + length [1, 0, 0, 0, 14, 0, 0, 0, 0, 0, 0, 0, 97, 0 :: byte]) (replicate 16 0)
    = [0, 0, 1, 0, 0, 0, 14, 0, 0, 0, 0, 0, 0, 0, 97, 0 :: byte]" by code_simp
  with l show ?thesis by simp
qed

end
