(* ===== verification/Streams.thy ===== *)
theory Streams
  imports Prelude
begin

text \<open>
  The streams of the C++ library, as far as the simulator's kernels use them: the extraction of
  a word and of bytes, the insertion of text, the positions, and files. A stream is a record of
  the bytes behind it, one position and the state bits. Characters are bytes and the classes
  of characters are those of the C locale.
\<close>

section \<open>Streams\<close>

record stream =
  content :: "byte list"
  position :: nat
  readable :: bool
  writable :: bool
  append_size :: "nat option" \<comment> \<open>the size of a file opened for appending, before the appended bytes\<close>
  seekable :: bool \<comment> \<open>a terminal or a pipe is not\<close>
  eofbit :: bool
  failbit :: bool
  badbit :: bool

definition good :: "stream \<Rightarrow> bool" where
  "good f \<longleftrightarrow> \<not> eofbit f \<and> \<not> failbit f \<and> \<not> badbit f"

definition failed :: "stream \<Rightarrow> bool" where
  "failed f \<longleftrightarrow> failbit f \<or> badbit f"

text \<open>What can be read at the position.\<close>

definition available :: "stream \<Rightarrow> byte list" where
  "available f = (if readable f then drop (position f) (content f) else [])"

section \<open>Input\<close>

text \<open>Every input function starts with a sentry, which sets \<open>failbit\<close> on a stream that is not good.\<close>

definition in_sentry :: "stream \<Rightarrow> stream" where
  "in_sentry f = (if good f then f else f\<lparr>failbit := True\<rparr>)"

definition is_space :: "byte \<Rightarrow> bool" where
  "is_space c \<longleftrightarrow> c \<in> {9, 10, 11, 12, 13, 32}"

text \<open>\<open>operator>>\<close> to a string: a word without white space, which is skipped before it. Reaching
  the end sets \<open>eofbit\<close>, and a stream with no more words fails.\<close>

definition extract_word :: "stream \<Rightarrow> byte list \<times> stream" where
  "extract_word f =
     (if \<not> good f then ([], in_sentry f)
      else let rest = dropWhile is_space (available f); word = takeWhile (\<lambda>c. \<not> is_space c) rest
        in (word, f\<lparr>position := position f + (length (available f) - length rest) + length word,
              eofbit := (length word = length rest), failbit := (word = [])\<rparr>))"

text \<open>\<open>read\<close>: as many bytes as there are, up to a number; a short read fails.\<close>

definition read_bytes_from :: "nat \<Rightarrow> stream \<Rightarrow> byte list \<times> stream" where
  "read_bytes_from n f =
     (if \<not> good f then ([], in_sentry f)
      else let bytes = take n (available f); short = length bytes < n
        in (bytes, f\<lparr>position := position f + length bytes, eofbit := short, failbit := short\<rparr>))"

text \<open>\<open>tellg\<close> gives -1 for a stream that failed and for one that cannot seek.\<close>

definition tellg :: "stream \<Rightarrow> int \<times> stream" where
  "tellg f =
     (let f = in_sentry f in (if failed f \<or> \<not> seekable f then -1 else int (position f), f))"

section \<open>Output\<close>

text \<open>
  The position that a file opened for appending reports is up to the library: between the
  position in the bytes appended and that in the whole file. It is a parameter of \<open>tellp\<close>,
  over the size the file had and the number of bytes appended. A stream that cannot be written
  turns bad when something is written to it.
\<close>

definition put_bytes :: "byte list \<Rightarrow> stream \<Rightarrow> stream" where
  "put_bytes bytes f =
     (if \<not> good f then f\<lparr>failbit := True\<rparr>
      else if bytes = [] then f
      else if \<not> writable f then f\<lparr>badbit := True\<rparr>
      else f\<lparr>content := take (position f) (content f) @ bytes @ drop (position f + length bytes) (content f),
             position := position f + length bytes\<rparr>)"

definition tellp :: "(nat \<Rightarrow> nat \<Rightarrow> nat) \<Rightarrow> stream \<Rightarrow> int" where
  "tellp tell_append f =
     (if failed f \<or> \<not> seekable f then -1
      else case append_size f of None \<Rightarrow> int (position f) | Some n \<Rightarrow> int (tell_append n (position f)))"

section \<open>Files\<close>

text \<open>
  The files of the host are a map from names to contents. Opening a file for reading takes its
  bytes; opening it for writing empties it; opening it for appending starts with no bytes, and
  what is written is added to the file when it is closed. A stream keeps what was written until
  then. The host may refuse to open a file for other reasons, by the predicate \<open>permitted\<close>.
\<close>

datatype openmode = For_reading | For_writing | For_appending

type_synonym files = "byte list \<Rightarrow> byte list option"

definition empty_stream :: stream where
  "empty_stream = \<lparr>content = [], position = 0, readable = False, writable = False, append_size = None,
     seekable = True, eofbit = False, failbit = False, badbit = False\<rparr>"

definition file_open ::
  "(byte list \<Rightarrow> openmode \<Rightarrow> bool) \<Rightarrow> byte list \<Rightarrow> openmode \<Rightarrow> files \<Rightarrow> (stream \<times> files) option" where
  "file_open permitted name mode fs =
     (if \<not> permitted name mode then None
      else case mode of
          For_reading \<Rightarrow> map_option (\<lambda>bytes. (empty_stream\<lparr>content := bytes, readable := True\<rparr>, fs)) (fs name)
        | For_writing \<Rightarrow> Some (empty_stream\<lparr>writable := True\<rparr>, fs(name \<mapsto> []))
        | For_appending \<Rightarrow>
            (let old = (case fs name of None \<Rightarrow> [] | Some bytes \<Rightarrow> bytes)
             in Some (empty_stream\<lparr>writable := True, append_size := Some (length old)\<rparr>, fs(name \<mapsto> old))))"

definition file_close :: "byte list \<Rightarrow> stream \<Rightarrow> files \<Rightarrow> files" where
  "file_close name f fs =
     (if \<not> writable f then fs
      else let old = (case fs name of None \<Rightarrow> [] | Some bytes \<Rightarrow> bytes)
        in fs(name \<mapsto> (case append_size f of
              None \<Rightarrow> content f @ drop (length (content f)) old
            | Some n \<Rightarrow> old @ content f)))"

section \<open>The words of a stream\<close>

text \<open>A specification of the extraction of words: a stream that is good has the words of the bytes left.\<close>

function words_of :: "byte list \<Rightarrow> byte list list" where
  "words_of s =
     (let rest = dropWhile is_space s
      in if rest = [] then [] else takeWhile (\<lambda>c. \<not> is_space c) rest # words_of (dropWhile (\<lambda>c. \<not> is_space c) rest))"
  by pat_completeness auto
termination
proof (relation "measure length", simp)
  fix s x :: "byte list"
  assume "x = dropWhile is_space s" "x \<noteq> []"
  then have "\<not> is_space (hd x)" using hd_dropWhile by blast
  with \<open>x \<noteq> []\<close> have "length (dropWhile (\<lambda>c. \<not> is_space c) x) < length x"
    by (cases x) (simp_all add: length_dropWhile_le le_imp_less_Suc)
  moreover have "length x \<le> length s" using \<open>x = dropWhile is_space s\<close> by (simp add: length_dropWhile_le)
  ultimately show "(dropWhile (\<lambda>c. \<not> is_space c) x, s) \<in> measure length" by simp
qed

declare words_of.simps [simp del]

lemma words_of_Nil [simp]: "words_of [] = []"
  by (simp add: words_of.simps)

definition words_left :: "stream \<Rightarrow> byte list list" where
  "words_left f = (if good f then words_of (available f) else [])"

lemma available_advance:
  assumes "readable f" "n \<le> length (available f)"
  shows "available (f\<lparr>position := position f + n, eofbit := a, failbit := b\<rparr>) = drop n (available f)"
  using assms by (simp add: available_def add.commute)

lemma length_take_drop: "length s = length (takeWhile P s) + length (dropWhile P s)"
  by (induction s) simp_all

lemma drop_two:
  "drop (length (takeWhile P s) + length (takeWhile Q (dropWhile P s))) s = dropWhile Q (dropWhile P s)"
  by (simp add: dropWhile_eq_drop add.commute)

lemma extract_word_fst: "fst (extract_word f) = (case words_left f of [] \<Rightarrow> [] | w # ws \<Rightarrow> w)"
  by (cases "dropWhile is_space (available f) = []")
    (simp_all add: extract_word_def words_left_def words_of.simps [of "available f"] Let_def del: dropWhile_eq_Nil_conv)

text \<open>After a word, the stream has the words that follow it.\<close>

lemma words_left_word:
  assumes "good f" "dropWhile is_space (available f) = r" "r \<noteq> []"
  shows "words_left (snd (extract_word f)) = words_of (dropWhile (\<lambda>c. \<not> is_space c) r)"
proof -
  let ?w = "takeWhile (\<lambda>c. \<not> is_space c) r" and ?d = "dropWhile (\<lambda>c. \<not> is_space c) r"
  define n where "n = length (available f) - length r + length ?w"
  have n: "n = length (takeWhile is_space (available f)) + length ?w"
    using length_take_drop [of "available f" is_space] assms(2) by (simp add: n_def)
  have len: "length r = length ?w + length ?d" by (rule length_take_drop)
  have e: "snd (extract_word f) = f\<lparr>position := position f + n, eofbit := (length ?w = length r), failbit := (?w = [])\<rparr>"
    using assms by (simp add: extract_word_def Let_def n_def add.assoc)
  have "readable f" using assms(2,3) by (auto simp: available_def split: if_splits)
  moreover have "n \<le> length (available f)"
    using length_take_drop [of "available f" is_space] len assms(2) by (simp add: n)
  moreover have "drop n (available f) = ?d"
    using drop_two [of is_space "available f"] assms(2) by (simp add: n)
  ultimately have a: "available (snd (extract_word f)) = ?d"
    unfolding e by (simp add: available_advance)
  have "?w \<noteq> []" using assms(2,3) hd_dropWhile [of is_space "available f"] by (cases r) auto
  then have g: "good (snd (extract_word f)) \<longleftrightarrow> length ?w \<noteq> length r"
    unfolding e using assms(1) by (simp add: good_def)
  have "length ?w = length r \<Longrightarrow> ?d = []" using len by simp
  then show ?thesis unfolding words_left_def g a
    by (cases "length ?w = length r") (simp_all del: dropWhile_eq_Nil_conv)
qed

lemma extract_word_snd: "words_left (snd (extract_word f)) = tl (words_left f)"
proof (cases "good f \<and> dropWhile is_space (available f) \<noteq> []")
  case True
  then show ?thesis
    using words_left_word [of f "dropWhile is_space (available f)"]
    by (simp add: words_left_def [of f] words_of.simps [of "available f"] Let_def del: dropWhile_eq_Nil_conv)
next
  case False
  then have "\<not> good (snd (extract_word f))" "words_left f = []"
    by (cases "good f"; simp add: extract_word_def in_sentry_def good_def Let_def words_left_def
          words_of.simps [of "available f"] del: dropWhile_eq_Nil_conv)+
  then show ?thesis by (simp add: words_left_def)
qed

lemmas extract_word_words = extract_word_fst extract_word_snd

end
