(* ===== verification/Number_Text.thy ===== *)
theory Number_Text
  imports Streams
begin

text \<open>
  Integers as text: what \<open>operator<<\<close> prints for a 64-bit integer and what \<open>std::stoll\<close> with
  base 0 reads, with the number of characters it consumed. Numbers that were printed are read
  back.
\<close>

section \<open>Printing\<close>

fun decimal_nat :: "nat \<Rightarrow> byte list" where
  "decimal_nat n = (if n < 10 then [of_nat (48 + n)] else decimal_nat (n div 10) @ [of_nat (48 + n mod 10)])"

definition decimal_int :: "int \<Rightarrow> byte list" where
  "decimal_int i = (if i < 0 then 45 # decimal_nat (nat (- i)) else decimal_nat (nat i))"

declare decimal_nat.simps [simp del]

section \<open>Reading\<close>

definition digit_value :: "byte \<Rightarrow> nat" where
  "digit_value c =
     (let n = unat c
      in if 48 \<le> n \<and> n \<le> 57 then n - 48
         else if 97 \<le> n \<and> n \<le> 122 then n - 87
         else if 65 \<le> n \<and> n \<le> 90 then n - 55
         else 36)"

definition number :: "nat \<Rightarrow> byte list \<Rightarrow> nat" where
  "number base digits = foldl (\<lambda>v c. v * base + digit_value c) 0 digits"

datatype conversion_error = Invalid_argument | Out_of_range

text \<open>\<open>strtoll\<close> and \<open>strtoul\<close> with base 0: white space, a sign, the prefix of the base, and the
  longest run of digits of that base. The results are whether there is a minus, the magnitude and
  the number of characters consumed.\<close>

definition scan_integer :: "byte list \<Rightarrow> (bool \<times> nat \<times> nat) option" where
  "scan_integer s =
     (let blanks = length (takeWhile is_space s); s = dropWhile is_space s;
          sign = (if s \<noteq> [] \<and> (hd s = 43 \<or> hd s = 45) then 1 else 0);
          negative = (s \<noteq> [] \<and> hd s = 45);
          s = drop sign s;
          hex = (2 < length s \<and> hd s = 48 \<and> (s ! 1 = 120 \<or> s ! 1 = 88) \<and> digit_value (s ! 2) < 16);
          base = (if hex then 16 else if s \<noteq> [] \<and> hd s = 48 then 8 else 10);
          prefix = (if hex then 2 else 0);
          digits = takeWhile (\<lambda>c. digit_value c < base) (drop prefix s)
      in if digits = [] then None else Some (negative, number base digits, blanks + sign + prefix + length digits))"

definition stoll :: "byte list \<Rightarrow> conversion_error + int \<times> nat" where
  "stoll s =
     (case scan_integer s of
        None \<Rightarrow> Inl Invalid_argument
      | Some (negative, n, pos) \<Rightarrow>
          (let v = (if negative then - int n else int n)
           in if v < - (2 ^ 63) \<or> 2 ^ 63 \<le> v then Inl Out_of_range else Inr (v, pos)))"

text \<open>For \<open>std::stoul\<close> a minus negates the unsigned number.\<close>

definition stoul :: "byte list \<Rightarrow> conversion_error + uint64 \<times> nat" where
  "stoul s =
     (case scan_integer s of
        None \<Rightarrow> Inl Invalid_argument
      | Some (negative, n, pos) \<Rightarrow>
          if 2 ^ 64 \<le> n then Inl Out_of_range else Inr (if negative then - of_nat n else of_nat n, pos))"

section \<open>The round trip\<close>

lemma decimal_digit:
  assumes "d < 10"
  shows "digit_value (of_nat (48 + d)) = d" "\<not> is_space (of_nat (48 + d))" "(of_nat (48 + d) :: byte) = 48 \<longleftrightarrow> d = 0"
    "(of_nat (48 + d) :: byte) \<noteq> 43" "(of_nat (48 + d) :: byte) \<noteq> 45"
proof -
  have "d \<in> {0, 1, 2, 3, 4, 5, 6, 7, 8, 9}" using assms by auto
  then show "digit_value (of_nat (48 + d)) = d" "\<not> is_space (of_nat (48 + d))" "(of_nat (48 + d) :: byte) = 48 \<longleftrightarrow> d = 0"
    "(of_nat (48 + d) :: byte) \<noteq> 43" "(of_nat (48 + d) :: byte) \<noteq> 45"
    by (auto simp: digit_value_def is_space_def)
qed

lemma decimal_nat_digits: "c \<in> set (decimal_nat n) \<Longrightarrow> \<exists>d < 10. c = of_nat (48 + d)"
proof (induction n rule: decimal_nat.induct)
  case (1 n)
  show ?case
  proof (cases "n < 10")
    case False
    then consider "c \<in> set (decimal_nat (n div 10))" | "c = of_nat (48 + n mod 10)"
      using "1.prems" by (auto simp: decimal_nat.simps [of n])
    then show ?thesis
    proof cases
      case 2
      then show ?thesis by (intro exI [of _ "n mod 10"]) simp
    qed (rule "1.IH" [OF False])
  qed (use "1.prems" in \<open>auto simp: decimal_nat.simps [of n]\<close>)
qed

lemma decimal_nat_not_empty [simp]: "decimal_nat n \<noteq> []"
  by (simp add: decimal_nat.simps [of n])

lemma number_snoc: "number b (ds @ [c]) = number b ds * b + digit_value c"
  by (simp add: number_def)

lemma number_decimal: "number 10 (decimal_nat n) = n"
proof (induction n rule: decimal_nat.induct)
  case (1 n)
  show ?case
  proof (cases "n < 10")
    case True
    then show ?thesis by (simp add: decimal_nat.simps [of n] number_def decimal_digit(1) del: of_nat_add)
  next
    case False
    have "n mod 10 < 10" by simp
    then show ?thesis
      using 1 False by (simp add: decimal_nat.simps [of n] number_snoc decimal_digit(1) del: of_nat_add)
  qed
qed

lemma hd_decimal: "hd (decimal_nat n) = 48 \<longleftrightarrow> n = 0"
proof (induction n rule: decimal_nat.induct)
  case (1 n)
  show ?case
  proof (cases "n < 10")
    case True
    then show ?thesis by (simp add: decimal_nat.simps [of n] decimal_digit(3) del: of_nat_add)
  next
    case False
    then show ?thesis using 1 by (simp add: decimal_nat.simps [of n])
  qed
qed

lemma decimal_zero: "decimal_nat 0 = [48]"
  by (simp add: decimal_nat.simps)

lemma no_blanks:
  assumes "s \<noteq> []" "\<forall>c \<in> set s. \<not> is_space c"
  shows "takeWhile is_space s = []" "dropWhile is_space s = s"
  using assms by (cases s; simp)+

text \<open>The printed digits are all read.\<close>

lemma read_decimal:
  "takeWhile (\<lambda>c. digit_value c < (if decimal_nat n \<noteq> [] \<and> hd (decimal_nat n) = 48 then 8 else 10)) (decimal_nat n) = decimal_nat n"
  "number (if decimal_nat n \<noteq> [] \<and> hd (decimal_nat n) = 48 then 8 else 10) (decimal_nat n) = n"
  "\<not> (2 < length (decimal_nat n) \<and> hd (decimal_nat n) = 48)"
proof -
  have *: "digit_value c < 10" if "c \<in> set (decimal_nat n)" for c
    using decimal_nat_digits [OF that] by (auto simp: decimal_digit(1) simp del: of_nat_add)
  show "takeWhile (\<lambda>c. digit_value c < (if decimal_nat n \<noteq> [] \<and> hd (decimal_nat n) = 48 then 8 else 10)) (decimal_nat n) = decimal_nat n"
    using * by (cases "n = 0") (simp_all add: hd_decimal decimal_zero digit_value_def takeWhile_eq_all_conv)
  show "number (if decimal_nat n \<noteq> [] \<and> hd (decimal_nat n) = 48 then 8 else 10) (decimal_nat n) = n"
    by (cases "n = 0") (simp_all add: hd_decimal number_decimal, simp add: decimal_zero number_def digit_value_def)
  show "\<not> (2 < length (decimal_nat n) \<and> hd (decimal_nat n) = 48)"
    by (cases "n = 0") (simp_all add: hd_decimal decimal_zero)
qed

lemma decimal_int_no_space: "c \<in> set (decimal_int i) \<Longrightarrow> \<not> is_space c"
  using decimal_nat_digits [of c]
  by (auto simp: decimal_int_def is_space_def [of 45] decimal_digit(2) split: if_splits simp del: of_nat_add dest!: decimal_nat_digits)

lemma decimal_int_not_empty [simp]: "decimal_int i \<noteq> []"
  by (simp add: decimal_int_def)

lemma hd_decimal_sign: "hd (decimal_nat n) \<noteq> 43" "hd (decimal_nat n) \<noteq> 45"
  using decimal_nat_digits [of "hd (decimal_nat n)" n] by (auto simp: decimal_digit simp del: of_nat_add)

lemma stoll_digits:
  assumes "takeWhile is_space s = []" "dropWhile is_space s = s" "s \<noteq> []"
    "sign = (if hd s = 43 \<or> hd s = 45 then 1 else 0)" "drop sign s = decimal_nat n"
    "v = (if hd s = 45 then - int n else int n)" "- (2 ^ 63) \<le> v" "v < 2 ^ 63"
  shows "stoll s = Inr (v, sign + length (decimal_nat n))"
proof -
  have sign: "(if s \<noteq> [] \<and> (hd s = 43 \<or> hd s = 45) then 1 else 0) = sign" using assms(3,4) by simp
  have hex: "(2 < length (decimal_nat n) \<and> hd (decimal_nat n) = 48 \<and> P) = False" for P
    using read_decimal(3) [of n] by blast
  have neg: "(s \<noteq> [] \<and> hd s = 45) = (hd s = 45)" using assms(3) by simp
  have "scan_integer s = Some (hd s = 45, n, sign + length (decimal_nat n))"
    unfolding scan_integer_def Let_def assms(1,2) sign assms(5) hex if_False drop_0 read_decimal(1,2) neg by simp
  then show ?thesis using assms(6-8) by (auto simp: stoll_def Let_def)
qed

lemma stoll_decimal:
  assumes "- (2 ^ 63) \<le> i" "i < 2 ^ 63"
  shows "stoll (decimal_int i) = Inr (i, length (decimal_int i))"
proof -
  have "\<forall>c \<in> set (decimal_int i). \<not> is_space c" using decimal_int_no_space by blast
  note b = no_blanks [OF decimal_int_not_empty this]
  show ?thesis
  proof (cases "i < 0")
    case True
    then show ?thesis
      using stoll_digits [OF b, of 1 "nat (- i)" i] assms by (simp add: decimal_int_def)
  next
    case False
    then show ?thesis
      using stoll_digits [OF b, of 0 "nat i" i] assms hd_decimal_sign [of "nat i"] by (simp add: decimal_int_def)
  qed
qed

end
