(* ===== verification/Cache_Runner.thy ===== *)
theory Cache_Runner
  imports Complex_Main Number_Text Cache_Tag_Array
begin

text \<open>
  The standalone cache simulator, simulator/export/cache/runner.h, runner.cpp and main.cpp: it
  plays a trace of addresses on a tag array and counts. The trace is read by the JSON parser of
  boost, whose result is the list of the trace's numbers as text, or nothing for a file that it
  refuses.
\<close>

section \<open>Counting\<close>

record cache_runner_results =
  accesses :: uint64
  hits :: uint64
  compulsory_misses :: uint64

definition no_results :: cache_runner_results where
  "no_results = \<lparr>accesses = 0, hits = 0, compulsory_misses = 0\<rparr>"

definition get_misses :: "cache_runner_results \<Rightarrow> uint64" where
  "get_misses r = accesses r - hits r"

text \<open>The rates, before they are rounded to a \<open>double\<close>.\<close>

definition get_hit_rate :: "cache_runner_results \<Rightarrow> rat" where
  "get_hit_rate r = (if accesses r = 0 then 0 else of_nat (unat (hits r)) / of_nat (unat (accesses r)))"

definition get_miss_rate :: "cache_runner_results \<Rightarrow> rat" where
  "get_miss_rate r = 1 - get_hit_rate r"

definition get_compulsory_miss_subrate :: "cache_runner_results \<Rightarrow> rat" where
  "get_compulsory_miss_subrate r =
     (if get_misses r = 0 then 0 else of_nat (unat (compulsory_misses r)) / of_nat (unat (get_misses r)))"

record cache_runner =
  history :: "Addr set"
  cache :: tag_array

datatype runner_error = BadTrace | BadNumber conversion_error | BadAccess cache_error

definition account_miss :: "Addr \<Rightarrow> cache_runner_results \<times> cache_runner \<Rightarrow> runner_error + cache_runner_results \<times> cache_runner" where
  "account_miss addr s =
     (case array_write (cache (snd s)) addr of
        Inl e \<Rightarrow> Inl (BadAccess e)
      | Inr (way, c) \<Rightarrow>
          (let r = fst s; k = (snd s)\<lparr>cache := c\<rparr>
           in if addr \<notin> history k
              then Inr (r\<lparr>compulsory_misses := compulsory_misses r + 1\<rparr>, k\<lparr>history := insert addr (history k)\<rparr>)
              else Inr (r, k)))"

definition account_access :: "Addr \<Rightarrow> cache_runner_results \<times> cache_runner \<Rightarrow> runner_error + cache_runner_results \<times> cache_runner" where
  "account_access addr s =
     (let r = (fst s)\<lparr>accesses := accesses (fst s) + 1\<rparr>; (is_hit, c) = lookup (cache (snd s)) addr; k = (snd s)\<lparr>cache := c\<rparr>
      in if is_hit then Inr (r\<lparr>hits := hits r + 1\<rparr>, k) else account_miss addr (r, k))"

fun account_all :: "byte list list \<Rightarrow> cache_runner_results \<times> cache_runner \<Rightarrow> runner_error + cache_runner_results \<times> cache_runner" where
  "account_all [] s = Inr s"
| "account_all (x # trace) s =
     (case stoul x of
        Inl e \<Rightarrow> Inl (BadNumber e)
      | Inr (addr, pos) \<Rightarrow>
          (case account_access addr s of Inl e \<Rightarrow> Inl e | Inr s \<Rightarrow> account_all trace s))"

definition run_trace :: "byte list list option \<Rightarrow> cache_runner \<Rightarrow> runner_error + cache_runner_results \<times> cache_runner" where
  "run_trace trace k =
     (case trace of None \<Rightarrow> Inl BadTrace | Some numbers \<Rightarrow> account_all numbers (no_results, k))"

definition new_cache_runner :: "tag_array \<Rightarrow> cache_runner" where
  "new_cache_runner c = \<lparr>history = {}, cache = c\<rparr>"

text \<open>\<open>Main::impl\<close> after the arguments are parsed: the array has addresses of 32 bits.\<close>

definition simulate_cache ::
  "string \<Rightarrow> uint32 \<Rightarrow> uint32 \<Rightarrow> uint32 \<Rightarrow> byte list list option \<Rightarrow> runner_error + cache_runner_results" where
  "simulate_cache policy bytes ways line trace =
     (case create_tag_array policy bytes ways line 32 of
        Inl e \<Rightarrow> Inl (BadAccess e)
      | Inr c \<Rightarrow> map_sum id fst (run_trace trace (new_cache_runner c)))"

section \<open>What is counted\<close>

text \<open>The addresses of a trace, and those of them that miss.\<close>

definition address_of :: "byte list \<Rightarrow> Addr" where
  "address_of x = (case stoul x of Inl e \<Rightarrow> 0 | Inr (addr, pos) \<Rightarrow> addr)"

text \<open>The counters agree with the history and with each other; nothing overflows before \<open>2 ^ 64\<close>
  accesses.\<close>

definition counted :: "nat \<Rightarrow> cache_runner_results \<times> cache_runner \<Rightarrow> bool" where
  "counted n s \<longleftrightarrow>
     (let r = fst s; k = snd s
      in unat (accesses r) = n \<and> finite (history k) \<and> unat (compulsory_misses r) = card (history k)
         \<and> unat (hits r) + card (history k) \<le> n)"

lemma unat_succ: "unat (x :: uint64) < 2 ^ 64 - 1 \<Longrightarrow> unat (x + 1) = unat x + 1"
  by (simp add: unat_word_ariths)

lemma account_access_counted:
  assumes "counted n s" "account_access addr s = Inr s'" "n + 1 < 2 ^ 64"
  shows "counted (n + 1) s' \<and> history (snd s') \<subseteq> insert addr (history (snd s))"
proof -
  obtain is_hit c where l: "lookup (cache (snd s)) addr = (is_hit, c)" by fastforce
  have b: "unat (accesses (fst s)) < 2 ^ 64 - 1" "unat (hits (fst s)) < 2 ^ 64 - 1" "unat (compulsory_misses (fst s)) < 2 ^ 64 - 1"
    using assms(1,3) by (simp_all add: counted_def Let_def)
  note succ = b [THEN unat_succ]
  show ?thesis
  proof (cases is_hit)
    case True
    then have "s' = ((fst s)\<lparr>accesses := accesses (fst s) + 1, hits := hits (fst s) + 1\<rparr>, (snd s)\<lparr>cache := c\<rparr>)"
      using assms(2) by (simp add: account_access_def l)
    then show ?thesis using assms(1) succ by (auto simp: counted_def Let_def)
  next
    case False
    then show ?thesis
      using assms(1,2) succ
      by (auto simp: account_access_def account_miss_def l counted_def Let_def split: sum.splits if_splits)
  qed
qed

lemma account_all_counted:
  assumes "counted n s" "account_all trace s = Inr s'" "n + length trace < 2 ^ 64"
  shows "counted (n + length trace) s' \<and> history (snd s') \<subseteq> history (snd s) \<union> address_of ` set trace"
  using assms
proof (induction trace arbitrary: n s)
  case (Cons x trace)
  obtain addr pos s1 where x: "stoul x = Inr (addr, pos)" "account_access addr s = Inr s1" "account_all trace s1 = Inr s'"
    using Cons.prems(2) by (auto split: sum.splits)
  have c: "counted (n + 1) s1" "history (snd s1) \<subseteq> insert addr (history (snd s))"
    using account_access_counted [OF Cons.prems(1) x(2)] Cons.prems(3) by auto
  show ?case
    using Cons.IH [OF c(1) x(3)] Cons.prems(3) c(2) x(1) by (auto simp: address_of_def)
qed simp

text \<open>The cache runner accounts for every access once: on any trace it can play, the accesses counted are
  those of the trace, the compulsory misses are the different addresses that ever missed, and they with the
  hits are no more than the accesses.\<close>
lemma run_trace_counts:
  assumes "run_trace (Some trace) (new_cache_runner c) = Inr (r, k)" "length trace < 2 ^ 64"
  shows "unat (accesses r) = length trace \<and> unat (compulsory_misses r) = card (history k)
    \<and> history k \<subseteq> address_of ` set trace \<and> unat (compulsory_misses r) \<le> unat (get_misses r)"
proof -
  have "counted 0 (no_results, new_cache_runner c)"
    by (simp add: counted_def no_results_def new_cache_runner_def)
  from account_all_counted [OF this _ _, of trace "(r, k)"] assms
  have c: "counted (length trace) (r, k)" "history k \<subseteq> address_of ` set trace"
    by (simp_all add: run_trace_def new_cache_runner_def)
  then have "unat (get_misses r) = unat (accesses r) - unat (hits r)"
    by (simp add: get_misses_def counted_def Let_def unat_sub word_le_nat_alt)
  then show ?thesis using c by (auto simp: counted_def Let_def)
qed

lemma run_trace_counts_witness:
  "\<exists>r k. run_trace (Some [[52], [52]]) (new_cache_runner (Infinite new_infinite)) = Inr (r, k)
    \<and> unat (accesses r) = 2 \<and> unat (compulsory_misses r) = 1 \<and> unat (get_misses r) = 1"
proof -
  have "stoul [52] = Inr (4, 1)"
    by (simp add: stoul_def scan_integer_def digit_value_def is_space_def number_def)
  then have "run_trace (Some [[52], [52]]) (new_cache_runner (Infinite new_infinite))
      = Inr (\<lparr>accesses = 2, hits = 1, compulsory_misses = 1\<rparr>,
          \<lparr>history = {4}, cache = Infinite \<lparr>inf_tags = [4], inf_lookup = [4 \<mapsto> 0]\<rparr>\<rparr>)"
    by (simp add: run_trace_def new_cache_runner_def account_access_def account_miss_def lookup_def new_infinite_def
        infinite_write_def infinite_read_no_touch_def Cache_Tag_Array.table_find_def table_insert_def impossible_key_def
        narrow_int32_def no_results_def)
  from run_trace_counts [OF this] this show ?thesis by (auto simp: get_misses_def)
qed

section \<open>Lines and addresses\<close>

text \<open>A miss on an array with lines.\<close>

lemma account_simple_miss:
  assumes "\<not> fst (simple_read_no_touch c a)" "simple_write c a = Inr (way, c')" "a \<notin> h"
  shows "account_access a (r, \<lparr>history = h, cache = Simple c\<rparr>) =
    Inr (r\<lparr>accesses := accesses r + 1, compulsory_misses := compulsory_misses r + 1\<rparr>,
      \<lparr>history = insert a h, cache = Simple c'\<rparr>)"
proof -
  have "lookup (Simple c) a = (False, Simple c)"
    using assms(1) by (simp add: lookup_def simple_read_def Let_def)
  then show ?thesis using assms(2,3) by (simp add: account_access_def account_miss_def)
qed

text \<open>The runner calls a miss compulsory by the address, not by the line: in a direct-mapped array a second
  address of a line that was fetched before and evicted since is counted as another compulsory miss.\<close>

lemma compulsory_misses_by_address:
  assumes "simple_ok c" "unat (num_ways (geo c)) = 1"
    and "line_of (geo c) a = line_of (geo c) b" "a \<noteq> b"
    and "line_of (geo c) x \<noteq> line_of (geo c) a" "cache_set (geo c) x = cache_set (geo c) a"
    and "\<not> fst (simple_read_no_touch c a)" "\<not> fst (simple_read_no_touch c x)"
    and "\<forall>y \<in> {a, b, x}. cache_tag (geo c) y \<noteq> impossible_key \<and> cache_tag (geo c) y \<noteq> impossible_key - 1"
  shows "\<exists>s1 s2 s3. account_access a (no_results, new_cache_runner (Simple c)) = Inr s1 \<and> account_access x s1 = Inr s2
    \<and> account_access b s2 = Inr s3 \<and> compulsory_misses (fst s3) = 3"
proof -
  have d: "check_geometry (geo c) = None" by (rule simple_okD [OF assms(1)])
  have ne: "x \<noteq> a" "x \<noteq> b" using assms(3,5) by auto
  have set_b: "cache_set (geo c) b = cache_set (geo c) x" using same_line [OF d, of a b] assms(3,6) by simp
  have v: "victim_way k y = 0" if "simple_ok k" "geo k = geo c" for k y
    using victim_way_less [OF that(1), of y] that(2) assms(2) by simp
  obtain w1 c1 where c1: "simple_write c a = Inr (w1, c1)" using simple_write_defined assms(9) by blast
  note w1 = simple_write_miss [OF assms(1,7) c1]
  have ok1: "simple_ok c1" "geo c1 = geo c" "w1 = 0" using w1 v [OF assms(1) refl] by auto
  have m1: "\<not> fst (simple_read_no_touch c1 x)" using w1 [of x] assms(5,6,8) by auto
  obtain w2 c2 where c2: "simple_write c1 x = Inr (w2, c2)" using simple_write_defined [of c1 x] assms(9) ok1(2) by auto
  note w2 = simple_write_miss [OF ok1(1) m1 c2]
  have ok2: "simple_ok c2" "geo c2 = geo c" "w2 = 0" using w2 v [OF ok1(1,2)] ok1(2) by auto
  have "simple_read_no_touch c1 b = (True, 0)" using w1 [of b] assms(3) ok1(3) by simp
  then have m2: "\<not> fst (simple_read_no_touch c2 b)"
    using w2 [of b] assms(3,5) set_b ok1(2) ok2(3) by auto
  obtain w3 c3 where c3: "simple_write c2 b = Inr (w3, c3)" using simple_write_defined [of c2 b] assms(9) ok2(2) by auto
  show ?thesis
    using account_simple_miss [OF assms(7) c1, of "{}" no_results] account_simple_miss [OF m1 c2, of "{a}"]
      account_simple_miss [OF m2 c3, of "{x, a}"] assms(4) ne
    by (simp add: new_cache_runner_def no_results_def)
qed

end
