(* ===== verification/Elf_Loader.thy ===== *)
theory Elf_Loader
  imports Hierarchied_Memory
begin

text \<open>
  The loader of ELF files, simulator/memory/elf/elf_loader.h and elf_loader.cpp. The file is
  parsed by the ELFIO library, which is not part of the program: the sections and the symbols
  it finds are data here, and a name it cannot load has none.
\<close>

section \<open>What the library parses\<close>

record elf_section =
  elf_name :: string
  elf_type :: uint32
  elf_flags :: uint64
  elf_address :: Addr
  elf_size :: nat
  elf_data :: "byte list option"
  elf_symbols :: "(string \<times> Addr) list"

type_synonym elf = "elf_section list"

text \<open>A reader is the library's \<open>load\<close>; the bytes of a section are as many as its size says.\<close>

type_synonym elf_reader = "string \<Rightarrow> elf option"

datatype elf_error = InvalidElfFile string | InvalidElfSection string | InvalidEntryPoint | ElfMemory mem_error

definition SHF_ALLOC :: uint64 where "SHF_ALLOC = 2"
definition SHT_SYMTAB :: uint32 where "SHT_SYMTAB = 2"

section \<open>The loader\<close>

definition new_elf_loader :: "elf_reader \<Rightarrow> string \<Rightarrow> elf_error + elf" where
  "new_elf_loader reader name = (case reader name of None \<Rightarrow> Inl (InvalidElfFile name) | Some elf \<Rightarrow> Inr elf)"

definition in_memory :: "mem_error + 'm \<Rightarrow> elf_error + 'm" where
  "in_memory r = map_sum ElfMemory id r"

definition load_elf_section :: "'m memory_ops \<Rightarrow> elf_section \<Rightarrow> Addr \<Rightarrow> 'm \<Rightarrow> elf_error + 'm" where
  "load_elf_section M s offset m =
     (if elf_address s = 0 then Inl (InvalidElfSection (elf_name s))
      else case elf_data s of
          None \<Rightarrow> in_memory (mem_memset M (elf_address s + offset) 0 (elf_size s) m)
        | Some bytes \<Rightarrow> in_memory (host_to_guest M m (elf_address s + offset) (take (elf_size s) bytes)))"

fun load_to :: "'m memory_ops \<Rightarrow> elf \<Rightarrow> Addr \<Rightarrow> 'm \<Rightarrow> elf_error + 'm" where
  "load_to M [] offset m = Inr m"
| "load_to M (s # elf) offset m =
     (if elf_flags s AND SHF_ALLOC \<noteq> 0
      then case load_elf_section M s offset m of Inl e \<Rightarrow> Inl e | Inr m' \<Rightarrow> load_to M elf offset m'
      else load_to M elf offset m)"

definition get_text_section_addr :: "elf \<Rightarrow> Addr" where
  "get_text_section_addr elf =
     (case find (\<lambda>s. elf_name s = ''.text'') elf of None \<Rightarrow> 0 | Some s \<Rightarrow> elf_address s)"

definition is_start_section :: "string \<times> Addr \<Rightarrow> bool" where
  "is_start_section x \<longleftrightarrow> fst x = ''__start'' \<or> fst x = ''_start''"

fun get_startPC :: "elf \<Rightarrow> elf_error + Addr" where
  "get_startPC [] = Inl InvalidEntryPoint"
| "get_startPC (s # elf) =
     (if elf_type s \<noteq> SHT_SYMTAB then get_startPC elf
      else case find is_start_section (elf_symbols s) of
          None \<Rightarrow> get_startPC elf
        | Some x \<Rightarrow> Inr (snd x))"

section \<open>The image of a file\<close>

text \<open>
  A specification of what a loaded file leaves in memory: the bytes of the sections that are
  allocated, or zeros, a later section over an earlier one.
\<close>

definition elf_bytes :: "elf_section \<Rightarrow> byte list" where
  "elf_bytes s = (case elf_data s of None \<Rightarrow> replicate (elf_size s) 0 | Some bytes \<Rightarrow> take (elf_size s) bytes)"

fun elf_image :: "elf \<Rightarrow> Addr \<Rightarrow> (nat \<Rightarrow> byte) \<Rightarrow> nat \<Rightarrow> byte" where
  "elf_image [] offset f = f"
| "elf_image (s # elf) offset f =
     elf_image elf offset
       (if elf_flags s AND SHF_ALLOC \<noteq> 0 then overwrite (unat (elf_address s + offset)) (elf_bytes s) f else f)"

definition elf_fits :: "elf \<Rightarrow> Addr \<Rightarrow> nat \<Rightarrow> bool" where
  "elf_fits elf offset n \<longleftrightarrow>
     (\<forall>s \<in> set elf. elf_flags s AND SHF_ALLOC \<noteq> 0 \<longrightarrow>
        elf_address s \<noteq> 0 \<and> unat (elf_address s + offset) + length (elf_bytes s) \<le> n)"

context func_memory
begin

lemma load_section_holds:
  assumes "holds ok byte_at msize n f m" "n \<le> 2 ^ 64" "elf_address s \<noteq> 0"
    "unat (elf_address s + offset) + length (elf_bytes s) \<le> n"
  obtains m' where "load_elf_section M s offset m = Inr m'"
    "holds ok byte_at msize n (overwrite (unat (elf_address s + offset)) (elf_bytes s) f) m'"
proof (cases "elf_data s")
  case None
  then have bs: "elf_bytes s = replicate (elf_size s) 0" by (simp add: elf_bytes_def)
  obtain m' where "mem_memset M (elf_address s + offset) 0 (elf_size s) m = Inr m'"
    "holds ok byte_at msize n (overwrite (unat (elf_address s + offset)) (elf_bytes s) f) m'"
    unfolding bs by (rule memset_holds [OF assms(1) _ assms(2)]) (use assms(4) bs in simp)
  then show ?thesis
    using None assms(3) by (intro that [of m']) (simp_all add: load_elf_section_def in_memory_def)
next
  case (Some bytes)
  then have bs: "elf_bytes s = take (elf_size s) bytes" by (simp add: elf_bytes_def)
  obtain m' where "host_to_guest M m (elf_address s + offset) (take (elf_size s) bytes) = Inr m'"
    "holds ok byte_at msize n (overwrite (unat (elf_address s + offset)) (elf_bytes s) f) m'"
    unfolding bs by (rule copy_holds [OF assms(1) assms(4) [unfolded bs]])
  then show ?thesis
    using Some assms(3) by (intro that [of m']) (simp_all add: load_elf_section_def in_memory_def)
qed

lemma load_holds:
  assumes "holds ok byte_at msize n f m" "n \<le> 2 ^ 64" "elf_fits elf offset n"
  shows "\<exists>m'. load_to M elf offset m = Inr m' \<and> holds ok byte_at msize n (elf_image elf offset f) m'"
  using assms(1,3)
proof (induction elf arbitrary: f m)
  case (Cons s elf)
  have fits: "elf_fits elf offset n" using Cons.prems(2) by (simp add: elf_fits_def)
  show ?case
  proof (cases "elf_flags s AND SHF_ALLOC = 0")
    case False
    then have s: "elf_address s \<noteq> 0" "unat (elf_address s + offset) + length (elf_bytes s) \<le> n"
      using Cons.prems(2) by (simp_all add: elf_fits_def)
    obtain m' where "load_elf_section M s offset m = Inr m'"
      "holds ok byte_at msize n (overwrite (unat (elf_address s + offset)) (elf_bytes s) f) m'"
      by (rule load_section_holds [OF Cons.prems(1) assms(2) s])
    then show ?thesis using Cons.IH [OF _ fits] False by simp
  qed (use Cons.IH [OF Cons.prems(1) fits] in simp)
qed simp

end

text \<open>C16: A file whose allocated sections have addresses and fit is loaded, and the memory then holds
  its image: every section's bytes at its address plus the offset, zeros for a section without
  data, and what was there before everywhere else.\<close>
theorem elf_load_image:
  assumes "wf_hier h" "elf_fits elf offset (hier_size h)"
  shows "\<exists>h'. load_to hier_ops elf offset h = Inr h' \<and> wf_hier h'
    \<and> flatten h' = map (elf_image elf offset ((!) (flatten h))) [0..<hier_size h]"
proof -
  have "holds wf_hier (\<lambda>h k. check_and_read_byte h (of_nat k)) hier_size (hier_size h) ((!) (flatten h)) h"
    using assms(1) by (simp add: holds_def)
  from hier.load_holds [OF this _ assms(2)] unat_addr_size(2) [OF assms(1)] obtain h' where
    "load_to hier_ops elf offset h = Inr h'"
    "holds wf_hier (\<lambda>h k. check_and_read_byte h (of_nat k)) hier_size (hier_size h) (elf_image elf offset ((!) (flatten h))) h'"
    by auto
  then show ?thesis by (auto simp: holds_def flatten_def)
qed

definition example_elf :: elf where
  "example_elf =
     [\<lparr>elf_name = ''.note'', elf_type = 1, elf_flags = 0, elf_address = 0, elf_size = 1, elf_data = Some [7], elf_symbols = []\<rparr>,
      \<lparr>elf_name = ''.text'', elf_type = 1, elf_flags = 6, elf_address = 4, elf_size = 2, elf_data = Some [1, 2], elf_symbols = []\<rparr>,
      \<lparr>elf_name = ''.bss'', elf_type = 8, elf_flags = 3, elf_address = 9, elf_size = 3, elf_data = None, elf_symbols = []\<rparr>]"

lemma example_elf_fits: "elf_fits example_elf 2 16"
  by (simp add: elf_fits_def example_elf_def SHF_ALLOC_def elf_bytes_def)

lemma elf_load_image_witness:
  "\<exists>h'. load_to hier_ops example_elf 2 small_hier = Inr h' \<and> wf_hier h'
    \<and> flatten h' = [0, 0, 0, 0, 0, 0, 1, 2, 0, 0, 0, 0, 0, 0, 0, 0]"
proof -
  have "map (elf_image example_elf 2 ((!) (replicate 16 0))) [0..<16] = [0, 0, 0, 0, 0, 0, 1, 2, 0, 0, 0, 0, 0, 0, 0, 0]"
    by code_simp
  moreover have "elf_fits example_elf 2 (hier_size small_hier)" by (simp add: size_small_hier example_elf_fits)
  ultimately show ?thesis
    using elf_load_image [OF wf_small_hier, of example_elf 2] by (simp add: size_small_hier flatten_small_hier)
qed

text \<open>A file loaded so that its text section lands on a vector has its text there.\<close>

lemma load_text_at:
  assumes "find (\<lambda>s. elf_name s = ''.text'') elf = Some s"
  shows "elf_address s + (vector - get_text_section_addr elf) = vector"
  using assms by (simp add: get_text_section_addr_def)

end
