(* ===== verification/Mars_Kernel.thy ===== *)
theory Mars_Kernel
  imports Number_Text Elf_Loader Kernel
begin

text \<open>
  The kernel of simulator/kernel/mars/mars_kernel.cpp, whose system calls are those of the MARS
  simulator, and the base of the kernels, kernel/base_kernel.h and kernel.cpp. A kernel works on
  a \<open>machine\<close>, a processor and a memory that share one state, which is the simulator's; the
  replicas a pipelined simulator adds are machines too. What the kernel asks of the host is a
  record, and the files of the host are part of its state. A system call is a function on the
  kernel's state and the machine's, of the type that \<open>execute_interactive\<close> retries.
\<close>

section \<open>Machines and hosts\<close>

record ('s, 'm) machine =
  sim :: "'s cpu_model"
  memory_of :: "'s \<Rightarrow> 'm"
  with_memory :: "'m \<Rightarrow> 's \<Rightarrow> 's"
  memory_functions :: "'m memory_ops"
  get_isa :: string

record host =
  permitted :: "byte list \<Rightarrow> openmode \<Rightarrow> bool"
  tell_append :: "nat \<Rightarrow> nat \<Rightarrow> nat"
  largest_buffer :: nat

record mars =
  instream :: stream
  outstream :: stream
  errstream :: stream
  user_files :: "uint64 \<Rightarrow> (byte list \<times> stream) option"
  next_descriptor :: uint64
  kernel_exit_code :: "32 word"
  kernel_start_pc :: Addr
  host_files :: files

definition first_user_descriptor :: uint64 where "first_user_descriptor = 3"

definition new_mars :: "stream \<Rightarrow> stream \<Rightarrow> stream \<Rightarrow> files \<Rightarrow> mars" where
  "new_mars ins out err fs =
     \<lparr>instream = ins, outstream = out, errstream = err, user_files = (\<lambda>d. None),
      next_descriptor = first_user_descriptor, kernel_exit_code = 0, kernel_start_pc = 0, host_files = fs\<rparr>"

definition reg_v0 :: nat where "reg_v0 = 2"
definition reg_a0 :: nat where "reg_a0 = 4"
definition reg_a1 :: nat where "reg_a1 = 5"
definition reg_a2 :: nat where "reg_a2 = 6"

lemmas registers_of_calls = reg_v0_def reg_a0_def reg_a1_def reg_a2_def

section \<open>What the calls are made of\<close>

definition with_register ::
  "('s, 'm) machine \<Rightarrow> nat \<Rightarrow> (uint64 \<Rightarrow> kernel_answer \<times> mars \<times> 's) \<Rightarrow> mars \<times> 's \<Rightarrow> kernel_answer \<times> mars \<times> 's" where
  "with_register K n f st = (case read_cpu (sim K) n (snd st) of Inl e \<Rightarrow> (OtherError, st) | Inr v \<Rightarrow> f v)"

definition set_register :: "('s, 'm) machine \<Rightarrow> nat \<Rightarrow> uint64 \<Rightarrow> mars \<times> 's \<Rightarrow> kernel_answer \<times> mars \<times> 's" where
  "set_register K n v st =
     (case write_cpu (sim K) n v (snd st) of Inl e \<Rightarrow> (OtherError, st) | Inr s \<Rightarrow> (Answer NO_TRAP, fst st, s))"

definition write_memory ::
  "('s, 'm) machine \<Rightarrow> ('m \<Rightarrow> mem_error + 'm) \<Rightarrow> mars \<times> 's \<Rightarrow> kernel_answer \<times> mars \<times> 's" where
  "write_memory K f st =
     (case f (memory_of K (snd st)) of
        Inl e \<Rightarrow> (OtherError, st)
      | Inr m \<Rightarrow> (Answer NO_TRAP, fst st, with_memory K m (snd st)))"

fun continue_with ::
  "kernel_answer \<times> mars \<times> 's \<Rightarrow> (mars \<times> 's \<Rightarrow> kernel_answer \<times> mars \<times> 's) \<Rightarrow> kernel_answer \<times> mars \<times> 's" where
  "continue_with (Answer NO_TRAP, st) f = f st"
| "continue_with r f = r"

definition print_to_out :: "byte list \<Rightarrow> mars \<times> 's \<Rightarrow> kernel_answer \<times> mars \<times> 's" where
  "print_to_out bytes st = (Answer NO_TRAP, (fst st)\<lparr>outstream := put_bytes bytes (outstream (fst st))\<rparr>, snd st)"

section \<open>The standard streams\<close>

definition print_integer :: "('s, 'm) machine \<Rightarrow> mars \<times> 's \<Rightarrow> kernel_answer \<times> mars \<times> 's" where
  "print_integer K st = with_register K reg_a0 (\<lambda>v. print_to_out (decimal_int (sint v)) st) st"

definition read_integer :: "('s, 'm) machine \<Rightarrow> mars \<times> 's \<Rightarrow> kernel_answer \<times> mars \<times> 's" where
  "read_integer K st =
     (let (input, ins) = extract_word (instream (fst st)); st = ((fst st)\<lparr>instream := ins\<rparr>, snd st)
      in case stoll input of
           Inl e \<Rightarrow> (BadInputValue, st)
         | Inr (v, pos) \<Rightarrow> if pos \<noteq> length input then (BadInputValue, st) else set_register K reg_v0 (of_int v) st)"

definition print_character :: "('s, 'm) machine \<Rightarrow> mars \<times> 's \<Rightarrow> kernel_answer \<times> mars \<times> 's" where
  "print_character K st = with_register K reg_a0 (\<lambda>v. print_to_out [ucast v] st) st"

text \<open>A \<open>char\<close> is signed, as it is on the hosts of the simulator.\<close>

definition read_character :: "('s, 'm) machine \<Rightarrow> mars \<times> 's \<Rightarrow> kernel_answer \<times> mars \<times> 's" where
  "read_character K st =
     (let (input, ins) = extract_word (instream (fst st)); st = ((fst st)\<lparr>instream := ins\<rparr>, snd st)
      in if length input \<noteq> 1 then (BadInputValue, st) else set_register K reg_v0 (scast (input ! 0)) st)"

definition print_string :: "('s, 'm) machine \<Rightarrow> mars \<times> 's \<Rightarrow> kernel_answer \<times> mars \<times> 's" where
  "print_string K st =
     with_register K reg_a0 (\<lambda>ptr.
       print_to_out (read_string (memory_functions K) (memory_of K (snd st)) ptr) st) st"

definition mars_read_string :: "('s, 'm) machine \<Rightarrow> mars \<times> 's \<Rightarrow> kernel_answer \<times> mars \<times> 's" where
  "mars_read_string K st =
     with_register K reg_a0 (\<lambda>buffer_ptr. with_register K reg_a1 (\<lambda>chars_to_read.
       let (input, ins) = extract_word (instream (fst st)); st = ((fst st)\<lparr>instream := ins\<rparr>, snd st)
       in write_memory K (write_string_limited (memory_functions K) input buffer_ptr (unat chars_to_read)) st) st) st"

section \<open>Files\<close>

definition get_openmode :: "uint64 \<Rightarrow> openmode option" where
  "get_openmode v =
     (if v = 0 then Some For_reading else if v = 1 then Some For_writing
      else if v = 9 then Some For_appending else None)"

definition io_failure :: "('s, 'm) machine \<Rightarrow> mars \<times> 's \<Rightarrow> kernel_answer \<times> mars \<times> 's" where
  "io_failure K st = set_register K reg_v0 (- 1) st"

definition emplace_file :: "byte list \<times> stream \<Rightarrow> mars \<Rightarrow> mars" where
  "emplace_file f k =
     (if user_files k (next_descriptor k) \<noteq> None then k
      else k\<lparr>user_files := (user_files k)(next_descriptor k \<mapsto> f)\<rparr>)"

text \<open>The descriptor is the one before its increment.\<close>

definition open_file :: "host \<Rightarrow> ('s, 'm) machine \<Rightarrow> mars \<times> 's \<Rightarrow> kernel_answer \<times> mars \<times> 's" where
  "open_file H K st =
     with_register K reg_a0 (\<lambda>filename_ptr. with_register K reg_a1 (\<lambda>flags.
       let filename = read_string (memory_functions K) (memory_of K (snd st)) filename_ptr
       in case Option.bind (get_openmode flags) (\<lambda>mode. file_open (permitted H) filename mode (host_files (fst st))) of
            None \<Rightarrow> io_failure K st
          | Some (f, fs) \<Rightarrow>
              (let k = emplace_file (filename, f) ((fst st)\<lparr>host_files := fs\<rparr>)
               in continue_with (set_register K reg_v0 (next_descriptor k) (k, snd st)) (\<lambda>st.
                    (Answer NO_TRAP, (fst st)\<lparr>next_descriptor := next_descriptor (fst st) + 1\<rparr>, snd st)))) st) st"

definition close_file :: "('s, 'm) machine \<Rightarrow> mars \<times> 's \<Rightarrow> kernel_answer \<times> mars \<times> 's" where
  "close_file K st =
     with_register K reg_a0 (\<lambda>descriptor.
       if descriptor < first_user_descriptor then (Answer NO_TRAP, st)
       else case user_files (fst st) descriptor of
           None \<Rightarrow> (Answer NO_TRAP, st)
         | Some (name, f) \<Rightarrow>
             (Answer NO_TRAP, (fst st)\<lparr>user_files := (user_files (fst st))(descriptor := None),
                 host_files := file_close name f (host_files (fst st))\<rparr>, snd st)) st"

text \<open>The pointers to streams that the functions below return.\<close>

datatype stream_pointer = Instream | Outstream | Errstream | User_file uint64

definition find_user_file_by_descriptor :: "mars \<Rightarrow> uint64 \<Rightarrow> stream_pointer option" where
  "find_user_file_by_descriptor k d = (if user_files k d = None then None else Some (User_file d))"

definition find_in_file_by_descriptor :: "mars \<Rightarrow> uint64 \<Rightarrow> stream_pointer option" where
  "find_in_file_by_descriptor k d =
     (if d = 0 then Some Instream else if d = 1 \<or> d = 2 then None else find_user_file_by_descriptor k d)"

definition find_out_file_by_descriptor :: "mars \<Rightarrow> uint64 \<Rightarrow> stream_pointer option" where
  "find_out_file_by_descriptor k d =
     (if d = 0 then None else if d = 1 then Some Outstream else if d = 2 then Some Errstream
      else find_user_file_by_descriptor k d)"

fun stream_at :: "mars \<Rightarrow> stream_pointer \<Rightarrow> stream" where
  "stream_at k Instream = instream k"
| "stream_at k Outstream = outstream k"
| "stream_at k Errstream = errstream k"
| "stream_at k (User_file d) = (case user_files k d of None \<Rightarrow> empty_stream | Some (name, f) \<Rightarrow> f)"

fun set_stream :: "stream_pointer \<Rightarrow> stream \<Rightarrow> mars \<Rightarrow> mars" where
  "set_stream Instream f k = k\<lparr>instream := f\<rparr>"
| "set_stream Outstream f k = k\<lparr>outstream := f\<rparr>"
| "set_stream Errstream f k = k\<lparr>errstream := f\<rparr>"
| "set_stream (User_file d) f k =
     k\<lparr>user_files := (user_files k)(d := map_option (\<lambda>(name, old). (name, f)) (user_files k d))\<rparr>"

definition write_to_file :: "host \<Rightarrow> ('s, 'm) machine \<Rightarrow> mars \<times> 's \<Rightarrow> kernel_answer \<times> mars \<times> 's" where
  "write_to_file H K st =
     with_register K reg_a0 (\<lambda>descriptor. with_register K reg_a1 (\<lambda>buffer_ptr. with_register K reg_a2 (\<lambda>chars_to_write.
       case find_out_file_by_descriptor (fst st) descriptor of
         None \<Rightarrow> io_failure K st
       | Some p \<Rightarrow>
           (let bytes = read_string_limited (memory_functions K) (memory_of K (snd st)) buffer_ptr (unat chars_to_write);
                f = stream_at (fst st) p;
                current_pos = tellp (tell_append H) f;
                f = put_bytes bytes f;
                st = (set_stream p f (fst st), snd st)
            in if badbit f then (OtherError, st)
               else set_register K reg_v0 (of_int (tellp (tell_append H) f - current_pos)) st)) st) st) st"

text \<open>The buffer of the host is zeroed, and all of it is copied to the guest.\<close>

definition read_from_file :: "host \<Rightarrow> ('s, 'm) machine \<Rightarrow> mars \<times> 's \<Rightarrow> kernel_answer \<times> mars \<times> 's" where
  "read_from_file H K st =
     with_register K reg_a0 (\<lambda>descriptor. with_register K reg_a1 (\<lambda>buffer_ptr. with_register K reg_a2 (\<lambda>chars_to_read.
       case find_in_file_by_descriptor (fst st) descriptor of
         None \<Rightarrow> io_failure K st
       | Some p \<Rightarrow>
           if largest_buffer H < unat chars_to_read then (OtherError, st)
           else (let (current_pos, f) = tellg (stream_at (fst st) p);
                     (bytes, f) = read_bytes_from (unat chars_to_read) f;
                     bad = badbit f;
                     (new_pos, f) = tellg f;
                     st = (set_stream p f (fst st), snd st);
                     buffer = fill_buffer (replicate (unat chars_to_read) 0) bytes
                 in if bad then (OtherError, st)
                    else continue_with (set_register K reg_v0 (of_int (new_pos - current_pos)) st) (\<lambda>st.
                           write_memory K (\<lambda>m. host_to_guest (memory_functions K) m buffer_ptr buffer) st))) st) st) st"

section \<open>A system call\<close>

definition mars_execute :: "host \<Rightarrow> ('s, 'm) machine \<Rightarrow> mars \<times> 's \<Rightarrow> kernel_answer \<times> mars \<times> 's" where
  "mars_execute H K st =
     with_register K reg_v0 (\<lambda>syscall_code.
       if syscall_code = 1 then print_integer K st
       else if syscall_code = 4 then print_string K st
       else if syscall_code = 5 then read_integer K st
       else if syscall_code = 8 then mars_read_string K st
       else if syscall_code = 10 then (Answer HALT, (fst st)\<lparr>kernel_exit_code := 0\<rparr>, snd st)
       else if syscall_code = 11 then print_character K st
       else if syscall_code = 12 then read_character K st
       else if syscall_code = 13 then open_file H K st
       else if syscall_code = 14 then read_from_file H K st
       else if syscall_code = 15 then write_to_file H K st
       else if syscall_code = 16 then close_file K st
       else if syscall_code = 17
       then with_register K reg_a0 (\<lambda>code. (Answer HALT, (fst st)\<lparr>kernel_exit_code := ucast code\<rparr>, snd st)) st
       else (Answer UNSUPPORTED_SYSCALL, st)) st"

text \<open>\<open>create_kernel\<close>: the kernel of MARS, or one that answers every call with its trap.\<close>

definition create_kernel :: "bool \<Rightarrow> host \<Rightarrow> ('s, 'm) machine \<Rightarrow> mars \<times> 's \<Rightarrow> kernel_answer \<times> mars \<times> 's" where
  "create_kernel is_mars H K = (if is_mars then mars_execute H K else dummy_kernel)"

section \<open>Loading\<close>

datatype load_error = ElfError elf_error | RegisterError sim_error | UnsupportedISA string

definition load_elf :: "('s, 'm) machine \<Rightarrow> elf \<Rightarrow> Addr \<Rightarrow> 's \<Rightarrow> load_error + 's" where
  "load_elf K elf offset s =
     (case load_to (memory_functions K) elf offset (memory_of K s) of
        Inl e \<Rightarrow> Inl (ElfError e)
      | Inr m \<Rightarrow> Inr (with_memory K m s))"

definition load_file :: "elf_reader \<Rightarrow> ('s, 'm) machine \<Rightarrow> string \<Rightarrow> mars \<times> 's \<Rightarrow> load_error + mars \<times> 's" where
  "load_file reader K name st =
     (case new_elf_loader reader name of
        Inl e \<Rightarrow> Inl (ElfError e)
      | Inr elf \<Rightarrow> bind_sim (load_elf K elf 0 (snd st)) (\<lambda>s.
          case get_startPC elf of
            Inl e \<Rightarrow> Inl (ElfError e)
          | Inr a \<Rightarrow> Inr ((fst st)\<lparr>kernel_start_pc := a\<rparr>, s)))"

definition TRAP_VECTOR :: Addr where "TRAP_VECTOR = 0x80000000"

definition connect_riscv_handler :: "elf_reader \<Rightarrow> string \<Rightarrow> ('s, 'm) machine \<Rightarrow> 's \<Rightarrow> load_error + 's" where
  "connect_riscv_handler reader images K s =
     (case write_csr (sim K) ''stvec'' TRAP_VECTOR s of
        Inl e \<Rightarrow> Inl (RegisterError e)
      | Inr s \<Rightarrow>
          (case new_elf_loader reader (images @ ''riscv32.bin'') of
             Inl e \<Rightarrow> Inl (ElfError e)
           | Inr elf \<Rightarrow> load_elf K elf (trap_vector_address TRAP_VECTOR - get_text_section_addr elf) s))"

definition connect_mars_handler :: "elf_reader \<Rightarrow> string \<Rightarrow> ('s, 'm) machine \<Rightarrow> 's \<Rightarrow> load_error + 's" where
  "connect_mars_handler reader images K s =
     (case new_elf_loader reader (images @ ''mars32_le.bin'') of
        Inl e \<Rightarrow> Inl (ElfError e)
      | Inr elf \<Rightarrow> load_elf K elf (0x800000180 - get_text_section_addr elf) s)"

definition is_mips_le :: "string \<Rightarrow> bool" where
  "is_mips_le isa \<longleftrightarrow>
     isa \<in> {''mars'', ''mars64'', ''mips32le'', ''mips32'', ''mips64'', ''mips64le''}"

definition connect_exception_handler :: "elf_reader \<Rightarrow> string \<Rightarrow> ('s, 'm) machine \<Rightarrow> 's \<Rightarrow> load_error + 's" where
  "connect_exception_handler reader images K s =
     (let isa = get_isa K
      in if isa = ''riscv32'' \<or> isa = ''riscv64'' then connect_riscv_handler reader images K s
         else if is_mips_le isa then connect_mars_handler reader images K s
         else Inl (UnsupportedISA isa))"

end
