(* ===== verification/Mars_Calls.thy ===== *)
theory Mars_Calls
  imports Mars_Kernel
begin

text \<open>
  What the system calls of the MARS kernel do, over what a kernel relies on: a machine whose
  registers of calls can be read and written, in as many bits as the processor has, and a
  memory with the contract of \<open>func_memory\<close>. The lemmas give the outcome of each call, and a
  program that writes a file and reads it back is followed through five of them.
\<close>

section \<open>The contract of a machine\<close>

definition call_registers :: "nat set" where "call_registers = {reg_v0, reg_a0, reg_a1, reg_a2}"

definition c_string_at :: "('m \<Rightarrow> nat \<Rightarrow> byte) \<Rightarrow> ('m \<Rightarrow> nat) \<Rightarrow> 'm \<Rightarrow> Addr \<Rightarrow> byte list \<Rightarrow> bool" where
  "c_string_at byte_at msize m a bs \<longleftrightarrow>
     unat a + length bs < msize m \<and> map (byte_at m) [unat a..<unat a + length bs] = bs
     \<and> byte_at m (unat a + length bs) = 0 \<and> 0 \<notin> set bs"

text \<open>What a word is to \<open>read_integer\<close>.\<close>

definition parse_integer :: "byte list \<Rightarrow> int option" where
  "parse_integer w = (case stoll w of Inl e \<Rightarrow> None | Inr (v, pos) \<Rightarrow> if pos = length w then Some v else None)"

text \<open>What a program does for a call, and two uses of the calls: to save a buffer in a file, and to
  load one from a file.\<close>

definition syscall ::
  "host \<Rightarrow> ('s, 'm) machine \<Rightarrow> uint64 \<Rightarrow> uint64 \<Rightarrow> uint64 \<Rightarrow> uint64 \<Rightarrow> mars \<times> 's \<Rightarrow> kernel_answer \<times> mars \<times> 's" where
  "syscall H K code a b c st =
     continue_with (set_register K reg_v0 code st) (\<lambda>st.
     continue_with (set_register K reg_a0 a st) (\<lambda>st.
     continue_with (set_register K reg_a1 b st) (\<lambda>st.
     continue_with (set_register K reg_a2 c st) (\<lambda>st. mars_execute H K st))))"

definition save_buffer ::
  "host \<Rightarrow> ('s, 'm) machine \<Rightarrow> Addr \<Rightarrow> Addr \<Rightarrow> uint64 \<Rightarrow> mars \<times> 's \<Rightarrow> kernel_answer \<times> mars \<times> 's" where
  "save_buffer H K name buffer n st =
     continue_with (syscall H K 13 name 1 0 st) (\<lambda>st. with_register K reg_v0 (\<lambda>d.
     continue_with (syscall H K 15 d buffer n st) (\<lambda>st. syscall H K 16 d 0 0 st)) st)"

definition load_buffer ::
  "host \<Rightarrow> ('s, 'm) machine \<Rightarrow> Addr \<Rightarrow> Addr \<Rightarrow> uint64 \<Rightarrow> mars \<times> 's \<Rightarrow> kernel_answer \<times> mars \<times> 's" where
  "load_buffer H K name buffer n st =
     continue_with (syscall H K 13 name 0 0 st) (\<lambda>st. with_register K reg_v0 (\<lambda>d. syscall H K 14 d buffer n st) st)"

locale call_machine = func_memory M ok byte_at msize
  for M :: "'m memory_ops" and ok :: "'m \<Rightarrow> bool" and byte_at :: "'m \<Rightarrow> nat \<Rightarrow> byte" and msize :: "'m \<Rightarrow> nat" +
  fixes K :: "('s, 'm) machine"
    and valid_state :: "'s \<Rightarrow> bool"
    and reg :: "'s \<Rightarrow> nat \<Rightarrow> uint64"
    and narrow :: "uint64 \<Rightarrow> uint64"
  assumes functions_eq: "memory_functions K = M"
    and read_reg: "valid_state s \<Longrightarrow> n \<in> call_registers \<Longrightarrow> read_cpu (sim K) n s = Inr (reg s n)"
    and write_reg: "valid_state s \<Longrightarrow> n \<in> call_registers \<Longrightarrow>
      \<exists>s'. write_cpu (sim K) n v s = Inr s' \<and> valid_state s' \<and> reg s' = (reg s)(n := narrow v)
        \<and> memory_of K s' = memory_of K s"
    and memory_written: "valid_state s \<Longrightarrow> ok m \<Longrightarrow>
      valid_state (with_memory K m s) \<and> reg (with_memory K m s) = reg s \<and> memory_of K (with_memory K m s) = m"
    and memory_ok: "valid_state s \<Longrightarrow> ok (memory_of K s)"
    and string_length: "ok m \<Longrightarrow> c_string_at byte_at msize m a bs \<Longrightarrow> mem_strlen M m a = length bs"
    and string_reaches: "ok m \<Longrightarrow> unat a + n \<le> msize m \<Longrightarrow> \<forall>k < n. byte_at m (unat a + k) \<noteq> 0 \<Longrightarrow> n \<le> mem_strlen M m a"
    and narrow_small: "unat v < 2 ^ 32 \<Longrightarrow> narrow v = v"
begin

text \<open>The registers and the memory of a state.\<close>

definition shows_state :: "(nat \<Rightarrow> uint64) \<Rightarrow> 'm \<Rightarrow> 's \<Rightarrow> bool" where
  "shows_state r m s \<longleftrightarrow> valid_state s \<and> reg s = r \<and> memory_of K s = m"

lemma shows_self: "valid_state s \<Longrightarrow> shows_state (reg s) (memory_of K s) s"
  by (simp add: shows_state_def)

lemma shows_ok: "shows_state r m s \<Longrightarrow> ok m"
  using memory_ok by (auto simp: shows_state_def)

lemma with_register_shows:
  assumes "shows_state r m (snd st)" "n \<in> call_registers"
  shows "with_register K n f st = f (r n)"
  using read_reg [of "snd st" n] assms by (simp add: with_register_def shows_state_def)

lemma with_register_at:
  "shows_state r m s \<Longrightarrow> n \<in> call_registers \<Longrightarrow> with_register K n f (k, s) = f (r n)"
  using with_register_shows [of r m "(k, s)"] by simp

lemma set_register_shows:
  assumes "shows_state r m s" "n \<in> call_registers"
  obtains s' where "set_register K n v (k, s) = (Answer NO_TRAP, k, s')" "shows_state (r(n := narrow v)) m s'"
  using write_reg [of s n v] assms by (auto simp: set_register_def shows_state_def)

lemma write_memory_shows:
  assumes "shows_state r m s" "f m = Inr m'" "ok m'"
  obtains s' where "write_memory K f (k, s) = (Answer NO_TRAP, k, s')" "shows_state r m' s'"
  using memory_written [of s m'] assms by (auto simp: write_memory_def shows_state_def)

lemma read_string_shows:
  assumes "shows_state r m s" "c_string_at byte_at msize m a bs"
  shows "read_string (memory_functions K) (memory_of K s) a = bs"
proof -
  have m: "ok m" "memory_of K s = m" using shows_ok [OF assms(1)] assms(1) by (simp_all add: shows_state_def)
  have "guest_to_host M m a (length bs) = bs"
    using read_bytes [OF m(1), of a "length bs"] assms(2) by (simp add: c_string_at_def)
  then show ?thesis
    using string_length [OF m(1) assms(2)]
    by (simp add: functions_eq m(2) read_string_def read_string_by_size_def fill_buffer_def)
qed

lemma read_limited_shows:
  assumes "shows_state r m s" "unat a + n \<le> msize m" "map (byte_at m) [unat a..<unat a + n] = bs" "0 \<notin> set bs"
  shows "read_string_limited (memory_functions K) (memory_of K s) a n = bs"
proof -
  have m: "ok m" "memory_of K s = m" using shows_ok [OF assms(1)] assms(1) by (simp_all add: shows_state_def)
  have "byte_at m (unat a + k) \<noteq> 0" if "k < n" for k
  proof
    assume "byte_at m (unat a + k) = 0"
    moreover have "unat a + k \<in> {unat a..<unat a + n}" using that by simp
    ultimately have "0 \<in> set (map (byte_at m) [unat a..<unat a + n])" by (metis image_eqI set_map set_upt)
    with assms(3,4) show False by simp
  qed
  then have "n \<le> mem_strlen M m a" using string_reaches [OF m(1) assms(2)] by blast
  moreover have "guest_to_host M m a n = bs" using read_bytes [OF m(1) assms(2)] assms(3) by simp
  moreover have "length bs = n" using assms(3) by auto
  ultimately show ?thesis
    by (simp add: functions_eq m(2) read_string_limited_def read_string_by_size_def fill_buffer_def)
qed

text \<open>The state after the calls that end in a register.\<close>

lemma regs_in [simp]:
  "reg_v0 \<in> call_registers" "reg_a0 \<in> call_registers" "reg_a1 \<in> call_registers" "reg_a2 \<in> call_registers"
  by (simp_all add: call_registers_def)

lemma execute_code:
  assumes "shows_state r m s"
  shows "mars_execute H K (k, s) =
    (if r reg_v0 = 1 then print_integer K (k, s)
     else if r reg_v0 = 4 then print_string K (k, s)
     else if r reg_v0 = 5 then read_integer K (k, s)
     else if r reg_v0 = 8 then mars_read_string K (k, s)
     else if r reg_v0 = 10 then (Answer HALT, k\<lparr>kernel_exit_code := 0\<rparr>, s)
     else if r reg_v0 = 11 then print_character K (k, s)
     else if r reg_v0 = 12 then read_character K (k, s)
     else if r reg_v0 = 13 then open_file H K (k, s)
     else if r reg_v0 = 14 then read_from_file H K (k, s)
     else if r reg_v0 = 15 then write_to_file H K (k, s)
     else if r reg_v0 = 16 then close_file K (k, s)
     else if r reg_v0 = 17 then (Answer HALT, k\<lparr>kernel_exit_code := ucast (r reg_a0)\<rparr>, s)
     else (Answer UNSUPPORTED_SYSCALL, k, s))"
  using with_register_shows [of r m "(k, s)"] assms by (simp add: mars_execute_def)

lemma print_integer_shows:
  "shows_state r m s \<Longrightarrow> print_integer K (k, s) =
     (Answer NO_TRAP, k\<lparr>outstream := put_bytes (decimal_int (sint (r reg_a0))) (outstream k)\<rparr>, s)"
  using with_register_shows [of r m "(k, s)"] by (simp add: print_integer_def print_to_out_def)

lemma read_integer_shows:
  assumes "shows_state r m s" "extract_word (instream k) = (w, ins)"
  shows "case parse_integer w of
      None \<Rightarrow> read_integer K (k, s) = (BadInputValue, k\<lparr>instream := ins\<rparr>, s)
    | Some v \<Rightarrow> \<exists>s'. read_integer K (k, s) = (Answer NO_TRAP, k\<lparr>instream := ins\<rparr>, s')
        \<and> shows_state (r(reg_v0 := narrow (of_int v))) m s'"
proof -
  have "\<exists>s'. set_register K reg_v0 (of_int v) (k\<lparr>instream := ins\<rparr>, s) = (Answer NO_TRAP, k\<lparr>instream := ins\<rparr>, s')
      \<and> shows_state (r(reg_v0 := narrow (of_int v))) m s'" for v
    by (rule set_register_shows [OF assms(1) regs_in(1)]) blast
  then show ?thesis
    using assms(2) by (auto simp: parse_integer_def read_integer_def split: sum.split prod.split)
qed

lemma open_file_shows:
  assumes "shows_state r m s" "c_string_at byte_at msize m (r reg_a0) name"
    "get_openmode (r reg_a1) = Some mode" "file_open (permitted H) name mode (host_files k) = Some (f, fs)"
    "user_files k (next_descriptor k) = None"
  obtains s' where "open_file H K (k, s) = (Answer NO_TRAP,
      k\<lparr>host_files := fs, user_files := (user_files k)(next_descriptor k \<mapsto> (name, f)),
        next_descriptor := next_descriptor k + 1\<rparr>, s')"
    "shows_state (r(reg_v0 := narrow (next_descriptor k))) m s'"
proof -
  let ?k = "k\<lparr>host_files := fs, user_files := (user_files k)(next_descriptor k \<mapsto> (name, f))\<rparr>"
  obtain s' where "set_register K reg_v0 (next_descriptor k) (?k, s) = (Answer NO_TRAP, ?k, s')"
    and s': "shows_state (r(reg_v0 := narrow (next_descriptor k))) m s'"
    by (rule set_register_shows [OF assms(1) regs_in(1)])
  then have "open_file H K (k, s) = (Answer NO_TRAP, ?k\<lparr>next_descriptor := next_descriptor k + 1\<rparr>, s')"
    using with_register_shows [of r m "(k, s)"] assms(1,3,4,5) read_string_shows [OF assms(1,2)]
    by (simp add: open_file_def emplace_file_def)
  then show thesis using s' by (intro that [of s']) simp_all
qed

lemma close_file_shows:
  assumes "shows_state r m s" "first_user_descriptor \<le> r reg_a0" "user_files k (r reg_a0) = Some (name, f)"
  shows "close_file K (k, s) = (Answer NO_TRAP,
    k\<lparr>user_files := (user_files k)(r reg_a0 := None), host_files := file_close name f (host_files k)\<rparr>, s)"
  using with_register_shows [of r m "(k, s)"] assms by (simp add: close_file_def not_less [symmetric])

text \<open>Writing to a stream: what is in the guest's buffer goes to the stream, and the register gets how
  far the position moved.\<close>

lemma write_to_file_shows:
  assumes "shows_state r m s" "find_out_file_by_descriptor k (r reg_a0) = Some p" "good (stream_at k p)"
    "writable (stream_at k p)" "unat (r reg_a1) + unat (r reg_a2) \<le> msize m"
    "map (byte_at m) [unat (r reg_a1)..<unat (r reg_a1) + unat (r reg_a2)] = bs" "0 \<notin> set bs"
  obtains s' where "write_to_file H K (k, s) = (Answer NO_TRAP, set_stream p (put_bytes bs (stream_at k p)) k, s')"
    "shows_state (r(reg_v0 := narrow (of_int (tellp (tell_append H) (put_bytes bs (stream_at k p))
       - tellp (tell_append H) (stream_at k p))))) m s'"
proof -
  let ?f = "put_bytes bs (stream_at k p)"
  obtain s' where "set_register K reg_v0 (of_int (tellp (tell_append H) ?f - tellp (tell_append H) (stream_at k p)))
      (set_stream p ?f k, s) = (Answer NO_TRAP, set_stream p ?f k, s')"
    and s': "shows_state (r(reg_v0 := narrow (of_int (tellp (tell_append H) ?f - tellp (tell_append H) (stream_at k p))))) m s'"
    by (rule set_register_shows [OF assms(1) regs_in(1)])
  moreover have "\<not> badbit ?f" using assms(3,4) by (simp add: put_bytes_def good_def)
  ultimately have "write_to_file H K (k, s) = (Answer NO_TRAP, set_stream p ?f k, s')"
    using with_register_shows [of r m "(k, s)"] assms(1,2) read_limited_shows [OF assms(1,5,6,7)]
    by (simp add: write_to_file_def Let_def)
  then show thesis using s' that by blast
qed

text \<open>Reading from a stream that can seek. A read that comes out short is reported as a negative number,
  because the position of a failed stream is -1, and clears the rest of the buffer.\<close>

lemma read_from_file_shows:
  assumes "shows_state r m s" "find_in_file_by_descriptor k (r reg_a0) = Some p" "good (stream_at k p)"
    "seekable (stream_at k p)" "n = unat (r reg_a2)" "n \<le> largest_buffer H" "unat (r reg_a1) + n \<le> msize m"
  defines "bytes \<equiv> take n (available (stream_at k p))"
  defines "f \<equiv> snd (read_bytes_from n (stream_at k p))"
  obtains s' m' where "read_from_file H K (k, s) = (Answer NO_TRAP, set_stream p f k, s')"
    "host_to_guest M m (r reg_a1) (bytes @ replicate (n - length bytes) 0) = Inr m'"
    "shows_state (r(reg_v0 := narrow (if length bytes = n then of_nat n else of_int (- 1 - int (position (stream_at k p)))))) m' s'"
proof -
  let ?f0 = "stream_at k p" and ?buffer = "bytes @ replicate (n - length bytes) 0"
  have len: "length bytes \<le> n" by (simp add: bytes_def)
  have g: "tellg ?f0 = (int (position ?f0), ?f0)"
    using assms(3,4) by (simp add: tellg_def in_sentry_def failed_def good_def Let_def)
  have rd: "read_bytes_from n ?f0 = (bytes, f)"
    using assms(3) by (simp add: f_def read_bytes_from_def bytes_def Let_def)
  define np where "np = (if length bytes = n then int (position ?f0) + int n else - 1)"
  have f: "tellg f = (np, f)" "\<not> badbit f" unfolding np_def
    using assms(3,4) len
    by (simp_all add: f_def read_bytes_from_def Let_def tellg_def in_sentry_def failed_def good_def bytes_def)
  obtain m' where m': "host_to_guest M m (r reg_a1) ?buffer = Inr m'" "ok m'"
    using write_bytes [OF shows_ok [OF assms(1)], of "r reg_a1" ?buffer] assms(7) len by auto
  define v :: uint64 where "v = (if length bytes = n then of_nat n else of_int (- 1 - int (position ?f0)))"
  obtain s1 where s1: "set_register K reg_v0 v (set_stream p f k, s) = (Answer NO_TRAP, set_stream p f k, s1)"
    "shows_state (r(reg_v0 := narrow v)) m s1"
    by (rule set_register_shows [OF assms(1) regs_in(1)])
  obtain s2 where s2: "write_memory K (\<lambda>m. host_to_guest M m (r reg_a1) ?buffer) (set_stream p f k, s1)
      = (Answer NO_TRAP, set_stream p f k, s2)" "shows_state (r(reg_v0 := narrow v)) m' s2"
    by (rule write_memory_shows [where f = "\<lambda>m. host_to_guest M m (r reg_a1) ?buffer", OF s1(2) m'(1,2)])
  have v: "of_int np - of_nat (position ?f0) = v" by (simp add: np_def v_def)
  have "fill_buffer (replicate n 0) bytes = ?buffer" by (simp add: fill_buffer_def)
  then have "read_from_file H K (k, s) = (Answer NO_TRAP, set_stream p f k, s2)"
    using with_register_shows [of r m "(k, s)"] assms(1,2,6) f(2) s1(1) s2(1)
    by (simp add: read_from_file_def Let_def g rd f(1) v assms(5) [symmetric] functions_eq)
  then show thesis using s2(2) m'(1) that unfolding v_def by blast
qed

lemma regs_distinct [simp]:
  "reg_v0 \<noteq> reg_a0" "reg_v0 \<noteq> reg_a1" "reg_v0 \<noteq> reg_a2" "reg_a0 \<noteq> reg_a1" "reg_a0 \<noteq> reg_a2" "reg_a1 \<noteq> reg_a2"
  "reg_a0 \<noteq> reg_v0" "reg_a1 \<noteq> reg_v0" "reg_a2 \<noteq> reg_v0" "reg_a1 \<noteq> reg_a0" "reg_a2 \<noteq> reg_a0" "reg_a2 \<noteq> reg_a1"
  by (simp_all add: registers_of_calls)

lemma syscall_shows:
  assumes "shows_state r m s" "unat code < 2 ^ 32" "unat a < 2 ^ 32" "unat b < 2 ^ 32" "unat c < 2 ^ 32"
  obtains s' r' where "syscall H K code a b c (k, s) = mars_execute H K (k, s')" "shows_state r' m s'"
    "r' reg_v0 = code" "r' reg_a0 = a" "r' reg_a1 = b" "r' reg_a2 = c"
proof -
  obtain s1 where s1: "set_register K reg_v0 code (k, s) = (Answer NO_TRAP, k, s1)" "shows_state (r(reg_v0 := narrow code)) m s1"
    by (rule set_register_shows [OF assms(1) regs_in(1)])
  obtain s2 where s2: "set_register K reg_a0 a (k, s1) = (Answer NO_TRAP, k, s2)"
    "shows_state (r(reg_v0 := narrow code, reg_a0 := narrow a)) m s2"
    by (rule set_register_shows [OF s1(2) regs_in(2)])
  obtain s3 where s3: "set_register K reg_a1 b (k, s2) = (Answer NO_TRAP, k, s3)"
    "shows_state (r(reg_v0 := narrow code, reg_a0 := narrow a, reg_a1 := narrow b)) m s3"
    by (rule set_register_shows [OF s2(2) regs_in(3)])
  obtain s4 where s4: "set_register K reg_a2 c (k, s3) = (Answer NO_TRAP, k, s4)"
    "shows_state (r(reg_v0 := narrow code, reg_a0 := narrow a, reg_a1 := narrow b, reg_a2 := narrow c)) m s4"
    by (rule set_register_shows [OF s3(2) regs_in(4)])
  show thesis
    using narrow_small [OF assms(2)] narrow_small [OF assms(3)] narrow_small [OF assms(4)] narrow_small [OF assms(5)]
    by (intro that [OF _ s4(2)]) (simp_all add: syscall_def s1(1) s2(1) s3(1) s4(1))
qed

lemma save_buffer_shows:
  assumes "shows_state r m s" "unat name < 2 ^ 32" "unat buffer < 2 ^ 32" "unat n < 2 ^ 32"
    and "c_string_at byte_at msize m name nm"
    and "unat buffer + unat n \<le> msize m" "map (byte_at m) [unat buffer..<unat buffer + unat n] = bytes" "0 \<notin> set bytes"
    and "permitted H nm For_writing"
    and "user_files k (next_descriptor k) = None" "3 \<le> unat (next_descriptor k)" "unat (next_descriptor k) < 2 ^ 32"
  obtains s' r' where "save_buffer H K name buffer n (k, s) = (Answer NO_TRAP,
      k\<lparr>host_files := (host_files k)(nm \<mapsto> bytes), next_descriptor := next_descriptor k + 1\<rparr>, s')"
    "shows_state r' m s'"
proof -
  let ?d = "next_descriptor k" and ?f = "empty_stream\<lparr>writable := True\<rparr>"
  have small: "unat (13 :: uint64) < 2 ^ 32" "unat (15 :: uint64) < 2 ^ 32" "unat (16 :: uint64) < 2 ^ 32"
    "unat (1 :: uint64) < 2 ^ 32" "unat (0 :: uint64) < 2 ^ 32" by simp_all
  have d: "?d \<noteq> 0" "?d \<noteq> 1" "?d \<noteq> 2" "first_user_descriptor \<le> ?d"
    using assms(11) by (auto simp: first_user_descriptor_def word_le_nat_alt)
  obtain s1 r1 where c1: "syscall H K 13 name 1 0 (k, s) = mars_execute H K (k, s1)" "shows_state r1 m s1"
    "r1 reg_v0 = 13" "r1 reg_a0 = name" "r1 reg_a1 = 1"
    by (rule syscall_shows [OF assms(1) small(1) assms(2) small(4,5)])
  have "get_openmode (r1 reg_a1) = Some For_writing" "c_string_at byte_at msize m (r1 reg_a0) nm"
    "file_open (permitted H) nm For_writing (host_files k) = Some (?f, (host_files k)(nm \<mapsto> []))"
    using c1(4,5) assms(5,9) by (simp_all add: get_openmode_def file_open_def)
  from open_file_shows [OF c1(2) this(2,1,3) assms(10)] obtain s2 where
    o: "open_file H K (k, s1) = (Answer NO_TRAP, k\<lparr>host_files := (host_files k)(nm \<mapsto> []),
        user_files := (user_files k)(?d \<mapsto> (nm, ?f)), next_descriptor := ?d + 1\<rparr>, s2)"
    and s2: "shows_state (r1(reg_v0 := narrow ?d)) m s2" by blast
  let ?k2 = "k\<lparr>host_files := (host_files k)(nm \<mapsto> []), user_files := (user_files k)(?d \<mapsto> (nm, ?f)), next_descriptor := ?d + 1\<rparr>"
  obtain s3 r3 where c3: "syscall H K 15 ?d buffer n (?k2, s2) = mars_execute H K (?k2, s3)" "shows_state r3 m s3"
    "r3 reg_v0 = 15" "r3 reg_a0 = ?d" "r3 reg_a1 = buffer" "r3 reg_a2 = n"
    by (rule syscall_shows [OF s2 small(2) assms(12,3,4)])
  have u: "user_files ?k2 ?d = Some (nm, ?f)" by simp
  have p: "find_out_file_by_descriptor ?k2 (r3 reg_a0) = Some (User_file ?d)"
    using d(1-3) c3(4) by (simp add: find_out_file_by_descriptor_def find_user_file_by_descriptor_def)
  have f: "good (stream_at ?k2 (User_file ?d))" "writable (stream_at ?k2 (User_file ?d))"
    by (simp_all add: good_def empty_stream_def)
  obtain s4 r4 where w: "write_to_file H K (?k2, s3)
      = (Answer NO_TRAP, set_stream (User_file ?d) (put_bytes bytes (stream_at ?k2 (User_file ?d))) ?k2, s4)"
    and s4: "shows_state r4 m s4"
    using write_to_file_shows [OF c3(2) p f] assms(6-8) c3(5,6) by metis
  let ?g = "put_bytes bytes ?f"
  let ?k3 = "k\<lparr>host_files := (host_files k)(nm \<mapsto> []), user_files := (user_files k)(?d \<mapsto> (nm, ?g)), next_descriptor := ?d + 1\<rparr>"
  have k3: "set_stream (User_file ?d) (put_bytes bytes (stream_at ?k2 (User_file ?d))) ?k2 = ?k3" by simp
  obtain s5 r5 where c5: "syscall H K 16 ?d 0 0 (?k3, s4) = mars_execute H K (?k3, s5)" "shows_state r5 m s5"
    "r5 reg_v0 = 16" "r5 reg_a0 = ?d"
    by (rule syscall_shows [OF s4 small(3) assms(12) small(5,5)])
  have "file_close nm ?g ((host_files k)(nm \<mapsto> [])) = (host_files k)(nm \<mapsto> bytes)"
    by (auto simp: file_close_def put_bytes_def good_def empty_stream_def)
  then have c: "close_file K (?k3, s5) = (Answer NO_TRAP,
      k\<lparr>host_files := (host_files k)(nm \<mapsto> bytes), next_descriptor := ?d + 1\<rparr>, s5)"
    using close_file_shows [OF c5(2), of ?k3 nm ?g] c5(4) d(4) assms(10) by (simp add: fun_upd_idem)
  have "save_buffer H K name buffer n (k, s) = (Answer NO_TRAP,
      k\<lparr>host_files := (host_files k)(nm \<mapsto> bytes), next_descriptor := ?d + 1\<rparr>, s5)"
  proof -
    have "syscall H K 13 name 1 0 (k, s) = (Answer NO_TRAP, ?k2, s2)"
      using execute_code [OF c1(2)] c1(3) by (simp add: c1(1) o)
    moreover have "with_register K reg_v0 g (?k2, s2) = g ?d" for g :: "uint64 \<Rightarrow> kernel_answer \<times> mars \<times> 's"
      using with_register_at [OF s2 regs_in(1)] narrow_small [OF assms(12)] by simp
    moreover have "syscall H K 15 ?d buffer n (?k2, s2) = (Answer NO_TRAP, ?k3, s4)"
      using execute_code [OF c3(2)] c3(3) w k3 by (simp add: c3(1))
    moreover have "syscall H K 16 ?d 0 0 (?k3, s4) = (Answer NO_TRAP,
        k\<lparr>host_files := (host_files k)(nm \<mapsto> bytes), next_descriptor := ?d + 1\<rparr>, s5)"
      using execute_code [OF c5(2)] c5(3) by (simp add: c5(1) c)
    ultimately show ?thesis by (simp add: save_buffer_def)
  qed
  then show thesis using c5(2) that by blast
qed

lemma load_buffer_shows:
  assumes "shows_state r m s" "unat name < 2 ^ 32" "unat buffer < 2 ^ 32" "unat n < 2 ^ 32"
    and "c_string_at byte_at msize m name nm"
    and "host_files k nm = Some bytes" "unat n \<le> length bytes" "unat n \<le> largest_buffer H" "unat buffer + unat n \<le> msize m"
    and "permitted H nm For_reading"
    and "user_files k (next_descriptor k) = None" "3 \<le> unat (next_descriptor k)" "unat (next_descriptor k) < 2 ^ 32"
  obtains k' s' r' m' where "load_buffer H K name buffer n (k, s) = (Answer NO_TRAP, k', s')"
    "host_to_guest M m buffer (take (unat n) bytes) = Inr m'" "shows_state r' m' s'" "r' reg_v0 = n"
proof -
  let ?d = "next_descriptor k" and ?f = "empty_stream\<lparr>content := bytes, readable := True\<rparr>"
  have small: "unat (13 :: uint64) < 2 ^ 32" "unat (14 :: uint64) < 2 ^ 32" "unat (0 :: uint64) < 2 ^ 32" by simp_all
  have d: "?d \<noteq> 0" "?d \<noteq> 1" "?d \<noteq> 2" using assms(12) by auto
  obtain s1 r1 where c1: "syscall H K 13 name 0 0 (k, s) = mars_execute H K (k, s1)" "shows_state r1 m s1"
    "r1 reg_v0 = 13" "r1 reg_a0 = name" "r1 reg_a1 = 0"
    by (rule syscall_shows [OF assms(1) small(1) assms(2) small(3,3)])
  have "get_openmode (r1 reg_a1) = Some For_reading" "c_string_at byte_at msize m (r1 reg_a0) nm"
    "file_open (permitted H) nm For_reading (host_files k) = Some (?f, host_files k)"
    using c1(4,5) assms(5,6,10) by (simp_all add: get_openmode_def file_open_def)
  from open_file_shows [OF c1(2) this(2,1,3) assms(11)] obtain s2 where
    o: "open_file H K (k, s1) = (Answer NO_TRAP, k\<lparr>user_files := (user_files k)(?d \<mapsto> (nm, ?f)), next_descriptor := ?d + 1\<rparr>, s2)"
    and s2: "shows_state (r1(reg_v0 := narrow ?d)) m s2" by auto
  let ?k2 = "k\<lparr>user_files := (user_files k)(?d \<mapsto> (nm, ?f)), next_descriptor := ?d + 1\<rparr>"
  obtain s3 r3 where c3: "syscall H K 14 ?d buffer n (?k2, s2) = mars_execute H K (?k2, s3)" "shows_state r3 m s3"
    "r3 reg_v0 = 14" "r3 reg_a0 = ?d" "r3 reg_a1 = buffer" "r3 reg_a2 = n"
    by (rule syscall_shows [OF s2 small(2) assms(13,3,4)])
  have p: "find_in_file_by_descriptor ?k2 (r3 reg_a0) = Some (User_file ?d)"
    using d c3(4) by (simp add: find_in_file_by_descriptor_def find_user_file_by_descriptor_def)
  have f: "stream_at ?k2 (User_file ?d) = ?f" "good ?f" "seekable ?f" "available ?f = bytes"
    by (simp_all add: good_def empty_stream_def available_def)
  have fits: "unat (r3 reg_a1) + unat n \<le> msize m" using c3(5) assms(9) by simp
  obtain s4 m' where
    rd: "read_from_file H K (?k2, s3) = (Answer NO_TRAP,
        set_stream (User_file ?d) (snd (read_bytes_from (unat n) ?f)) ?k2, s4)"
    and m': "host_to_guest M m (r3 reg_a1) (take (unat n) bytes @ replicate (unat n - length (take (unat n) bytes)) 0) = Inr m'"
    and s4: "shows_state (r3(reg_v0 := narrow (if length (take (unat n) bytes) = unat n then of_nat (unat n)
        else of_int (- 1 - int (position ?f))))) m' s4"
    by (rule read_from_file_shows [OF c3(2) p _ _ _ assms(8) fits, unfolded f(1,4)]) (use f(2,3) c3(6) in simp_all)
  have "load_buffer H K name buffer n (k, s) = (Answer NO_TRAP,
      set_stream (User_file ?d) (snd (read_bytes_from (unat n) ?f)) ?k2, s4)"
  proof -
    have "syscall H K 13 name 0 0 (k, s) = (Answer NO_TRAP, ?k2, s2)"
      using execute_code [OF c1(2)] c1(3) by (simp add: c1(1) o)
    moreover have "with_register K reg_v0 g (?k2, s2) = g ?d" for g :: "uint64 \<Rightarrow> kernel_answer \<times> mars \<times> 's"
      using with_register_at [OF s2 regs_in(1)] narrow_small [OF assms(13)] by simp
    moreover have "syscall H K 14 ?d buffer n (?k2, s2) = (Answer NO_TRAP,
        set_stream (User_file ?d) (snd (read_bytes_from (unat n) ?f)) ?k2, s4)"
      using execute_code [OF c3(2)] c3(3) rd by (simp only: c3(1)) simp
    ultimately show ?thesis by (simp add: load_buffer_def)
  qed
  moreover have "host_to_guest M m buffer (take (unat n) bytes) = Inr m'"
    using m' c3(5) assms(7) by simp
  moreover have "(r3(reg_v0 := narrow (if length (take (unat n) bytes) = unat n then of_nat (unat n)
      else of_int (- 1 - int (position ?f))))) reg_v0 = n"
    using assms(7) narrow_small [OF assms(4)] by simp
  ultimately show thesis using s4 that by blast
qed

text \<open>A buffer that was saved is loaded back.\<close>

lemma file_round_trip:
  assumes "shows_state r m s" "unat name < 2 ^ 32" "unat buffer < 2 ^ 32" "unat copy < 2 ^ 32" "unat n < 2 ^ 32"
    and "c_string_at byte_at msize m name nm"
    and "unat buffer + unat n \<le> msize m" "map (byte_at m) [unat buffer..<unat buffer + unat n] = bytes" "0 \<notin> set bytes"
    and "unat copy + unat n \<le> msize m" "unat n \<le> largest_buffer H"
    and "permitted H nm For_writing" "permitted H nm For_reading"
    and "user_files k (next_descriptor k) = None" "user_files k (next_descriptor k + 1) = None"
    and "3 \<le> unat (next_descriptor k)" "unat (next_descriptor k) + 1 < 2 ^ 32"
  shows "\<exists>k' s' m'. continue_with (save_buffer H K name buffer n (k, s)) (load_buffer H K name copy n) = (Answer NO_TRAP, k', s')
    \<and> valid_state s' \<and> memory_of K s' = m' \<and> host_to_guest M m copy bytes = Inr m' \<and> reg s' reg_v0 = n"
proof -
  let ?k1 = "k\<lparr>host_files := (host_files k)(nm \<mapsto> bytes), next_descriptor := next_descriptor k + 1\<rparr>"
  have d: "unat (next_descriptor k + 1) = unat (next_descriptor k) + 1"
    using assms(17) by (simp add: unat_word_ariths)
  obtain s1 r1 where s1: "save_buffer H K name buffer n (k, s) = (Answer NO_TRAP, ?k1, s1)" "shows_state r1 m s1"
    by (rule save_buffer_shows [OF assms(1,2,3,5,6,7,8,9,12,14,16)]) (use assms(17) in simp)
  have len: "length bytes = unat n" using assms(8) by auto
  obtain k' s' r' m' where "load_buffer H K name copy n (?k1, s1) = (Answer NO_TRAP, k', s')"
    "host_to_guest M m copy (take (unat n) bytes) = Inr m'" "shows_state r' m' s'" "r' reg_v0 = n"
    by (rule load_buffer_shows [where k = ?k1 and bytes = bytes, OF s1(2) assms(2,4,5,6) _ _ assms(11,10,13)])
      (use assms(15-17) len d in simp_all)
  then show ?thesis using s1(1) len by (auto simp: shows_state_def)
qed

section \<open>Reading a number interactively\<close>

lemma parse_Nil [simp]: "parse_integer [] = None"
  by (simp add: parse_integer_def stoll_def scan_integer_def)

lemma attempts_read_integer:
  assumes "shows_state r m s" "r reg_v0 = 5"
  shows "case find (\<lambda>w. parse_integer w \<noteq> None) (take n (words_left (instream k))) of
      None \<Rightarrow> attempts_loop (mars_execute H K) n (k, s) = Inl BadInteraction
    | Some w \<Rightarrow> \<exists>k' s'. attempts_loop (mars_execute H K) n (k, s) = Inr (NO_TRAP, k', s')
        \<and> shows_state (r(reg_v0 := narrow (of_int (the (parse_integer w))))) m s'"
proof (induction n arbitrary: k)
  case (Suc n)
  obtain w f where e: "extract_word (instream k) = (w, f)" by (cases "extract_word (instream k)")
  have w: "w = (case words_left (instream k) of [] \<Rightarrow> [] | w # ws \<Rightarrow> w)" "words_left f = tl (words_left (instream k))"
    using extract_word_words [of "instream k"] e by simp_all
  have x: "mars_execute H K (k, s) = read_integer K (k, s)" using execute_code [OF assms(1)] assms(2) by simp
  note call = read_integer_shows [OF assms(1) e]
  show ?case
  proof (cases "parse_integer w")
    case None
    then have again: "attempts_loop (mars_execute H K) (Suc n) (k, s) = attempts_loop (mars_execute H K) n (k\<lparr>instream := f\<rparr>, s)"
      using call x by simp
    show ?thesis unfolding again
      using Suc.IH [of "k\<lparr>instream := f\<rparr>"] None w by (cases "words_left (instream k)") simp_all
  next
    case (Some v)
    then show ?thesis
      using call x w(1) by (cases "words_left (instream k)") auto
  qed
qed simp

end

section \<open>Descriptors\<close>

text \<open>The invariant: the files are under descriptors that were handed out, none of a standard stream.\<close>

definition descriptors_ok :: "mars \<Rightarrow> bool" where
  "descriptors_ok k \<longleftrightarrow>
     first_user_descriptor \<le> next_descriptor k
     \<and> (\<forall>d. user_files k d \<noteq> None \<longrightarrow> first_user_descriptor \<le> d \<and> d < next_descriptor k)"

text \<open>The calls other than \<open>open_file\<close> at most close files.\<close>

definition fewer_files :: "mars \<Rightarrow> mars \<Rightarrow> bool" where
  "fewer_files k k' \<longleftrightarrow> next_descriptor k' = next_descriptor k \<and> (\<forall>d. user_files k' d \<noteq> None \<longrightarrow> user_files k d \<noteq> None)"

lemma fewer_files_ok: "descriptors_ok k \<Longrightarrow> fewer_files k k' \<Longrightarrow> descriptors_ok k'"
  by (simp add: descriptors_ok_def fewer_files_def)

lemma fewer_self [simp]: "fewer_files k k"
  by (simp add: fewer_files_def)

lemma with_register_cases:
  "(\<And>v. P (f v)) \<Longrightarrow> P (OtherError, st) \<Longrightarrow> P (with_register K n f st)"
  by (simp add: with_register_def split: sum.split)

lemma set_register_kernel [simp]: "fst (snd (set_register K n v st)) = fst st"
  by (simp add: set_register_def split: sum.split)

lemma write_memory_kernel [simp]: "fst (snd (write_memory K f st)) = fst st"
  by (simp add: write_memory_def split: sum.split)

lemma continue_cases:
  "(\<And>st. r = (Answer NO_TRAP, st) \<Longrightarrow> P (f st)) \<Longrightarrow> P r \<Longrightarrow> P (continue_with r f)"
  by (cases "(r, f)" rule: continue_with.cases) simp_all

lemma fewer_set_stream [simp]: "fewer_files k (set_stream p f k)"
  by (cases p) (simp_all add: fewer_files_def)

lemma calls_fewer_files:
  "fewer_files (fst st) (fst (snd (print_integer K st)))" "fewer_files (fst st) (fst (snd (print_string K st)))"
  "fewer_files (fst st) (fst (snd (print_character K st)))" "fewer_files (fst st) (fst (snd (close_file K st)))"
  unfolding print_integer_def print_string_def print_character_def close_file_def
  by (rule with_register_cases; simp add: print_to_out_def fewer_files_def split: option.split prod.split)+

lemma reads_fewer_files:
  "fewer_files (fst st) (fst (snd (read_integer K st)))" "fewer_files (fst st) (fst (snd (read_character K st)))"
  "fewer_files (fst st) (fst (snd (mars_read_string K st)))"
  unfolding read_integer_def read_character_def mars_read_string_def
  by (auto simp: fewer_files_def Let_def with_register_def split: sum.split prod.split)

lemma file_calls_fewer_files:
  "fewer_files (fst st) (fst (snd (write_to_file H K st)))" "fewer_files (fst st) (fst (snd (read_from_file H K st)))"
proof -
  let ?P = "\<lambda>r :: kernel_answer \<times> mars \<times> 'a. fewer_files (fst st) (fst (snd r))"
  show "?P (write_to_file H K st)"
    unfolding write_to_file_def
    by (intro with_register_cases [where P = ?P])
      (auto simp: io_failure_def Let_def split: option.split)
  have c: "?P (continue_with (set_register K n v (set_stream p f (fst st), snd st)) (write_memory K g))" for n v p f g
    by (rule continue_cases [where P = ?P]) (auto dest!: arg_cong [where f = "\<lambda>r. fst (snd r)"] split: if_splits)
  show "?P (read_from_file H K st)"
    unfolding read_from_file_def
    by (intro with_register_cases [where P = ?P])
      (auto simp: io_failure_def Let_def c split: option.split prod.split)
qed

lemma open_file_ok:
  assumes "descriptors_ok (fst st)" "next_descriptor (fst st) \<noteq> - 1" "fst (open_file H K st) \<noteq> OtherError"
  shows "descriptors_ok (fst (snd (open_file H K st)))"
proof -
  let ?P = "\<lambda>r :: kernel_answer \<times> mars \<times> 'a. fst r \<noteq> OtherError \<longrightarrow> descriptors_ok (fst (snd r))"
  let ?d = "next_descriptor (fst st)"
  have "?d + 1 \<noteq> 0" using assms(2) eq_neg_iff_add_eq_0 [of ?d 1] by simp
  then have less: "x \<le> ?d \<Longrightarrow> x < ?d + 1" for x
    using unatSuc [of ?d] by (simp add: word_less_nat_alt word_le_nat_alt add.commute)
  have emplaced: "next_descriptor (emplace_file x (fst st\<lparr>host_files := fs\<rparr>)) = ?d"
    "user_files (emplace_file x (fst st\<lparr>host_files := fs\<rparr>)) d \<noteq> None \<Longrightarrow> d = ?d \<or> user_files (fst st) d \<noteq> None" for x fs d
    by (auto simp: emplace_file_def split: if_splits)
  have k: "descriptors_ok (emplace_file x (fst st\<lparr>host_files := fs\<rparr>)\<lparr>next_descriptor := ?d + 1\<rparr>)" for x fs
  proof -
    have "first_user_descriptor \<le> d \<and> d < ?d + 1" if "user_files (emplace_file x (fst st\<lparr>host_files := fs\<rparr>)) d \<noteq> None" for d
      using emplaced(2) [OF that] less assms(1) unfolding descriptors_ok_def by (meson less_imp_le order_refl)
    moreover have "first_user_descriptor \<le> ?d + 1" using less assms(1) by (meson descriptors_ok_def le_less_trans less_imp_le)
    ultimately show ?thesis by (simp add: descriptors_ok_def)
  qed
  have "?P (continue_with (set_register K n v (emplace_file x (fst st\<lparr>host_files := fs\<rparr>), snd st)) (\<lambda>st.
      (Answer NO_TRAP, fst st\<lparr>next_descriptor := next_descriptor (fst st) + 1\<rparr>, snd st)))" for n v x fs
    using k [of x fs] by (simp add: set_register_def emplaced(1) split: sum.split)
  then have "?P (open_file H K st)"
    unfolding open_file_def using assms(1)
    by (intro with_register_cases [where P = ?P]) (auto simp: io_failure_def Let_def split: option.split)
  with assms(3) show ?thesis by blast
qed

text \<open>C35: Descriptors are never mixed up: whatever system call a program makes, as long as the kernel answers
  it, every open file is under a number that was handed out and belongs to no standard stream, so that
  the number given to the next file names no open one.\<close>
theorem descriptors_invariant:
  assumes "descriptors_ok (fst st)" "next_descriptor (fst st) \<noteq> - 1" "fst (mars_execute H K st) \<noteq> OtherError"
  shows "descriptors_ok (fst (snd (mars_execute H K st)))"
proof (cases "read_cpu (sim K) reg_v0 (snd st)")
  case (Inr v)
  have ex: "descriptors_ok (fst st\<lparr>kernel_exit_code := c\<rparr>)" for c
    using assms(1) by (simp add: descriptors_ok_def)
  have halt: "descriptors_ok (fst (snd (with_register K n (\<lambda>code. (Answer HALT, fst st\<lparr>kernel_exit_code := ucast code\<rparr>, snd st)) st)))" for n
    using assms(1) ex by (simp add: with_register_def split: sum.split)
  note fewer = calls_fewer_files reads_fewer_files file_calls_fewer_files
  show ?thesis
    using assms ex halt fewer [THEN fewer_files_ok [OF assms(1)]] open_file_ok [OF assms(1,2)] Inr
    by (simp add: mars_execute_def with_register_def [of K reg_v0] split: if_splits)
qed (use assms in \<open>simp add: mars_execute_def with_register_def\<close>)

end
