(* ===== verification/Mars_Run.thy ===== *)
theory Mars_Run
  imports Func_Sim Mars_Calls
begin

text \<open>
  The MARS kernel on the functional simulator of MIPS with the memory that the simulator
  creates: the machine that \<open>set_simulator\<close> and \<open>connect_memory\<close> give the kernel. It provides
  the contract of \<open>Mars_Calls\<close>, for registers of 32 and of 64 bits.
\<close>

section \<open>The machine\<close>

definition func_machine ::
  "('r, 'i) isa \<Rightarrow> 'mem memory_ops \<Rightarrow> string \<Rightarrow> (('a::len word, 'i, 'mem) func_sim, 'mem) machine" where
  "func_machine I M name =
     \<lparr>sim = func_cpu I, memory_of = mem, with_memory = \<lambda>m s. s\<lparr>mem := m\<rparr>, memory_functions = M, get_isa = name\<rparr>"

definition mips_machine :: "mips_version \<Rightarrow> string \<Rightarrow> (('a::len word, 'a mips_instr, hier) func_sim, hier) machine" where
  "mips_machine v name = func_machine (mips_isa v) hier_ops name"

lemma mips_machine_simps [simp]:
  "sim (mips_machine v name) = func_cpu (mips_isa v)" "memory_of (mips_machine v name) = mem"
  "with_memory (mips_machine v name) m s = s\<lparr>mem := m\<rparr>" "memory_functions (mips_machine v name) = hier_ops"
  by (simp_all add: mips_machine_def func_machine_def)

definition guest_ok :: "('a::len word, 'i, hier) func_sim \<Rightarrow> bool" where
  "guest_ok s \<longleftrightarrow> wf_rf mips_class (rf s) \<and> wf_hier (mem s)"

definition guest_reg :: "('a::len word, 'i, hier) func_sim \<Rightarrow> nat \<Rightarrow> uint64" where
  "guest_reg s n = (if n \<in> call_registers then ucast (rf s ! n) else 0)"

definition through_register :: "'a::len itself \<Rightarrow> uint64 \<Rightarrow> uint64" where
  "through_register ty v = ucast (ucast v :: 'a word)"

section \<open>The contract\<close>

lemma strlen_loop_zero:
  assumes "\<forall>j < n. check_and_read_byte h (a + of_nat (i + j)) \<noteq> 0" "check_and_read_byte h (a + of_nat (i + n)) = 0" "n < N"
  shows "strlen_loop i N h a = i + n"
  using assms
proof (induction N arbitrary: i n)
  case (Suc N)
  show ?case
  proof (cases n)
    case (Suc n')
    have "\<forall>j < n'. check_and_read_byte h (a + of_nat (Suc i + j)) \<noteq> 0"
      using Suc.prems(1) Suc by (metis Suc_less_eq add_Suc_shift)
    moreover have "check_and_read_byte h (a + of_nat (Suc i + n')) = 0"
      using Suc.prems(2) Suc by (simp only: add_Suc_shift)
    moreover have "check_and_read_byte h (a + of_nat i) \<noteq> 0" using Suc.prems(1) Suc by (metis add.right_neutral zero_less_Suc)
    ultimately show ?thesis using Suc.IH [of n' "Suc i"] Suc.prems(3) Suc by simp
  qed (use Suc.prems in simp)
qed simp

lemma strlen_loop_ge: "i \<le> strlen_loop i N h a"
proof (induction N arbitrary: i)
  case (Suc N)
  have "Suc i \<le> strlen_loop (Suc i) N h a" by (rule Suc)
  then show ?case by simp
qed simp

lemma strlen_loop_least:
  assumes "\<forall>j < n. check_and_read_byte h (a + of_nat (i + j)) \<noteq> 0" "n \<le> N"
  shows "i + n \<le> strlen_loop i N h a"
  using assms
proof (induction N arbitrary: i n)
  case (Suc N)
  show ?case
  proof (cases n)
    case (Suc n')
    have "\<forall>j < n'. check_and_read_byte h (a + of_nat (Suc i + j)) \<noteq> 0"
      using Suc.prems(1) Suc by (metis Suc_less_eq add_Suc_shift)
    moreover have "check_and_read_byte h (a + of_nat i) \<noteq> 0" using Suc.prems(1) Suc by (metis add.right_neutral zero_less_Suc)
    ultimately show ?thesis using Suc.IH [of n' "Suc i"] Suc.prems(2) Suc by simp
  qed (use strlen_loop_ge [of i "Suc N"] in simp)
qed simp

lemma strlen_fuel: "wf_hier h \<Longrightarrow> unat (addr_mask h) + 1 = hier_size h"
proof -
  assume h: "wf_hier h"
  have "0 < hier_size h" by (simp add: hier_size_def)
  then have "addr_mask h + 1 \<noteq> 0" using unat_addr_size(1) [OF h] by (metis less_nat_zero_code unat_0)
  then show ?thesis using unatSuc [of "addr_mask h"] unat_addr_size(1) [OF h] by (simp add: add.commute)
qed

lemma hier_string_length:
  assumes "wf_hier h" "c_string_at (\<lambda>h k. check_and_read_byte h (of_nat k)) hier_size h a bs"
  shows "mem_strlen hier_ops h a = length bs"
proof -
  have c: "unat a + length bs < hier_size h" "0 \<notin> set bs" "check_and_read_byte h (of_nat (unat a + length bs)) = 0"
    and m: "map (\<lambda>k. check_and_read_byte h (of_nat k)) [unat a..<unat a + length bs] = bs"
    using assms(2) by (simp_all add: c_string_at_def)
  have "check_and_read_byte h (a + of_nat (0 + j)) \<noteq> 0" if "j < length bs" for j
  proof -
    have "check_and_read_byte h (of_nat (unat a + j)) = bs ! j"
      using that arg_cong [OF m, of "\<lambda>xs. xs ! j"] by simp
    moreover have "bs ! j \<noteq> 0" using c(2) nth_mem [OF that] by metis
    ultimately show ?thesis by simp
  qed
  then show ?thesis
    using strlen_loop_zero [of "length bs" h a 0 "hier_size h"] c(1,3)
    by (simp add: hier_ops_def hier_strlen_def strlen_fuel [OF assms(1), simplified])
qed

lemma hier_string_reaches:
  assumes "wf_hier h" "unat a + n \<le> hier_size h" "\<forall>k < n. check_and_read_byte h (of_nat (unat a + k)) \<noteq> 0"
  shows "n \<le> mem_strlen hier_ops h a"
  using strlen_loop_least [of n h a 0 "hier_size h"] assms
  by (simp add: hier_ops_def hier_strlen_def strlen_fuel [OF assms(1), simplified])

lemma call_register_index: "n \<in> call_registers \<Longrightarrow> 0 < n \<and> n < MAX_REG"
  by (auto simp: call_registers_def registers_of_calls MAX_REG_def)

lemma through_register_small:
  assumes "32 \<le> LENGTH('a)" "unat v < 2 ^ 32"
  shows "through_register TYPE('a::len) v = v"
proof (rule word_unat_eq_iff [THEN iffD2])
  have "(2 :: nat) ^ 32 \<le> 2 ^ LENGTH('a)" using assms(1) by (rule power_increasing) simp
  then have "unat v < 2 ^ LENGTH('a)" using assms(2) by linarith
  then have "unat (ucast v :: 'a word) = unat v" by (simp add: unsigned_ucast_eq take_bit_nat_eq_self)
  moreover have "unat v < 2 ^ 64" using unat_less [of v] by simp
  ultimately show "unat (through_register TYPE('a) v) = unat v"
    by (simp add: through_register_def unsigned_ucast_eq [of "ucast v :: 'a word"] take_bit_nat_eq_self)
qed

lemma call_register_file:
  assumes "wf_rf mips_class regs" "n \<in> call_registers"
  shows "rf_read mips_class regs (from_cpu_index n) = Some (regs ! n)"
    "rf_write mips_class (from_cpu_index n) x regs = Some (regs[n := x])"
    "wf_rf mips_class (regs[n := x])" "n < length regs"
proof -
  have n: "0 < n" "n < MAX_REG" using call_register_index [OF assms(2)] by simp_all
  have "valid_reg mips_class (from_cpu_index n)" "to_rf_index mips_class (from_cpu_index n) = n"
    using n by (simp_all add: valid_reg_def mips_class_def from_cpu_index_def)
  then show "rf_read mips_class regs (from_cpu_index n) = Some (regs ! n)"
    using mips_rf.read_valid [of regs "from_cpu_index n"] assms(1) by simp
  have len: "length regs = MAX_REG" using assms(1) by (simp add: wf_rf_def mips_class_def)
  then show "rf_write mips_class (from_cpu_index n) x regs = Some (regs[n := x])" "n < length regs"
    using n by (simp_all add: rf_write_def set_value_def mips_class_def from_cpu_index_def mips_is_zero_def MIPS_REG_zero_def)
  show "wf_rf mips_class (regs[n := x])" using assms(1) n by (simp add: wf_rf_def)
qed

lemma guest_reg_read:
  fixes s :: "('a::len word, 'a mips_instr, hier) func_sim"
  assumes "guest_ok s" "n \<in> call_registers"
  shows "read_cpu_register (mips_isa v) n s = Inr (guest_reg s n)"
  using call_register_file(1) [of "rf s" n] assms
  by (simp add: guest_ok_def read_cpu_register_def read_register_def mips_isa_def or_error_def guest_reg_def)

lemma mips_call_machine:
  assumes "32 \<le> LENGTH('a::len)"
  shows "call_machine hier_ops wf_hier (\<lambda>h k. check_and_read_byte h (of_nat k)) hier_size
    (mips_machine v name :: (('a word, 'a mips_instr, hier) func_sim, hier) machine) guest_ok guest_reg (through_register TYPE('a))"
proof (unfold_locales, goal_cases)
  case (2 s n)
  then show ?case by (simp add: guest_reg_read)
next
  case (3 s n v)
  have w: "wf_rf mips_class (rf s)" using 3(1) by (simp add: guest_ok_def)
  note r = call_register_file [OF w 3(2)]
  have "write_cpu_register (mips_isa va) n v s = Inr (s\<lparr>rf := (rf s)[n := ucast v]\<rparr>)" for va
    using r(2) by (simp add: write_cpu_register_def write_register_def mips_isa_def or_error_def)
  moreover have "guest_reg (s\<lparr>rf := (rf s)[n := ucast v]\<rparr>) = (guest_reg s)(n := through_register TYPE('a) v)"
    by (rule ext) (use 3(2) r(4) in \<open>auto simp: guest_reg_def through_register_def\<close>)
  moreover have "guest_ok (s\<lparr>rf := (rf s)[n := ucast v]\<rparr>)"
    using 3(1) r(3) by (simp add: guest_ok_def)
  ultimately show ?case by simp
qed (auto simp: guest_ok_def guest_reg_def fun_eq_iff hier_string_length hier_string_reaches through_register_small assms)

interpretation mips32_calls: call_machine hier_ops wf_hier "\<lambda>h k. check_and_read_byte h (of_nat k)" hier_size
    "mips_machine v name" guest_ok "guest_reg :: (32 word, 32 mips_instr, hier) func_sim \<Rightarrow> nat \<Rightarrow> uint64" "through_register TYPE(32)" for v name
  by (rule mips_call_machine) simp

interpretation mips64_calls: call_machine hier_ops wf_hier "\<lambda>h k. check_and_read_byte h (of_nat k)" hier_size
    "mips_machine v name" guest_ok "guest_reg :: (64 word, 64 mips_instr, hier) func_sim \<Rightarrow> nat \<Rightarrow> uint64" "through_register TYPE(64)" for v name
  by (rule mips_call_machine) simp

section \<open>Files and numbers\<close>

lemma mips_shows_self:
  fixes s :: "('a::len word, 'a mips_instr, hier) func_sim"
  assumes "32 \<le> LENGTH('a)" "guest_ok s"
  shows "call_machine.shows_state (mips_machine v name) guest_ok guest_reg (guest_reg s) (mem s) s"
  using call_machine.shows_self [OF mips_call_machine [OF assms(1)] assms(2)] by simp

lemma free_descriptors:
  assumes "descriptors_ok k" "unat (next_descriptor k) + 1 < 2 ^ 32"
  shows "user_files k (next_descriptor k) = None" "user_files k (next_descriptor k + 1) = None"
proof -
  have "unat (next_descriptor k + 1) = unat (next_descriptor k) + 1" using assms(2) by (simp add: unat_word_ariths)
  then have "\<not> next_descriptor k + 1 < next_descriptor k" by (simp add: word_less_nat_alt)
  then show "user_files k (next_descriptor k) = None" "user_files k (next_descriptor k + 1) = None"
    using assms(1) unfolding descriptors_ok_def by (metis less_irrefl)+
qed

lemma hier_written:
  assumes "wf_hier h" "host_to_guest hier_ops h a bs = Inr h'" "unat a + length bs \<le> hier_size h" "length bs = n"
  shows "hier_guest_to_host h' a n = bs"
proof -
  obtain h'' where h'': "host_to_guest hier_ops h a bs = Inr h''"
    "holds wf_hier (\<lambda>h k. check_and_read_byte h (of_nat k)) hier_size (hier_size h)
       (overwrite (unat a) bs (\<lambda>k. check_and_read_byte h (of_nat k))) h''"
    by (rule hier.copy_holds [OF hier.holds_self [OF assms(1)] assms(3)])
  have "guest_to_host hier_ops h' a n = bs"
    using hier.holds_copy_out [OF h''(2), of a n] h''(1) assms(2-4) map_overwrite_same [of "unat a" bs] by simp
  then show ?thesis by (simp add: hier_ops_def)
qed

text \<open>C12: A MIPS program that saves a buffer to a file and loads the file to another place, with the system
  calls that open, write, close, open and read, has the same bytes there, and the count that it asked for
  in its result register. The buffer may hold anything but zeros, at which the kernel stops.\<close>
theorem mars_file_round_trip:
  fixes s :: "('a::len word, 'a mips_instr, hier) func_sim"
  assumes "32 \<le> LENGTH('a)" "guest_ok s"
    and "unat file < 2 ^ 32" "unat buffer < 2 ^ 32" "unat copy < 2 ^ 32" "unat n < 2 ^ 32"
    and "c_string_at (\<lambda>h k. check_and_read_byte h (of_nat k)) hier_size (mem s) file nm"
    and "unat buffer + unat n \<le> hier_size (mem s)" "0 \<notin> set (hier_guest_to_host (mem s) buffer (unat n))"
    and "unat copy + unat n \<le> hier_size (mem s)" "unat n \<le> largest_buffer H"
    and "permitted H nm For_writing" "permitted H nm For_reading"
    and "descriptors_ok k" "unat (next_descriptor k) + 1 < 2 ^ 32"
  shows "\<exists>k' s'. continue_with (save_buffer H (mips_machine v name) file buffer n (k, s)) (load_buffer H (mips_machine v name) file copy n) = (Answer NO_TRAP, k', s')
    \<and> hier_guest_to_host (mem s') copy (unat n) = hier_guest_to_host (mem s) buffer (unat n)
    \<and> read_cpu_register (mips_isa v) reg_v0 s' = Inr n"
proof -
  let ?bytes = "hier_guest_to_host (mem s) buffer (unat n)"
  note laws = mips_call_machine [OF assms(1), of v name]
  have m: "wf_hier (mem s)" using assms(2) by (simp add: guest_ok_def)
  have bytes: "map (\<lambda>k. check_and_read_byte (mem s) (of_nat k)) [unat buffer..<unat buffer + unat n] = ?bytes"
    using hier.read_bytes [OF m assms(8)] by (simp add: hier_ops_def)
  note shows_s = mips_shows_self [OF assms(1,2), of v name]
  have free: "user_files k (next_descriptor k) = None" "user_files k (next_descriptor k + 1) = None" "3 \<le> unat (next_descriptor k)"
    by (rule free_descriptors [OF assms(14)], use assms(15) in simp)+ (use assms(14) in \<open>simp add: descriptors_ok_def first_user_descriptor_def word_le_nat_alt\<close>)
  obtain k' s' where run: "continue_with (save_buffer H (mips_machine v name) file buffer n (k, s)) (load_buffer H (mips_machine v name) file copy n) = (Answer NO_TRAP, k', s')"
    and s': "guest_ok s'" "host_to_guest hier_ops (mem s) copy ?bytes = Inr (mem s')" "guest_reg s' reg_v0 = n"
    using call_machine.file_round_trip [OF laws shows_s assms(3-8) bytes assms(9-13) free assms(15)]
    by auto
  have len: "length ?bytes = unat n" by (simp add: bytes [symmetric])
  have "hier_guest_to_host (mem s') copy (unat n) = ?bytes"
    by (rule hier_written [OF m s'(2) _ len]) (use assms(10) len in simp)
  then show ?thesis using run guest_reg_read [OF s'(1)] s'(3) by (auto simp: call_registers_def)
qed

lemma extract_number:
  "\<exists>f. extract_word (empty_stream\<lparr>readable := True, content := decimal_int i\<rparr>) = (decimal_int i, f)"
proof -
  have "\<forall>c \<in> set (decimal_int i). \<not> is_space c" using decimal_int_no_space by blast
  then have "takeWhile (\<lambda>c. \<not> is_space c) (decimal_int i) = decimal_int i" "dropWhile is_space (decimal_int i) = decimal_int i"
    using no_blanks [OF decimal_int_not_empty [of i]] by (simp_all add: takeWhile_eq_all_conv)
  then show ?thesis by (simp add: extract_word_def available_def good_def empty_stream_def Let_def)
qed

definition example_host :: host where
  "example_host = \<lparr>permitted = \<lambda>name mode. True, tell_append = \<lambda>old n. n, largest_buffer = 100\<rparr>"

definition example_kernel :: "byte list \<Rightarrow> mars" where
  "example_kernel input = new_mars (empty_stream\<lparr>readable := True, content := input\<rparr>)
     (empty_stream\<lparr>writable := True\<rparr>) (empty_stream\<lparr>writable := True\<rparr>) (\<lambda>name. None)"

lemma example_kernel_ok: "descriptors_ok (example_kernel input)" "next_descriptor (example_kernel input) = 3"
  by (simp_all add: descriptors_ok_def example_kernel_def new_mars_def first_user_descriptor_def)

definition example_guest :: "uint64 \<Rightarrow> hier \<Rightarrow> (64 word, 64 mips_instr, hier) func_sim" where
  "example_guest code h = new_func_sim (mips_isa V_64) little h\<lparr>rf := (new_rf mips_class)[reg_v0 := code, reg_a0 := - 7]\<rparr>"

lemma example_guest_facts:
  "wf_hier h \<Longrightarrow> guest_ok (example_guest code h)" "mem (example_guest code h) = h"
  "guest_reg (example_guest code h) reg_v0 = code" "guest_reg (example_guest code h) reg_a0 = - 7"
  using mips_rf.wf_new
  by (simp_all add: example_guest_def guest_ok_def new_func_sim_def guest_reg_def call_registers_def registers_of_calls
      wf_rf_def new_rf_def mips_class_def MAX_REG_def)

lemma mars_file_round_trip_witness:
  "\<exists>h k' s'. hier_guest_to_host h 8 3 = [1, 2, 3]
    \<and> continue_with (save_buffer example_host (mips_machine V_64 ''mips64'') 4 8 3 (example_kernel [], example_guest 0 h))
         (load_buffer example_host (mips_machine V_64 ''mips64'') 4 12 3) = (Answer NO_TRAP, k', s')
    \<and> hier_guest_to_host (mem s') 12 3 = [1, 2, 3]"
proof -
  let ?byte = "\<lambda>h k. check_and_read_byte h (of_nat k)"
  obtain h where h: "holds wf_hier ?byte hier_size 16 (overwrite 4 [102, 0, 0, 0, 1, 2, 3] (?byte small_hier)) h"
    using hier.copy_holds [OF hier.holds_self [OF wf_small_hier], of 4 "[102, 0, 0, 0, 1, 2, 3]"]
    by (auto simp: size_small_hier)
  have w: "wf_hier h" "hier_size h = 16" using h by (simp_all add: holds_def)
  have b: "hier_guest_to_host h 8 3 = [1, 2, 3]"
    using hier.holds_copy_out [OF h, of 8 3] map_overwrite_inside [of 4 4 3 "[102, 0, 0, 0, 1, 2, 3]" "?byte small_hier"]
    by (simp add: hier_ops_def)
  have "?byte h 4 = 102" "?byte h 5 = 0"
    using h by (simp_all only: holds_def overwrite_def) auto
  then have n: "c_string_at ?byte hier_size h 4 [102]" using w by (simp add: c_string_at_def)
  obtain k' s' where "continue_with (save_buffer example_host (mips_machine V_64 ''mips64'') 4 8 3 (example_kernel [], example_guest 0 h))
         (load_buffer example_host (mips_machine V_64 ''mips64'') 4 12 3) = (Answer NO_TRAP, k', s')"
      "hier_guest_to_host (mem s') 12 3 = [1, 2, 3]"
    using mars_file_round_trip [of "example_guest 0 h" 4 8 12 3 "[102]" example_host "example_kernel []" V_64 "''mips64''"]
    by (auto simp: example_guest_facts w b n example_kernel_ok example_host_def)
  then show ?thesis using b by blast
qed

text \<open>C36: A number that a MIPS program prints is read back by another: reading an integer from the text that
  printing one wrote gives the register its value, negative or not, at both widths.\<close>
theorem mars_print_read:
  fixes s t :: "('a::len word, 'a mips_instr, hier) func_sim"
  assumes "32 \<le> LENGTH('a)" "guest_ok s" "guest_reg s reg_v0 = 1" "guest_ok t" "guest_reg t reg_v0 = 5"
    and "outstream k = empty_stream\<lparr>writable := True\<rparr>"
    and "mars_execute H (mips_machine v name) (k, s) = (Answer NO_TRAP, k1, s1)"
    and "instream k2 = empty_stream\<lparr>readable := True, content := content (outstream k1)\<rparr>"
  shows "\<exists>k3 t'. mars_execute H (mips_machine v name) (k2, t) = (Answer NO_TRAP, k3, t')
    \<and> read_cpu_register (mips_isa v) reg_v0 t' = read_cpu_register (mips_isa v) reg_a0 s"
proof -
  note laws = mips_call_machine [OF assms(1), of v name]
  let ?x = "guest_reg s reg_a0"
  have "mars_execute H (mips_machine v name) (k, s) = print_integer (mips_machine v name) (k, s)"
    using call_machine.execute_code [OF laws mips_shows_self [OF assms(1,2)]] assms(3) by simp
  then have "k1 = k\<lparr>outstream := put_bytes (decimal_int (sint ?x)) (outstream k)\<rparr>"
    using call_machine.print_integer_shows [OF laws mips_shows_self [OF assms(1,2)]] assms(7) by simp
  then have "content (outstream k1) = decimal_int (sint ?x)"
    by (simp add: assms(6) put_bytes_def good_def empty_stream_def)
  then obtain f where w: "extract_word (instream k2) = (decimal_int (sint ?x), f)"
    using extract_number [of "sint ?x"] assms(8) by auto
  have p: "parse_integer (decimal_int (sint ?x)) = Some (sint ?x)"
    using sint_ge [of ?x] sint_lt [of ?x] by (simp add: parse_integer_def stoll_decimal)
  have "mars_execute H (mips_machine v name) (k2, t) = read_integer (mips_machine v name) (k2, t)"
    using call_machine.execute_code [OF laws mips_shows_self [OF assms(1,4)]] assms(5) by simp
  with call_machine.read_integer_shows [OF laws mips_shows_self [OF assms(1,4)] w] p obtain t' where
    t': "mars_execute H (mips_machine v name) (k2, t) = (Answer NO_TRAP, k2\<lparr>instream := f\<rparr>, t')" "guest_ok t'"
      "guest_reg t' reg_v0 = through_register TYPE('a) ?x"
    by (auto simp: call_machine.shows_state_def [OF laws])
  moreover have "through_register TYPE('a) ?x = ?x"
    by (rule bit_word_eqI) (auto simp: through_register_def guest_reg_def bit_simps dest: bit_imp_le_length)
  ultimately show ?thesis
    using guest_reg_read [OF assms(2)] guest_reg_read [OF t'(2)] by (auto simp: call_registers_def)
qed

lemma mars_print_read_witness:
  "\<exists>k1 s1 k3 t'. mars_execute example_host (mips_machine V_64 ''mips64'') (example_kernel [], example_guest 1 small_hier) = (Answer NO_TRAP, k1, s1)
    \<and> mars_execute example_host (mips_machine V_64 ''mips64'') (example_kernel (content (outstream k1)), example_guest 5 small_hier)
        = (Answer NO_TRAP, k3, t')
    \<and> read_cpu_register (mips_isa V_64) reg_v0 t' = Inr (- 7)"
proof -
  note g = example_guest_facts(1) [OF wf_small_hier] example_guest_facts(2-4) [where h = small_hier]
  obtain k1 where "mars_execute example_host (mips_machine V_64 ''mips64'') (example_kernel [], example_guest 1 small_hier)
      = (Answer NO_TRAP, k1, example_guest 1 small_hier)"
    using mips64_calls.execute_code [OF mips_shows_self [OF _ g(1)]]
      mips64_calls.print_integer_shows [OF mips_shows_self [OF _ g(1)]] g(3) by fastforce
  moreover have "outstream (example_kernel []) = empty_stream\<lparr>writable := True\<rparr>"
    "instream (example_kernel bytes) = empty_stream\<lparr>readable := True, content := bytes\<rparr>" for bytes
    by (simp_all add: example_kernel_def new_mars_def)
  moreover have "32 \<le> LENGTH(64)" by simp
  moreover note mars_print_read [OF calculation(4) g(1) g(3) g(1) g(3) calculation(2,1,3)]
  ultimately obtain k3 t' where
    k1: "mars_execute example_host (mips_machine V_64 ''mips64'') (example_kernel [], example_guest 1 small_hier)
      = (Answer NO_TRAP, k1, example_guest 1 small_hier)" and
    "mars_execute example_host (mips_machine V_64 ''mips64'') (example_kernel (content (outstream k1)), example_guest 5 small_hier)
        = (Answer NO_TRAP, k3, t')"
    "read_cpu_register (mips_isa V_64) reg_v0 t' = read_cpu_register (mips_isa V_64) reg_a0 (example_guest 1 small_hier)"
    by blast
  then show ?thesis
    using guest_reg_read [OF g(1) [of 1], of reg_a0] g(4) by (auto simp: call_registers_def registers_of_calls)
qed

text \<open>A register of 32 bits is read as an unsigned number: a negative one is not printed as negative.\<close>

lemma print_integer_32:
  fixes s :: "(32 word, 32 mips_instr, hier) func_sim"
  assumes "guest_ok s"
  shows "print_integer (mips_machine v name) (k, s) =
    (Answer NO_TRAP, k\<lparr>outstream := put_bytes (decimal_nat (unat (rf s ! reg_a0))) (outstream k)\<rparr>, s)"
proof -
  have "sint (ucast (rf s ! reg_a0) :: uint64) = int (unat (rf s ! reg_a0))"
  proof -
    have "uint (rf s ! reg_a0) < 2 ^ 32" using uint_lt2p [of "rf s ! reg_a0"] by simp
    then have "uint (ucast (rf s ! reg_a0) :: uint64) = uint (rf s ! reg_a0)" "uint (rf s ! reg_a0) < 2 ^ 63"
      by (simp_all add: uint_up_ucast is_up)
    then show ?thesis using signed_take_bit_int_eq_self [of 63 "uint (rf s ! reg_a0)"] uint_ge_0 [of "rf s ! reg_a0"] by (simp add: sint_uint)
  qed
  then show ?thesis
    using mips32_calls.print_integer_shows [OF mips_shows_self [OF _ assms]]
    by (simp add: guest_reg_def call_registers_def decimal_int_def)
qed

text \<open>C18: A MIPS program that asks for an integer gets the first of the next hundred words of the input that is
  a whole number in range, in decimal, hexadecimal or octal; words that are not are skipped. With a hundred
  of those, or when the input ends, the simulation stops with an error instead of waiting forever.\<close>
theorem mars_read_integer:
  fixes s :: "('a::len word, 'a mips_instr, hier) func_sim"
  assumes "32 \<le> LENGTH('a)" "guest_ok s" "guest_reg s reg_v0 = 5"
  shows "case find (\<lambda>w. parse_integer w \<noteq> None) (take 100 (words_left (instream k))) of
      None \<Rightarrow> execute_interactive (mars_execute H (mips_machine v name)) (k, s) = Inl BadInteraction
    | Some w \<Rightarrow> \<exists>k' s'. execute_interactive (mars_execute H (mips_machine v name)) (k, s) = Inr (NO_TRAP, k', s')
        \<and> read_cpu_register (mips_isa v) reg_v0 s' = Inr (through_register TYPE('a) (of_int (the (parse_integer w))))
        \<and> mem s' = mem s"
proof -
  note laws = mips_call_machine [OF assms(1), of v name]
  have "guest_ok s' \<Longrightarrow> read_cpu_register (mips_isa v) reg_v0 s' = Inr (guest_reg s' reg_v0)"
    for s' :: "('a word, 'a mips_instr, hier) func_sim"
    by (rule guest_reg_read) (simp_all add: call_registers_def)
  then show ?thesis
    using call_machine.attempts_read_integer [OF laws mips_shows_self [OF assms(1,2)] assms(3), where n = 100 and k = k and H = H]
    unfolding execute_interactive_def MAX_ATTEMPTS_def
    by (auto simp: call_machine.shows_state_def [OF laws] split: option.splits)
qed

lemma mars_read_integer_witness:
  "\<exists>k' s'. execute_interactive (mars_execute example_host (mips_machine V_64 ''mips64''))
      (example_kernel [120, 32, 45, 48, 120, 49, 48, 10], example_guest 5 small_hier) = Inr (NO_TRAP, k', s')
    \<and> read_cpu_register (mips_isa V_64) reg_v0 s' = Inr (- 16)"
proof -
  note g = example_guest_facts(1) [OF wf_small_hier] example_guest_facts(2-4) [where h = small_hier]
  have w: "words_left (instream (example_kernel [120, 32, 45, 48, 120, 49, 48, 10])) = [[120], [45, 48, 120, 49, 48]]"
    by code_simp
  have p: "parse_integer [120] = None" "parse_integer [45, 48, 120, 49, 48] = Some (- 16)" by code_simp+
  have "through_register TYPE(64) (of_int (- 16)) = - 16" by (simp add: through_register_def)
  then show ?thesis
    using mars_read_integer [OF _ g(1) g(3), where k = "example_kernel [120, 32, 45, 48, 120, 49, 48, 10]" and H = example_host
        and v = V_64 and name = "''mips64''"]
    by (simp add: w p) blast
qed

lemma descriptors_invariant_witness:
  "descriptors_ok (fst (snd (mars_execute example_host (mips_machine V_64 ''mips64'') (example_kernel [], example_guest 10 small_hier))))"
proof -
  note g = example_guest_facts(1) [OF wf_small_hier] example_guest_facts(2-4) [where h = small_hier]
  have "fst (mars_execute example_host (mips_machine V_64 ''mips64'') (example_kernel [], example_guest 10 small_hier)) \<noteq> OtherError"
    using mips64_calls.execute_code [OF mips_shows_self [OF _ g(1)]] g(3) by simp
  then show ?thesis
    using descriptors_invariant [of "(example_kernel [], example_guest 10 small_hier)"] example_kernel_ok by simp
qed

end
