(* ===== verification/Simulator_Factory.thy ===== *)
theory Simulator_Factory
  imports Mars_Kernel Perf_Sim "HOL-Library.List_Lexorder" "HOL-Library.Char_ord"
begin

text \<open>
  The choice of a simulator by the name of its instruction set, simulator/simulator.cpp: the registry of
  \<open>SimulatorFactory\<close>, a map from names to builders in the order of the names, and the functions that look
  a builder up and construct a functional or a performance simulator with it.
\<close>

section \<open>Builders\<close>

text \<open>\<open>TBuilder\<close>: an instruction set, which is a version of MIPS or a width of RISC-V, its name and byte order.\<close>

datatype builder = Mips_builder mips_version string endian | Riscv_builder nat string endian

fun builder_isa :: "builder \<Rightarrow> string" where
  "builder_isa (Mips_builder v isa e) = isa"
| "builder_isa (Riscv_builder w isa e) = isa"

fun builder_endian :: "builder \<Rightarrow> endian" where
  "builder_endian (Mips_builder v isa e) = e"
| "builder_endian (Riscv_builder w isa e) = e"

fun builder_width :: "builder \<Rightarrow> nat" where
  "builder_width (Mips_builder v isa e) = register_width v"
| "builder_width (Riscv_builder w isa e) = w"

section \<open>The registry\<close>

text \<open>A \<open>std::map\<close> as the list of its pairs in the order of the keys; \<open>emplace\<close> keeps what is there.\<close>

type_synonym registry = "(string \<times> builder) list"

fun map_emplace :: "string \<Rightarrow> builder \<Rightarrow> registry \<Rightarrow> registry" where
  "map_emplace k b [] = [(k, b)]"
| "map_emplace k b ((k', b') # m) =
     (if k < k' then (k, b) # (k', b') # m
      else if k' < k then (k', b') # map_emplace k b m
      else (k', b') # m)"

definition emplace_builder :: "(string \<Rightarrow> endian \<Rightarrow> builder) \<Rightarrow> string \<Rightarrow> endian \<Rightarrow> registry \<Rightarrow> registry" where
  "emplace_builder B name e m = map_emplace name (B name e) m"

definition emplace_all_endians :: "bool \<Rightarrow> (string \<Rightarrow> endian \<Rightarrow> builder) \<Rightarrow> string \<Rightarrow> registry \<Rightarrow> registry" where
  "emplace_all_endians is_mips B name m =
     (let m = emplace_builder B name little m;
          m = emplace_builder B (name @ ''le'') little m
      in if is_mips then emplace_builder B (name @ ''be'') big m else m)"

definition simulator_factory :: registry where
  "simulator_factory =
     (let m = emplace_all_endians True (Mips_builder V_I) ''mipsI'' [];
          m = emplace_all_endians True (Mips_builder V_II) ''mipsII'' m;
          m = emplace_all_endians True (Mips_builder V_III) ''mipsIII'' m;
          m = emplace_all_endians True (Mips_builder V_IV) ''mipsIV'' m;
          m = emplace_all_endians True (Mips_builder V_32) ''mips32'' m;
          m = emplace_all_endians True (Mips_builder V_64) ''mips64'' m;
          m = emplace_all_endians True (Mips_builder V_mars) ''mars'' m;
          m = emplace_all_endians True (Mips_builder V_mars64) ''mars64'' m;
          m = emplace_all_endians False (Riscv_builder 32) ''riscv32'' m;
          m = emplace_all_endians False (Riscv_builder 64) ''riscv64'' m
      in emplace_all_endians False (Riscv_builder 128) ''riscv128'' m)"

definition get_supported_isa :: "string list" where
  "get_supported_isa = map fst simulator_factory"

datatype factory_error = InvalidISA string | BuilderError sim_error

definition get_factory :: "string \<Rightarrow> factory_error + builder" where
  "get_factory name = (case map_of simulator_factory name of None \<Rightarrow> Inl (InvalidISA name) | Some b \<Rightarrow> Inr b)"

section \<open>Construction\<close>

text \<open>The values of the options that nobody sets.\<close>

definition default_config :: pipeline_config where
  "default_config =
     \<lparr>bp_mode = ''saturating_two_bits'', bp_lru = ''pseudo-LRU'', bp_size = 128, bp_ways = 16,
      instruction_cache_type = ''LRU'', instruction_cache_size = 2048, instruction_cache_ways = 4,
      instruction_cache_line_size = 64, fetchahead_distance = 32, config_prefetch_method = ''wrong-path'',
      config_long_alu_latency = 3\<rparr>"

text \<open>A simulator is one of the instances of the templates, with its name and its driver.\<close>

record 'x simulator =
  simulator_isa :: string
  simulator_driver :: driver
  simulator_state :: 'x

datatype 'm func_simulator =
    Mips32_func mips_version "(32 word, 32 mips_instr, 'm) func_sim simulator"
  | Mips64_func mips_version "(64 word, 64 mips_instr, 'm) func_sim simulator"
  | Riscv32_func "(32 word, 32 riscv_instr, 'm) func_sim simulator"
  | Riscv64_func "(64 word, 64 riscv_instr, 'm) func_sim simulator"
  | Riscv128_func "(128 word, 128 riscv_instr, 'm) func_sim simulator"

datatype ('m, 'k) perf_simulator =
    Mips32_perf mips_version "(32 word, 32 mips_instr, 'm, 'k) perf_sim simulator"
  | Mips64_perf mips_version "(64 word, 64 mips_instr, 'm, 'k) perf_sim simulator"
  | Riscv32_perf "(32 word, 32 riscv_instr, 'm, 'k) perf_sim simulator"
  | Riscv64_perf "(64 word, 64 riscv_instr, 'm, 'k) perf_sim simulator"
  | Riscv128_perf "(128 word, 128 riscv_instr, 'm, 'k) perf_sim simulator"

definition mips_func :: "mips_version \<Rightarrow> string \<Rightarrow> endian \<Rightarrow> 'm \<Rightarrow> ('a::len word, 'a mips_instr, 'm) func_sim simulator" where
  "mips_func v isa e m =
     \<lparr>simulator_isa = isa, simulator_driver = DriverMIPS32, simulator_state = new_func_sim (mips_isa v) e m\<rparr>"

definition riscv_func ::
  "opcodes \<Rightarrow> csr_list \<Rightarrow> string \<Rightarrow> endian \<Rightarrow> 'm \<Rightarrow> factory_error + ('a::len word, 'a riscv_instr, 'm) func_sim simulator" where
  "riscv_func opc csrs isa e m =
     (let I = riscv_isa opc csrs
      in case create_riscv_driver (func_cpu I) (new_func_sim I e m) of
           Inl err \<Rightarrow> Inl (BuilderError err)
         | Inr (drv, s) \<Rightarrow> Inr \<lparr>simulator_isa = isa, simulator_driver = drv, simulator_state = s\<rparr>)"

definition mips_perf ::
  "mips_version \<Rightarrow> string \<Rightarrow> pipeline_config \<Rightarrow> endian \<Rightarrow> 'm \<Rightarrow> 'k
   \<Rightarrow> factory_error + ('a::len word, 'a mips_instr, 'm, 'k) perf_sim simulator" where
  "mips_perf v isa cfg e m k =
     (case new_perf_sim (mips_isa v) cfg e DriverMIPS32 m k of
        Inl err \<Rightarrow> Inl (BuilderError err)
      | Inr s \<Rightarrow> Inr \<lparr>simulator_isa = isa, simulator_driver = DriverMIPS32, simulator_state = s\<rparr>)"

definition riscv_perf ::
  "opcodes \<Rightarrow> csr_list \<Rightarrow> string \<Rightarrow> pipeline_config \<Rightarrow> endian \<Rightarrow> 'm \<Rightarrow> 'k
   \<Rightarrow> factory_error + ('a::len word, 'a riscv_instr, 'm, 'k) perf_sim simulator" where
  "riscv_perf opc csrs isa cfg e m k =
     (let I = riscv_isa opc csrs
      in case bind_sim (new_perf_sim I cfg e DriverRISCV32 m k) (create_riscv_driver (perf_cpu I)) of
           Inl err \<Rightarrow> Inl (BuilderError err)
         | Inr (drv, s) \<Rightarrow> Inr \<lparr>simulator_isa = isa, simulator_driver = drv, simulator_state = s\<rparr>)"

definition build_func :: "opcodes \<Rightarrow> csr_list \<Rightarrow> 'm \<Rightarrow> builder \<Rightarrow> factory_error + 'm func_simulator" where
  "build_func opc csrs m b =
     (case b of
        Mips_builder v isa e \<Rightarrow>
          Inr (if register_width v = 32 then Mips32_func v (mips_func v isa e m) else Mips64_func v (mips_func v isa e m))
      | Riscv_builder w isa e \<Rightarrow>
          if w = 32 then map_sum id Riscv32_func (riscv_func opc csrs isa e m)
          else if w = 64 then map_sum id Riscv64_func (riscv_func opc csrs isa e m)
          else map_sum id Riscv128_func (riscv_func opc csrs isa e m))"

definition build_perf ::
  "opcodes \<Rightarrow> csr_list \<Rightarrow> pipeline_config \<Rightarrow> 'm \<Rightarrow> 'k \<Rightarrow> builder \<Rightarrow> factory_error + ('m, 'k) perf_simulator" where
  "build_perf opc csrs cfg m k b =
     (case b of
        Mips_builder v isa e \<Rightarrow>
          if register_width v = 32 then map_sum id (Mips32_perf v) (mips_perf v isa cfg e m k)
          else map_sum id (Mips64_perf v) (mips_perf v isa cfg e m k)
      | Riscv_builder w isa e \<Rightarrow>
          if w = 32 then map_sum id Riscv32_perf (riscv_perf opc csrs isa cfg e m k)
          else if w = 64 then map_sum id Riscv64_perf (riscv_perf opc csrs isa cfg e m k)
          else map_sum id Riscv128_perf (riscv_perf opc csrs isa cfg e m k))"

definition get_funcsim :: "opcodes \<Rightarrow> csr_list \<Rightarrow> 'm \<Rightarrow> string \<Rightarrow> factory_error + 'm func_simulator" where
  "get_funcsim opc csrs m name = bind_sim (get_factory name) (build_func opc csrs m)"

definition get_perfsim ::
  "opcodes \<Rightarrow> csr_list \<Rightarrow> pipeline_config \<Rightarrow> 'm \<Rightarrow> 'k \<Rightarrow> string \<Rightarrow> factory_error + ('m, 'k) perf_simulator" where
  "get_perfsim opc csrs cfg m k name = bind_sim (get_factory name) (build_perf opc csrs cfg m k)"

text \<open>\<open>Simulator::create_simulator\<close>, without the logs.\<close>

definition create_simulator ::
  "opcodes \<Rightarrow> csr_list \<Rightarrow> pipeline_config \<Rightarrow> 'm \<Rightarrow> 'k \<Rightarrow> string \<Rightarrow> bool \<Rightarrow> factory_error + 'm func_simulator + ('m, 'k) perf_simulator" where
  "create_simulator opc csrs cfg m k isa functional_only =
     (if functional_only then map_sum id Inl (get_funcsim opc csrs m isa)
      else map_sum id Inr (get_perfsim opc csrs cfg m k isa))"

section \<open>The names and what they build\<close>

text \<open>The registry holds a builder under its own name, in order, whatever is put into it.\<close>

definition registry_ok :: "registry \<Rightarrow> bool" where
  "registry_ok m \<longleftrightarrow> sorted_wrt (<) (map fst m)"

lemma map_emplace_ok:
  assumes "registry_ok m"
  shows "registry_ok (map_emplace k b m)" "set (map fst (map_emplace k b m)) = insert k (set (map fst m))"
    "map_of (map_emplace k b m) = (if k \<in> set (map fst m) then map_of m else (map_of m)(k \<mapsto> b))"
proof -
  have k: "set (map fst (map_emplace k b m)) = insert k (set (map fst m))" for m
  proof (induction m)
    case (Cons x m)
    obtain k' b' where x: "x = (k', b')" by (cases x)
    show ?case
      using Cons linorder_less_linear [of k k'] by (elim disjE) (simp_all add: x insert_commute)
  qed simp
  show "registry_ok (map_emplace k b m)"
    using assms
  proof (induction m)
    case (Cons x m)
    obtain k' b' where x: "x = (k', b')" by (cases x)
    have ok: "registry_ok m" "\<forall>l \<in> set (map fst m). k' < l" using Cons.prems by (auto simp: registry_ok_def x)
    consider "k < k'" | "k' < k" | "k = k'" using linorder_less_linear [of k k'] by blast
    then show ?case
    proof cases
      case 2
      then show ?thesis using Cons.IH [OF ok(1)] ok(2) k [of m] by (auto simp: registry_ok_def x)
    qed (use ok Cons.prems in \<open>auto simp: registry_ok_def x intro: less_trans\<close>)
  qed (simp add: registry_ok_def)
  show "set (map fst (map_emplace k b m)) = insert k (set (map fst m))" by (rule k)
  show "map_of (map_emplace k b m) = (if k \<in> set (map fst m) then map_of m else (map_of m)(k \<mapsto> b))"
    using assms
  proof (induction m)
    case (Cons x m)
    obtain k' b' where x: "x = (k', b')" by (cases x)
    have ok: "registry_ok m" "\<forall>l \<in> set (map fst m). k' < l" using Cons.prems by (auto simp: registry_ok_def x)
    consider "k < k'" | "k' < k" | "k = k'" using linorder_less_linear [of k k'] by blast
    then show ?case
    proof cases
      case 1
      then have "k \<notin> set (map fst m)" using ok(2) by (metis less_asym')
      then show ?thesis using 1 by (auto simp: x)
    next
      case 2
      then show ?thesis using Cons.IH [OF ok(1)] by (auto simp: x fun_eq_iff)
    qed (auto simp: x)
  qed simp
qed

lemma get_supported_isa_names:
  "get_supported_isa =
    [''mars'', ''mars64'', ''mars64be'', ''mars64le'', ''marsbe'', ''marsle'',
     ''mips32'', ''mips32be'', ''mips32le'', ''mips64'', ''mips64be'', ''mips64le'',
     ''mipsI'', ''mipsII'', ''mipsIII'', ''mipsIIIbe'', ''mipsIIIle'', ''mipsIIbe'', ''mipsIIle'',
     ''mipsIV'', ''mipsIVbe'', ''mipsIVle'', ''mipsIbe'', ''mipsIle'',
     ''riscv128'', ''riscv128le'', ''riscv32'', ''riscv32le'', ''riscv64'', ''riscv64le'']"
  by code_simp

text \<open>Every entry is what its name says; \<open>be\<close> at the end of a name is big-endian.\<close>

definition has_suffix :: "string \<Rightarrow> string \<Rightarrow> bool" where
  "has_suffix suffix name \<longleftrightarrow> suffix = drop (length name - length suffix) name"

definition entry_ok :: "string \<times> builder \<Rightarrow> bool" where
  "entry_ok x \<longleftrightarrow> builder_isa (snd x) = fst x \<and> (builder_endian (snd x) = big) = has_suffix ''be'' (fst x)
     \<and> builder_width (snd x) \<in> {32, 64, 128}"

lemma factory_entries: "\<forall>x \<in> set simulator_factory. entry_ok x" "registry_ok simulator_factory"
  by code_simp+

text \<open>Every name of the list of supported instruction sets gets the simulator it names and no other name gets
  one: the simulator reports that name as its own, its byte order is big exactly when the name ends in
  \<open>be\<close>, and its registers have 32, 64 or 128 bits. The list is in order and has no name twice.\<close>
lemma isa_registry:
  "sorted_wrt (<) get_supported_isa
   \<and> (case get_factory name of
        Inl e \<Rightarrow> e = InvalidISA name \<and> name \<notin> set get_supported_isa
      | Inr b \<Rightarrow> name \<in> set get_supported_isa \<and> builder_isa b = name
          \<and> (builder_endian b = big) = has_suffix ''be'' name \<and> builder_width b \<in> {32, 64, 128})"
proof -
  have "entry_ok (name, b)" if "map_of simulator_factory name = Some b" for b
    using factory_entries(1) map_of_SomeD [OF that] by blast
  moreover have "name \<in> set get_supported_isa \<longleftrightarrow> map_of simulator_factory name \<noteq> None"
    unfolding get_supported_isa_def by (simp add: map_of_eq_None_iff)
  ultimately show ?thesis
    using factory_entries(2) unfolding get_factory_def registry_ok_def get_supported_isa_def entry_ok_def
    by (auto split: option.split)
qed

text \<open>Names with \<open>le\<close> build what the names without it do, but the kernel of MARS refuses most of them.\<close>

lemma little_endian_names:
  "\<forall>name \<in> {''mars'', ''mars64'', ''riscv32'', ''riscv64''}.
     builder_endian (projr (get_factory (name @ ''le''))) = builder_endian (projr (get_factory name))
     \<and> (is_mips_le name \<or> name = ''riscv32'' \<or> name = ''riscv64'') \<and> \<not> is_mips_le (name @ ''le'')"
  by code_simp

end
