(* ===== verification/Replicated_Kernel.thy ===== *)
theory Replicated_Kernel
  imports Mars_Run Simulator_Factory
begin

text \<open>
  The kernel of a simulator with replicas: \<open>BaseKernel\<close> of kernel/base_kernel.h gives the calls the
  replicating processor of kernel/replicant.h and the replicating memory of memory/memory.h, so that the
  checker of the pipeline sees every effect of a system call. Two machines with the contract
  \<open>call_machine\<close> give one that has it too, and a call does to the first of them what it does without replicas.
\<close>

section \<open>A machine with replicas\<close>

definition replicated_machine :: "('s, 'm) machine \<Rightarrow> ('t, 'm) machine \<Rightarrow> ('s \<times> 't list, 'm replicant) machine" where
  "replicated_machine K L =
     \<lparr>sim = cpu_replicant (sim K) (sim L),
      memory_of = \<lambda>s. \<lparr>primary = memory_of K (fst s), replicas = map (memory_of L) (snd s)\<rparr>,
      with_memory = \<lambda>m s. (with_memory K (primary m) (fst s), map2 (with_memory L) (replicas m) (snd s)),
      memory_functions = replicant_ops (memory_functions K), get_isa = get_isa K\<rparr>"

lemma replicated_simps [simp]:
  "sim (replicated_machine K L) = cpu_replicant (sim K) (sim L)"
  "memory_of (replicated_machine K L) s = \<lparr>primary = memory_of K (fst s), replicas = map (memory_of L) (snd s)\<rparr>"
  "with_memory (replicated_machine K L) m s = (with_memory K (primary m) (fst s), map2 (with_memory L) (replicas m) (snd s))"
  "memory_functions (replicated_machine K L) = replicant_ops (memory_functions K)"
  by (simp_all add: replicated_machine_def)

lemma cpu_replicant_simps [simp]:
  "read_cpu (cpu_replicant C D) n s = read_cpu C n (fst s)"
  "write_cpu (cpu_replicant C D) n v s = on_all (write_cpu C n v) (write_cpu D n v) s"
  by (simp_all add: cpu_replicant_def)

lemma replicant_reads [simp]:
  "read_string (replicant_ops M) m a = read_string M (primary m) a"
  "read_string_limited (replicant_ops M) m a n = read_string_limited M (primary m) a n"
  "host_to_guest (replicant_ops M) m a bs = replicant_write M m a bs"
  "write_string_limited (replicant_ops M) x a n m = replicant_write M m a (take (min n (length x)) x)"
  by (simp_all add: replicant_ops_def read_string_def read_string_limited_def read_string_by_size_def
    write_string_limited_def write_string_by_size_def)

lemma replicant_eta [simp]: "\<lparr>primary = primary m, replicas = replicas m\<rparr> = m"
  by (cases m) simp

lemma write_replicas_length: "write_replicas M a bs reps = Inr reps' \<Longrightarrow> length reps' = length reps"
  by (induction reps arbitrary: reps') (auto split: sum.splits)

section \<open>The contract of the two gives that of the whole\<close>

locale machine_pair = first: call_machine M ok byte_at msize K valid_state reg narrow
    + second: call_machine M ok byte_at msize L valid_replica reg_replica narrow
  for M :: "'m memory_ops" and ok :: "'m \<Rightarrow> bool" and byte_at :: "'m \<Rightarrow> nat \<Rightarrow> byte" and msize :: "'m \<Rightarrow> nat"
    and K :: "('s, 'm) machine" and valid_state :: "'s \<Rightarrow> bool" and reg :: "'s \<Rightarrow> nat \<Rightarrow> uint64" and narrow :: "uint64 \<Rightarrow> uint64"
    and L :: "('t, 'm) machine" and valid_replica :: "'t \<Rightarrow> bool" and reg_replica :: "'t \<Rightarrow> nat \<Rightarrow> uint64"
begin

text \<open>The replicas show the registers of calls and the memory of the first machine.\<close>

definition in_step :: "'s \<times> 't list \<Rightarrow> bool" where
  "in_step s \<longleftrightarrow> valid_state (fst s) \<and> (\<forall>t \<in> set (snd s). valid_replica t \<and> reg_replica t = reg (fst s))
     \<and> coherent ok byte_at msize (memory_of (replicated_machine K L) s)"

lemma write_register_in_step:
  assumes "in_step (s, ts)" "n \<in> call_registers"
  shows "\<exists>s' ts'. write_cpu (sim K) n v s = Inr s'
    \<and> write_cpu (cpu_replicant (sim K) (sim L)) n v (s, ts) = Inr (s', ts') \<and> in_step (s', ts')
    \<and> reg s' = (reg s)(n := narrow v) \<and> memory_of K s' = memory_of K s \<and> map (memory_of L) ts' = map (memory_of L) ts"
proof -
  obtain s' where s': "write_cpu (sim K) n v s = Inr s'" "valid_state s'" "reg s' = (reg s)(n := narrow v)"
    "memory_of K s' = memory_of K s"
    using first.write_reg [of s n v] assms by (auto simp: in_step_def)
  have "\<forall>t \<in> set ts. valid_replica t \<and> reg_replica t = reg s" using assms(1) by (simp add: in_step_def)
  then have "\<exists>ts'. for_replicas (write_cpu (sim L) n v) ts = Inr ts'
    \<and> (\<forall>t \<in> set ts'. valid_replica t \<and> reg_replica t = reg s') \<and> map (memory_of L) ts' = map (memory_of L) ts"
  proof (induction ts)
    case (Cons t ts)
    then obtain t' where "write_cpu (sim L) n v t = Inr t'" "valid_replica t'" "reg_replica t' = (reg s)(n := narrow v)"
      "memory_of L t' = memory_of L t"
      using second.write_reg [of t n v] assms(2) by auto
    then show ?case using Cons s'(3) by (auto simp: fun_upd_def)
  qed simp
  then obtain ts' where ts': "for_replicas (write_cpu (sim L) n v) ts = Inr ts'"
    "\<forall>t \<in> set ts'. valid_replica t \<and> reg_replica t = reg s'" "map (memory_of L) ts' = map (memory_of L) ts" by blast
  have "in_step (s', ts')" using assms(1) s' ts'(2,3) by (simp add: in_step_def)
  then show ?thesis using s' ts'(1,3) by (auto simp: on_all_def)
qed

lemma with_memory_in_step:
  assumes "in_step (s, ts)" "coherent ok byte_at msize m" "length (replicas m) = length ts"
  shows "in_step (with_memory (replicated_machine K L) m (s, ts))" "reg (with_memory K (primary m) s) = reg s"
    "memory_of (replicated_machine K L) (with_memory (replicated_machine K L) m (s, ts)) = m"
proof -
  have v: "valid_state s" "ok (primary m)" "\<forall>t \<in> set ts. valid_replica t \<and> reg_replica t = reg s" "\<forall>q \<in> set (replicas m). ok q"
    using assms(1,2) by (simp_all add: in_step_def coherent_def)
  note p = first.memory_written [OF v(1,2)]
  have "(\<forall>t \<in> set (map2 (with_memory L) qs ts). valid_replica t \<and> reg_replica t = reg s)
    \<and> map (memory_of L) (map2 (with_memory L) qs ts) = qs"
    if "length qs = length ts" "\<forall>t \<in> set ts. valid_replica t \<and> reg_replica t = reg s" "\<forall>q \<in> set qs. ok q" for qs ts
    using that
  proof (induction qs ts rule: list_induct2)
    case (Cons q qs t ts)
    then show ?case using second.memory_written [of t q] by simp
  qed simp
  note r = this [OF assms(3) v(3,4)]
  show "in_step (with_memory (replicated_machine K L) m (s, ts))" "reg (with_memory K (primary m) s) = reg s"
    "memory_of (replicated_machine K L) (with_memory (replicated_machine K L) m (s, ts)) = m"
    using p r assms(2) by (simp_all add: in_step_def)
qed

text \<open>A call with replicas follows one without: the same answer, kernel and first machine, and all in step.\<close>

definition follows :: "nat \<Rightarrow> kernel_answer \<times> mars \<times> 's \<Rightarrow> kernel_answer \<times> mars \<times> 's \<times> 't list \<Rightarrow> bool" where
  "follows n r r' \<longleftrightarrow> (\<exists>ts. r' = (fst r, fst (snd r), snd (snd r), ts) \<and> in_step (snd (snd r), ts) \<and> length ts = n)"

lemma follows_state: "in_step (s, ts) \<Longrightarrow> follows (length ts) (a, k, s) (a, k, s, ts)"
  by (simp add: follows_def)

lemma follows_with_register:
  assumes "in_step (s, ts)" "\<And>v. follows (length ts) (f v) (f' v)"
  shows "follows (length ts) (with_register K n f (k, s)) (with_register (replicated_machine K L) n f' (k, s, ts))"
  using assms by (simp add: with_register_def follows_state split: sum.split)

lemma follows_set_register:
  assumes "in_step (s, ts)" "n \<in> call_registers"
  shows "follows (length ts) (set_register K n v (k, s)) (set_register (replicated_machine K L) n v (k, s, ts))"
  using write_register_in_step [OF assms, of v]
  by (auto simp: set_register_def follows_def dest: map_eq_imp_length_eq)

lemma follows_write_memory:
  assumes "in_step (s, ts)" "length bs < 2 ^ 64" "f (memory_of K s) = host_to_guest M (memory_of K s) a bs"
    "\<And>m. f' m = replicant_write M m a bs"
  shows "follows (length ts) (write_memory K f (k, s)) (write_memory (replicated_machine K L) f' (k, s, ts))"
proof (cases "unat a + length bs \<le> msize (memory_of K s)")
  case True
  let ?m = "memory_of (replicated_machine K L) (s, ts)"
  have c: "coherent ok byte_at msize ?m" using assms(1) by (simp add: in_step_def)
  obtain m' where m': "replicant_write M ?m a bs = Inr m'" "coherent ok byte_at msize m'"
    using first.replicant_write_bytes [OF c, of a bs] True by auto
  then have p: "host_to_guest M (memory_of K s) a bs = Inr (primary m')" "length (replicas m') = length ts"
    by (auto simp: replicant_write_def dest!: write_replicas_length split: sum.splits)
  note w = with_memory_in_step [OF assms(1) m'(2) p(2)]
  show ?thesis
    using w(1) m'(1) p assms(3,4) by (simp add: write_memory_def follows_def)
next
  case False
  then obtain e where "host_to_guest M (memory_of K s) a bs = Inl e"
    using first.write_outside [of "memory_of K s" a bs] first.memory_ok [of s] assms(1,2) by (auto simp: in_step_def)
  then show ?thesis
    using assms(1,3,4) by (simp add: write_memory_def replicant_write_def follows_state)
qed

lemma follows_continue:
  assumes "follows n r r'" "\<And>k s ts. in_step (s, ts) \<Longrightarrow> length ts = n \<Longrightarrow> follows n (f (k, s)) (f' (k, s, ts))"
  shows "follows n (continue_with r f) (continue_with r' f')"
proof -
  obtain a k s ts where r: "r = (a, k, s)" "r' = (a, k, s, ts)" "in_step (s, ts)" "length ts = n"
    using assms(1) by (cases r) (auto simp: follows_def)
  show ?thesis
    by (cases "(r, f)" rule: continue_with.cases) (use r assms(2) in \<open>auto simp: follows_state\<close>)
qed

lemmas follows_intros = follows_with_register follows_set_register follows_state follows_continue

section \<open>The calls\<close>

lemma follows_printing:
  assumes "in_step (s, ts)"
  shows "follows (length ts) (print_integer K (k, s)) (print_integer (replicated_machine K L) (k, s, ts))"
    "follows (length ts) (print_character K (k, s)) (print_character (replicated_machine K L) (k, s, ts))"
    "follows (length ts) (print_string K (k, s)) (print_string (replicated_machine K L) (k, s, ts))"
  unfolding print_integer_def print_character_def print_string_def print_to_out_def
  by (intro follows_with_register; use assms in \<open>simp add: follows_state\<close>)+

lemma follows_reading:
  assumes "in_step (s, ts)"
  shows "follows (length ts) (read_integer K (k, s)) (read_integer (replicated_machine K L) (k, s, ts))"
    "follows (length ts) (read_character K (k, s)) (read_character (replicated_machine K L) (k, s, ts))"
proof -
  obtain w f where w: "extract_word (instream k) = (w, f)" by fastforce
  show "follows (length ts) (read_integer K (k, s)) (read_integer (replicated_machine K L) (k, s, ts))"
    "follows (length ts) (read_character K (k, s)) (read_character (replicated_machine K L) (k, s, ts))"
    using assms by (auto simp: read_integer_def read_character_def w Let_def follows_state follows_set_register split: sum.split)
qed

lemma follows_read_string:
  assumes "in_step (s, ts)"
  shows "follows (length ts) (mars_read_string K (k, s)) (mars_read_string (replicated_machine K L) (k, s, ts))"
proof -
  obtain w f where w: "extract_word (instream k) = (w, f)" by fastforce
  have short: "length (take (min (unat (n :: uint64)) (length w)) w) < 2 ^ 64" for n
    using unat_less [of n] by simp
  show ?thesis
    unfolding mars_read_string_def
    by (intro follows_with_register assms; simp add: w Let_def)
      (rule follows_write_memory [OF assms short]; simp add: write_string_limited_def write_string_by_size_def first.functions_eq)
qed

lemma follows_close_file:
  assumes "in_step (s, ts)"
  shows "follows (length ts) (close_file K (k, s)) (close_file (replicated_machine K L) (k, s, ts))"
  unfolding close_file_def
  by (intro follows_with_register assms; use assms in \<open>auto simp: follows_state split: option.split\<close>)

lemma follows_open_file:
  assumes "in_step (s, ts)"
  shows "follows (length ts) (open_file H K (k, s)) (open_file H (replicated_machine K L) (k, s, ts))"
proof -
  have opened: "follows (length ts)
      (continue_with (set_register K reg_v0 v (k', s)) (\<lambda>st.
        (Answer NO_TRAP, (fst st)\<lparr>next_descriptor := next_descriptor (fst st) + 1\<rparr>, snd st)))
      (continue_with (set_register (replicated_machine K L) reg_v0 v (k', s, ts)) (\<lambda>st.
        (Answer NO_TRAP, (fst st)\<lparr>next_descriptor := next_descriptor (fst st) + 1\<rparr>, snd st)))" for k' v
    by (rule follows_continue [OF follows_set_register [OF assms]]) (simp_all add: follows_def)
  show ?thesis
    unfolding open_file_def
    by (intro follows_with_register assms)
      (auto simp: io_failure_def Let_def opened follows_set_register [OF assms] split: option.split)
qed

lemma follows_write_to_file:
  assumes "in_step (s, ts)"
  shows "follows (length ts) (write_to_file H K (k, s)) (write_to_file H (replicated_machine K L) (k, s, ts))"
  unfolding write_to_file_def
  by (intro follows_with_register assms)
    (auto simp: io_failure_def Let_def follows_set_register [OF assms] follows_state [OF assms] split: option.split)

lemma follows_read_from_file:
  assumes "in_step (s, ts)"
  shows "follows (length ts) (read_from_file H K (k, s)) (read_from_file H (replicated_machine K L) (k, s, ts))"
proof -
  have filled: "length (fill_buffer (replicate (unat (n :: uint64)) 0) (fst (read_bytes_from (unat n) f))) < 2 ^ 64" for n f
    using unat_less [of n] by (simp add: fill_buffer_def read_bytes_from_def Let_def)
  have moved: "follows (length ts)
      (continue_with (set_register K reg_v0 v (k', s)) (write_memory K (\<lambda>m. host_to_guest (memory_functions K) m a bs)))
      (continue_with (set_register (replicated_machine K L) reg_v0 v (k', s, ts))
        (write_memory (replicated_machine K L) (\<lambda>m. replicant_write (memory_functions K) m a bs)))"
    if "length bs < 2 ^ 64" for k' v a bs
  proof (rule follows_continue [OF follows_set_register [OF assms]], simp_all add: first.functions_eq)
    fix k :: mars and s and us :: "'t list"
    assume "in_step (s, us)" "length us = length ts"
    then show "follows (length ts) (write_memory K (\<lambda>m. host_to_guest M m a bs) (k, s))
        (write_memory (replicated_machine K L) (\<lambda>m. replicant_write M m a bs) (k, s, us))"
      using follows_write_memory [OF _ that, of s us "\<lambda>m. host_to_guest M m a bs" a "\<lambda>m. replicant_write M m a bs" k] by simp
  qed
  show ?thesis
    unfolding read_from_file_def
    by (intro follows_with_register assms)
      (auto simp: io_failure_def Let_def case_prod_unfold follows_set_register [OF assms] follows_state [OF assms]
        moved [OF filled] split: option.split)
qed

lemma follows_execute:
  assumes "in_step (s, ts)"
  shows "follows (length ts) (mars_execute H K (k, s)) (mars_execute H (replicated_machine K L) (k, s, ts))"
  unfolding mars_execute_def
  by (intro follows_with_register assms; simp add: assms follows_state follows_printing follows_reading follows_read_string
    follows_close_file follows_open_file follows_write_to_file follows_read_from_file;
    intro impI follows_with_register assms; simp add: follows_state assms)

end

section \<open>The pipeline and its checker\<close>

definition perf_machine ::
  "('r, 'i) isa \<Rightarrow> 'mem memory_ops \<Rightarrow> string \<Rightarrow> (('a::len word, 'i, 'mem, 'k) perf_sim, 'mem) machine" where
  "perf_machine I M name =
     \<lparr>sim = perf_cpu I, memory_of = perf_mem, with_memory = \<lambda>m s. s\<lparr>perf_mem := m\<rparr>, memory_functions = M, get_isa = name\<rparr>"

definition mips_perf_machine :: "mips_version \<Rightarrow> string \<Rightarrow> (('a::len word, 'a mips_instr, hier, 'k) perf_sim, hier) machine" where
  "mips_perf_machine v name = perf_machine (mips_isa v) hier_ops name"

definition perf_ok :: "('a::len word, 'i, hier, 'k) perf_sim \<Rightarrow> bool" where
  "perf_ok s \<longleftrightarrow> wf_rf mips_class (perf_rf s) \<and> wf_hier (perf_mem s)"

definition perf_reg :: "('a::len word, 'i, hier, 'k) perf_sim \<Rightarrow> nat \<Rightarrow> uint64" where
  "perf_reg s n = (if n \<in> call_registers then ucast (perf_rf s ! n) else 0)"

lemma mips_perf_machine_simps [simp]:
  "sim (mips_perf_machine v name) = perf_cpu (mips_isa v)" "memory_of (mips_perf_machine v name) = perf_mem"
  "with_memory (mips_perf_machine v name) m s = s\<lparr>perf_mem := m\<rparr>" "memory_functions (mips_perf_machine v name) = hier_ops"
  by (simp_all add: mips_perf_machine_def perf_machine_def)

lemma perf_cpu_simps [simp]:
  "read_cpu (perf_cpu I) n = perf_read_register I (reg_from_cpu_index I n)"
  "write_cpu (perf_cpu I) n = perf_write_register I (reg_from_cpu_index I n)"
  by (simp_all add: perf_cpu_def)

lemma perf_call_machine:
  assumes "32 \<le> LENGTH('a::len)"
  shows "call_machine hier_ops wf_hier (\<lambda>h k. check_and_read_byte h (of_nat k)) hier_size
    (mips_perf_machine v name :: (('a word, 'a mips_instr, hier, 'k) perf_sim, hier) machine) perf_ok perf_reg (through_register TYPE('a))"
proof (unfold_locales, goal_cases)
  case (2 s n)
  then show ?case
    using call_register_file(1) [of "perf_rf s" n]
    by (simp add: perf_ok_def perf_read_register_def mips_isa_def or_error_def perf_reg_def)
next
  case (3 s n v)
  have w: "wf_rf mips_class (perf_rf s)" using 3(1) by (simp add: perf_ok_def)
  note r = call_register_file [OF w 3(2)]
  have "perf_write_register (mips_isa va) (from_cpu_index n) v s = Inr (s\<lparr>perf_rf := (perf_rf s)[n := ucast v]\<rparr>)" for va
    using r(2) by (simp add: perf_write_register_def mips_isa_def or_error_def)
  moreover have "perf_reg (s\<lparr>perf_rf := (perf_rf s)[n := ucast v]\<rparr>) = (perf_reg s)(n := through_register TYPE('a) v)"
    by (rule ext) (use 3(2) r(4) in \<open>auto simp: perf_reg_def through_register_def\<close>)
  moreover have "perf_ok (s\<lparr>perf_rf := (perf_rf s)[n := ucast v]\<rparr>)"
    using 3(1) r(3) by (simp add: perf_ok_def)
  ultimately show ?case by (simp add: mips_isa_def)
qed (auto simp: perf_ok_def perf_reg_def fun_eq_iff hier_string_length hier_string_reaches through_register_small assms)

lemma perf_machine_pair:
  assumes "32 \<le> LENGTH('a::len)"
  shows "machine_pair hier_ops wf_hier (\<lambda>h k. check_and_read_byte h (of_nat k)) hier_size
    (mips_perf_machine v name :: (('a word, 'a mips_instr, hier, 'k) perf_sim, hier) machine) perf_ok perf_reg (through_register TYPE('a))
    (mips_machine v name :: (('a word, 'a mips_instr, hier) func_sim, hier) machine) guest_ok guest_reg"
  by (intro machine_pair.intro perf_call_machine mips_call_machine assms)

interpretation perf32_pair: machine_pair hier_ops wf_hier "\<lambda>h k. check_and_read_byte h (of_nat k)" hier_size
    "mips_perf_machine v name" perf_ok "perf_reg :: (32 word, 32 mips_instr, hier, 'k) perf_sim \<Rightarrow> nat \<Rightarrow> uint64" "through_register TYPE(32)"
    "mips_machine v name" guest_ok "guest_reg :: (32 word, 32 mips_instr, hier) func_sim \<Rightarrow> nat \<Rightarrow> uint64" for v name
  by (rule perf_machine_pair) simp

interpretation perf64_pair: machine_pair hier_ops wf_hier "\<lambda>h k. check_and_read_byte h (of_nat k)" hier_size
    "mips_perf_machine v name" perf_ok "perf_reg :: (64 word, 64 mips_instr, hier, 'k) perf_sim \<Rightarrow> nat \<Rightarrow> uint64" "through_register TYPE(64)"
    "mips_machine v name" guest_ok "guest_reg :: (64 word, 64 mips_instr, hier) func_sim \<Rightarrow> nat \<Rightarrow> uint64" for v name
  by (rule perf_machine_pair) simp

text \<open>The checkers agree with the pipeline: their registers of calls and their bytes are the same.\<close>

definition checkers_agree ::
  "('a::len word, 'a mips_instr, hier, 'k) perf_sim \<times> ('a word, 'a mips_instr, hier) func_sim list \<Rightarrow> bool" where
  "checkers_agree s \<longleftrightarrow> perf_ok (fst s)
     \<and> (\<forall>t \<in> set (snd s). guest_ok t \<and> guest_reg t = perf_reg (fst s) \<and> flatten (mem t) = flatten (perf_mem (fst s)))"

lemma flatten_equal:
  "flatten h = flatten h' \<longleftrightarrow> hier_size h = hier_size h'
     \<and> (\<forall>k < hier_size h'. check_and_read_byte h (of_nat k) = check_and_read_byte h' (of_nat k))"
  by (auto simp: flatten_def list_eq_iff_nth_eq)

lemma pair_in_step:
  fixes s :: "('a::len word, 'a mips_instr, hier, 'k) perf_sim"
  assumes "32 \<le> LENGTH('a)" "checkers_agree (s, ts)" "mars_execute H (mips_perf_machine v name) (k, s) = (answer, k', s')"
  shows "\<exists>ts'. mars_execute H (replicated_machine (mips_perf_machine v name) (mips_machine v name)) (k, s, ts) = (answer, k', s', ts')
    \<and> checkers_agree (s', ts') \<and> length ts' = length ts"
proof -
  have laws: "machine_pair hier_ops wf_hier (\<lambda>h k. check_and_read_byte h (of_nat k)) hier_size
      (mips_perf_machine v name :: (('a word, 'a mips_instr, hier, 'k) perf_sim, hier) machine) perf_ok perf_reg (through_register TYPE('a))
      (mips_machine v name :: (('a word, 'a mips_instr, hier) func_sim, hier) machine) guest_ok guest_reg"
    by (rule perf_machine_pair [OF assms(1)])
  have agree: "machine_pair.in_step wf_hier (\<lambda>h k. check_and_read_byte h (of_nat k)) hier_size
      (mips_perf_machine v name :: (('a word, 'a mips_instr, hier, 'k) perf_sim, hier) machine) perf_ok perf_reg (mips_machine v name) guest_ok guest_reg
      = checkers_agree"
    by (rule ext) (auto simp: machine_pair.in_step_def [OF laws] checkers_agree_def coherent_def flatten_equal perf_ok_def guest_ok_def)
  show ?thesis
    using machine_pair.follows_execute [OF laws, unfolded agree, OF assms(2), of H k] assms(3)
    by (auto simp: machine_pair.follows_def [OF laws] agree)
qed

text \<open>C13: The checker keeps up with system calls: a call that the kernel makes on the performance simulator and
  its checkers gives the answer, the state of the kernel and the state of the simulator that it gives without
  them, and checkers that agreed with the simulator on the registers of calls and on the memory still do.\<close>
theorem replicas_in_step:
  fixes s :: "('a::len word, 'a mips_instr, hier, 'k) perf_sim"
  assumes "32 \<le> LENGTH('a)" "checkers_agree (s, ts)" "mars_execute H (mips_perf_machine v name) (k, s) = (answer, k', s')"
  shows "\<exists>ts'. mars_execute H (replicated_machine (mips_perf_machine v name) (mips_machine v name)) (k, s, ts) = (answer, k', s', ts')
    \<and> checkers_agree (s', ts')"
  using pair_in_step [OF assms] by blast

text \<open>An agreement to start with: registers and memory of a new simulator, with any pipeline around them.\<close>

lemma checkers_agree_new:
  fixes s :: "('a::len word, 'a mips_instr, hier, 'k) perf_sim"
  assumes "wf_hier h"
  shows "checkers_agree (s\<lparr>perf_rf := new_rf mips_class, perf_mem := h\<rparr>, [new_func_sim (mips_isa v) e h])"
proof -
  have "wf_rf mips_class (new_rf mips_class :: 'a word list)" by (rule mips_rf.wf_new)
  then show ?thesis
    using assms
    by (auto simp: checkers_agree_def perf_ok_def guest_ok_def new_func_sim_def mips_isa_def fun_eq_iff guest_reg_def perf_reg_def)
qed

definition example_pipeline :: "(64 word, 64 mips_instr, hier, unit) perf_sim" where
  "example_pipeline = projr (new_perf_sim (mips_isa V_64) default_config little DriverMIPS32 small_hier ())"

lemma replicas_in_step_witness:
  "\<exists>answer k' s' ts'. mars_execute example_host (replicated_machine (mips_perf_machine V_64 ''mips64'') (mips_machine V_64 ''mips64''))
      (example_kernel [], example_pipeline\<lparr>perf_rf := new_rf mips_class, perf_mem := small_hier\<rparr>,
        [new_func_sim (mips_isa V_64) little small_hier])
      = (answer, k', s', ts')
    \<and> checkers_agree (s', ts')"
proof -
  have "32 \<le> LENGTH(64)" by simp
  note r = replicas_in_step [OF this checkers_agree_new [OF wf_small_hier]]
  show ?thesis
    by (cases "mars_execute example_host (mips_perf_machine V_64 ''mips64'')
        (example_kernel [], example_pipeline\<lparr>perf_rf := new_rf mips_class, perf_mem := small_hier\<rparr>)")
      (use r in blast)
qed

section \<open>The calls in the pipeline\<close>

text \<open>The service that the writeback stage calls, on the part of the simulator that a kernel can reach; the
  rest of the simulator, which no call touches, is that of \<open>frame\<close>.\<close>

definition mars_service ::
  "host \<Rightarrow> ('r, 'i) isa \<Rightarrow> 'mem memory_ops \<Rightarrow> string \<Rightarrow> ('a::len word, 'i, 'mem, mars) perf_sim
   \<Rightarrow> ('a word, 'i, 'mem, mars) kernel_view \<Rightarrow> kernel_answer \<times> ('a word, 'i, 'mem, mars) kernel_view" where
  "mars_service H I M name frame =
     (\<lambda>(k, regs, m, checker_sim).
        case mars_execute H (replicated_machine (perf_machine I M name) (func_machine I M name))
            (k, frame\<lparr>perf_rf := regs, perf_mem := m\<rparr>, [checker_sim]) of
          (answer, k, s, ts) \<Rightarrow> (answer, k, perf_rf s, perf_mem s, hd ts))"

lemma attempts_loop_keeps:
  assumes "\<And>s. P s \<Longrightarrow> P (snd (exec s))" "attempts_loop exec n s = Inr (t, s')" "P s"
  shows "P s'"
  using assms(2,3)
proof (induction n arbitrary: s)
  case (Suc n)
  obtain a s1 where e: "exec s = (a, s1)" by (cases "exec s")
  then have "P s1" using assms(1) [OF Suc.prems(2)] by simp
  then show ?case using Suc e by (auto split: kernel_answer.splits)
qed simp

lemma kernel_step_keeps_checker:
  fixes s :: "('a::len word, 'a mips_instr, hier, mars) perf_sim"
  assumes "32 \<le> LENGTH('a)" "kernel_step (mars_service H (mips_isa v) hier_ops name frame) t s = Inr (t', s')"
    and "checkers_agree (s, [checker_sim (wb_checker (writeback s))])"
  shows "checkers_agree (s', [checker_sim (wb_checker (writeback s'))])"
proof -
  let ?P = "\<lambda>(k :: mars, regs, m, c). checkers_agree (frame\<lparr>perf_rf := regs, perf_mem := m\<rparr>, [c])"
  have "?P (snd (mars_service H (mips_isa v) hier_ops name frame view))" if "?P view" for view
  proof -
    obtain k regs m c where view: "view = (k, regs, m, c)" by (cases view)
    obtain a k1 s1 where s1: "mars_execute H (mips_perf_machine v name) (k, frame\<lparr>perf_rf := regs, perf_mem := m\<rparr>) = (a, k1, s1)"
      by (metis prod.exhaust)
    have "checkers_agree (frame\<lparr>perf_rf := regs, perf_mem := m\<rparr>, [c])" using that view by simp
    from pair_in_step [OF assms(1) this s1] obtain ts where "mars_execute H (replicated_machine (mips_perf_machine v name) (mips_machine v name))
        (k, frame\<lparr>perf_rf := regs, perf_mem := m\<rparr>, [c]) = (a, k1, s1, ts)" "checkers_agree (s1, ts)" "length ts = 1"
      by auto
    then show ?thesis by (cases ts) (auto simp: mars_service_def mips_perf_machine_def [symmetric] mips_machine_def [symmetric] view checkers_agree_def perf_ok_def perf_reg_def fun_eq_iff)
  qed
  note keeps = attempts_loop_keeps [where P = ?P and exec = "mars_service H (mips_isa v) hier_ops name frame", OF this]
  let ?v = "(perf_kernel s, perf_rf s, perf_mem s, checker_sim (wb_checker (writeback s)))"
  have frame: "checkers_agree (r\<lparr>perf_rf := perf_rf u, perf_mem := perf_mem u\<rparr>, ts) = checkers_agree (u, ts)"
    for r u :: "('a word, 'a mips_instr, hier, mars) perf_sim" and ts
    by (auto simp: checkers_agree_def perf_ok_def perf_reg_def fun_eq_iff)
  obtain r where r: "handle_instruction (mars_service H (mips_isa v) hier_ops name frame) t ?v = Inr (t', r)"
    "perf_rf s' = fst (snd r)" "perf_mem s' = fst (snd (snd r))" "checker_sim (wb_checker (writeback s')) = snd (snd (snd r))"
    using assms(2)
    by (cases "handle_instruction (mars_service H (mips_isa v) hier_ops name frame) t ?v")
      (auto simp: kernel_step_def stage_simps bind_Inr set_checker_sim_def modify_writeback_def and_then_def)
  have "?P ?v" using assms(3) by (simp add: frame)
  then have "?P r"
    using r(1) keeps [where n = MAX_ATTEMPTS and s = ?v and t = t' and s' = r] by (auto simp: handle_instruction_def execute_interactive_def split: if_splits)
  then show ?thesis using frame [where r = frame and u = s'] r(2-4) by (simp add: case_prod_unfold)
qed

end
