(* ===== verification/Standalone.thy ===== *)
theory Standalone
  imports Replicated_Kernel
begin

text \<open>
  The standalone simulator, export/standalone/main.cpp, with the wrapper of entry points of
  infra/config/main_wrapper.cpp: the memory, the simulator that the options name, the kernel, the
  program and the run are put together, and the exit code of the process comes out. The options are
  a record; how the command line is parsed is left out.
\<close>

section \<open>The entry point\<close>

record options =
  binary_filename :: string
  num_steps :: uint64
  isa_name :: string
  functional_only :: bool
  use_mars :: bool
  pipeline :: pipeline_config

text \<open>What is outside of the program: the host, the reader of files with the directory of the kernel's images,
  the files and streams, and the numbers from the submodule with the opcodes of RISC-V.\<close>

record outside =
  the_host :: host
  the_reader :: elf_reader
  kernel_images :: string
  first_kernel :: mars
  the_opcodes :: opcodes
  the_csrs :: csr_list
  the_causes :: riscv_causes
  buffer_junk :: "nat \<Rightarrow> byte"

datatype main_error = Mapping mem_error | Factory factory_error | Load load_error | Run sim_error

definition default_memory :: "main_error + hier" where
  "default_memory = map_sum Mapping id (new_hier 36 10 12)"

text \<open>From the simulator to the loaded program. A kernel of its own has nothing to connect.\<close>

definition load_program ::
  "outside \<Rightarrow> options \<Rightarrow> ('s, hier) machine \<Rightarrow> 's \<Rightarrow> main_error + mars \<times> 's" where
  "load_program W opts K s =
     bind_sim (map_sum Run id (write_csr (sim K) ''mscratch'' 0x4000000 s)) (\<lambda>s.
     bind_sim (map_sum Load id (if use_mars opts then connect_exception_handler (the_reader W) (kernel_images W) K s else Inr s)) (\<lambda>s.
       map_sum Load id (load_file (the_reader W) K (binary_filename opts) (first_kernel W, s))))"

definition simulate_func ::
  "outside \<Rightarrow> options \<Rightarrow> ('r, ('a::len, 'r, 'x) base_instruction_scheme) isa
   \<Rightarrow> ('a word, ('a, 'r, 'x) base_instruction_scheme, hier) func_sim simulator \<Rightarrow> main_error + 32 word" where
  "simulate_func W opts I x =
     (let K = func_machine I hier_ops (simulator_isa x)
      in bind_sim (load_program W opts K (simulator_state x)) (\<lambda>(k, s).
         bind_sim (map_sum Run id (cpu_set_pc (sim K) (kernel_start_pc k) s)) (\<lambda>s.
         bind_sim (map_sum Run id (run I hier_ops (buffer_junk W) (the_causes W) (simulator_driver x)
             (create_kernel (use_mars opts) (the_host W) K) (num_steps opts) k s)) (\<lambda>(t, k, s).
           Inr (kernel_exit_code k)))))"

text \<open>The performance simulator gets a checker with the kernel, and its exit code is always 0. Without a result the
  run does not end.\<close>

definition simulate_perf ::
  "outside \<Rightarrow> options \<Rightarrow> ('r, ('a::len, 'r, 'x) base_instruction_scheme) isa \<Rightarrow> endian
   \<Rightarrow> ('a word, ('a, 'r, 'x) base_instruction_scheme, hier, mars) perf_sim simulator \<Rightarrow> (main_error + 32 word) option" where
  "simulate_perf W opts I e x =
     (let K = perf_machine I hier_ops (simulator_isa x);
          ready = bind_sim (load_program W opts K (simulator_state x)) (\<lambda>(k, s).
            bind_sim default_memory (\<lambda>m.
            bind_sim (map_sum Mapping id (hier_duplicate_to hier_ops (perf_mem s) m)) (\<lambda>m.
            bind_sim (map_sum Run id (perf_set_kernel I e k m s)) (\<lambda>s.
              map_sum Run id (cpu_set_pc (sim K) (kernel_start_pc k) s)))))
      in case ready of
           Inl err \<Rightarrow> Some (Inl err)
         | Inr s \<Rightarrow>
             (let exec = (if use_mars opts then mars_service (the_host W) I hier_ops (simulator_isa x) s else dummy_kernel)
              in map_option (map_sum Run (\<lambda>r. 0)) (perf_run I hier_ops (buffer_junk W) (the_causes W) exec (num_steps opts) s)))"

definition run_func :: "outside \<Rightarrow> options \<Rightarrow> hier func_simulator \<Rightarrow> main_error + 32 word" where
  "run_func W opts x =
     (case x of
        Mips32_func v x \<Rightarrow> simulate_func W opts (mips_isa v) x
      | Mips64_func v x \<Rightarrow> simulate_func W opts (mips_isa v) x
      | Riscv32_func x \<Rightarrow> simulate_func W opts (riscv_isa (the_opcodes W) (the_csrs W)) x
      | Riscv64_func x \<Rightarrow> simulate_func W opts (riscv_isa (the_opcodes W) (the_csrs W)) x
      | Riscv128_func x \<Rightarrow> simulate_func W opts (riscv_isa (the_opcodes W) (the_csrs W)) x)"

definition run_perf :: "outside \<Rightarrow> options \<Rightarrow> endian \<Rightarrow> (hier, mars) perf_simulator \<Rightarrow> (main_error + 32 word) option" where
  "run_perf W opts e x =
     (case x of
        Mips32_perf v x \<Rightarrow> simulate_perf W opts (mips_isa v) e x
      | Mips64_perf v x \<Rightarrow> simulate_perf W opts (mips_isa v) e x
      | Riscv32_perf x \<Rightarrow> simulate_perf W opts (riscv_isa (the_opcodes W) (the_csrs W)) e x
      | Riscv64_perf x \<Rightarrow> simulate_perf W opts (riscv_isa (the_opcodes W) (the_csrs W)) e x
      | Riscv128_perf x \<Rightarrow> simulate_perf W opts (riscv_isa (the_opcodes W) (the_csrs W)) e x)"

definition main_impl :: "outside \<Rightarrow> options \<Rightarrow> (main_error + 32 word) option" where
  "main_impl W opts =
     (case bind_sim default_memory (\<lambda>m.
          map_sum Factory id (create_simulator (the_opcodes W) (the_csrs W) (pipeline opts) m (first_kernel W)
            (isa_name opts) (functional_only opts))) of
        Inl err \<Rightarrow> Some (Inl err)
      | Inr (Inl x) \<Rightarrow> Some (run_func W opts x)
      | Inr (Inr x) \<Rightarrow> run_perf W opts (builder_endian (projr (get_factory (isa_name opts)))) x)"

text \<open>\<open>MainWrapper::run\<close>: what leaves the program as an exception, and the exit code that it becomes.\<close>

datatype thrown = HelpOption | InvalidOption | ProgramException | SystemException | UnknownException

fun main_wrapper_run :: "thrown + 32 word \<Rightarrow> 32 word" where
  "main_wrapper_run (Inr code) = code"
| "main_wrapper_run (Inl HelpOption) = 0"
| "main_wrapper_run (Inl InvalidOption) = 4"
| "main_wrapper_run (Inl ProgramException) = 2"
| "main_wrapper_run (Inl SystemException) = 2"
| "main_wrapper_run (Inl UnknownException) = 3"

text \<open>The exit code of the process; which class an error is thrown as is given. Without a result it does not end.\<close>

definition main_process :: "(main_error \<Rightarrow> thrown) \<Rightarrow> outside \<Rightarrow> options \<Rightarrow> 32 word option" where
  "main_process as_thrown W opts = map_option (\<lambda>r. main_wrapper_run (map_sum as_thrown id r)) (main_impl W opts)"

section \<open>Two instructions\<close>

text \<open>What the decoder makes of \<open>addiu\<close> with the zero register and of \<open>syscall\<close>, in every version.\<close>

definition decodes :: "'a::len mips_instr option \<Rightarrow> execute_fn \<Rightarrow> operation_type \<Rightarrow> mips_register \<Rightarrow> 'a word \<Rightarrow> uint32 \<Rightarrow> Addr \<Rightarrow> bool" where
  "decodes d f op r imm w a \<longleftrightarrow>
     (\<exists>i. d = Some i \<and> wf_datapath i \<and> executor i = f \<and> operation i = op
        \<and> src i = [mips_zero, mips_zero, mips_zero] \<and> dst i = [r, mips_zero] \<and> v_imm i = imm \<and> wmask i = all_ones
        \<and> trap i = NO_TRAP \<and> PC i = a \<and> delayed_slots i = 0 \<and> new_PC i = a + 4 \<and> raw i = w)"

lemma decode_addiu:
  assumes "drop_bit 26 w = 9" "take_bit 5 (drop_bit 21 w) = 0" "take_bit 16 w = n" "unat n < 2 ^ 15" "16 \<le> LENGTH('a)"
  shows "decodes (mips_instr v e w a :: 'a::len mips_instr option) mips_addiu OUT_ARITHM
    (from_cpu_index (unat (take_bit 5 (drop_bit 16 w)))) (ucast n) w a"
proof -
  have o: "opcode (mips_instr_decoder w) = 9" using assms(1) by (simp add: take_bit_word_eq_self)
  have "w \<noteq> 0" using assms(1) by auto
  then have e: "get_table_entry w = entry ''addiu'' mips_addiu OUT_ARITHM 0 (CHR ''I'') Imm_ARITH [R_RS] [R_RT] MIPS_I_Instr"
    using o by (simp add: get_table_entry_def Let_def table_find_def isaMapIJ_def)
  obtain i :: "'a mips_instr" where i: "mips_instr v e w a = Some i"
    using mips_instr_Some [of w v e a, where 'a = 'a] by blast
  have "src i = [mips_zero, mips_zero, mips_zero]" "dst i = [from_cpu_index (unat (take_bit 5 (drop_bit 16 w))), mips_zero]"
    "wf_datapath i" "wmask i = all_ones" "trap i = NO_TRAP" "raw i = w"
    using i assms(2) by (auto simp: mips_instr_def e entry_def Let_def wf_datapath_def mips_registers mips_reg_nums)
  moreover have "operation i = OUT_ARITHM" using mips_instr_fields(1) [OF i] by (simp add: e entry_def)
  moreover from this have "\<not> is_jump i" by (simp add: operation_predicates)
  moreover have "sign_extension (ucast n :: 'a word) 16 = ucast n"
  proof (rule bit_word_eqI)
    fix k assume k: "k < LENGTH('a)"
    have "take_bit 15 n = n"
      using assms(4) by (intro word_unat_eq_iff [THEN iffD2]) (simp add: unat_take_bit take_bit_nat_eq_self)
    then have "bit n j \<longleftrightarrow> j < 15 \<and> bit n j" for j by (metis bit_take_bit_iff)
    from this [of k] this [of 15] k assms(5) show "bit (sign_extension (ucast n :: 'a word) 16) k = bit (ucast n :: 'a word) k"
      by (auto simp: bit_sign_extension bit_ucast_iff min_def)
  qed
  ultimately show ?thesis
    using mips_instr_fields(3-7) [OF i] i assms(3)
    by (simp add: decodes_def e entry_def supported_masks decoded_imm_def get_immediate_def get_immediate_value_def)
qed

lemma decode_syscall:
  "decodes (mips_instr v e 0xC a :: 'a::len mips_instr option) mips_syscall OUT_SYSCALL mips_zero 0 0xC a"
proof -
  have e: "get_table_entry 0xC = entry ''syscall'' mips_syscall OUT_SYSCALL 0 (CHR ''N'') Imm_NO [] [R_ZERO] MIPS_I_Instr"
    by (simp add: get_table_entry_def get_opcode_special_entry_def Let_def table_find_def isaMapR_def)
  obtain i :: "'a mips_instr" where i: "mips_instr v e 0xC a = Some i"
    using mips_instr_Some [of "0xC" v e a, where 'a = 'a] by blast
  have "src i = [mips_zero, mips_zero, mips_zero]" "dst i = [mips_zero, mips_zero]" "wf_datapath i" "wmask i = all_ones"
     "trap i = NO_TRAP" "raw i = 0xC"
    using i by (auto simp: mips_instr_def e entry_def Let_def wf_datapath_def)
  moreover have "operation i = OUT_SYSCALL" using mips_instr_fields(1) [OF i] by (simp add: e entry_def)
  moreover from this have "\<not> is_jump i" by (simp add: operation_predicates)
  ultimately show ?thesis
    using mips_instr_fields(3-7) [OF i] i
    by (simp add: decodes_def e entry_def supported_masks decoded_imm_def get_immediate_def get_immediate_value_def)
qed

text \<open>A step with either leaves the memory alone and goes to the next word.\<close>

lemma decoded_facts:
  fixes i :: "'a::len mips_instr"
  assumes "decodes (Some i) f op (from_cpu_index r) imm w a" "r < MAX_REG" "wf_rf mips_class (rf s)" "op = OUT_ARITHM \<or> op = OUT_SYSCALL"
  shows "read_sources mips_class (rf s) (i\<lparr>sequence_id := n\<rparr>) = Some (i\<lparr>sequence_id := n, v_src := (v_src i)[0 := 0, Suc 0 := 0]\<rparr>)"
    "\<And>(j :: 'a mips_instr) m. operation j = operation i \<Longrightarrow> load_store M junk e j m = Inr (j, m)"
    "\<And>j :: 'a mips_instr. dst j = dst i \<Longrightarrow> operation j = operation i \<Longrightarrow> wmask j = wmask i \<Longrightarrow>
      write_dst mips_class j (rf s) = Some (if r = 0 then rf s else (rf s)[r := v_dst j ! 0])"
proof -
  have z: "valid_reg mips_class mips_zero" "to_rf_index mips_class mips_zero = 0" "valid_reg mips_class (from_cpu_index r)"
    "to_rf_index mips_class (from_cpu_index r) = r"
    using assms(2) by (simp_all add: valid_reg_def mips_class_def mips_registers mips_reg_nums)
  have i: "wf_datapath (i\<lparr>sequence_id := n\<rparr>)" "src i = [mips_zero, mips_zero, mips_zero]" "dst i = [from_cpu_index r, mips_zero]"
    "operation i = op" "wmask i = all_ones" and w: "wf_datapath i"
    using assms(1) by (auto simp: decodes_def wf_datapath_def)
  have "rf s ! 0 = 0" using assms(3) by (simp add: wf_rf_def)
  then show "read_sources mips_class (rf s) (i\<lparr>sequence_id := n\<rparr>) = Some (i\<lparr>sequence_id := n, v_src := (v_src i)[0 := 0, Suc 0 := 0]\<rparr>)"
    using mips_rf.read_sources_total [OF assms(3) i(1)] i z by simp
  show "load_store M junk e j m = Inr (j, m)" if "operation j = operation i" for j :: "'a mips_instr" and m
    using that i(4) assms(4) by (auto simp: load_store_def operation_predicates)
  show "write_dst mips_class j (rf s) = Some (if r = 0 then rf s else (rf s)[r := v_dst j ! 0])"
    if "dst j = dst i" "operation j = operation i" "wmask j = wmask i" for j :: "'a mips_instr"
    using mips_rf.write_dst_plain [OF assms(3), of j] that i z assms(4)
    by (auto simp: get_accumulation_type_def all_ones_eq)
qed

lemma update_pc_next:
  assumes "2 \<le> length (pc s)" "sim_delayed_slots s = 0"
  shows "update_pc 0 a s = Inr (s\<lparr>pc := (pc s)[0 := a]\<rparr>)"
  using update_pc_one [OF assms(1), of 0 a] assms(2) by (simp add: func_sim.equality)

lemma retire_addiu:
  fixes s :: "('a::len word, 'a mips_instr, 'mem) func_sim"
  assumes "decodes (Some i) mips_addiu OUT_ARITHM (from_cpu_index r) (ucast (n :: uint32)) w a" "0 < r" "r < MAX_REG" "w \<noteq> 0"
    and "32 \<le> LENGTH('a)" "wf_rf mips_class (rf s)" "2 \<le> length (pc s)" "sim_delayed_slots s = 0"
  shows "\<exists>i'. retire (mips_isa v) M junk i s = Inr (i', s\<lparr>sim_sequence_id := sim_sequence_id s + 1, rf := (rf s)[r := ucast n],
      pc := (pc s)[0 := a + 4], nops_in_a_row := 0\<rparr>) \<and> trap i' = NO_TRAP \<and> PC i' = a"
proof -
  note d = decoded_facts [OF assms(1,3,6), simplified]
  have i: "length (v_src i) = 3" "length (v_dst i) = 2" "executor i = mips_addiu" "v_imm i = ucast n" "trap i = NO_TRAP" "PC i = a"
    "delayed_slots i = 0" "new_PC i = a + 4" "raw i \<noteq> 0"
    using assms(1,4) by (auto simp: decodes_def wf_datapath_def)
  have n: "take_bit 32 (ucast n :: 'a word) = ucast n"
    using assms(5) by (intro bit_word_eqI) (auto simp: bit_simps dest: bit_imp_le_length)
  have e: "execute (i\<lparr>sequence_id := k, v_src := (v_src i)[0 := 0, Suc 0 := 0]\<rparr>)
      = i\<lparr>sequence_id := k, v_src := (v_src i)[0 := 0, Suc 0 := 0], v_dst := (v_dst i)[0 := ucast n], complete := True\<rparr>" for k
    using i(1-4) by (simp add: execute_def mips_addiu_def addition_imm_def set_dst0_def src0_def narrow_def n)
  show ?thesis
    using i assms(2,7,8)
    by (simp add: retire_def mips_isa_def d e or_error_def update_pc_next update_and_check_nop_counter_def is_nop_def Let_def)
qed

lemma retire_syscall:
  fixes s :: "('a::len word, 'a mips_instr, 'mem) func_sim"
  assumes "decodes (Some i) mips_syscall OUT_SYSCALL mips_zero 0 w a" "w \<noteq> 0"
    and "wf_rf mips_class (rf s)" "2 \<le> length (pc s)" "sim_delayed_slots s = 0"
  shows "\<exists>i'. retire (mips_isa v) M junk i s = Inr (i', s\<lparr>sim_sequence_id := sim_sequence_id s + 1,
      pc := (pc s)[0 := a + 4], nops_in_a_row := 0\<rparr>) \<and> trap i' = SYSCALL \<and> PC i' = a"
proof -
  have "decodes (Some i) mips_syscall OUT_SYSCALL (from_cpu_index 0) 0 w a"
    using assms(1) by (simp add: mips_registers mips_reg_nums)
  note d = decoded_facts [OF this _ assms(3), simplified]
  have i: "executor i = mips_syscall" "PC i = a" "delayed_slots i = 0" "new_PC i = a + 4" "raw i \<noteq> 0"
    using assms(1,2) by (auto simp: decodes_def wf_datapath_def)
  have e: "execute (i\<lparr>sequence_id := k, v_src := (v_src i)[0 := 0, Suc 0 := 0]\<rparr>)
      = i\<lparr>sequence_id := k, v_src := (v_src i)[0 := 0, Suc 0 := 0], trap := SYSCALL, complete := True\<rparr>" for k
    using i(1) by (simp add: execute_def mips_syscall_def Alu.syscall_def)
  have z: "0 < MAX_REG" by (simp add: MAX_REG_def)
  show ?thesis
    using i assms(4,5) z
    by (simp add: retire_def mips_isa_def d e or_error_def update_pc_next update_and_check_nop_counter_def is_nop_def Let_def)
qed

section \<open>A program that exits\<close>

text \<open>A simulator about to execute the instruction at an address.\<close>

definition runs_at :: "mips_version \<Rightarrow> 'mem \<Rightarrow> Addr \<Rightarrow> 'a::len word list \<Rightarrow> ('a word, 'a mips_instr, 'mem) func_sim \<Rightarrow> bool" where
  "runs_at v h a regs s \<longleftrightarrow> sim_ok (mips_isa v) s \<and> imem_endian s = little \<and> rf s = regs \<and> wf_rf mips_class regs
     \<and> mem s = h \<and> 2 \<le> length (pc s) \<and> sim_delayed_slots s = 0 \<and> get_pc s = a"

lemma fetch_word:
  assumes "runs_at v h a regs s" "read_mem M junk little h a = w" "mips_instr v little w a = Some i" "a \<noteq> - 1"
  shows "\<exists>c. sim_fetch (mips_isa v) M junk s = Inr (i, s\<lparr>imem := c\<rparr>) \<and> runs_at v h a regs (s\<lparr>imem := c\<rparr>)"
proof -
  have s: "ic_ok INSTR_CACHE_CAPACITY (imem s)" "faithful (mips_instr v little) (imem s)" "imem_endian s = little"
    "mem s = h" "get_pc s = a"
    using assms(1) by (auto simp: runs_at_def sim_ok_def mips_isa_def)
  obtain c where "cached_fetch_instr (mips_instr v little) is_same_bytes w a (imem s) = Some (i, c)"
    "ic_ok INSTR_CACHE_CAPACITY c" "faithful (mips_instr v little) c"
    using mips.cached_fetch [OF s(1,2) assms(3,4)] by blast
  then show ?thesis
    using s assms(1,2) by (auto simp: sim_fetch_def mips_isa_def runs_at_def sim_ok_def get_pc_def intro!: exI [of _ c])
qed

text \<open>A driver that has nothing to do without a trap and when the program halts.\<close>

definition passes :: "riscv_causes \<Rightarrow> mips_version \<Rightarrow> driver \<Rightarrow> ('a::len word, 'a mips_instr, 'mem) func_sim itself \<Rightarrow> bool" where
  "passes causes v drv ty \<longleftrightarrow> (\<forall>t \<in> {NO_TRAP, HALT}. \<forall>a s :: ('a word, 'a mips_instr, 'mem) func_sim.
     handle_trap causes (func_cpu (mips_isa v)) drv t a s = Inr (t, s))"

lemma mips_passes: "passes causes v DriverMIPS32 ty" "passes causes v (HookedDriver DriverMIPS32) ty"
  by (simp_all add: passes_def mips_handle_trap_def)

lemma loop_addiu:
  fixes s :: "('a::len word, 'a mips_instr, 'mem) func_sim"
  assumes "runs_at v h a regs s" "read_mem M junk little h a = w" "a \<noteq> - 1" "32 \<le> LENGTH('a)"
    and "decodes (mips_instr v little w a :: 'a mips_instr option) mips_addiu OUT_ARITHM (from_cpu_index r) (ucast (n :: uint32)) w a"
    and "0 < r" "r < MAX_REG" "w \<noteq> 0" "passes causes v drv TYPE(('a word, 'a mips_instr, 'mem) func_sim)"
  shows "\<exists>s'. runs_at v h (a + 4) (regs[r := ucast n]) s'
    \<and> run_loop (step (mips_isa v) M junk) causes (mips_isa v) drv exec (Suc m) k s
      = run_loop (step (mips_isa v) M junk) causes (mips_isa v) drv exec m k s'"
proof -
  obtain i :: "'a mips_instr" where i: "mips_instr v little w a = Some i" using assms(5) by (auto simp: decodes_def)
  obtain c where c: "sim_fetch (mips_isa v) M junk s = Inr (i, s\<lparr>imem := c\<rparr>)" "runs_at v h a regs (s\<lparr>imem := c\<rparr>)"
    using fetch_word [OF assms(1,2) i assms(3)] by blast
  let ?s = "s\<lparr>imem := c\<rparr>"
  let ?t = "?s\<lparr>sim_sequence_id := sim_sequence_id ?s + 1, rf := (rf ?s)[r := ucast n], pc := (pc ?s)[0 := a + 4], nops_in_a_row := 0\<rparr>"
  have r: "wf_rf mips_class (rf ?s)" "2 \<le> length (pc ?s)" "sim_delayed_slots ?s = 0"
    using c(2) by (simp_all add: runs_at_def)
  obtain i' where i': "retire (mips_isa v) M junk i ?s = Inr (i', ?t)" "trap i' = NO_TRAP"
    using retire_addiu [OF assms(5) [unfolded i] assms(6-8,4) r, of v M junk] by blast
  have "wf_rf mips_class (regs[r := ucast n])" using c(2) assms(6) by (simp add: runs_at_def wf_rf_def)
  then have "runs_at v h (a + 4) (regs[r := ucast n]) ?t"
    using c(2) by (cases "pc s") (auto simp: runs_at_def sim_ok_def get_pc_def)
  moreover have "run_loop (step (mips_isa v) M junk) causes (mips_isa v) drv exec (Suc m) k s
      = run_loop (step (mips_isa v) M junk) causes (mips_isa v) drv exec m k ?t"
    by (simp add: step_def c(1) i' handle_instruction_def assms(9) [unfolded passes_def])
  ultimately show ?thesis by blast
qed

lemma loop_exit:
  fixes s :: "('a::len word, 'a mips_instr, hier) func_sim"
  assumes "runs_at v h a regs s" "read_mem hier_ops junk little h a = (0xC :: uint32)" "a \<noteq> - 1" "32 \<le> LENGTH('a)" "wf_hier h"
    and "passes causes v drv TYPE(('a word, 'a mips_instr, hier) func_sim)"
    and "regs ! reg_v0 = ucast (17 :: uint32)" "regs ! reg_a0 = ucast (n :: uint32)"
  shows "\<exists>s'. run_loop (step (mips_isa v) hier_ops junk) causes (mips_isa v) drv
      (mars_execute H (mips_machine v name)) (Suc m) k s = Inr (HALT, k\<lparr>kernel_exit_code := n\<rparr>, s')"
proof -
  note d = decode_syscall [of v little a, where 'a = 'a]
  obtain i :: "'a mips_instr" where i: "mips_instr v little 0xC a = Some i" using d by (auto simp: decodes_def)
  obtain c where c: "sim_fetch (mips_isa v) hier_ops junk s = Inr (i, s\<lparr>imem := c\<rparr>)" "runs_at v h a regs (s\<lparr>imem := c\<rparr>)"
    using fetch_word [OF assms(1,2) i assms(3)] by blast
  let ?s = "s\<lparr>imem := c\<rparr>"
  let ?t = "?s\<lparr>sim_sequence_id := sim_sequence_id ?s + 1, pc := (pc ?s)[0 := a + 4], nops_in_a_row := 0\<rparr>"
  have r: "wf_rf mips_class (rf ?s)" "2 \<le> length (pc ?s)" "sim_delayed_slots ?s = 0"
    using c(2) by (simp_all add: runs_at_def)
  obtain i' where i': "retire (mips_isa v) hier_ops junk i ?s = Inr (i', ?t)" "trap i' = SYSCALL"
    using retire_syscall [OF d [unfolded i] _ r, of v hier_ops junk] by auto
  have ok: "guest_ok ?t" and rf: "rf s = regs" using c(2) assms(5) by (simp_all add: runs_at_def guest_ok_def)
  have wide: "ucast (ucast x :: 'a word) = (ucast x :: uint64)" for x :: uint32
    using assms(4) by (intro bit_word_eqI) (auto simp: bit_simps dest: bit_imp_le_length)
  have "guest_reg ?t reg_v0 = ucast (regs ! reg_v0)" "guest_reg ?t reg_a0 = ucast (regs ! reg_a0)"
    by (simp_all add: guest_reg_def rf call_registers_def)
  then have v0: "guest_reg ?t reg_v0 = 17" "guest_reg ?t reg_a0 = ucast n" unfolding assms(7,8) wide by simp_all
  have laws: "call_machine hier_ops wf_hier (\<lambda>h k. check_and_read_byte h (of_nat k)) hier_size
    (mips_machine v name :: (('a word, 'a mips_instr, hier) func_sim, hier) machine) guest_ok guest_reg (through_register TYPE('a))"
    by (rule mips_call_machine [OF assms(4)])
  have "mars_execute H (mips_machine v name) (k, ?t) = (Answer HALT, k\<lparr>kernel_exit_code := n\<rparr>, ?t)"
    using call_machine.execute_code [OF laws mips_shows_self [OF assms(4) ok], of H k] v0 by simp
  then have "execute_interactive (mars_execute H (mips_machine v name)) (k, ?t) = Inr (HALT, k\<lparr>kernel_exit_code := n\<rparr>, ?t)"
    by (simp add: execute_interactive_def MAX_ATTEMPTS_def numeral_eq_Suc)
  then show ?thesis
    by (simp add: step_def c(1) i' handle_instruction_def assms(6) [unfolded passes_def])
qed

text \<open>The three words of a program that leaves with a code: \<open>addiu $v0, $zero, 17\<close>, \<open>addiu $a0, $zero, n\<close> and
  \<open>syscall\<close>, least significant byte first.\<close>

definition exit_words :: "uint32 \<Rightarrow> uint32 list" where
  "exit_words n = [0x24020011, 0x24040000 OR n, 0xC]"

definition exit_program :: "uint32 \<Rightarrow> byte list" where
  "exit_program n = concat (map (unpack_array little) (exit_words n))"

lemma three_words:
  assumes "wf_hier h" "unat a + 12 \<le> hier_size h"
    and "map (\<lambda>k. check_and_read_byte h (of_nat k)) [unat a..<unat a + 12] = concat (map (unpack_array little) [w0, w1, w2 :: uint32])"
  shows "read_mem hier_ops junk little h a = w0" "read_mem hier_ops junk little h (a + 4) = w1"
    "read_mem hier_ops junk little h (a + 8) = w2"
proof -
  let ?f = "\<lambda>k. check_and_read_byte h (of_nat k)"
  have len: "length (unpack_array little w) = 4" for w :: uint32 by simp
  have "unat a + 12 \<le> 2 ^ 63"
    using assms(1,2) power_increasing [of "addr_bits h" 63 "2 :: nat"] by (simp add: hier_size_def wf_hier_def)
  then have a: "unat (a + 4) = unat a + 4" "unat (a + 8) = unat a + 8" by (simp_all add: unat_word_ariths)
  have slices: "map ?f [unat a + m..<unat a + m + 4] = take 4 (drop m (unpack_array little w0 @ unpack_array little w1 @ unpack_array little w2))"
    if "m \<le> 8" for m
    using that arg_cong [OF assms(3), of "\<lambda>xs. take 4 (drop m xs)"] by (simp add: take_map drop_map add.commute)
  have read: "read_mem hier_ops junk little h b = (w :: uint32)"
    if "unat b = unat a + m" "m \<le> 8" "take 4 (drop m (unpack_array little w0 @ unpack_array little w1 @ unpack_array little w2)) = unpack_array little w" for b w m
    using that hier.read_mem_eq [OF assms(1), of b, where 'a = 32] assms(2) slices [OF that(2)]
    by (simp add: pack_unpack_array)
  show "read_mem hier_ops junk little h a = w0" using read [of a 0 w0] len by simp
  show "read_mem hier_ops junk little h (a + 4) = w1" using read [OF a(1), of w1] len by simp
  show "read_mem hier_ops junk little h (a + 8) = w2" using read [OF a(2), of w2] len by simp
qed

lemma exit_words_decode:
  assumes "unat n < 2 ^ 15" "16 \<le> LENGTH('a)"
  shows "decodes (mips_instr v little 0x24020011 a :: 'a::len mips_instr option) mips_addiu OUT_ARITHM (from_cpu_index reg_v0)
      (ucast (17 :: uint32)) 0x24020011 a"
    "decodes (mips_instr v little (0x24040000 OR n) a :: 'a::len mips_instr option) mips_addiu OUT_ARITHM (from_cpu_index reg_a0)
      (ucast n) (0x24040000 OR n) a"
    "0x24040000 OR n \<noteq> 0"
proof -
  have n: "take_bit 15 n = n" using assms(1) by (intro word_unat_eq_iff [THEN iffD2]) (simp add: unat_take_bit take_bit_nat_eq_self)
  have bits: "bit n j \<Longrightarrow> j < 15" for j by (metis n bit_take_bit_iff)
  have high: "drop_bit 16 n = 0" using bits by (intro bit_word_eqI) (fastforce simp: bit_simps)
  have low: "take_bit 16 n = n" using bits by (intro bit_word_eqI) (fastforce simp: bit_simps)
  have d: "drop_bit k n = 0" if "16 \<le> k" for k
    using arg_cong [OF high, of "drop_bit (k - 16)"] that by simp
  show "decodes (mips_instr v little 0x24020011 a :: 'a mips_instr option) mips_addiu OUT_ARITHM (from_cpu_index reg_v0)
      (ucast (17 :: uint32)) 0x24020011 a"
    using decode_addiu [of "0x24020011" 17 v little a, where 'a = 'a] assms(2) by (simp add: registers_of_calls)
  have w: "drop_bit 26 (0x24040000 OR n) = 9" "take_bit 5 (drop_bit 21 (0x24040000 OR n)) = 0"
    "take_bit 5 (drop_bit 16 (0x24040000 OR n)) = 4" "take_bit 16 (0x24040000 OR n) = n"
    by (simp_all add: d low)
  then show "decodes (mips_instr v little (0x24040000 OR n) a :: 'a mips_instr option) mips_addiu OUT_ARITHM (from_cpu_index reg_a0)
      (ucast n) (0x24040000 OR n) a"
    using decode_addiu [OF w(1,2,4) assms(1), of v little a, where 'a = 'a] assms(2) by (simp add: registers_of_calls)
  show "0x24040000 OR n \<noteq> 0" proof
    assume "0x24040000 OR n = 0"
    then show False using w(1) by (simp only: drop_bit_of_0) simp
  qed
qed

lemma run_exits:
  fixes s :: "('a::len word, 'a mips_instr, hier) func_sim"
  assumes "runs_at v h a regs s" "wf_hier h" "unat a + 12 \<le> hier_size h"
    and "map (\<lambda>k. check_and_read_byte h (of_nat k)) [unat a..<unat a + 12] = exit_program n"
    and "unat n < 2 ^ 15" "32 \<le> LENGTH('a)" "3 \<le> steps"
    and "passes causes v drv TYPE(('a word, 'a mips_instr, hier) func_sim)"
  shows "\<exists>s'. run_loop (step (mips_isa v) hier_ops junk) causes (mips_isa v) drv
      (mars_execute H (mips_machine v name)) steps k s = Inr (HALT, k\<lparr>kernel_exit_code := n\<rparr>, s')"
proof -
  obtain m where m: "steps = Suc (Suc (Suc m))" using assms(7) by (metis Suc_le_D numeral_3_eq_3 Suc_le_mono)
  note w = three_words [OF assms(2,3) assms(4) [unfolded exit_program_def exit_words_def]]
  have indices: "0 < reg_v0" "reg_v0 < MAX_REG" "0 < reg_a0" "reg_a0 < MAX_REG" by (simp_all add: registers_of_calls MAX_REG_def)
  have "unat a + 12 \<le> 2 ^ 63"
    using assms(2,3) power_increasing [of "addr_bits h" 63 "2 :: nat"] by (simp add: hier_size_def wf_hier_def)
  then have a: "unat (a + 4) = unat a + 4" "unat (a + 8) = unat a + 8" "unat a < 2 ^ 63" by (simp_all add: unat_word_ariths)
  have top: "b \<noteq> - 1" if "unat b < 2 ^ 63 + 8" for b :: Addr
    using that word_order.extremum [of "2 ^ 63 + 8 :: Addr"] by (auto simp: word_le_nat_alt)
  have wide: "16 \<le> LENGTH('a)" using assms(6) by simp
  note d = exit_words_decode [OF assms(5) wide]
  let ?loop = "run_loop (step (mips_isa v) hier_ops junk) causes (mips_isa v) drv (mars_execute H (mips_machine v name))"
  obtain s1 where s1: "runs_at v h (a + 4) (regs[reg_v0 := ucast (17 :: uint32)]) s1" "?loop steps k s = ?loop (Suc (Suc m)) k s1"
    using loop_addiu [OF assms(1) w(1) top assms(6) d(1) indices(1,2) _ assms(8)] a unfolding m by fastforce
  obtain s2 where s2: "runs_at v h (a + 4 + 4) (regs[reg_v0 := ucast (17 :: uint32), reg_a0 := ucast n]) s2"
    "?loop (Suc (Suc m)) k s1 = ?loop (Suc m) k s2"
    using loop_addiu [OF s1(1) w(2) top assms(6) d(2) indices(3,4) d(3) assms(8)] a by fastforce
  have "?loop (Suc m) k s2 = Inr (HALT, k\<lparr>kernel_exit_code := n\<rparr>, s')
      \<longrightarrow> ?loop steps k s = Inr (HALT, k\<lparr>kernel_exit_code := n\<rparr>, s')" for s' using s1(2) s2(2) by simp
  moreover have len: "length regs = MAX_REG" using assms(1) by (simp add: runs_at_def wf_rf_def mips_class_def)
  have "\<exists>s'. ?loop (Suc m) k s2 = Inr (HALT, k\<lparr>kernel_exit_code := n\<rparr>, s')"
  proof (rule loop_exit [OF s2(1) _ _ assms(6,2,8)])
    show "read_mem hier_ops junk little h (a + 4 + 4) = (0xC :: uint32)" using w(3) by (simp add: add.assoc)
    show "a + 4 + 4 \<noteq> - 1" using top [of "a + 8"] a by (simp add: add.assoc)
  qed (simp_all add: registers_of_calls len MAX_REG_def)
  ultimately show ?thesis by blast
qed

section \<open>From the files to the exit code\<close>

text \<open>What has to be in the files: an exception handler and a program that fit into the memory, where the program
  has the three words of the exit at its entry point, whatever was in the memory before.\<close>

definition exit_files :: "outside \<Rightarrow> options \<Rightarrow> elf \<Rightarrow> elf \<Rightarrow> Addr \<Rightarrow> uint32 \<Rightarrow> bool" where
  "exit_files W opts handler binary a n \<longleftrightarrow>
     the_reader W (kernel_images W @ ''mars32_le.bin'') = Some handler
     \<and> elf_fits handler (0x800000180 - get_text_section_addr handler) (2 ^ 36)
     \<and> the_reader W (binary_filename opts) = Some binary \<and> elf_fits binary 0 (2 ^ 36)
     \<and> get_startPC binary = Inr a \<and> unat a + 12 \<le> 2 ^ 36
     \<and> (\<forall>f. map (elf_image binary 0 f) [unat a..<unat a + 12] = exit_program n)"

lemma little_mips:
  assumes "is_mips_le name"
  shows "\<exists>v. get_factory name = Inr (Mips_builder v name little)"
proof -
  have "\<forall>name \<in> {''mars'', ''mars64'', ''mips32le'', ''mips32'', ''mips64'', ''mips64le''}.
      case get_factory name of Inr (Mips_builder v x e) \<Rightarrow> x = name \<and> e = little | _ \<Rightarrow> False"
    by code_simp
  then show ?thesis using assms by (fastforce simp: is_mips_le_def split: sum.splits builder.splits)
qed

lemma files_load:
  fixes s :: "('a::len word, 'a mips_instr, hier) func_sim"
  assumes "exit_files W opts handler binary a n" "is_mips_le name" "wf_hier (mem s)" "hier_size (mem s) = 2 ^ 36"
  shows "\<exists>h1 h. connect_exception_handler (the_reader W) (kernel_images W) (mips_machine v name) s = Inr (s\<lparr>mem := h1\<rparr>)
    \<and> load_file (the_reader W) (mips_machine v name) (binary_filename opts) (k, s\<lparr>mem := h1\<rparr>) = Inr (k\<lparr>kernel_start_pc := a\<rparr>, s\<lparr>mem := h\<rparr>)
    \<and> wf_hier h \<and> hier_size h = 2 ^ 36 \<and> map (\<lambda>k. check_and_read_byte h (of_nat k)) [unat a..<unat a + 12] = exit_program n"
proof -
  let ?byte = "\<lambda>h k. check_and_read_byte h (of_nat k)"
  have files: "the_reader W (kernel_images W @ ''mars32_le.bin'') = Some handler"
    "elf_fits handler (0x800000180 - get_text_section_addr handler) (2 ^ 36)"
    "the_reader W (binary_filename opts) = Some binary" "elf_fits binary 0 (2 ^ 36)" "get_startPC binary = Inr a" "unat a + 12 \<le> 2 ^ 36"
    "\<And>f. map (elf_image binary 0 f) [unat a..<unat a + 12] = exit_program n"
    using assms(1) by (simp_all add: exit_files_def)
  have big: "(2 :: nat) ^ 36 \<le> 2 ^ 64" by simp
  have "Memory_Image.holds wf_hier ?byte hier_size (2 ^ 36) (?byte (mem s)) (mem s)"
    using assms(3,4) by (simp add: Memory_Image.holds_def)
  from hier.load_holds [OF this big files(2)] obtain h1 f where h1:
    "load_to hier_ops handler (0x800000180 - get_text_section_addr handler) (mem s) = Inr h1"
    "Memory_Image.holds wf_hier ?byte hier_size (2 ^ 36) f h1" by blast
  from hier.load_holds [OF h1(2) big files(4)] obtain h2 where h2: "load_to hier_ops binary 0 h1 = Inr h2"
    "Memory_Image.holds wf_hier ?byte hier_size (2 ^ 36) (elf_image binary 0 f) h2" by blast
  have "map (?byte h2) [unat a..<unat a + 12] = map (elf_image binary 0 f) [unat a..<unat a + 12]"
    using h2(2) files(6) by (intro map_cong refl) (simp add: Memory_Image.holds_def)
  moreover have "get_isa (mips_machine v name) = name" by (simp add: mips_machine_def func_machine_def)
  then have "connect_exception_handler (the_reader W) (kernel_images W) (mips_machine v name) s = Inr (s\<lparr>mem := h1\<rparr>)"
    using assms(2) h1(1) files(1)
    by (auto simp: connect_exception_handler_def Let_def is_mips_le_def connect_mars_handler_def new_elf_loader_def load_elf_def)
  moreover have "load_file (the_reader W) (mips_machine v name) (binary_filename opts) (k, s\<lparr>mem := h1\<rparr>)
      = Inr (k\<lparr>kernel_start_pc := a\<rparr>, s\<lparr>mem := h2\<rparr>)"
    using h2(1) files(3,5) by (simp add: load_file_def new_elf_loader_def load_elf_def)
  ultimately show ?thesis
    using h2(2) files(7)
    by (intro exI [of _ h1] exI [of _ h2]) (simp add: Memory_Image.holds_def)
qed

lemma load_program_exits:
  fixes s :: "('a::len word, 'a mips_instr, hier) func_sim"
  assumes "exit_files W opts handler binary a n" "use_mars opts" "is_mips_le name" "wf_hier (mem s)" "hier_size (mem s) = 2 ^ 36"
  shows "\<exists>h. load_program W opts (mips_machine v name) s = Inr ((first_kernel W)\<lparr>kernel_start_pc := a\<rparr>, s\<lparr>mem := h\<rparr>)
    \<and> wf_hier h \<and> hier_size h = 2 ^ 36 \<and> map (\<lambda>k. check_and_read_byte h (of_nat k)) [unat a..<unat a + 12] = exit_program n"
proof -
  have "write_csr_register (mips_isa v) ''mscratch'' 0x4000000 s = Inr s"
    by (simp add: write_csr_register_def write_register_def mips_isa_def rf_write_def mips_class_def mips_is_zero_def
        mips_zero_def or_error_def)
  then show ?thesis
    using files_load [OF assms(1,3,4,5), of v "first_kernel W"] assms(2) by (auto simp: load_program_def)
qed

lemma simulate_exits:
  fixes h :: hier
  assumes "exit_files W opts handler binary a n" "use_mars opts" "is_mips_le name" "wf_hier h" "hier_size h = 2 ^ 36"
    and "unat n < 2 ^ 15" "3 \<le> num_steps opts" "32 \<le> LENGTH('a)"
  shows "simulate_func W opts (mips_isa v) (mips_func v name little h :: ('a::len word, 'a mips_instr, hier) func_sim simulator) = Inr n"
proof -
  let ?s = "new_func_sim (mips_isa v) little h :: ('a word, 'a mips_instr, hier) func_sim"
  let ?k = "(first_kernel W)\<lparr>kernel_start_pc := a\<rparr>"
  have "mem ?s = h" by (simp add: new_func_sim_def)
  with load_program_exits [OF assms(1-3), of ?s v] assms(4,5) obtain h' where h':
    "load_program W opts (mips_machine v name) ?s = Inr (?k, ?s\<lparr>mem := h'\<rparr>)"
    "wf_hier h'" "hier_size h' = 2 ^ 36" "map (\<lambda>k. check_and_read_byte h' (of_nat k)) [unat a..<unat a + 12] = exit_program n"
    by auto
  let ?t = "(set_pc a (?s\<lparr>mem := h'\<rparr>))\<lparr>nops_in_a_row := 0\<rparr>"
  have "sim_ok (mips_isa v) ?s" by (rule new_func_sim_ok)
  then have "runs_at v h' a (new_rf mips_class) ?t"
    using mips_rf.wf_new
    by (simp add: runs_at_def sim_ok_def new_func_sim_def set_pc_def set_target_def new_target_def get_pc_def mips_isa_def)
  moreover have "unat a + 12 \<le> hier_size h'" using assms(1) h'(3) by (simp add: exit_files_def)
  moreover have "3 \<le> unat (num_steps opts)" using assms(7) by (simp add: word_le_nat_alt)
  ultimately obtain s' where "run (mips_isa v) hier_ops (buffer_junk W) (the_causes W) DriverMIPS32
      (mars_execute (the_host W) (mips_machine v name)) (num_steps opts) ?k (set_pc a (?s\<lparr>mem := h'\<rparr>))
      = Inr (HALT, ?k\<lparr>kernel_exit_code := n\<rparr>, s')"
    using run_exits [OF _ h'(2) _ h'(4) assms(6,8) _ mips_passes(1)] unfolding run_def by blast
  then show ?thesis
    using h'(1) assms(2)
    by (simp add: simulate_func_def mips_func_def mips_machine_def [symmetric] create_kernel_def)
qed


definition example_program :: elf where
  "example_program =
     [\<lparr>elf_name = ''.text'', elf_type = 1, elf_flags = 6, elf_address = 0x400000, elf_size = 12, elf_data = Some (exit_program 42), elf_symbols = []\<rparr>,
      \<lparr>elf_name = ''.symtab'', elf_type = SHT_SYMTAB, elf_flags = 0, elf_address = 0, elf_size = 0, elf_data = None,
       elf_symbols = [(''__start'', 0x400000)]\<rparr>]"

definition example_outside :: "opcodes \<Rightarrow> csr_list \<Rightarrow> riscv_causes \<Rightarrow> outside" where
  "example_outside opc csrs causes =
     \<lparr>the_host = example_host, the_reader = \<lambda>name. Some (if name = ''mars32_le.bin'' then [] else example_program), kernel_images = [],
      first_kernel = example_kernel [], the_opcodes = opc, the_csrs = csrs, the_causes = causes, buffer_junk = \<lambda>k. 0\<rparr>"

definition example_options :: options where
  "example_options =
     \<lparr>binary_filename = ''exit.out'', num_steps = 100, isa_name = ''mars'', functional_only = True, use_mars = True,
      pipeline = default_config\<rparr>"

lemma example_files: "exit_files (example_outside (\<lambda>name. (0, 0)) [] example_causes) example_options [] example_program 0x400000 42"
proof -
  have bytes: "length (elf_bytes (hd example_program)) = 12" "elf_bytes (hd example_program) = exit_program 42"
    by (simp_all add: example_program_def elf_bytes_def exit_program_def exit_words_def)
  then have "map (elf_image example_program 0 f) [0x400000..<0x400000 + 12] = exit_program 42" for f
    using map_overwrite_same [of "0x400000" "exit_program 42" f] by (simp add: example_program_def SHF_ALLOC_def)
  then show ?thesis
    using bytes
    by (simp add: exit_files_def example_outside_def example_options_def elf_fits_def SHF_ALLOC_def SHT_SYMTAB_def
        is_start_section_def example_program_def)
qed


end
