(* ===== verification/Gdb.thy ===== *)
theory Gdb
  imports Standalone Argv_Loader
begin

text \<open>
  The functional simulator behind the debugger GDB, export/gdb/gdb_wrapper.cpp with the conversion of traps and the
  choice of the instruction set in export/gdb/gdb_interface.cpp. What catches an exception and returns false is an
  option here, with None for that; after it the session is not used further.
\<close>

section \<open>A session\<close>

record 's gdb_sim =
  gdb_cpu :: 's
  gdb_kernel :: mars
  gdb_driver :: driver
  gdb_isa :: string
  gdb_trap :: trap

type_synonym ('a, 'r, 'x) guest = "('a word, ('a, 'r, 'x) base_instruction_scheme, hier) func_sim"

abbreviation gdb_machine :: "('r, ('a::len, 'r, 'x) base_instruction_scheme) isa \<Rightarrow> ('a, 'r, 'x) guest gdb_sim
    \<Rightarrow> (('a, 'r, 'x) guest, hier) machine" where
  "gdb_machine I g \<equiv> func_machine I hier_ops (gdb_isa g)"

text \<open>The constructor: hooks in the driver give every trap back to the debugger. There is no checker to disable.\<close>

definition new_gdb_sim ::
  "outside \<Rightarrow> bool \<Rightarrow> ('r, ('a::len, 'r, 'x) base_instruction_scheme) isa
   \<Rightarrow> ('a, 'r, 'x) guest simulator
   \<Rightarrow> load_error + ('a, 'r, 'x) guest gdb_sim" where
  "new_gdb_sim W mars I x =
     (let g = \<lparr>gdb_cpu = simulator_state x, gdb_kernel = first_kernel W, gdb_driver = HookedDriver (simulator_driver x),
                gdb_isa = simulator_isa x, gdb_trap = NO_TRAP\<rparr>
      in if mars
         then map_sum id (\<lambda>s. g\<lparr>gdb_cpu := s\<rparr>) (connect_exception_handler (the_reader W) (kernel_images W) (gdb_machine I g) (gdb_cpu g))
         else Inr g)"

definition to_option :: "'e + 'a \<Rightarrow> 'a option" where
  "to_option r = (case r of Inl e \<Rightarrow> None | Inr x \<Rightarrow> Some x)"

definition gdb_load :: "outside \<Rightarrow> ('r, ('a::len, 'r, 'x) base_instruction_scheme) isa \<Rightarrow> string \<Rightarrow> ('a, 'r, 'x) guest gdb_sim \<Rightarrow> ('a, 'r, 'x) guest gdb_sim option" where
  "gdb_load W I filename g =
     to_option (map_sum id (\<lambda>(k, s). g\<lparr>gdb_kernel := k, gdb_cpu := s\<rparr>)
       (load_file (the_reader W) (gdb_machine I g) filename (gdb_kernel g, gdb_cpu g)))"

text \<open>\<open>create_inferior\<close>: the arguments go to the stack pointer, which is then moved behind them and aligned.\<close>

function align_stack :: "Addr \<Rightarrow> Addr" where
  "align_stack sp = (if sp mod 4 \<noteq> 0 then align_stack (sp + 1) else sp)"
  by auto

lemma next_mod4: "unat (sp + 1 :: Addr) mod 4 = Suc (unat sp) mod 4"
  by (simp add: unat_word_ariths mod_mod_cancel)

termination align_stack
proof (relation "measure (\<lambda>sp. (4 - unat sp mod 4) mod 4)", goal_cases)
  case (2 sp)
  then have "unat sp mod 4 \<noteq> 0" by (auto simp: word_unat_eq_iff unat_mod)
  moreover have "unat sp mod 4 < 4" by simp
  ultimately consider "unat sp mod 4 = 1" | "unat sp mod 4 = 2" | "unat sp mod 4 = 3" by linarith
  then show ?case
    using next_mod4 [of sp] mod_Suc [of "unat sp" 4] by cases simp_all
qed simp

lemmas align_stack_step = align_stack.simps
declare align_stack.simps [simp del]

lemma align_stack_aligned: "align_stack sp mod 4 = 0 \<and> (\<exists>d < 4. align_stack sp = sp + of_nat d)"
proof -
  have "align_stack sp mod 4 = 0 \<and> align_stack sp = sp + of_nat ((4 - unat sp mod 4) mod 4)"
  proof (induction sp rule: align_stack.induct)
    case (1 sp)
    show ?case
    proof (cases "sp mod 4 = 0")
      case True
      then have "unat sp mod 4 = 0" by (auto simp: word_unat_eq_iff unat_mod)
      then show ?thesis using True by (simp add: align_stack_step [of sp])
    next
      case False
      then have "unat sp mod 4 \<noteq> 0" by (auto simp: word_unat_eq_iff unat_mod)
      moreover have "unat sp mod 4 < 4" by simp
      ultimately consider "unat sp mod 4 = 1" | "unat sp mod 4 = 2" | "unat sp mod 4 = 3" by linarith
      then have eq: "(1 :: Addr) + of_nat ((4 - unat (sp + 1) mod 4) mod 4) = of_nat ((4 - unat sp mod 4) mod 4)"
        using next_mod4 [of sp] mod_Suc [of "unat sp" 4] by cases simp_all
      have step: "align_stack sp = align_stack (sp + 1)" using False by (simp add: align_stack_step [of sp])
      note ih = 1 [OF False, THEN conjunct1] 1 [OF False, THEN conjunct2, unfolded add.assoc eq]
      show ?thesis unfolding step using ih by (rule conjI)
    qed
  qed
  then show ?thesis by (metis mod_less_divisor zero_less_numeral)
qed

definition gdb_create_inferior ::
  "('r, ('a::len, 'r, 'x) base_instruction_scheme) isa \<Rightarrow> Addr \<Rightarrow> byte list list option \<Rightarrow> byte list list option \<Rightarrow> ('a, 'r, 'x) guest gdb_sim \<Rightarrow> ('a, 'r, 'x) guest gdb_sim option" where
  "gdb_create_inferior I start_addr argv envp g =
     (let K = gdb_machine I g; C = sim K; M = memory_functions K
      in case read_gdb C 29 (gdb_cpu g) of
           Inl e \<Rightarrow> None
         | Inr sp \<Rightarrow>
             (case (if LENGTH('a) div 8 = 4 then load_args TYPE(32) little M argv envp 0 sp (mem (gdb_cpu g))
                    else if LENGTH('a) div 8 = 8 then load_args TYPE(64) little M argv envp 0 sp (mem (gdb_cpu g))
                    else Inr (0, mem (gdb_cpu g))) of
                Inl e \<Rightarrow> None
              | Inr (n, m) \<Rightarrow>
                  to_option (bind_sim (write_gdb C 29 (align_stack (sp + n)) ((gdb_cpu g)\<lparr>mem := m\<rparr>)) (\<lambda>s.
                    map_sum id (\<lambda>s. g\<lparr>gdb_cpu := s\<rparr>) (cpu_set_pc C start_addr s)))))"

text \<open>\<open>resume\<close>: no step count is no limit. An exception leaves the trap that is reported: the one from before, but
  for a simulation that is lost.\<close>

definition gdb_resume :: "outside \<Rightarrow> bool \<Rightarrow> ('r, ('a::len, 'r, 'x) base_instruction_scheme) isa \<Rightarrow> uint64 \<Rightarrow> ('a, 'r, 'x) guest gdb_sim \<Rightarrow> trap + ('a, 'r, 'x) guest gdb_sim" where
  "gdb_resume W mars I step_count g =
     (let K = gdb_machine I g
      in case run I hier_ops (buffer_junk W) (the_causes W) (gdb_driver g) (create_kernel mars (the_host W) K)
             (if step_count = 0 then - 1 else step_count) (gdb_kernel g) (gdb_cpu g) of
           Inl e \<Rightarrow> Inl (if e = BearingLost then HALT else gdb_trap g)
         | Inr (t, k, s) \<Rightarrow> Inr (g\<lparr>gdb_trap := t, gdb_kernel := k, gdb_cpu := s\<rparr>))"

text \<open>Memory and registers as bytes, with the counts that are returned.\<close>

definition gdb_memory_read :: "(('a::len word, 'i, hier) func_sim) gdb_sim \<Rightarrow> Addr \<Rightarrow> nat \<Rightarrow> int \<times> byte list" where
  "gdb_memory_read g a n = (let bytes = guest_to_host hier_ops (mem (gdb_cpu g)) a n in (int (length bytes), bytes))"

definition gdb_memory_write :: "Addr \<Rightarrow> byte list \<Rightarrow> (('a::len word, 'i, hier) func_sim) gdb_sim \<Rightarrow> int \<times> (('a word, 'i, hier) func_sim) gdb_sim" where
  "gdb_memory_write a bytes g =
     (case host_to_guest_noexcept hier_ops (mem (gdb_cpu g)) a bytes of
        (n, m) \<Rightarrow> (int n, g\<lparr>gdb_cpu := (gdb_cpu g)\<lparr>mem := m\<rparr>\<rparr>))"

definition gdb_read_register :: "('r, ('a::len, 'r, 'x) base_instruction_scheme) isa \<Rightarrow> nat \<Rightarrow> int \<Rightarrow> ('a, 'r, 'x) guest gdb_sim \<Rightarrow> sim_error + int \<times> byte list" where
  "gdb_read_register I regno len g =
     (if len = (8 :: int)
      then map_sum id (\<lambda>v. (len, put_value_to_pointer little [] (v :: uint64) 8)) (read_gdb (func_cpu I) regno (gdb_cpu g))
      else if len = 4
      then map_sum id (\<lambda>v. (len, put_value_to_pointer little [] (ucast v :: uint32) 4)) (read_gdb (func_cpu I) regno (gdb_cpu g))
      else Inr (0, []))"

definition gdb_write_register :: "('r, ('a::len, 'r, 'x) base_instruction_scheme) isa \<Rightarrow> nat \<Rightarrow> byte list \<Rightarrow> int \<Rightarrow> ('a, 'r, 'x) guest gdb_sim \<Rightarrow> sim_error + int \<times> ('a, 'r, 'x) guest gdb_sim" where
  "gdb_write_register I regno bytes len g =
     (if len = (8 :: int)
      then map_sum id (\<lambda>s. (len, g\<lparr>gdb_cpu := s\<rparr>)) (write_gdb (func_cpu I) regno (get_value_from_pointer little bytes 8) (gdb_cpu g))
      else if len = 4
      then map_sum id (\<lambda>s. (len, g\<lparr>gdb_cpu := s\<rparr>))
        (write_gdb (func_cpu I) regno (ucast (get_value_from_pointer little bytes 4 :: uint32)) (gdb_cpu g))
      else Inr (0, g))"

text \<open>What the debugger is told. Its own words for the states of a program are of a header of GDB.\<close>

datatype sim_stop = sim_polling | sim_exited | sim_stopped

definition translate_trap :: "riscv_causes \<Rightarrow> trap \<Rightarrow> 32 word \<Rightarrow> trap_error + sim_stop \<times> 32 word" where
  "translate_trap causes t exit_code =
     (if t = HALT then Inr (sim_exited, exit_code)
      else map_sum id (\<lambda>ret. if ret = GDB_SIGNAL_0 then (sim_polling, ucast GDB_SIGNAL_0) else (sim_stopped, ucast ret))
        (to_gdb_format causes t))"

definition gdb_stop_reason :: "riscv_causes \<Rightarrow> 's gdb_sim \<Rightarrow> trap_error + sim_stop \<times> 32 word" where
  "gdb_stop_reason causes g = translate_trap causes (gdb_trap g) (kernel_exit_code (gdb_kernel g))"

text \<open>\<open>GDBSimVector\<close>: instances by their numbers, -1 for one that could not be made.\<close>

definition allocate_new :: "'e + 'g \<Rightarrow> 'g list \<Rightarrow> int \<times> 'g list" where
  "allocate_new r st = (case r of Inl e \<Rightarrow> (-1, st) | Inr g \<Rightarrow> (sint (of_nat (length st) :: 32 word), st @ [g]))"

definition gdb_at :: "'g list \<Rightarrow> nat \<Rightarrow> 'g option" where
  "gdb_at st i = (if i < length st then Some (st ! i) else None)"

text \<open>\<open>sim_open\<close> asks for this instruction set, whatever the program is for.\<close>

definition sim_open :: "outside \<Rightarrow> bool \<Rightarrow> main_error + (32 word, 32 mips_instr, hier) func_sim gdb_sim" where
  "sim_open W mars =
     bind_sim default_memory (\<lambda>m.
     bind_sim (map_sum Factory id (get_funcsim (the_opcodes W) (the_csrs W) m ''mips32'')) (\<lambda>x.
       case x of
         Mips32_func v x \<Rightarrow> map_sum Load id (new_gdb_sim W mars (mips_isa v) x)
       | _ \<Rightarrow> Inl (Factory (InvalidISA ''mips32''))))"

section \<open>Registers\<close>

lemma gdb_register_numbers:
  assumes "regno \<in> {1..36}"
  shows "valid_reg mips_class (from_gdb_index regno)" "\<not> is_zero mips_class (from_gdb_index regno)"
    "r \<noteq> regno \<Longrightarrow> reg_num (from_gdb_index r) \<noteq> reg_num (from_gdb_index regno)"
  using assms from_gdb_index_bound [of regno]
  by (auto simp: valid_reg_def mips_class_def mips_is_zero_def from_gdb_index_def mips_registers mips_reg_nums)

definition gdb_pc_number :: nat where "gdb_pc_number = 37"

lemma gdb_pc_index_mips: "gdb_pc_index (mips_isa v) = gdb_pc_number"
  by (simp add: mips_isa_def mips_gdb_pc_index_def gdb_pc_number_def)

text \<open>Writing a register from the debugger, and reading any.\<close>

lemma write_gdb_register_effect:
  fixes s :: "('a::len word, 'a mips_instr, hier) func_sim"
  assumes "wf_rf mips_class (rf s)" "regno \<in> {1..36}"
  shows "write_gdb_register (mips_isa v) regno x s = Inr (s\<lparr>rf := (rf s)[reg_num (from_gdb_index regno) := ucast x]\<rparr>)"
    "read_gdb_register (mips_isa v) regno s = Inr (ucast (rf s ! reg_num (from_gdb_index regno)))"
    "wf_rf mips_class ((rf s)[reg_num (from_gdb_index regno) := y])"
    "reg_num (from_gdb_index regno) < length (rf s)"
proof -
  note r = gdb_register_numbers(1,2) [OF assms(2)]
  have pc: "regno \<noteq> gdb_pc_index (mips_isa v)" using assms(2) by (auto simp: gdb_pc_index_mips gdb_pc_number_def)
  have len: "reg_num (from_gdb_index regno) < length (rf s)"
    using assms(1) from_gdb_index_bound [of regno] by (simp add: wf_rf_def mips_class_def)
  then show "reg_num (from_gdb_index regno) < length (rf s)" .
  have i: "to_rf_index mips_class = reg_num" by (simp add: mips_class_def)
  show "write_gdb_register (mips_isa v) regno x s = Inr (s\<lparr>rf := (rf s)[reg_num (from_gdb_index regno) := ucast x]\<rparr>)"
    using pc r(2) len unfolding write_gdb_register_def
    by (simp add: write_register_def mips_isa_def rf_write_def set_value_def i or_error_def)
  show "read_gdb_register (mips_isa v) regno s = Inr (ucast (rf s ! reg_num (from_gdb_index regno)))"
    using pc mips_rf.read_valid [OF assms(1) r(1)] unfolding read_gdb_register_def
    by (simp add: read_register_def mips_isa_def i or_error_def)
  have "reg_num (from_gdb_index regno) \<noteq> 0" using r(2) by (simp add: mips_class_def mips_is_zero_def MIPS_REG_zero_def)
  then show "wf_rf mips_class ((rf s)[reg_num (from_gdb_index regno) := y])" using assms(1) by (simp add: wf_rf_def)
qed

lemma read_other_register:
  fixes s t :: "('a::len word, 'a mips_instr, hier) func_sim"
  assumes "r = gdb_pc_number \<Longrightarrow> get_pc t = get_pc s"
    "r \<noteq> gdb_pc_number \<Longrightarrow> rf_read mips_class (rf t) (from_gdb_index r) = rf_read mips_class (rf s) (from_gdb_index r)"
  shows "read_gdb_register (mips_isa v) r t = read_gdb_register (mips_isa v) r s"
  using assms by (auto simp: read_gdb_register_def gdb_pc_index_mips read_register_def) (simp_all add: mips_isa_def)

lemma bytes_of_value:
  assumes "length bytes = LENGTH('b) div 8" "8 dvd LENGTH('b)"
  shows "put_value_to_pointer little [] (get_value_from_pointer little bytes (length bytes) :: 'b::len word) (length bytes) = bytes"
  using assms unpack_pack_array [of bytes little, where 'a = 'b]
  by (simp add: put_value_to_pointer_def get_value_from_pointer_def Let_def)

lemma kept_by_register:
  "32 \<le> LENGTH('a::len) \<Longrightarrow> (ucast (ucast (ucast (ucast (y :: uint32) :: uint64) :: 'a word) :: uint64) :: uint32) = y"
  "64 \<le> LENGTH('a::len) \<Longrightarrow> ucast (ucast (z :: uint64) :: 'a word) = z"
  "(ucast (ucast y :: uint64) :: uint32) = y"
  by (intro bit_word_eqI; auto simp: bit_simps)+

lemma gdb_accesses:
  "read_gdb (func_cpu I) = read_gdb_register I" "write_gdb (func_cpu I) = write_gdb_register I"
  by (simp_all add: func_cpu_def)

lemma put_register:
  fixes g :: "('a::len word, 'a mips_instr, hier) func_sim gdb_sim"
  assumes "write_gdb_register (mips_isa v) regno x (gdb_cpu g) = Inr s"
    and "read_gdb_register (mips_isa v) regno s = Inr y" "length bytes \<in> {4, 8}"
    and "length bytes = 8 \<Longrightarrow> x = get_value_from_pointer little bytes 8 \<and> y = x"
    and "length bytes = 4 \<Longrightarrow> x = ucast (get_value_from_pointer little bytes 4 :: uint32) \<and> (ucast y :: uint32) = get_value_from_pointer little bytes 4"
  shows "gdb_write_register (mips_isa v) regno bytes (int (length bytes)) g = Inr (int (length bytes), g\<lparr>gdb_cpu := s\<rparr>)"
    "gdb_read_register (mips_isa v) regno (int (length bytes)) (g\<lparr>gdb_cpu := s\<rparr>) = Inr (int (length bytes), bytes)"
proof -
  consider "length bytes = 8" | "length bytes = 4" using assms(3) by auto
  then show "gdb_write_register (mips_isa v) regno bytes (int (length bytes)) g = Inr (int (length bytes), g\<lparr>gdb_cpu := s\<rparr>)"
    using assms(1,4,5) by cases (simp_all add: gdb_write_register_def gdb_accesses)
  consider "length bytes = 8" | "length bytes = 4" using assms(3) by auto
  then show "gdb_read_register (mips_isa v) regno (int (length bytes)) (g\<lparr>gdb_cpu := s\<rparr>) = Inr (int (length bytes), bytes)"
  proof cases
    case 1
    then show ?thesis
      using assms(2,4) bytes_of_value [of bytes, where 'b = 64] by (simp add: gdb_read_register_def gdb_accesses)
  next
    case 2
    then show ?thesis
      using assms(2,5) bytes_of_value [of bytes, where 'b = 32] by (simp add: gdb_read_register_def gdb_accesses)
  qed
qed

definition example_guest32 :: "hier \<Rightarrow> (32 word, 32 mips_instr, hier) func_sim" where
  "example_guest32 h = new_func_sim (mips_isa V_32) little h"

text \<open>C38: What the debugger writes to a register of the MIPS simulator it reads back, four or eight bytes as wide as the
  register is, the program counter included; no other register changes.\<close>
theorem gdb_register_round_trip:
  fixes g :: "('a::len word, 'a mips_instr, hier) func_sim gdb_sim"
  assumes "wf_rf mips_class (rf (gdb_cpu g))" "pc (gdb_cpu g) \<noteq> []" "regno \<in> {1..37}" "length bytes \<in> {4, 8}"
    and "8 * length bytes \<le> LENGTH('a) \<or> regno = 37"
  shows "\<exists>g'. gdb_write_register (mips_isa v) regno bytes (int (length bytes)) g = Inr (int (length bytes), g')
    \<and> gdb_read_register (mips_isa v) regno (int (length bytes)) g' = Inr (int (length bytes), bytes)
    \<and> (\<forall>r. r \<noteq> regno \<longrightarrow> gdb_read_register (mips_isa v) r 8 g' = gdb_read_register (mips_isa v) r 8 g)"
proof -
  let ?x = "if length bytes = 8 then get_value_from_pointer little bytes 8 else ucast (get_value_from_pointer little bytes 4 :: uint32) :: uint64"
  let ?s = "gdb_cpu g"
  have "\<exists>t y. write_gdb_register (mips_isa v) regno ?x ?s = Inr t \<and> read_gdb_register (mips_isa v) regno t = Inr y
    \<and> (length bytes = 8 \<longrightarrow> y = ?x) \<and> (length bytes = 4 \<longrightarrow> (ucast y :: uint32) = ucast ?x)
    \<and> (\<forall>r. r \<noteq> regno \<longrightarrow> read_gdb_register (mips_isa v) r t = read_gdb_register (mips_isa v) r ?s)"
  proof (cases "regno = 37")
    case True
    have t: "get_pc (set_pc z ?s) = z" "rf (set_pc z ?s) = rf ?s" for z
      using assms(2) by (cases "pc ?s"; simp add: get_pc_def set_pc_def set_target_def new_target_def)+
    have "read_gdb_register (mips_isa v) r (set_pc z ?s) = read_gdb_register (mips_isa v) r ?s" if "r \<noteq> regno" for r z
      using that True t(2) by (intro read_other_register) (simp_all add: gdb_pc_number_def)
    moreover have "write_gdb_register (mips_isa v) regno z ?s = Inr (set_pc z ?s)"
      "read_gdb_register (mips_isa v) regno (set_pc z ?s) = Inr z" for z
      using True t(1) by (simp_all add: write_gdb_register_def read_gdb_register_def gdb_pc_index_mips gdb_pc_number_def)
    ultimately show ?thesis by blast
  next
    case False
    then have n: "regno \<in> {1..36}" "8 * length bytes \<le> LENGTH('a)" using assms(3,5) by auto
    note w = write_gdb_register_effect [OF assms(1) n(1)]
    let ?i = "reg_num (from_gdb_index regno)" and ?t = "?s\<lparr>rf := (rf ?s)[reg_num (from_gdb_index regno) := ucast ?x]\<rparr>"
    have t: "wf_rf mips_class (rf ?t)" using w(3) by simp
    have "read_gdb_register (mips_isa v) regno ?t = Inr (ucast (ucast ?x :: 'a word))"
      using write_gdb_register_effect(2) [OF t n(1), of v] w(4) by simp
    moreover have "read_gdb_register (mips_isa v) r ?t = read_gdb_register (mips_isa v) r ?s" if "r \<noteq> regno" for r
      using gdb_register_numbers(3) [OF n(1) that]
      by (intro read_other_register) (simp_all add: get_pc_def rf_read_def get_value_def mips_class_def)
    ultimately show ?thesis
      using w(1) [of v ?x] n(2) kept_by_register(1,2) [where 'a = 'a] by (auto simp: kept_by_register(3))
  qed
  then obtain t y where t: "write_gdb_register (mips_isa v) regno ?x ?s = Inr t" "read_gdb_register (mips_isa v) regno t = Inr y"
    "length bytes = 8 \<longrightarrow> y = ?x" "length bytes = 4 \<longrightarrow> (ucast y :: uint32) = ucast ?x"
    "\<forall>r. r \<noteq> regno \<longrightarrow> read_gdb_register (mips_isa v) r t = read_gdb_register (mips_isa v) r ?s" by blast
  note p = put_register [OF t(1,2) assms(4)]
  have "\<forall>r. r \<noteq> regno \<longrightarrow> gdb_read_register (mips_isa v) r 8 (g\<lparr>gdb_cpu := t\<rparr>) = gdb_read_register (mips_isa v) r 8 g"
    using t(5) by (simp add: gdb_read_register_def gdb_accesses)
  then show ?thesis using p t(3,4) by (auto simp: kept_by_register(3))
qed

lemma gdb_register_round_trip_witness:
  "\<exists>g'. gdb_write_register (mips_isa V_32) 37 [0, 0, 0x40, 0] 4 (gdb_sim.make (example_guest32 small_hier) (example_kernel []) DriverNoOp ''mips32'' NO_TRAP) = Inr (4, g')
    \<and> gdb_read_register (mips_isa V_32) 37 4 g' = Inr (4, [0, 0, 0x40, 0])"
proof -
  let ?g = "gdb_sim.make (example_guest32 small_hier) (example_kernel []) DriverNoOp ''mips32'' NO_TRAP"
  have g: "wf_rf mips_class (rf (gdb_cpu ?g))" "pc (gdb_cpu ?g) \<noteq> []"
    using mips_rf.wf_new by (simp_all add: gdb_sim.defs example_guest32_def new_func_sim_def mips_isa_def)
  show ?thesis using gdb_register_round_trip [OF g, of 37 "[0, 0, 0x40, 0]" V_32] by auto
qed

section \<open>A program under the debugger\<close>

lemma below_program:
  assumes "length block \<le> unat a" "\<forall>k < n. byte h' k = overwrite 0 block (byte h) k" "unat a + 12 \<le> n"
  shows "map (byte h') [unat a..<unat a + 12] = map (byte h) [unat a..<unat a + 12]"
  using assms by (intro map_cong refl) (simp add: overwrite_def)

lemma create_inferior_below:
  fixes g :: "(32 word, 32 mips_instr, hier) func_sim gdb_sim"
  assumes "wf_hier (mem (gdb_cpu g))" "hier_size (mem (gdb_cpu g)) = 2 ^ 36" "unat a + 12 \<le> 2 ^ 36" "wf_rf mips_class (rf (gdb_cpu g))"
    and "rf (gdb_cpu g) ! 29 = 0" "length (argv_block TYPE(32) little argv envp 0) \<le> unat a"
  obtains g' h where "gdb_create_inferior (mips_isa v) a argv envp g = Some g'" "wf_hier h" "hier_size h = 2 ^ 36"
    "map (\<lambda>k. check_and_read_byte h (of_nat k)) [unat a..<unat a + 12] = map (\<lambda>k. check_and_read_byte (mem (gdb_cpu g)) (of_nat k)) [unat a..<unat a + 12]"
    "g' = g\<lparr>gdb_cpu := set_pc a ((gdb_cpu g)\<lparr>mem := h,
        rf := (rf (gdb_cpu g))[29 := ucast (align_stack (of_nat (length (argv_block TYPE(32) little argv envp 0))))]\<rparr>)\<rparr>"
proof -
  let ?byte = "\<lambda>h k. check_and_read_byte h (of_nat k)"
  let ?s = "gdb_cpu g" and ?b = "argv_block TYPE(32) little argv envp 0"
  have fits: "unat (0 :: Addr) + length ?b \<le> hier_size (mem ?s)" using assms(2,3,6) by simp
  obtain h where h: "load_args TYPE(32) little hier_ops argv envp 0 0 (mem ?s) = Inr (of_nat (length ?b), h)"
    "Memory_Image.holds wf_hier ?byte hier_size (hier_size (mem ?s)) (overwrite (unat (0 :: Addr)) ?b (?byte (mem ?s))) h"
    using hier.load_args_holds [OF hier.holds_self [OF assms(1)] unat_addr_size(2) [OF assms(1)] _ fits]
    by (auto simp: GUEST_WORD_SIZE_def)
  have bytes: "map (?byte h) [unat a..<unat a + 12] = map (?byte (mem ?s)) [unat a..<unat a + 12]"
    using h(2) assms(2,3) by (intro below_program [OF assms(6), of "2 ^ 36"]) (auto simp: Memory_Image.holds_def)
  have sp: "(29 :: nat) \<in> {1..36}" "reg_num (from_gdb_index 29) = 29"
    by (simp_all add: from_gdb_index_def from_cpu_index_def)
  have w: "wf_rf mips_class (rf (?s\<lparr>mem := h\<rparr>))" using assms(4) by simp
  note written = write_gdb_register_effect(1) [OF w sp(1), unfolded sp(2)]
  note read = write_gdb_register_effect(2) [OF assms(4) sp(1), of v, unfolded sp(2)]
  show ?thesis
    using h bytes assms(2,5) read
    by (intro that [of "g\<lparr>gdb_cpu := set_pc a (?s\<lparr>mem := h, rf := (rf ?s)[29 := ucast (align_stack (of_nat (length ?b)))]\<rparr>)\<rparr>" h])
      (simp_all add: gdb_create_inferior_def Let_def func_machine_def gdb_accesses written to_option_def Memory_Image.holds_def)
qed



end
