(* ===== verification/Cen64_Memory.thy ===== *)
theory Cen64_Memory
  imports Hierarchied_Memory
begin

text \<open>
  The memory of the cen64 emulator, simulator/memory/cen64/cen64_memory.cpp: a memory whose copies go word
  by word over a bus. The bus belongs to the emulator and is a record of its two functions here. The
  locale \<open>word_bus\<close> states what the copies rely on, which is what the bus of memory/cen64/t/unit_test.cpp does.
\<close>

section \<open>The memory\<close>

record 'b bus_controller =
  bus_read_word :: "'b \<Rightarrow> uint32 \<Rightarrow> nat \<times> uint32"
  bus_write_word :: "'b \<Rightarrow> uint32 \<Rightarrow> uint32 \<Rightarrow> uint32 \<Rightarrow> nat \<times> 'b"

text \<open>\<open>copy_word\<close> from the bus and to it, with the results that the bus returns. A copy to the bus has a mask of the
  bytes that are meant.\<close>

definition copy_word_to_host :: "'b bus_controller \<Rightarrow> 'b \<Rightarrow> Addr \<Rightarrow> nat \<Rightarrow> nat \<times> byte list" where
  "copy_word_to_host B b ga sz =
     (case bus_read_word B b (ucast ga) of (result, val) \<Rightarrow> (result, put_value_to_pointer big [] val sz))"

definition copy_word_to_guest :: "'b bus_controller \<Rightarrow> Addr \<Rightarrow> byte list \<Rightarrow> 'b \<Rightarrow> nat \<times> 'b" where
  "copy_word_to_guest B ga bs b =
     (let val = get_value_from_pointer big bs (length bs);
          dqm = swap_endian (bitmask (length bs * 8))
      in bus_write_word B b (ucast ga) val dqm)"

text \<open>\<open>copy_by_words\<close>: what does not fill a word goes first. The loop over the words recurses on their number.\<close>

fun words_to_host :: "'b bus_controller \<Rightarrow> 'b \<Rightarrow> Addr \<Rightarrow> nat \<Rightarrow> nat \<times> byte list" where
  "words_to_host B b ga 0 = (0, [])"
| "words_to_host B b ga (Suc n) =
     (case copy_word_to_host B b ga 4 of (result, bytes) \<Rightarrow>
      case words_to_host B b (ga + 4) n of (rest, more_bytes) \<Rightarrow> (result + rest, bytes @ more_bytes))"

fun words_to_guest :: "'b bus_controller \<Rightarrow> Addr \<Rightarrow> byte list \<Rightarrow> nat \<Rightarrow> 'b \<Rightarrow> nat \<times> 'b" where
  "words_to_guest B ga bs 0 b = (0, b)"
| "words_to_guest B ga bs (Suc n) b =
     (case copy_word_to_guest B ga (take 4 bs) b of (result, b) \<Rightarrow>
      case words_to_guest B (ga + 4) (drop 4 bs) n b of (rest, b) \<Rightarrow> (result + rest, b))"

definition cen64_guest_to_host :: "'b bus_controller \<Rightarrow> 'b \<Rightarrow> Addr \<Rightarrow> nat \<Rightarrow> nat \<times> byte list" where
  "cen64_guest_to_host B b ga sz =
     (let remainder = sz mod 4
      in case (if remainder \<noteq> 0 then copy_word_to_host B b ga remainder else (0, [])) of (result, bytes) \<Rightarrow>
         case words_to_host B b (ga + of_nat remainder) (sz div 4) of (rest, more_bytes) \<Rightarrow>
           (result + rest, bytes @ more_bytes))"

definition cen64_host_to_guest :: "'b bus_controller \<Rightarrow> Addr \<Rightarrow> byte list \<Rightarrow> 'b \<Rightarrow> nat \<times> 'b" where
  "cen64_host_to_guest B ga bs b =
     (let remainder = length bs mod 4
      in case (if remainder \<noteq> 0 then copy_word_to_guest B ga (take remainder bs) b else (0, b)) of (result, b) \<Rightarrow>
         case words_to_guest B (ga + of_nat remainder) (drop remainder bs) (length bs div 4) b of (rest, b) \<Rightarrow>
           (result + rest, b))"

text \<open>What this memory refuses.\<close>

datatype cen64_error = CEN64MemoryUnsupportedInterface string

definition cen64_dump :: "'b \<Rightarrow> cen64_error + string" where
  "cen64_dump b = Inl (CEN64MemoryUnsupportedInterface ''dump'')"

definition cen64_duplicate_to :: "'b \<Rightarrow> 'm \<Rightarrow> cen64_error + 'm" where
  "cen64_duplicate_to b m = Inl (CEN64MemoryUnsupportedInterface ''duplication'')"

definition cen64_strlen :: "'b \<Rightarrow> Addr \<Rightarrow> cen64_error + nat" where
  "cen64_strlen b addr = Inl (CEN64MemoryUnsupportedInterface ''string output'')"

section \<open>Bytes of masked words\<close>

lemma nth_unpack_big:
  assumes "i < 4"
  shows "unpack_array big (x :: uint32) ! i = ucast (drop_bit (24 - 8 * i) x)"
  using assms by (simp add: unpack_array_def unpack_array_be_def nth_unpack_be_loop)

text \<open>The mask of a copy covers its bytes, and a masked word has the bytes of one side or the other.\<close>

lemma copy_mask_bytes:
  assumes "n \<le> 4" "i < 4"
  shows "unpack_array big (swap_endian (bitmask (n * 8)) :: uint32) ! i = (if i < n then - 1 else 0)"
proof -
  have "(0xFF :: byte) = - 1" by simp
  moreover
  have "\<forall>n \<in> set [0..<5]. unpack_array big (swap_endian (bitmask (n * 8)) :: uint32) = replicate n 0xFF @ replicate (4 - n) 0"
    by code_simp
  ultimately show ?thesis using assms by (auto simp: nth_append)
qed

lemma copy_value_bytes:
  assumes "length bs \<le> 4" "i < length bs"
  shows "unpack_array big (get_value_from_pointer big bs (length bs) :: uint32) ! i = bs ! i"
  using assms by (simp add: get_value_from_pointer_def unpack_pack_array nth_append)

lemma masked_bytes:
  assumes "i < 4"
  shows "unpack_array big ((v AND m) OR (w AND NOT m) :: uint32) ! i =
    (unpack_array big v ! i AND unpack_array big m ! i) OR (unpack_array big w ! i AND NOT (unpack_array big m ! i))"
  using assms by (intro bit_word_eqI) (auto simp: nth_unpack_big bit_simps)

lemma copy_merges:
  assumes "length bs \<le> 4" "i < 4"
  shows "unpack_array big ((get_value_from_pointer big bs (length bs) AND swap_endian (bitmask (length bs * 8)))
      OR (w AND NOT (swap_endian (bitmask (length bs * 8)))) :: uint32) ! i = (if i < length bs then bs ! i else unpack_array big w ! i)"
  using assms by (simp add: masked_bytes copy_mask_bytes copy_value_bytes)

section \<open>What the copies rely on\<close>

text \<open>A 32-bit address and the three bytes behind it.\<close>

definition bus_bytes :: nat where "bus_bytes = 2 ^ 32 + 3"

locale word_bus =
  fixes B :: "'b bus_controller" and ok :: "'b \<Rightarrow> bool" and byte_at :: "'b \<Rightarrow> nat \<Rightarrow> byte" and extent :: nat
  assumes extent: "bus_bytes \<le> extent"
    and read_word: "ok b \<Longrightarrow> snd (bus_read_word B b a) = pack_array big (map (byte_at b) [unat a..<unat a + 4])"
    and write_word: "ok b \<Longrightarrow> ok (snd (bus_write_word B b a v m)) \<and> (\<forall>k < extent.
      byte_at (snd (bus_write_word B b a v m)) k =
        (if unat a \<le> k \<and> k < unat a + 4
         then unpack_array big ((v AND m) OR (snd (bus_read_word B b a) AND NOT m)) ! (k - unat a) else byte_at b k))"
begin

definition shows_bytes :: "(nat \<Rightarrow> byte) \<Rightarrow> 'b \<Rightarrow> bool" where
  "shows_bytes f b \<longleftrightarrow> ok b \<and> (\<forall>k < extent. byte_at b k = f k)"

lemma copy_word_in:
  assumes "shows_bytes f b" "unat ga < 2 ^ 32" "n \<le> 4"
  shows "snd (copy_word_to_host B b ga n) = map f [unat ga..<unat ga + n]"
proof -
  have a: "unat (ucast ga :: uint32) = unat ga" using assms(2) by (simp add: unsigned_ucast_eq take_bit_nat_eq_self)
  have "map (byte_at b) [unat ga..<unat ga + 4] = map f [unat ga..<unat ga + 4]"
    using assms(1,2) extent by (intro map_cong refl) (simp add: shows_bytes_def bus_bytes_def)
  then have "snd (bus_read_word B b (ucast ga)) = pack_array big (map f [unat ga..<unat ga + 4])"
    using read_word [of b "ucast ga"] assms(1) unfolding shows_bytes_def a by metis
  then have "unpack_array big (snd (bus_read_word B b (ucast ga))) = map f [unat ga..<unat ga + 4]"
    by (simp add: unpack_pack_array)
  then show ?thesis
    using assms(3) by (auto simp: copy_word_to_host_def put_value_to_pointer_def take_map split: prod.split)
qed

lemma words_in:
  assumes "shows_bytes f b" "unat ga + 4 * n \<le> 2 ^ 32"
  shows "snd (words_to_host B b ga n) = map f [unat ga..<unat ga + 4 * n]"
  using assms(2)
proof (induction n arbitrary: ga)
  case (Suc n)
  have a: "unat (ga + 4) = unat ga + 4" using Suc.prems by (simp add: unat_word_ariths)
  have "map f [unat ga..<unat ga + 4 * Suc n] = map f [unat ga..<unat ga + 4] @ map f [unat ga + 4..<unat ga + 4 + 4 * n]"
    using upt_add_eq_append [of "unat ga" "unat ga + 4" "4 * n"] by (simp add: add.assoc)
  then show ?case
    using copy_word_in [OF assms(1), of ga 4] Suc.IH [of "ga + 4"] Suc.prems a by (auto split: prod.split)
qed simp

lemma guest_to_host_bytes:
  assumes "shows_bytes f b" "unat ga + n \<le> 2 ^ 32"
  shows "snd (cen64_guest_to_host B b ga n) = map f [unat ga..<unat ga + n]"
proof -
  have r: "n mod 4 + 4 * (n div 4) = n" by simp
  have a: "unat (ga + of_nat (n mod 4)) = unat ga + n mod 4"
    using assms(2) mod_less_eq_dividend [of n 4] by (simp add: unat_word_ariths unat_of_nat)
  have "map f [unat ga..<unat ga + n] = map f [unat ga..<unat ga + n mod 4] @ map f [unat ga + n mod 4..<unat ga + n mod 4 + 4 * (n div 4)]"
    using upt_add_eq_append [of "unat ga" "unat ga + n mod 4" "4 * (n div 4)"] r by (simp add: add.assoc)
  moreover have "snd (words_to_host B b (ga + of_nat (n mod 4)) (n div 4)) = map f [unat ga + n mod 4..<unat ga + n mod 4 + 4 * (n div 4)]"
    using words_in [OF assms(1), of "ga + of_nat (n mod 4)" "n div 4"] assms(2) a r by simp
  moreover have "snd (if n mod 4 \<noteq> 0 then copy_word_to_host B b ga (n mod 4) else (0, [])) = map f [unat ga..<unat ga + n mod 4]"
  proof (cases "n mod 4 = 0")
    case False
    then have "unat ga < 2 ^ 32" using assms(2) by (cases n) auto
    then show ?thesis using False copy_word_in [OF assms(1), of ga "n mod 4"] by (simp add: less_imp_le)
  qed simp
  ultimately show ?thesis unfolding cen64_guest_to_host_def Let_def by (auto split: prod.split)
qed

lemma copy_word_out:
  assumes "shows_bytes f b" "unat ga < 2 ^ 32" "length bs \<le> 4"
  shows "shows_bytes (overwrite (unat ga) bs f) (snd (copy_word_to_guest B ga bs b))"
proof -
  have a: "unat (ucast ga :: uint32) = unat ga" using assms(2) by (simp add: unsigned_ucast_eq take_bit_nat_eq_self)
  let ?v = "get_value_from_pointer big bs (length bs) :: uint32" and ?m = "swap_endian (bitmask (length bs * 8)) :: uint32"
  let ?w = "snd (bus_read_word B b (ucast ga))"
  have "?w = pack_array big (map (byte_at b) [unat ga..<unat ga + 4])"
    using read_word [of b "ucast ga"] assms(1) unfolding shows_bytes_def a by metis
  then have old: "unpack_array big ?w ! i = byte_at b (unat ga + i)" if "i < 4" for i
    using that by (simp add: unpack_pack_array)
  note law = write_word [of b "ucast ga" ?v ?m, unfolded a]
  have "byte_at (snd (bus_write_word B b (ucast ga) ?v ?m)) k = overwrite (unat ga) bs f k" if k: "k < extent" for k
  proof (cases "unat ga \<le> k \<and> k < unat ga + 4")
    case True
    then have lt: "k - unat ga < 4" by linarith
    have "byte_at (snd (bus_write_word B b (ucast ga) ?v ?m)) k = unpack_array big ((?v AND ?m) OR (?w AND NOT ?m)) ! (k - unat ga)"
      using law k assms(1) True by (simp add: shows_bytes_def)
    also have "\<dots> = (if k - unat ga < length bs then bs ! (k - unat ga) else unpack_array big ?w ! (k - unat ga))"
      by (rule copy_merges [OF assms(3) lt])
    finally have "byte_at (snd (bus_write_word B b (ucast ga) ?v ?m)) k = \<dots>" .
    then show ?thesis
      using True old [of "k - unat ga"] assms(1) k by (auto simp: overwrite_def shows_bytes_def)
  next
    case False
    then show ?thesis using law k assms(1,3) by (auto simp: overwrite_def shows_bytes_def)
  qed
  then show ?thesis using law assms(1) by (simp add: shows_bytes_def copy_word_to_guest_def Let_def)
qed

lemma words_out:
  assumes "shows_bytes f b" "unat ga + 4 * n \<le> 2 ^ 32" "length bs = 4 * n"
  shows "shows_bytes (overwrite (unat ga) bs f) (snd (words_to_guest B ga bs n b))"
  using assms
proof (induction n arbitrary: f b ga bs)
  case (Suc n)
  have a: "unat (ga + 4) = unat ga + 4" using Suc.prems(2) by (simp add: unat_word_ariths)
  have t: "length (take 4 bs) = 4" using Suc.prems(3) by simp
  have "shows_bytes (overwrite (unat ga) (take 4 bs) f) (snd (copy_word_to_guest B ga (take 4 bs) b))"
    using Suc.prems t by (intro copy_word_out) simp_all
  from Suc.IH [OF this, of "ga + 4" "drop 4 bs"] Suc.prems a
  have "shows_bytes (overwrite (unat ga + length (take 4 bs)) (drop 4 bs) (overwrite (unat ga) (take 4 bs) f))
      (snd (words_to_guest B (ga + 4) (drop 4 bs) n (snd (copy_word_to_guest B ga (take 4 bs) b))))"
    unfolding t by simp
  then show ?case
    using overwrite_append [of "unat ga" "take 4 bs" "drop 4 bs" f] by (simp add: split_def)
qed simp

lemma host_to_guest_bytes:
  assumes "shows_bytes f b" "unat ga + length bs \<le> 2 ^ 32"
  shows "shows_bytes (overwrite (unat ga) bs f) (snd (cen64_host_to_guest B ga bs b))"
proof -
  let ?r = "length bs mod 4"
  have r: "?r + 4 * (length bs div 4) = length bs" by simp
  have a: "unat (ga + of_nat ?r) = unat ga + ?r"
    using assms(2) mod_less_eq_dividend [of "length bs" 4] by (simp add: unat_word_ariths unat_of_nat)
  have t: "length (take ?r bs) = ?r" by simp
  let ?b = "snd (if ?r \<noteq> 0 then copy_word_to_guest B ga (take ?r bs) b else (0, b))"
  have "shows_bytes (overwrite (unat ga) (take ?r bs) f) ?b"
  proof (cases "?r = 0")
    case False
    then have "unat ga < 2 ^ 32" using assms(2) by (cases bs) auto
    then show ?thesis using False copy_word_out [OF assms(1), of ga "take ?r bs"] t by (simp add: less_imp_le)
  qed (use assms(1) in simp)
  moreover have "unat (ga + of_nat ?r) + 4 * (length bs div 4) \<le> 2 ^ 32" "length (drop ?r bs) = 4 * (length bs div 4)"
    unfolding a length_drop using r assms(2) by linarith+
  ultimately have "shows_bytes (overwrite (unat ga + length (take ?r bs)) (drop ?r bs) (overwrite (unat ga) (take ?r bs) f))
      (snd (words_to_guest B (ga + of_nat ?r) (drop ?r bs) (length bs div 4) ?b))"
    unfolding t a [symmetric] using words_out by blast
  then show ?thesis
    unfolding overwrite_append append_take_drop_id cen64_host_to_guest_def Let_def split_def snd_conv .
qed

end

section \<open>A bus with a memory behind it\<close>

text \<open>The bus of the tests. Its word functions cannot fail on a memory of all bytes that 32-bit addresses reach.\<close>

definition memory_bus :: "'m memory_ops \<Rightarrow> (nat \<Rightarrow> byte) \<Rightarrow> 'm bus_controller" where
  "memory_bus M junk =
     \<lparr>bus_read_word = \<lambda>m a. (4, read_mem M junk big m (ucast a)),
      bus_write_word = \<lambda>m a v dqm. (4, case masked_write M junk big v (ucast a) dqm m of Inl e \<Rightarrow> m | Inr m' \<Rightarrow> m')\<rparr>"

context func_memory
begin

lemma memory_word_bus:
  assumes "bus_bytes \<le> extent"
  shows "word_bus (memory_bus M junk) (\<lambda>m. ok m \<and> msize m = extent) byte_at extent"
proof (unfold_locales, goal_cases)
  case 1
  then show ?case by (rule assms)
next
  case (2 m a)
  have "unat a < 2 ^ 32" "unat (ucast a :: Addr) = unat a" using unat_less [of a] by (simp_all add: unat_ucast_up)
  then show ?case
    using 2 assms read_mem_eq [of m "ucast a" junk big, where 'a = 32] by (simp add: memory_bus_def bus_bytes_def)
next
  case (3 m a v dqm)
  have a: "unat (ucast a :: Addr) = unat a" by (simp add: unat_ucast_up)
  have fits: "unat (ucast a :: Addr) + LENGTH(32) div 8 \<le> msize m"
    using 3 assms unat_less [of a] a by (simp add: bus_bytes_def)
  let ?x = "(v AND dqm) OR (read_mem M junk big m (ucast a) AND NOT dqm)"
  obtain m' where m': "host_to_guest M m (ucast a) (unpack_array big ?x) = Inr m'" "ok m'" "msize m' = msize m"
    "\<forall>k < msize m. byte_at m' k = (if unat a \<le> k \<and> k < unat a + 4 then unpack_array big ?x ! (k - unat a) else byte_at m k)"
    using write_bytes [of m "ucast a" "unpack_array big ?x"] 3 fits a by auto
  then show ?case using 3 by (simp add: memory_bus_def masked_write_def write_mem_def)
qed

end

interpretation hier_bus: word_bus "memory_bus hier_ops junk" "\<lambda>h. wf_hier h \<and> hier_size h = 2 ^ 36"
    "\<lambda>h k. check_and_read_byte h (of_nat k)" "2 ^ 36" for junk
  by (rule hier.memory_word_bus) (simp add: bus_bytes_def)

text \<open>C37: Over a bus with the default memory behind it, copies to and from the memory of cen64 do what copies to
  and from that memory do, at every 32-bit address, of every length and alignment, odd bytes included.\<close>
theorem cen64_copies:
  assumes "wf_hier h" "hier_size h = 2 ^ 36" "unat a + length bs \<le> 2 ^ 32"
  shows "\<exists>h'. hier_host_to_guest h a bs = Inr h'
    \<and> flatten (snd (cen64_host_to_guest (memory_bus hier_ops junk) a bs h)) = flatten h'
    \<and> snd (cen64_guest_to_host (memory_bus hier_ops junk) h a (length bs)) = hier_guest_to_host h a (length bs)"
proof -
  let ?byte = "\<lambda>h k. check_and_read_byte h (of_nat k)"
  have s: "hier_bus.shows_bytes (?byte h) h" using assms(1,2) unfolding hier_bus.shows_bytes_def by simp
  have fits: "unat a + length bs \<le> hier_size h" using assms(2,3) by simp
  obtain h' where h': "host_to_guest hier_ops h a bs = Inr h'"
    "holds wf_hier ?byte hier_size (hier_size h) (overwrite (unat a) bs (?byte h)) h'"
    by (rule hier.copy_holds [OF hier.holds_self [OF assms(1)] fits])
  let ?g = "snd (cen64_host_to_guest (memory_bus hier_ops junk) a bs h)"
  have "hier_bus.shows_bytes (overwrite (unat a) bs (?byte h)) ?g"
    by (rule hier_bus.host_to_guest_bytes [OF s assms(3)])
  then have "hier_size ?g = 2 ^ 36" "\<forall>k < 2 ^ 36. ?byte ?g k = ?byte h' k" "hier_size h' = 2 ^ 36"
    using h'(2) assms(2) unfolding hier_bus.shows_bytes_def holds_def by simp_all
  then have "flatten ?g = flatten h'" by (simp add: flatten_def)
  moreover have "snd (cen64_guest_to_host (memory_bus hier_ops junk) h a (length bs)) = hier_guest_to_host h a (length bs)"
    using hier_bus.guest_to_host_bytes [OF s assms(3)] hier.read_bytes [OF assms(1) fits] by (simp add: hier_ops_def)
  ultimately show ?thesis using h'(1) by (simp add: hier_ops_def)
qed

lemma cen64_copies_witness:
  "\<exists>h h'. new_hier 36 10 12 = Inr h \<and> hier_host_to_guest h 0x11 [1, 2, 3, 4, 5] = Inr h'
    \<and> flatten (snd (cen64_host_to_guest (memory_bus hier_ops (\<lambda>k. 0)) 0x11 [1, 2, 3, 4, 5] h)) = flatten h'"
proof -
  obtain h where h: "new_hier 36 10 12 = Inr h" by (simp add: new_hier_def)
  have "wf_hier h" "hier_size h = 2 ^ 36" using new_hier_facts(5,6) [OF h] by (simp_all add: hier_size_def)
  then show ?thesis
    using cen64_copies [of h "0x11" "[1, 2, 3, 4, 5]" "\<lambda>k. 0"] h by auto
qed

end
