(* ===== verification/Cen64.thy ===== *)
theory Cen64
  imports Replicated_Kernel Cen64_Memory
begin

text \<open>
  The processor of the cen64 emulator, export/cen64/cen64_wrapper.h and cen64_wrapper.cpp, with the functions that
  the emulator calls, cen64_intf.cpp: the performance simulator of a big-endian MIPS64 and four registers of the
  MIPS interface of the console, which collects interrupts and drives a bit of the cause register with them.
\<close>

section \<open>The processor\<close>

definition MI_INTR_SP :: uint32 where "MI_INTR_SP = 0x01"
definition MI_INTR_SI :: uint32 where "MI_INTR_SI = 0x02"
definition MI_INTR_AI :: uint32 where "MI_INTR_AI = 0x04"
definition MI_INTR_VI :: uint32 where "MI_INTR_VI = 0x08"
definition MI_INTR_PI :: uint32 where "MI_INTR_PI = 0x10"
definition MI_INTR_DP :: uint32 where "MI_INTR_DP = 0x20"

lemmas mi_interrupts = MI_INTR_SP_def MI_INTR_SI_def MI_INTR_AI_def MI_INTR_VI_def MI_INTR_PI_def MI_INTR_DP_def

definition MI_INIT_MODE_REG :: nat where "MI_INIT_MODE_REG = 0"
definition MI_VERSION_REG :: nat where "MI_VERSION_REG = 1"
definition MI_INTR_REG :: nat where "MI_INTR_REG = 2"
definition MI_INTR_MASK_REG :: nat where "MI_INTR_MASK_REG = 3"
definition NUM_MI_REGISTERS :: nat where "NUM_MI_REGISTERS = 4"

lemmas mi_numbers = MI_INIT_MODE_REG_def MI_VERSION_REG_def MI_INTR_REG_def MI_INTR_MASK_REG_def NUM_MI_REGISTERS_def

definition MI_REGS_BASE_ADDRESS :: uint64 where "MI_REGS_BASE_ADDRESS = 0x04300000"

record ('mem, 'k) vr4300 =
  vr_core :: "(64 word, 64 mips_instr, 'mem, 'k) perf_sim"
  mi_regs :: "uint32 list"

definition vr_cpu :: "(64 word, 64 mips_instr, 'mem, 'k) perf_sim cpu_model" where
  "vr_cpu = perf_cpu (mips_isa V_64)"

definition new_vr4300 :: "pipeline_config \<Rightarrow> 'mem \<Rightarrow> 'k \<Rightarrow> sim_error + ('mem, 'k) vr4300" where
  "new_vr4300 cfg m k =
     map_sum id (\<lambda>s. \<lparr>vr_core = s, mi_regs = replicate NUM_MI_REGISTERS 0\<rparr>) (new_perf_sim (mips_isa V_64) cfg big DriverMIPS32 m k)"

definition vr4300_init :: "'mem \<Rightarrow> ('mem, 'k) vr4300 \<Rightarrow> sim_error + ('mem, 'k) vr4300" where
  "vr4300_init m v =
     map_sum id (\<lambda>s. v\<lparr>vr_core := s, mi_regs := (mi_regs v)[MI_VERSION_REG := 0x01010101, MI_INIT_MODE_REG := 0x80]\<rparr>)
       (cpu_set_pc vr_cpu 0x1fc00000 ((vr_core v)\<lparr>perf_mem := m\<rparr>))"

definition cause_index :: nat where "cause_index = reg_num mips_cause"

definition read_cause_register :: "('mem, 'k) vr4300 \<Rightarrow> sim_error + uint64" where
  "read_cause_register v = read_cpu vr_cpu cause_index (vr_core v)"

definition write_cause_register :: "uint64 \<Rightarrow> ('mem, 'k) vr4300 \<Rightarrow> sim_error + ('mem, 'k) vr4300" where
  "write_cause_register x v = map_sum id (\<lambda>s. v\<lparr>vr_core := s\<rparr>) (write_cpu vr_cpu cause_index x (vr_core v))"

definition apply_mask_to_cause :: "uint64 \<Rightarrow> ('mem, 'k) vr4300 \<Rightarrow> sim_error + ('mem, 'k) vr4300" where
  "apply_mask_to_cause m v = bind_sim (read_cause_register v) (\<lambda>cause. write_cause_register (cause OR m) v)"

definition reset_mask_to_cause :: "uint64 \<Rightarrow> ('mem, 'k) vr4300 \<Rightarrow> sim_error + ('mem, 'k) vr4300" where
  "reset_mask_to_cause m v = bind_sim (read_cause_register v) (\<lambda>cause. write_cause_register (cause AND NOT m) v)"

definition check_for_interrupts :: "('mem, 'k) vr4300 \<Rightarrow> sim_error + ('mem, 'k) vr4300" where
  "check_for_interrupts v =
     (if mi_regs v ! MI_INTR_REG AND mi_regs v ! MI_INTR_MASK_REG \<noteq> 0
      then apply_mask_to_cause 0x400 v else reset_mask_to_cause 0x400 v)"

text \<open>\<open>mi_regs[r] &= ~m\<close> and \<open>mi_regs[r] |= m\<close>.\<close>

definition mi_clear :: "nat \<Rightarrow> uint32 \<Rightarrow> uint32 list \<Rightarrow> uint32 list" where
  "mi_clear r m regs = regs[r := regs ! r AND NOT m]"

definition mi_set :: "nat \<Rightarrow> uint32 \<Rightarrow> uint32 list \<Rightarrow> uint32 list" where
  "mi_set r m regs = regs[r := regs ! r OR m]"

definition clear_rcp_interrupt :: "uint32 \<Rightarrow> ('mem, 'k) vr4300 \<Rightarrow> sim_error + ('mem, 'k) vr4300" where
  "clear_rcp_interrupt m v = check_for_interrupts (v\<lparr>mi_regs := mi_clear MI_INTR_REG m (mi_regs v)\<rparr>)"

definition signal_rcp_interrupt :: "uint32 \<Rightarrow> ('mem, 'k) vr4300 \<Rightarrow> sim_error + ('mem, 'k) vr4300" where
  "signal_rcp_interrupt m v = check_for_interrupts (v\<lparr>mi_regs := mi_set MI_INTR_REG m (mi_regs v)\<rparr>)"

section \<open>The registers of the interface\<close>

definition write_mi_init_mode_reg :: "uint32 \<Rightarrow> ('mem, 'k) vr4300 \<Rightarrow> sim_error + ('mem, 'k) vr4300" where
  "write_mi_init_mode_reg w v =
     (let MI_EBUS_TEST_MODE = 0x80; MI_INIT_MODE = 0x100; MI_RDRAM_REG_MODE = 0x200;
          result = w AND 0x3FF;
          result = (if w AND 0x80 \<noteq> 0 then result AND NOT MI_INIT_MODE
                    else if w AND 0x100 \<noteq> 0 then result OR MI_INIT_MODE else result);
          result = (if w AND 0x200 \<noteq> 0 then result AND NOT MI_EBUS_TEST_MODE
                    else if w AND 0x400 \<noteq> 0 then result OR MI_EBUS_TEST_MODE else result)
      in bind_sim
           (if w AND 0x800 \<noteq> 0 then check_for_interrupts (v\<lparr>mi_regs := mi_clear MI_INTR_REG MI_INTR_DP (mi_regs v)\<rparr>) else Inr v) (\<lambda>v.
         let result = (if w AND 0x1000 \<noteq> 0 then result AND NOT MI_RDRAM_REG_MODE
                       else if w AND 0x2000 \<noteq> 0 then result OR MI_RDRAM_REG_MODE else result)
         in Inr (v\<lparr>mi_regs := (mi_regs v)[MI_INIT_MODE_REG := result]\<rparr>)))"

text \<open>Two bits of the word for every source: the lower masks it out, else the higher lets it through.\<close>

definition mask_pair :: "uint32 \<Rightarrow> uint32 \<Rightarrow> uint32 \<Rightarrow> uint32 \<Rightarrow> uint32 list \<Rightarrow> uint32 list" where
  "mask_pair w off_bit on_bit m regs =
     (if w AND off_bit \<noteq> 0 then mi_clear MI_INTR_MASK_REG m regs
      else if w AND on_bit \<noteq> 0 then mi_set MI_INTR_MASK_REG m regs else regs)"

definition write_mi_intr_mask_reg :: "uint32 \<Rightarrow> ('mem, 'k) vr4300 \<Rightarrow> sim_error + ('mem, 'k) vr4300" where
  "write_mi_intr_mask_reg w v =
     (let regs = mi_regs v;
          regs = mask_pair w 0x0001 0x0002 MI_INTR_SP regs;
          regs = mask_pair w 0x0004 0x0008 MI_INTR_SI regs;
          regs = mask_pair w 0x0010 0x0020 MI_INTR_AI regs;
          regs = mask_pair w 0x0040 0x0080 MI_INTR_VI regs;
          regs = mask_pair w 0x0100 0x0200 MI_INTR_PI regs;
          regs = mask_pair w 0x0400 0x0800 MI_INTR_DP regs
      in check_for_interrupts (v\<lparr>mi_regs := regs\<rparr>))"

definition mi_register :: "uint32 \<Rightarrow> nat" where
  "mi_register a = unat ((ucast a - MI_REGS_BASE_ADDRESS) div 4)"

definition read_mi_regs :: "uint32 \<Rightarrow> ('mem, 'k) vr4300 \<Rightarrow> sim_error + uint32" where
  "read_mi_regs a v =
     (if mi_register a < NUM_MI_REGISTERS then Inr (mi_regs v ! mi_register a) else Inl RegisterOutOfRange)"

definition write_mi_regs :: "uint32 \<Rightarrow> uint32 \<Rightarrow> uint32 \<Rightarrow> ('mem, 'k) vr4300 \<Rightarrow> sim_error + ('mem, 'k) vr4300" where
  "write_mi_regs a w dqm v =
     (let r = mi_register a
      in if r = MI_INIT_MODE_REG then write_mi_init_mode_reg w v
         else if r = MI_INTR_MASK_REG then write_mi_intr_mask_reg w v
         else if r < NUM_MI_REGISTERS then Inr (v\<lparr>mi_regs := (mi_regs v)[r := (mi_regs v ! r AND NOT dqm) OR w]\<rparr>)
         else Inl RegisterOutOfRange)"

text \<open>The functions that the emulator calls. Its clock interrupt has a bit of the cause register of its own.\<close>

definition vr4300_cycle where
  "vr4300_cycle M junk causes exec v =
     map_sum id (\<lambda>s. v\<lparr>vr_core := s\<rparr>) (clock (mips_isa V_64) M junk causes exec (vr_core v))"

definition vr4300_get_register :: "('mem, 'k) vr4300 \<Rightarrow> nat \<Rightarrow> sim_error + uint64" where
  "vr4300_get_register v i = read_cpu vr_cpu (i mod 256) (vr_core v)"

definition vr4300_get_pc :: "('mem, 'k) vr4300 \<Rightarrow> uint64" where
  "vr4300_get_pc v = get_pc_of vr_cpu (vr_core v)"

definition clear_dd_interrupt :: "('mem, 'k) vr4300 \<Rightarrow> sim_error + ('mem, 'k) vr4300" where
  "clear_dd_interrupt v = reset_mask_to_cause 0x800 v"

definition signal_dd_interrupt :: "('mem, 'k) vr4300 \<Rightarrow> sim_error + ('mem, 'k) vr4300" where
  "signal_dd_interrupt v = apply_mask_to_cause 0x800 v"

section \<open>The line to the processor\<close>

text \<open>What is kept: the bit is set exactly when an interrupt is pending that is not masked out.\<close>

definition vr_cause :: "('mem, 'k) vr4300 \<Rightarrow> 64 word" where
  "vr_cause v = perf_rf (vr_core v) ! cause_index"

definition vr_ok :: "('mem, 'k) vr4300 \<Rightarrow> bool" where
  "vr_ok v \<longleftrightarrow> wf_rf mips_class (perf_rf (vr_core v)) \<and> length (mi_regs v) = NUM_MI_REGISTERS
     \<and> (bit (vr_cause v) 10 \<longleftrightarrow> mi_regs v ! MI_INTR_REG AND mi_regs v ! MI_INTR_MASK_REG \<noteq> 0)"

lemma cause_access:
  assumes "wf_rf mips_class (perf_rf (vr_core v))"
  shows "read_cause_register v = Inr (vr_cause v)"
    "write_cause_register x v = Inr (v\<lparr>vr_core := (vr_core v)\<lparr>perf_rf := (perf_rf (vr_core v))[cause_index := x]\<rparr>\<rparr>)"
    "wf_rf mips_class ((perf_rf (vr_core v))[cause_index := x])" "cause_index < length (perf_rf (vr_core v))"
proof -
  have c: "cause_index = 47" "from_cpu_index 47 = MIPSRegister 47"
    by (simp_all add: cause_index_def mips_registers mips_reg_nums)
  have len: "length (perf_rf (vr_core v)) = 98" using assms by (simp add: wf_rf_def mips_class_def MAX_REG_def)
  then show "cause_index < length (perf_rf (vr_core v))" by (simp add: c)
  show "read_cause_register v = Inr (vr_cause v)"
    using len
    by (simp add: read_cause_register_def vr_cpu_def perf_cpu_def perf_read_register_def mips_isa_def c rf_read_def get_value_def
        mips_class_def or_error_def vr_cause_def)
  show "write_cause_register x v = Inr (v\<lparr>vr_core := (vr_core v)\<lparr>perf_rf := (perf_rf (vr_core v))[cause_index := x]\<rparr>\<rparr>)"
    using len
    by (simp add: write_cause_register_def vr_cpu_def perf_cpu_def perf_write_register_def mips_isa_def c rf_write_def set_value_def
        mips_class_def mips_is_zero_def MIPS_REG_zero_def or_error_def)
  show "wf_rf mips_class ((perf_rf (vr_core v))[cause_index := x])"
    using assms by (simp add: wf_rf_def c)
qed

text \<open>A state with another cause register and other interface registers.\<close>

definition vr_with :: "uint32 list \<Rightarrow> uint64 \<Rightarrow> ('mem, 'k) vr4300 \<Rightarrow> ('mem, 'k) vr4300" where
  "vr_with regs cause v =
     v\<lparr>vr_core := (vr_core v)\<lparr>perf_rf := (perf_rf (vr_core v))[cause_index := cause]\<rparr>, mi_regs := regs\<rparr>"

lemma vr_with_simps:
  assumes "wf_rf mips_class (perf_rf (vr_core v))"
  shows "vr_cause (vr_with regs x v) = x" "mi_regs (vr_with regs x v) = regs"
    "wf_rf mips_class (perf_rf (vr_core (vr_with regs x v)))"
    "apply_mask_to_cause m (vr_with regs x v) = Inr (vr_with regs (x OR m) v)"
    "reset_mask_to_cause m (vr_with regs x v) = Inr (vr_with regs (x AND NOT m) v)"
    "vr_with (mi_regs v) (vr_cause v) v = v"
    "(vr_with regs x v)\<lparr>mi_regs := regs'\<rparr> = vr_with regs' x v"
proof -
  have w: "wf_rf mips_class (perf_rf (vr_core (vr_with regs x v)))"
    using cause_access(3) [OF assms] by (simp add: vr_with_def)
  then show "wf_rf mips_class (perf_rf (vr_core (vr_with regs x v)))" .
  have c: "vr_cause (vr_with regs x v) = x" for x
    using cause_access(4) [OF assms] by (simp add: vr_cause_def vr_with_def)
  show "vr_cause (vr_with regs x v) = x" "mi_regs (vr_with regs x v) = regs"
    "(vr_with regs x v)\<lparr>mi_regs := regs'\<rparr> = vr_with regs' x v"
    by (simp_all add: c) (simp_all add: vr_with_def)
  show "vr_with (mi_regs v) (vr_cause v) v = v" by (simp add: vr_with_def vr_cause_def)
  show "apply_mask_to_cause m (vr_with regs x v) = Inr (vr_with regs (x OR m) v)"
    "reset_mask_to_cause m (vr_with regs x v) = Inr (vr_with regs (x AND NOT m) v)"
    using cause_access(1,2) [OF w] by (simp_all add: apply_mask_to_cause_def reset_mask_to_cause_def c) (simp_all add: vr_with_def)
qed

definition drive_line :: "uint32 list \<Rightarrow> uint64 \<Rightarrow> uint64" where
  "drive_line regs cause =
     (if regs ! MI_INTR_REG AND regs ! MI_INTR_MASK_REG \<noteq> 0 then cause OR 0x400 else cause AND NOT 0x400)"

lemma check_drives:
  assumes "wf_rf mips_class (perf_rf (vr_core v))"
  shows "check_for_interrupts (vr_with regs x v) = Inr (vr_with regs (drive_line regs x) v)"
  using vr_with_simps [OF assms] by (simp add: check_for_interrupts_def drive_line_def)

lemma bit_drive_line:
  "bit (drive_line regs x) i = (if i = 10 then regs ! MI_INTR_REG AND regs ! MI_INTR_MASK_REG \<noteq> 0 else bit x i)"
proof -
  have "bit (0x400 :: uint64) i = (i = 10)"
    using bit_exp_iff [of 10 i, where 'a = uint64] by auto
  then show ?thesis by (auto simp: drive_line_def bit_simps dest: bit_imp_le_length)
qed

section \<open>Interrupts as sets\<close>

text \<open>A specification of the interface: the sources that are pending, those that are let through and the clock.\<close>

datatype mi_operation =
    Signal_rcp uint32 | Clear_rcp uint32 | Write_mode uint32 | Write_mask uint32 | Signal_dd | Clear_dd

fun mi_execute :: "mi_operation \<Rightarrow> ('mem, 'k) vr4300 \<Rightarrow> sim_error + ('mem, 'k) vr4300" where
  "mi_execute (Signal_rcp m) v = signal_rcp_interrupt m v"
| "mi_execute (Clear_rcp m) v = clear_rcp_interrupt m v"
| "mi_execute (Write_mode w) v = write_mi_regs 0x04300000 w 0 v"
| "mi_execute (Write_mask w) v = write_mi_regs 0x0430000C w 0 v"
| "mi_execute Signal_dd v = signal_dd_interrupt v"
| "mi_execute Clear_dd v = clear_dd_interrupt v"

fun mi_executes :: "mi_operation list \<Rightarrow> ('mem, 'k) vr4300 \<Rightarrow> sim_error + ('mem, 'k) vr4300" where
  "mi_executes [] v = Inr v"
| "mi_executes (x # xs) v = bind_sim (mi_execute x v) (mi_executes xs)"

type_synonym mi_lines = "nat set \<times> nat set \<times> bool"

definition mi_sources :: nat where "mi_sources = 6"

fun mi_spec :: "mi_operation \<Rightarrow> mi_lines \<Rightarrow> mi_lines" where
  "mi_spec (Signal_rcp m) (P, E, d) = (P \<union> {i. bit m i}, E, d)"
| "mi_spec (Clear_rcp m) (P, E, d) = (P - {i. bit m i}, E, d)"
| "mi_spec (Write_mode w) (P, E, d) = (if bit w 11 then P - {5} else P, E, d)"
| "mi_spec (Write_mask w) (P, E, d) =
     (P, {i. if i < mi_sources then \<not> bit w (2 * i) \<and> (bit w (2 * i + 1) \<or> i \<in> E) else i \<in> E}, d)"
| "mi_spec Signal_dd (P, E, d) = (P, E, True)"
| "mi_spec Clear_dd (P, E, d) = (P, E, False)"

definition mi_abs :: "('mem, 'k) vr4300 \<Rightarrow> mi_lines" where
  "mi_abs v = ({i. bit (mi_regs v ! MI_INTR_REG) i}, {i. bit (mi_regs v ! MI_INTR_MASK_REG) i}, bit (vr_cause v) 11)"

lemma and_pow: "w AND 2 ^ k \<noteq> 0 \<longleftrightarrow> bit (w :: uint32) k"
  by (simp add: and_exp_eq_0_iff_not_bit)

lemma nonzero_bit: "x AND y \<noteq> (0 :: uint32) \<longleftrightarrow> {i. bit x i} \<inter> {i. bit y i} \<noteq> {}"
  by (auto simp: bit_eq_iff bit_simps) (use bit_imp_le_length [of x] in force)

definition mask_source :: "uint32 \<Rightarrow> nat \<Rightarrow> uint32 \<Rightarrow> uint32" where
  "mask_source w k x = (if bit w (2 * k) then x AND NOT (2 ^ k) else if bit w (2 * k + 1) then x OR 2 ^ k else x)"

lemma bit_mask_source:
  assumes "k < 32"
  shows "bit (mask_source w k x) i = (if i = k then \<not> bit w (2 * k) \<and> (bit w (2 * k + 1) \<or> bit x k) else bit x i)"
proof -
  have "bit (2 ^ k :: uint32) i = (i = k)" using assms by (auto simp: bit_exp_iff)
  then show ?thesis using assms by (auto simp: mask_source_def bit_or_iff bit_and_iff bit_not_iff dest: bit_imp_le_length)
qed

lemma mask_pair_source:
  assumes "length regs = NUM_MI_REGISTERS"
  shows "mask_pair w (2 ^ (2 * k)) (2 ^ (2 * k + 1)) (2 ^ k) regs = regs[MI_INTR_MASK_REG := mask_source w k (regs ! MI_INTR_MASK_REG)]"
  by (simp add: mask_pair_def mask_source_def and_pow mi_clear_def mi_set_def del: power_Suc mult_Suc_right)

lemma bit_mask_sources:
  assumes "n \<le> 16"
  shows "bit (foldl (\<lambda>x k. mask_source w k x) x [0..<n]) i
    = (if i < n then \<not> bit w (2 * i) \<and> (bit w (2 * i + 1) \<or> bit x i) else bit x i)"
  using assms
proof (induction n arbitrary: i)
  case (Suc n)
  then show ?case by (auto simp: bit_mask_source less_Suc_eq)
qed simp

lemma mask_pairs:
  assumes "length regs = NUM_MI_REGISTERS"
  shows "mask_pair w 0x0400 0x0800 MI_INTR_DP (mask_pair w 0x0100 0x0200 MI_INTR_PI (mask_pair w 0x0040 0x0080 MI_INTR_VI
      (mask_pair w 0x0010 0x0020 MI_INTR_AI (mask_pair w 0x0004 0x0008 MI_INTR_SI (mask_pair w 0x0001 0x0002 MI_INTR_SP regs)))))
      = regs[MI_INTR_MASK_REG := foldl (\<lambda>x k. mask_source w k x) (regs ! MI_INTR_MASK_REG) [0..<mi_sources]]"
proof -
  have m: "MI_INTR_MASK_REG < length regs" using assms by (simp add: mi_numbers)
  have p: "mask_pair w 1 2 MI_INTR_SP regs = regs[MI_INTR_MASK_REG := mask_source w 0 (regs ! MI_INTR_MASK_REG)]"
    "mask_pair w 4 8 MI_INTR_SI regs = regs[MI_INTR_MASK_REG := mask_source w 1 (regs ! MI_INTR_MASK_REG)]"
    "mask_pair w 0x10 0x20 MI_INTR_AI regs = regs[MI_INTR_MASK_REG := mask_source w 2 (regs ! MI_INTR_MASK_REG)]"
    "mask_pair w 0x40 0x80 MI_INTR_VI regs = regs[MI_INTR_MASK_REG := mask_source w 3 (regs ! MI_INTR_MASK_REG)]"
    "mask_pair w 0x100 0x200 MI_INTR_PI regs = regs[MI_INTR_MASK_REG := mask_source w 4 (regs ! MI_INTR_MASK_REG)]"
    "mask_pair w 0x400 0x800 MI_INTR_DP regs = regs[MI_INTR_MASK_REG := mask_source w 5 (regs ! MI_INTR_MASK_REG)]"
    if "length regs = NUM_MI_REGISTERS" for regs
    using mask_pair_source [OF that, of w 0] mask_pair_source [OF that, of w 1] mask_pair_source [OF that, of w 2]
      mask_pair_source [OF that, of w 3] mask_pair_source [OF that, of w 4] mask_pair_source [OF that, of w 5]
    by (simp_all add: mi_interrupts)
  show ?thesis using assms m by (simp add: p mi_sources_def upt_conv_Cons eval_nat_numeral)
qed

text \<open>An operation does to the lines what it should, keeps the bit of the interface right, and leaves the rest of the
  cause register alone.\<close>

definition mi_done :: "('mem, 'k) vr4300 \<Rightarrow> mi_lines \<Rightarrow> ('mem, 'k) vr4300 \<Rightarrow> bool" where
  "mi_done v lines v' \<longleftrightarrow> vr_ok v' \<and> mi_abs v' = lines \<and> (\<forall>i. i \<noteq> 10 \<and> i \<noteq> 11 \<longrightarrow> bit (vr_cause v') i = bit (vr_cause v) i)
     \<and> vr_with [] 0 v' = vr_with [] 0 v"

lemma with_done:
  assumes "vr_ok v" "length regs = NUM_MI_REGISTERS" "\<forall>i. i \<noteq> 10 \<and> i \<noteq> 11 \<longrightarrow> bit x i = bit (vr_cause v) i"
    and "bit x 10 \<longleftrightarrow> regs ! MI_INTR_REG AND regs ! MI_INTR_MASK_REG \<noteq> 0"
    and "({i. bit (regs ! MI_INTR_REG) i}, {i. bit (regs ! MI_INTR_MASK_REG) i}, bit x 11) = lines"
  shows "mi_done v lines (vr_with regs x v)"
proof -
  have w: "wf_rf mips_class (perf_rf (vr_core v))" using assms(1) by (simp add: vr_ok_def)
  have "vr_with [] 0 (vr_with regs x v) = vr_with [] 0 v" by (simp add: vr_with_def)
  then show ?thesis
    using assms(2-5) vr_with_simps(1-3) [OF w] by (simp add: mi_done_def vr_ok_def mi_abs_def)
qed

lemma bit_dd: "bit (x OR 0x800 :: uint64) i = (i = 11 \<or> bit x i)" "bit (x AND NOT 0x800 :: uint64) i = (i \<noteq> 11 \<and> bit x i)"
  "bit (x AND - 2049 :: uint64) i = (i \<noteq> 11 \<and> bit x i)"
proof -
  have "bit (0x800 :: uint64) i = (i = 11)" using bit_exp_iff [of 11 i, where 'a = uint64] by auto
  then show "bit (x OR 0x800) i = (i = 11 \<or> bit x i)" and c: "bit (x AND NOT 0x800) i = (i \<noteq> 11 \<and> bit x i)"
    by (auto simp: bit_simps dest: bit_imp_le_length)
  have "NOT 0x800 = (- 2049 :: uint64)" by simp
  then show "bit (x AND - 2049) i = (i \<noteq> 11 \<and> bit x i)" using c by metis
qed

lemma vr_facts:
  assumes "vr_ok v"
  shows "wf_rf mips_class (perf_rf (vr_core v))" "length (mi_regs v) = NUM_MI_REGISTERS"
    "bit (vr_cause v) 10 \<longleftrightarrow> mi_regs v ! MI_INTR_REG AND mi_regs v ! MI_INTR_MASK_REG \<noteq> 0"
    "v = vr_with (mi_regs v) (vr_cause v) v"
    "check_for_interrupts (v\<lparr>mi_regs := regs\<rparr>) = Inr (vr_with regs (drive_line regs (vr_cause v)) v)"
    "length regs = NUM_MI_REGISTERS \<Longrightarrow> mi_done v ({i. bit (regs ! MI_INTR_REG) i}, {i. bit (regs ! MI_INTR_MASK_REG) i}, bit (vr_cause v) 11)
      (vr_with regs (drive_line regs (vr_cause v)) v)"
proof -
  show w: "wf_rf mips_class (perf_rf (vr_core v))" "length (mi_regs v) = NUM_MI_REGISTERS"
    "bit (vr_cause v) 10 \<longleftrightarrow> mi_regs v ! MI_INTR_REG AND mi_regs v ! MI_INTR_MASK_REG \<noteq> 0"
    using assms by (simp_all add: vr_ok_def)
  show self: "v = vr_with (mi_regs v) (vr_cause v) v" using vr_with_simps(6) [OF w(1)] by simp
  show "check_for_interrupts (v\<lparr>mi_regs := regs\<rparr>) = Inr (vr_with regs (drive_line regs (vr_cause v)) v)"
    using check_drives [OF w(1), of regs "vr_cause v"] vr_with_simps(7) [OF w(1)] self by metis
  show "mi_done v ({i. bit (regs ! MI_INTR_REG) i}, {i. bit (regs ! MI_INTR_MASK_REG) i}, bit (vr_cause v) 11)
      (vr_with regs (drive_line regs (vr_cause v)) v)" if "length regs = NUM_MI_REGISTERS"
    using that by (intro with_done [OF assms]) (simp_all add: bit_drive_line)
qed

lemma execute_signal:
  assumes "vr_ok v"
  shows "\<exists>v'. mi_execute (Signal_rcp m) v = Inr v' \<and> mi_done v (mi_spec (Signal_rcp m) (mi_abs v)) v'"
proof -
  note f = vr_facts [OF assms]
  show ?thesis
    using f(6) [of "mi_set MI_INTR_REG m (mi_regs v)"] f(2)
    by (simp add: signal_rcp_interrupt_def f(5) mi_abs_def mi_set_def mi_numbers bit_or_iff Un_def)
qed

lemma execute_clear:
  assumes "vr_ok v"
  shows "\<exists>v'. mi_execute (Clear_rcp m) v = Inr v' \<and> mi_done v (mi_spec (Clear_rcp m) (mi_abs v)) v'"
proof -
  note f = vr_facts [OF assms]
  have "{i. bit (mi_regs v ! MI_INTR_REG AND NOT m) i} = {i. bit (mi_regs v ! MI_INTR_REG) i} - {i. bit m i}"
    by (auto simp: bit_simps dest: bit_imp_le_length)
  then show ?thesis
    using f(6) [of "mi_clear MI_INTR_REG m (mi_regs v)"] f(2)
    by (simp add: clear_rcp_interrupt_def f(5) mi_abs_def mi_clear_def mi_numbers)
qed

lemma init_mode_value:
  "\<exists>z. write_mi_init_mode_reg w v = bind_sim
     (if w AND 0x800 \<noteq> 0 then check_for_interrupts (v\<lparr>mi_regs := mi_clear MI_INTR_REG MI_INTR_DP (mi_regs v)\<rparr>) else Inr v)
     (\<lambda>v. Inr (v\<lparr>mi_regs := (mi_regs v)[MI_INIT_MODE_REG := z]\<rparr>))"
  unfolding write_mi_init_mode_reg_def Let_def by (rule exI) (rule refl)

lemma mode_reg_done:
  assumes "vr_ok v" "mi_done v lines (vr_with regs x v)" "length regs = NUM_MI_REGISTERS"
  shows "mi_done v lines (vr_with (regs[MI_INIT_MODE_REG := z]) x v)"
proof -
  note w = vr_with_simps(1-3) [OF vr_facts(1) [OF assms(1)]]
  have "regs[MI_INIT_MODE_REG := z] ! MI_INTR_REG = regs ! MI_INTR_REG"
    "regs[MI_INIT_MODE_REG := z] ! MI_INTR_MASK_REG = regs ! MI_INTR_MASK_REG" by (simp_all add: mi_numbers)
  then show ?thesis
    using assms(2,3) by (intro with_done [OF assms(1)]) (simp_all add: mi_done_def vr_ok_def mi_abs_def w)
qed

lemma self_done:
  assumes "vr_ok v"
  shows "mi_done v (mi_abs v) (vr_with (mi_regs v) (vr_cause v) v)"
  unfolding vr_facts(4) [OF assms, symmetric] using assms by (simp add: mi_done_def)

lemma clear_dp: "{i. bit (x AND NOT MI_INTR_DP) i} = {i. bit x i} - {5}"
proof -
  have "bit (2 ^ 5 :: uint32) i = (i = 5)" for i unfolding bit_exp_iff by auto
  moreover have "MI_INTR_DP = 2 ^ 5" by (simp add: MI_INTR_DP_def)
  ultimately have "bit MI_INTR_DP i = (i = 5)" for i by metis
  then have "bit (x AND NOT MI_INTR_DP) i = (bit x i \<and> i \<noteq> 5)" for i
    using bit_imp_le_length [of x i] by (auto simp: bit_and_iff bit_not_iff)
  then show ?thesis by blast
qed

lemma execute_mode:
  assumes "vr_ok v"
  shows "\<exists>v'. mi_execute (Write_mode u) v = Inr v' \<and> mi_done v (mi_spec (Write_mode u) (mi_abs v)) v'"
proof -
  note f = vr_facts [OF assms]
  let ?regs = "mi_clear MI_INTR_REG MI_INTR_DP (mi_regs v)"
  have u: "u AND 0x800 \<noteq> 0 \<longleftrightarrow> bit u 11" using and_pow [of u 11] by simp
  have "mi_register 0x04300000 = MI_INIT_MODE_REG" by (simp add: mi_register_def MI_REGS_BASE_ADDRESS_def mi_numbers)
  then obtain z where z: "mi_execute (Write_mode u) v = bind_sim
      (if bit u 11 then check_for_interrupts (v\<lparr>mi_regs := ?regs\<rparr>) else Inr v) (\<lambda>v. Inr (v\<lparr>mi_regs := (mi_regs v)[MI_INIT_MODE_REG := z]\<rparr>))"
    using init_mode_value [of u v] unfolding u by (auto simp: write_mi_regs_def)
  show ?thesis
  proof (cases "bit u 11")
    case True
    have len: "length ?regs = NUM_MI_REGISTERS" using f(2) by (simp add: mi_clear_def)
    have "mi_spec (Write_mode u) (mi_abs v) = ({i. bit (?regs ! MI_INTR_REG) i}, {i. bit (?regs ! MI_INTR_MASK_REG) i}, bit (vr_cause v) 11)"
      using True f(2) clear_dp [of "mi_regs v ! MI_INTR_REG"] by (simp add: mi_abs_def mi_clear_def mi_numbers)
    then have "mi_done v (mi_spec (Write_mode u) (mi_abs v)) (vr_with (?regs[MI_INIT_MODE_REG := z]) (drive_line ?regs (vr_cause v)) v)"
      using mode_reg_done [OF assms f(6) [OF len] len] by simp
    then show ?thesis using True z f(5) by (simp add: vr_with_simps(2,7) [OF f(1)])
  next
    case False
    then have "mi_spec (Write_mode u) (mi_abs v) = mi_abs v" by (simp add: mi_abs_def)
    then have "mi_done v (mi_spec (Write_mode u) (mi_abs v)) (vr_with ((mi_regs v)[MI_INIT_MODE_REG := z]) (vr_cause v) v)"
      using mode_reg_done [OF assms self_done [OF assms] f(2)] by simp
    moreover have "v\<lparr>mi_regs := (mi_regs v)[MI_INIT_MODE_REG := z]\<rparr> = vr_with ((mi_regs v)[MI_INIT_MODE_REG := z]) (vr_cause v) v"
      using f(4) vr_with_simps(7) [OF f(1)] by metis
    ultimately show ?thesis using False z by simp
  qed
qed

lemma execute_mask:
  assumes "vr_ok v"
  shows "\<exists>v'. mi_execute (Write_mask u) v = Inr v' \<and> mi_done v (mi_spec (Write_mask u) (mi_abs v)) v'"
proof -
  note f = vr_facts [OF assms]
  let ?e = "foldl (\<lambda>x k. mask_source u k x) (mi_regs v ! MI_INTR_MASK_REG) [0..<mi_sources]"
  have "mi_register 0x0430000C = MI_INTR_MASK_REG" by (simp add: mi_register_def MI_REGS_BASE_ADDRESS_def mi_numbers)
  then have "write_mi_regs 0x0430000C u 0 v = check_for_interrupts (v\<lparr>mi_regs := (mi_regs v)[MI_INTR_MASK_REG := ?e]\<rparr>)"
    using mask_pairs [OF f(2), of u] by (simp add: write_mi_regs_def write_mi_intr_mask_reg_def Let_def mi_numbers)
  moreover have "bit ?e i = (if i < mi_sources then \<not> bit u (2 * i) \<and> (bit u (2 * i + 1) \<or> bit (mi_regs v ! MI_INTR_MASK_REG) i)
      else bit (mi_regs v ! MI_INTR_MASK_REG) i)" for i
    by (rule bit_mask_sources) (simp add: mi_sources_def)
  then have "mi_spec (Write_mask u) (mi_abs v) = ({i. bit (mi_regs v ! MI_INTR_REG) i}, {i. bit ?e i}, bit (vr_cause v) 11)"
    by (simp only: mi_abs_def mi_spec.simps mem_Collect_eq)
  moreover have "(mi_regs v)[MI_INTR_MASK_REG := ?e] ! MI_INTR_MASK_REG = ?e"
    "(mi_regs v)[MI_INTR_MASK_REG := ?e] ! MI_INTR_REG = mi_regs v ! MI_INTR_REG"
    using f(2) by (simp_all add: mi_numbers)
  ultimately show ?thesis
    using f(6) [of "(mi_regs v)[MI_INTR_MASK_REG := ?e]"] f(2) by (simp only: mi_execute.simps f(5) length_list_update) blast
qed

lemma execute_signal_dd:
  assumes "vr_ok v"
  shows "\<exists>v'. mi_execute (Signal_dd) v = Inr v' \<and> mi_done v (mi_spec (Signal_dd) (mi_abs v)) v'"
proof -
  note f = vr_facts [OF assms]
  have "signal_dd_interrupt v = Inr (vr_with (mi_regs v) (vr_cause v OR 0x800) v)"
    unfolding signal_dd_interrupt_def using vr_with_simps(4) [OF f(1)] f(4) by metis
  moreover have "mi_done v (mi_spec Signal_dd (mi_abs v)) (vr_with (mi_regs v) (vr_cause v OR 0x800) v)"
    using f(3) f(2) by (intro with_done [OF assms]) (auto simp: bit_dd mi_abs_def)
  ultimately show ?thesis by simp
qed

lemma execute_clear_dd:
  assumes "vr_ok v"
  shows "\<exists>v'. mi_execute (Clear_dd) v = Inr v' \<and> mi_done v (mi_spec (Clear_dd) (mi_abs v)) v'"
proof -
  note f = vr_facts [OF assms]
  have "clear_dd_interrupt v = Inr (vr_with (mi_regs v) (vr_cause v AND NOT 0x800) v)"
    unfolding clear_dd_interrupt_def using vr_with_simps(5) [OF f(1)] f(4) by metis
  moreover have "mi_done v (mi_spec Clear_dd (mi_abs v)) (vr_with (mi_regs v) (vr_cause v AND NOT 0x800) v)"
    using f(3) f(2) by (intro with_done [OF assms]) (auto simp: bit_dd mi_abs_def)
  ultimately show ?thesis by simp
qed

lemma mi_execute_done: "vr_ok v \<Longrightarrow> \<exists>v'. mi_execute x v = Inr v' \<and> mi_done v (mi_spec x (mi_abs v)) v'"
  by (cases x) (simp_all only: execute_signal execute_clear execute_mode execute_mask execute_signal_dd execute_clear_dd)

lemma done_trans:
  assumes "mi_done v l v1" "mi_done v1 l' v2"
  shows "mi_done v l' v2"
  using assms by (simp add: mi_done_def)

text \<open>C15: Whatever sequence of signals, acknowledgements, mode and mask writes the console sends, the MIPS interface does what
  its specification over sets of sources says, no call fails, the interrupt bit of the cause register is set
  exactly when a source is pending that is let through, the clock has its own bit, and the rest of the cause register is
  kept.\<close>
theorem cen64_interrupt_line:
  assumes "vr_ok v"
  shows "\<exists>v'. mi_executes xs v = Inr v' \<and> vr_ok v' \<and> mi_abs v' = fold mi_spec xs (mi_abs v)
    \<and> (bit (vr_cause v') 10 \<longleftrightarrow> fst (mi_abs v') \<inter> fst (snd (mi_abs v')) \<noteq> {})
    \<and> (\<forall>i. i \<noteq> 10 \<and> i \<noteq> 11 \<longrightarrow> bit (vr_cause v') i = bit (vr_cause v) i)"
proof -
  have "\<exists>v'. mi_executes xs v = Inr v' \<and> mi_done v (fold mi_spec xs (mi_abs v)) v'"
    using assms
  proof (induction xs arbitrary: v)
    case Nil
    then show ?case by (simp add: mi_done_def)
  next
    case (Cons x xs)
    obtain v1 where v1: "mi_execute x v = Inr v1" "mi_done v (mi_spec x (mi_abs v)) v1"
      using mi_execute_done [OF Cons.prems] by blast
    then have "vr_ok v1" "mi_abs v1 = mi_spec x (mi_abs v)" by (simp_all add: mi_done_def)
    then obtain v2 where "mi_executes xs v1 = Inr v2" "mi_done v1 (fold mi_spec xs (mi_spec x (mi_abs v))) v2"
      using Cons.IH [of v1] by auto
    then show ?case using v1 done_trans [OF v1(2)] by auto
  qed
  then show ?thesis by (auto simp: mi_done_def vr_ok_def mi_abs_def nonzero_bit)
qed

text \<open>A new processor satisfies the invariant.\<close>

lemma new_vr_ok:
  assumes "new_vr4300 cfg m k = Inr v"
  shows "vr_ok v"
proof -
  obtain s where s: "new_perf_sim (mips_isa V_64) cfg big DriverMIPS32 m k = Inr s" "v = \<lparr>vr_core = s, mi_regs = replicate NUM_MI_REGISTERS 0\<rparr>"
    using assms by (cases "new_perf_sim (mips_isa V_64) cfg big DriverMIPS32 m k :: sim_error + (64 word, 64 mips_instr, 'a, 'b) perf_sim")
      (auto simp: new_vr4300_def)
  then have "perf_rf s = new_rf mips_class"
    by (auto simp: new_perf_sim_def bind_Inr Let_def mips_isa_def)
  then show ?thesis
    using mips_rf.wf_new s(2)
    by (simp add: vr_ok_def vr_cause_def mi_numbers cause_index_def mips_registers mips_reg_nums new_rf_def mips_class_def)
qed

definition example_vr4300 :: "(hier, unit) vr4300" where
  "example_vr4300 = \<lparr>vr_core = example_pipeline\<lparr>perf_rf := new_rf mips_class\<rparr>, mi_regs = [0x80, 0x01010101, 0, 0]\<rparr>"

lemma example_vr_ok: "vr_ok example_vr4300"
  using mips_rf.wf_new
  by (simp add: vr_ok_def vr_cause_def example_vr4300_def mi_numbers cause_index_def mips_registers
      mips_reg_nums new_rf_def mips_class_def wf_rf_def)

lemma cen64_interrupt_line_witness:
  "\<exists>v'. mi_executes [Write_mask 0x82, Signal_rcp MI_INTR_VI, Signal_dd] example_vr4300 = Inr v'
    \<and> mi_abs v' = ({3}, {0, 3}, True) \<and> bit (vr_cause v') 10"
proof -
  have "bit MI_INTR_VI i = (i = 3)" for i
  proof -
    have "bit (2 ^ 3 :: uint32) i = (i = 3)" unfolding bit_exp_iff by auto
    moreover have "MI_INTR_VI = 2 ^ 3" by (simp add: MI_INTR_VI_def)
    ultimately show ?thesis by metis
  qed
  then have s: "{i. bit MI_INTR_VI i} = {3}" by auto
  have "mi_abs example_vr4300 = ({}, {}, False)"
    by (simp add: mi_abs_def vr_cause_def example_vr4300_def mi_numbers cause_index_def mips_registers
      mips_reg_nums new_rf_def mips_class_def)
  moreover have "{i. if i < mi_sources then \<not> bit (0x82 :: uint32) (2 * i) \<and> (bit (0x82 :: uint32) (2 * i + 1) \<or> i \<in> {}) else i \<in> {}} = {0, 3}"
  proof -
    have "\<forall>i \<in> set [0..<6]. (\<not> bit (0x82 :: uint32) (2 * i) \<and> bit (0x82 :: uint32) (2 * i + 1)) = (i = 0 \<or> i = 3)" by code_simp
    then have "(\<not> bit (0x82 :: uint32) (2 * i) \<and> bit (0x82 :: uint32) (2 * i + 1)) = (i = 0 \<or> i = 3)" if "i < 6" for i
      using that by (simp only: set_upt) auto
    then show ?thesis unfolding mi_sources_def by (intro set_eqI) (auto simp del: bit_numeral_word_iff)
  qed
  ultimately have "fold mi_spec [Write_mask 0x82, Signal_rcp MI_INTR_VI, Signal_dd] (mi_abs example_vr4300) = ({3}, {0, 3}, True)"
    by (simp add: s)
  with cen64_interrupt_line [OF example_vr_ok, of "[Write_mask 0x82, Signal_rcp MI_INTR_VI, Signal_dd]"] show ?thesis by auto
qed

text \<open>A write to the register of pending interrupts itself changes it, but not the line.\<close>

lemma pending_written:
  "\<exists>v. write_mi_regs 0x04300008 1 0 (example_vr4300\<lparr>mi_regs := [0x80, 0x01010101, 0, 1]\<rparr>) = Inr v
    \<and> fst (mi_abs v) \<inter> fst (snd (mi_abs v)) \<noteq> {} \<and> \<not> bit (vr_cause v) 10"
  by (simp add: write_mi_regs_def mi_register_def MI_REGS_BASE_ADDRESS_def mi_numbers mi_abs_def vr_cause_def example_vr4300_def
      cause_index_def mips_registers mips_reg_nums new_rf_def mips_class_def) (auto intro: exI [of _ 0])

end
