(* ===== verification/Module_Tree.thy ===== *)
theory Module_Tree
  imports Main
begin

text \<open>
  The tree of modules and its logs, infra/ports/module.h and module.cpp with the switch of infra/log.h: which modules
  write a log is said by a list of names, where a name turns a whole subtree on and a name after an exclamation mark
  turns it off. The list is split at its commas by a library, which is a parameter.
\<close>

section \<open>The tree\<close>

datatype simulator_module = Module (unit_name: string) (log_enabled: bool) (module_children: "simulator_module list")

definition new_module :: "string \<Rightarrow> simulator_module" where
  "new_module name = Module name False []"

fun add_child :: "simulator_module \<Rightarrow> simulator_module \<Rightarrow> simulator_module" where
  "add_child (Module name on cs) c = Module name on (cs @ [c])"

fun force_enable_logging :: "simulator_module \<Rightarrow> simulator_module" where
  "force_enable_logging (Module name on cs) = Module name True (map force_enable_logging cs)"

fun force_disable_logging :: "simulator_module \<Rightarrow> simulator_module" where
  "force_disable_logging (Module name on cs) = Module name False (map force_disable_logging cs)"

text \<open>The module first, with everything below it, and then every child by itself.\<close>

definition decide_module :: "string set \<Rightarrow> simulator_module \<Rightarrow> simulator_module" where
  "decide_module names m =
     (if unit_name m \<in> names then force_enable_logging m
      else if CHR ''!'' # unit_name m \<in> names then force_disable_logging m
      else m)"

lemma forced_size [simp]: "size (force_enable_logging m) = size m" "size (force_disable_logging m) = size m"
  by (induction m) (auto simp: size_list_conv_sum_list intro!: arg_cong [where f = sum_list])

lemma decided_size: "size (decide_module names m) = size m"
  by (simp add: decide_module_def)

function enable_logging_impl :: "string set \<Rightarrow> simulator_module \<Rightarrow> simulator_module" where
  "enable_logging_impl names m =
     (let m = decide_module names m
      in Module (unit_name m) (log_enabled m) (map (enable_logging_impl names) (module_children m)))"
  by auto

lemma child_size: "c \<in> set (module_children m) \<Longrightarrow> size c < size m"
  by (cases m) (auto dest!: size_list_estimation' [where f = size, OF _ order_refl])

termination enable_logging_impl
  by (relation "measure (\<lambda>(names, m). size m)") (auto dest: child_size simp: decided_size)

declare enable_logging_impl.simps [simp del]

definition enable_logging :: "(string \<Rightarrow> string list) \<Rightarrow> string \<Rightarrow> simulator_module \<Rightarrow> simulator_module" where
  "enable_logging split_commas values root = enable_logging_impl (set (split_commas values)) root"

section \<open>Which module logs\<close>

text \<open>A module by its path of positions from the root, and the names on the path, its own last.\<close>

fun module_at :: "nat list \<Rightarrow> simulator_module \<Rightarrow> simulator_module option" where
  "module_at [] m = Some m"
| "module_at (i # p) m = (if i < length (module_children m) then module_at p (module_children m ! i) else None)"

fun names_to :: "nat list \<Rightarrow> simulator_module \<Rightarrow> string list" where
  "names_to [] m = [unit_name m]"
| "names_to (i # p) m =
     unit_name m # (if i < length (module_children m) then names_to p (module_children m ! i) else [])"

text \<open>The last name on the path that the list mentions decides.\<close>

definition decision :: "string set \<Rightarrow> string \<Rightarrow> bool option" where
  "decision names n = (if n \<in> names then Some True else if CHR ''!'' # n \<in> names then Some False else None)"

fun last_decision :: "string set \<Rightarrow> string list \<Rightarrow> bool option" where
  "last_decision names [] = None"
| "last_decision names (n # ns) = (case last_decision names ns of None \<Rightarrow> decision names n | Some b \<Rightarrow> Some b)"

lemma forced_fields [simp]:
  "unit_name (force_enable_logging m) = unit_name m" "unit_name (force_disable_logging m) = unit_name m"
  "log_enabled (force_enable_logging m)" "\<not> log_enabled (force_disable_logging m)"
  "module_children (force_enable_logging m) = map force_enable_logging (module_children m)"
  "module_children (force_disable_logging m) = map force_disable_logging (module_children m)"
  by (cases m; simp)+

lemma forced_at:
  "module_at p (force_enable_logging m) = map_option force_enable_logging (module_at p m)"
  "module_at p (force_disable_logging m) = map_option force_disable_logging (module_at p m)"
  by (induction p m rule: module_at.induct) simp_all

lemma names_forced: "names_to p (force_enable_logging m) = names_to p m" "names_to p (force_disable_logging m) = names_to p m"
  by (induction p m rule: names_to.induct) simp_all

lemma logging_decided:
  "map_option log_enabled (module_at p (enable_logging split_commas values m)) =
   map_option (\<lambda>c. case last_decision (set (split_commas values)) (names_to p m) of None \<Rightarrow> log_enabled c | Some b \<Rightarrow> b) (module_at p m)"
proof -
  let ?N = "set (split_commas values)"
  have "map_option log_enabled (module_at p (enable_logging_impl ?N m)) =
   map_option (\<lambda>c. case last_decision ?N (names_to p m) of None \<Rightarrow> log_enabled c | Some b \<Rightarrow> b) (module_at p m)" for m
  proof (induction p arbitrary: m)
    case Nil
    then show ?case
      by (subst enable_logging_impl.simps) (simp add: Let_def decide_module_def decision_def)
  next
    case (Cons i p)
    show ?case
    proof (cases "i < length (module_children m)")
      case True
      let ?c = "module_children m ! i"
      have "module_children (decide_module ?N m) ! i = (case decision ?N (unit_name m) of None \<Rightarrow> ?c
          | Some True \<Rightarrow> force_enable_logging ?c | Some False \<Rightarrow> force_disable_logging ?c)"
        "i < length (module_children (decide_module ?N m))"
        using True by (simp_all add: decide_module_def decision_def)
      then have "map_option log_enabled (module_at (i # p) (enable_logging_impl ?N m))
        = map_option log_enabled (module_at p (enable_logging_impl ?N (case decision ?N (unit_name m) of None \<Rightarrow> ?c
          | Some True \<Rightarrow> force_enable_logging ?c | Some False \<Rightarrow> force_disable_logging ?c)))"
        by (subst enable_logging_impl.simps) (simp add: Let_def)
      then show ?thesis
        using True
        by (auto simp: Cons.IH names_forced forced_at option.map_comp o_def split: option.splits bool.splits intro!: map_option_cong)
    next
      case False
      then have "\<not> i < length (module_children (decide_module ?N m))" by (simp add: decide_module_def)
      then show ?thesis using False by (subst enable_logging_impl.simps) (simp add: Let_def)
    qed
  qed
  then show ?thesis by (simp add: enable_logging_def)
qed

end
