(* ===== verification/Spec2Isabelle.thy ===== *)
theory Spec2Isabelle
  imports Alu Endian Hierarchied_Memory Mips_Instr Riscv_Instr Cache_Tag_Array Bpu Ports Func_Sim Data_Bypass
    Perf_Example Branch_Resolution Argv_Loader Cache_Runner Gdb Cen64 Module_Tree
begin

text \<open>
  A model of MIPT-MIPS, a simulator of MIPS and RISC-V processors, from the sources under
  src/simulator. The program decodes a 32-bit word into an instruction object, lets a static
  function of the ALU compute its results, moves the results into a register file and a memory,
  and takes exceptions to a driver and system calls to a kernel. The functional simulator does
  this an instruction at a time; the performance simulator spreads it over pipeline stages
  connected by ports, with a branch target buffer and tag arrays, and checks every instruction that it
  writes back against a functional simulator of its own. This development models both.

  Widths. Registers are words of any length ('a or 'r word, 32 or 64 in the program), the
  integers of the source keep their widths (uint32, Addr and the like in Prelude), and wraps are
  those of HOL-Library.Word. Errors are values: \<open>Inl\<close> of an exception or None, for exceptions,
  assertions and undefined behaviour, after which the state is not used further.

  Parts, from the ground up:

    Prelude: names of the integer types, shared lemmas on words, lists and options.

    Macro, Endian (infra/macro.h, infra/endian.h): masks, sign extension, packing of words and
    byte orders. The lemmas say what the loops compute and that packing inverts unpacking.

    Alu_Primitives, Multiplication (func_sim/alu_primitives.h, func_sim/multiplication.h): the
    arithmetic below the ALU. The lemmas compare it with exact arithmetic on integers, and the
    optimised bit permutations with permutations of indices.

    Trap, Operation (func_sim/traps, func_sim/operation.h): the table of traps with its
    conversions, and the fields of an instruction under execution, a record that the MIPS and
    RISC-V instructions extend.

    Alu (func_sim/alu.h): one definition per static function and \<open>execute\<close>, which dispatches on
    the executor that the tables name; the source has function pointers there.

    Mips_Register, Riscv_Register, Register_File (mips/mips_register, risc_v/riscv_register,
    func_sim/rf/rf.h): register names as numbers of the file, and the file as a list of words. The
    locale \<open>registers\<close> states what the file relies on in a class of registers.

    Mips_Decode, Mips_Tables, Mips_Instr (mips/mips_instr_decode.h, mips/mips_instr.cpp, mips_instr.h,
    mips_version.h): the fields of a word, the opcode tables and the constructor.

    Riscv_Decode, Riscv_Tables, Riscv_Instr (risc_v/riscv_decoder.h, risc_v/riscv_instr.cpp, .h): the
    same for RISC-V.

    Memory, Plain_Memory, Hierarchied_Memory (memory): \<open>memory_ops\<close> is the table of virtual
    functions; the zero, plain, hierarchied and replicating memories provide it. The locale
    \<open>func_memory\<close> promises bytes that are written and read back. The hierarchied
    memory refines the plain one, which stands for the array of bytes that clients see. Memory_Image
    holds lemmas on what a memory looks like after copies, strings and fills.

    Elf_Loader, Argv_Loader (memory/elf, memory/argv_loader, infra/argv.h): the loaders of programs and of
    their arguments, each against the image that it has to leave in memory.

    Replacement (infra/replacement): LRU and pseudo-LRU. The locale \<open>replacement_policy\<close> states
    what a cache needs of either: victims in range, the update is a touch of the victim, a
    touched way is not the next victim. It is interpreted on LRU, on pseudo-LRU and on the
    choice between the two that the factory makes.

    Cache_Tag_Array (infra/cache): the tag arrays over a policy, with the invariant that the hash
    tables are the inverses of the valid tags.

    Bp_Entry, Bpu (modules/fetch/bpu): the predictors, of which the locale
    \<open>direction_predictor\<close> promises that training and asking never fail on well formed entries, and
    the branch target buffer of entries and targets over a tag array.

    Arena, Port_Queue, Ports (infra/arena.h, infra/ports): the ring buffer, of which the locale
    \<open>fifo\<close> states that it is a bounded queue, and the ports that stamp, deliver and drop data by
    cycle.

    Instr_Cache (infra/instrcache/instr_cache.h, func_sim/instr_memory.h): the cache of decoded
    instructions. The locale \<open>decoder\<close> states what the cache relies on: an instruction that has
    the same bytes as a word decodes as that word does at the same address.

    Cpu_Model, Driver, Kernel (simulator.h, infra/target.h, func_sim/driver, mips/mips_driver.cpp,
    risc_v/riscv_driver.cpp, kernel/kernel.cpp, kernel/replicant.h): the exceptions of a run, the
    interface of a processor model as a record of its operations, the drivers over any such model, the
    retry loop of system calls and the replicated processors.

    Streams, Number_Text: the streams and files of the C++ library, and integers as text, as far as the
    kernels and the cache runner use them.

    Mars_Kernel, Mars_Calls, Mars_Run (kernel/mars/mars_kernel.cpp, kernel/base_kernel.h, kernel/kernel.cpp):
    the kernel with the system calls of MARS, over any processor and memory. The locale \<open>call_machine\<close>
    states what the calls rely on: registers that keep what is written to them, up to their width, and a
    memory that keeps its bytes. It is interpreted on the functional simulator of MIPS at both widths, and
    the properties are about whole programs of calls.

    Func_Sim (func_sim/func_sim.h and .cpp): the functional simulator over a record \<open>isa\<close> of the
    operations of an instruction set.

    Perf_Instr, Data_Bypass (modules/core/perf_instr.h, modules/decode/bypass): the instruction in the
    pipeline, and the scoreboard that says where the value of a register is and when to stall.

    Pipeline, Fetch_Stage, Execution_Stages, Writeback_Stage, Perf_Sim (modules): the state of the
    performance simulator, its ports as its modules make them, one operation per stage and cycle, the
    cycle of the core and the run. A stage is a function on the state that may throw. The locale
    \<open>state_relation\<close> is a reflexive and transitive relation of states; that a stage moves only along it
    follows from its parts, and the drivers from the operations of their processor model. It is interpreted on
    what the front of the pipeline leaves alone, on new targets of the checker, and on what the
    checker confirms.

    Simulator_Factory (simulator.cpp): the registry of simulators by names of instruction sets, as a map in
    the order of its keys, and the construction of a functional or performance simulator.

    Replicated_Kernel (kernel/base_kernel.h, kernel/replicant.h): the machine that a kernel drives when the
    performance simulator has a checker. The locale \<open>machine_pair\<close> takes two machines with the contract
    \<open>call_machine\<close> and shows that calls keep them in step; it is interpreted on the performance and the
    functional simulator of MIPS at both widths.

    Standalone (export/standalone/main.cpp, infra/config/main_wrapper.cpp): the entry point, from options and
    files to the exit code, composed of the parts above.

    Gdb (export/gdb): the session of the debugger over the functional simulator.

    Cen64_Memory, Cen64 (memory/cen64, export/cen64): the memory over the bus of the cen64 emulator, where the
    locale \<open>word_bus\<close> states what the copies rely on and is interpreted on a bus with a hierarchied memory
    behind it, and the processor with the interrupt registers of the console.

    Module_Tree (infra/ports/module.cpp): which modules write a log.

    Cache_Runner (export/cache): the replay of a trace of addresses on a tag array, and its counts.

    Perf_Progress, Branch_Resolution, Perf_Example: counts of cycles and instructions, predictions
    against outcomes, and a concrete cycle.

  Properties. Of the arithmetic: products, quotients, remainders, shifts, shuffles and
  reversals against their mathematical meaning, and overflow traps with the operand pairs that
  the code misses. Of the decoders: they are total and in range, fields and immediates are the bits of
  the manuals, instructions do not work at a width that the registers lack, branch targets are
  exact. Of the memories: refinement, invariants of replicas, agreement of stores and loads, and
  the geometries that work. Of the stateful parts: recency of LRU, lifetimes under
  pseudo-LRU, the effect of a miss on every address, survival of the last hit, what a predictor
  has learned after any history, delivery by ports in every cycle. Of the simulator: delay slots,
  exception entry, the bound on retries, and that whole runs with and without the cache of decoded
  instructions end alike, self-modifying programs included. Of the kernel: files give back what
  was written to them, integers are printed and read, refused input ends in an error, descriptors are never
  mixed up; calls keep the checker of the pipeline in step; of the loaders, the exact image in memory; of the
  cache runner, its counts; of the registry, that a name gets what it says. Of the whole: a program in a file
  that leaves with a code ends the process with that code, and under the debugger the debugger is told so.
  Of the console: copies over the bus are copies of bytes, and the interrupt line is right after any operations. Of the pipeline: a run with the
  checker writes back what a run of the functional simulator executes, it never goes a hundred
  cycles without an instruction or an exception, every jump of MARS ends on its path, values are
  bypassed from where they are, and instructions are written back in order.

  Parameters, for what is not under src: \<open>opcodes\<close> (match and mask words), \<open>riscv_causes\<close>
  and \<open>csr_list\<close> from the submodule riscv-opcodes; \<open>junk\<close> for bytes of buffers that the code
  leaves uninitialised; the system calls of a kernel, as a function on its state and the
  simulator that may refuse its input; the sections and symbols that the ELF library parses, as \<open>elf_reader\<close>;
  what the host permits, allocates and reports of appended files, as \<open>host\<close>; all of these that a process
  needs, as \<open>outside\<close>; the numbers that the JSON
  library finds in a trace; the bus of cen64, as \<open>bus_controller\<close>; the splitting of a list at commas. Hash maps of the standard library and of
  external/sparsehash are maps, whose order of iteration the code does not use.

  Bounds. The one loop with fuel searches a string for its terminating zero; the fuel is the size
  of the memory, behind which every read throws. The retry loop runs to the MAX_ATTEMPTS of the code, a
  hundred, and \<open>system_call_retries\<close> says what comes of it. A run executes at most the number of
  instructions that it is asked for, as in the code, and recurses on that number. The run of the
  performance simulator is a partial function, with None for a run that does not end. The loops
  over bits, ways, nodes of the pseudo-LRU tree and queue elements recurse on their decreasing counters.

  Not modelled. The performance simulator behind the debugger, and what a debugger session does after an
  exception; the parsing of options, a vendored library; the dumps of the topology and of memories, into libraries
  or text; logs, statistics, and the texts of exceptions and of disassembled instructions, which nothing above
  depends on; vendored code.
\<close>

end
